(* ===== verification/Prelude.thy ===== *)
theory Prelude
  imports Main "HOL-Library.Word" "HOL-Library.Multiset"
begin

text \<open>
  Shared vocabulary of the development: 64-bit wrap-around arithmetic written out on
  integers, results with an error, and tables as lists of rows with the three SQL statements
  the store uses (\<open>UPDATE ... WHERE\<close>, \<open>DELETE ... WHERE\<close>, \<open>SELECT ... WHERE key=?\<close>).
  The collection \<open>row_simps\<close> holds the facts that carry the component proofs.
\<close>

named_theorems row_simps
named_theorems int64_simps

subsection \<open>Machine integers\<close>

text \<open>
  Go's \<open>int64\<close> (and \<open>int\<close>, \<open>time.Duration\<close>, \<open>MicroUSD\<close> on the 64-bit targets) is kept as
  \<open>int\<close>; every operation that may leave the range is wrapped by \<open>wrap64\<close>.
\<close>

abbreviation max_int64 :: int where
  "max_int64 \<equiv> 9223372036854775807"

abbreviation min_int64 :: int where
  "min_int64 \<equiv> - 9223372036854775808"

definition is_int64 :: "int \<Rightarrow> bool" where
  "is_int64 x \<longleftrightarrow> min_int64 \<le> x \<and> x \<le> max_int64"

definition wrap64 :: "int \<Rightarrow> int" where
  "wrap64 x = (x + 9223372036854775808) mod 18446744073709551616 - 9223372036854775808"

lemma wrap64_id [int64_simps]: "is_int64 x \<Longrightarrow> wrap64 x = x"
  by (simp add: wrap64_def is_int64_def)

lemma wrap64_is_int64 [int64_simps]: "is_int64 (wrap64 x)"
proof -
  have "0 \<le> (x + 9223372036854775808) mod 18446744073709551616"
    and "(x + 9223372036854775808) mod 18446744073709551616 < 18446744073709551616"
    by simp_all
  then show ?thesis by (simp add: wrap64_def is_int64_def)
qed

text \<open>The written-out wrap-around is two's complement on a 64-bit word.\<close>

lemma wrap64_word: "sint (word_of_int x :: 64 word) = wrap64 x"
proof -
  have "sint (word_of_int x :: 64 word) = signed_take_bit 63 x"
    by (simp add: signed_of_int)
  also have "\<dots> = wrap64 x"
    by (simp add: signed_take_bit_eq_take_bit_shift take_bit_eq_mod wrap64_def)
  finally show ?thesis .
qed

text \<open>Go's integer division and remainder truncate towards zero.\<close>

definition go_div :: "int \<Rightarrow> int \<Rightarrow> int" where
  "go_div a b = sgn a * sgn b * (\<bar>a\<bar> div \<bar>b\<bar>)"

definition go_mod :: "int \<Rightarrow> int \<Rightarrow> int" where
  "go_mod a b = a - b * go_div a b"

lemma go_div_nonneg [simp]: "0 \<le> a \<Longrightarrow> 0 < b \<Longrightarrow> go_div a b = a div b"
  by (cases "a = 0") (simp_all add: go_div_def)

lemma go_mod_nonneg [simp]: "0 \<le> a \<Longrightarrow> 0 < b \<Longrightarrow> go_mod a b = a mod b"
  by (simp add: go_mod_def minus_mult_div_eq_mod)

lemma go_div_abs_le: "\<bar>go_div a b\<bar> \<le> \<bar>a\<bar>"
proof (cases "b = 0")
  case True
  then show ?thesis by (simp add: go_div_def)
next
  case False
  then have "\<bar>a\<bar> div \<bar>b\<bar> \<le> \<bar>a\<bar>"
    using div_le_dividend [of "nat \<bar>a\<bar>" "nat \<bar>b\<bar>"]
    by (simp flip: nat_div_distrib)
  then show ?thesis
    by (auto simp: go_div_def abs_mult abs_sgn_eq pos_imp_zdiv_nonneg_iff)
qed

subsection \<open>Durations\<close>

text \<open>\<open>time.Duration\<close> counts nanoseconds in an \<open>int64\<close>.\<close>

abbreviation second :: int where
  "second \<equiv> 1000000000"

abbreviation minute :: int where
  "minute \<equiv> 60000000000"

definition duration_ms :: "int \<Rightarrow> int" where
  "duration_ms d = go_div d 1000000"

lemma duration_ms_seconds [simp]: "0 \<le> n \<Longrightarrow> duration_ms (n * second) = n * 1000"
proof -
  assume "0 \<le> n"
  moreover have "n * second = (n * 1000) * 1000000" by simp
  ultimately show ?thesis
    by (simp only: duration_ms_def) (simp add: mult.assoc [symmetric])
qed

lemma duration_ms_mono: "0 \<le> a \<Longrightarrow> a \<le> b \<Longrightarrow> duration_ms a \<le> duration_ms b"
  by (simp add: duration_ms_def zdiv_mono1)

lemma duration_ms_nonneg: "0 \<le> a \<Longrightarrow> 0 \<le> duration_ms a"
  by (simp add: duration_ms_def pos_imp_zdiv_nonneg_iff)

lemma duration_ms_nonpos: "a \<le> 0 \<Longrightarrow> duration_ms a \<le> 0"
  by (auto simp: duration_ms_def go_div_def sgn_if pos_imp_zdiv_nonneg_iff)

subsection \<open>Results\<close>

text \<open>A call that returns \<open>(value, error)\<close> in Go is \<open>Inl error\<close> or \<open>Inr value\<close> here.\<close>

type_synonym ('e, 'a) result = "'e + 'a"

definition is_ok :: "('e, 'a) result \<Rightarrow> bool" where
  "is_ok r = (case r of Inl _ \<Rightarrow> False | Inr _ \<Rightarrow> True)"

text \<open>\<open>x, err := r; if err != nil { return err }; f(x)\<close>\<close>

definition and_then :: "('e, 'a) result \<Rightarrow> ('a \<Rightarrow> ('e, 'b) result) \<Rightarrow> ('e, 'b) result" where
  "and_then r f = (case r of Inl e \<Rightarrow> Inl e | Inr a \<Rightarrow> f a)"

lemma and_then_simps [simp]: "and_then (Inl e) f = Inl e" "and_then (Inr a) f = f a"
  by (simp_all add: and_then_def)

lemma and_then_Inr [simp]: "and_then r f = Inr b \<longleftrightarrow> (\<exists>a. r = Inr a \<and> f a = Inr b)"
  by (cases r) simp_all

lemma is_ok_simps [simp]: "\<not> is_ok (Inl e)" "is_ok (Inr a)"
  by (simp_all add: is_ok_def)

lemma is_ok_iff: "is_ok r \<longleftrightarrow> (\<exists>a. r = Inr a)"
  by (cases r) auto

subsection \<open>Tables\<close>

text \<open>
  A table is the list of its rows. \<open>sql_update\<close> and \<open>sql_delete\<close> return the new table and the
  number of rows affected, as \<open>sql.Result\<close> does.
\<close>

definition sql_update :: "('r \<Rightarrow> bool) \<Rightarrow> ('r \<Rightarrow> 'r) \<Rightarrow> 'r list \<Rightarrow> 'r list \<times> nat" where
  "sql_update P f t = (map (\<lambda>r. if P r then f r else r) t, length (filter P t))"

definition sql_delete :: "('r \<Rightarrow> bool) \<Rightarrow> 'r list \<Rightarrow> 'r list \<times> nat" where
  "sql_delete P t = (filter (\<lambda>r. \<not> P r) t, length (filter P t))"

definition row_by :: "('r \<Rightarrow> 'k) \<Rightarrow> 'k \<Rightarrow> 'r list \<Rightarrow> 'r option" where
  "row_by key k t = find (\<lambda>r. key r = k) t"

text \<open>A \<open>PRIMARY KEY\<close> column: no two rows agree on it.\<close>

definition unique_key :: "('r \<Rightarrow> 'k) \<Rightarrow> 'r list \<Rightarrow> bool" where
  "unique_key key t \<longleftrightarrow> distinct (map key t)"

lemma row_by_Nil [row_simps]: "row_by key k [] = None"
  by (simp add: row_by_def)

lemma row_by_Cons [row_simps]:
  "row_by key k (r # t) = (if key r = k then Some r else row_by key k t)"
  by (simp add: row_by_def)

lemma row_by_SomeD: "row_by key k t = Some r \<Longrightarrow> r \<in> set t \<and> key r = k"
  by (induction t) (auto simp: row_simps split: if_splits)

lemma row_by_None: "row_by key k t = None \<longleftrightarrow> (\<forall>r \<in> set t. key r \<noteq> k)"
  by (induction t) (auto simp: row_simps)

lemma row_by_eq_Some:
  "unique_key key t \<Longrightarrow> row_by key k t = Some r \<longleftrightarrow> r \<in> set t \<and> key r = k"
  by (induction t) (auto simp: row_simps unique_key_def image_iff)

lemma row_by_append:
  "row_by key k (t @ u) = (case row_by key k t of None \<Rightarrow> row_by key k u | Some r \<Rightarrow> Some r)"
  by (induction t) (auto simp: row_simps)

lemma row_by_update [row_simps]:
  assumes "\<And>r. key (f r) = key r"
  shows "row_by key k (fst (sql_update P f t)) =
    map_option (\<lambda>r. if P r then f r else r) (row_by key k t)"
  using assms by (induction t) (auto simp: row_simps sql_update_def)

lemma update_keys:
  "(\<And>r. key (f r) = key r) \<Longrightarrow> map key (fst (sql_update P f t)) = map key t"
  by (simp add: sql_update_def comp_def if_distrib cong: if_cong)

lemma unique_key_update:
  "unique_key key t \<Longrightarrow> (\<And>r. key (f r) = key r) \<Longrightarrow> unique_key key (fst (sql_update P f t))"
  by (simp add: unique_key_def update_keys)

lemma unique_key_filter: "unique_key key t \<Longrightarrow> unique_key key (filter P t)"
  by (induction t) (auto simp: unique_key_def)

lemma row_by_filter_row:
  "unique_key key t \<Longrightarrow> row_by key k (filter P t) =
    (case row_by key k t of Some r \<Rightarrow> if P r then Some r else None | None \<Rightarrow> None)"
proof (induction t)
  case Nil
  then show ?case by (simp add: row_simps)
next
  case (Cons a t)
  then have "row_by key (key a) t = None" by (auto simp: unique_key_def row_by_None image_iff)
  with Cons show ?case by (auto simp: row_simps unique_key_def split: option.splits)
qed

lemma unique_key_delete: "unique_key key t \<Longrightarrow> unique_key key (fst (sql_delete P t))"
  by (simp add: sql_delete_def unique_key_filter)

lemma unique_key_append_row:
  "unique_key key (t @ [r]) \<longleftrightarrow> unique_key key t \<and> row_by key (key r) t = None"
  by (auto simp: unique_key_def row_by_None image_iff)

lemma update_count_le_one:
  assumes "unique_key key t" and "\<And>r. P r \<Longrightarrow> key r = k"
  shows "snd (sql_update P f t) = (case row_by key k t of None \<Rightarrow> 0 | Some r \<Rightarrow> if P r then 1 else 0)"
  using assms
proof (induction t)
  case Nil
  then show ?case by (simp add: sql_update_def row_simps)
next
  case (Cons r t)
  from Cons.prems(1) have u: "unique_key key t" and nin: "\<forall>x \<in> set t. key x \<noteq> key r"
    by (auto simp: unique_key_def image_iff)
  have "filter P t = []" if "key r = k"
    using that nin Cons.prems(2) by (fastforce simp: filter_empty_conv)
  then show ?case
    using Cons.IH [OF u Cons.prems(2)] Cons.prems(2) by (auto simp: sql_update_def row_simps)
qed

lemma update_count_zero: "snd (sql_update P f t) = 0 \<longleftrightarrow> (\<forall>r \<in> set t. \<not> P r)"
  by (auto simp: sql_update_def filter_empty_conv)

lemma update_no_match: "\<forall>r \<in> set t. \<not> P r \<Longrightarrow> fst (sql_update P f t) = t"
  by (induction t) (auto simp: sql_update_def)

lemma length_update [simp]: "length (fst (sql_update P f t)) = length t"
  by (simp add: sql_update_def)

lemma set_update: "set (fst (sql_update P f t)) = (\<lambda>r. if P r then f r else r) ` set t"
  by (simp add: sql_update_def)

text \<open>The rows of one key are singled out by the key when it is unique.\<close>

lemma filter_unique_key:
  assumes "unique_key key t" and "row_by key k t = Some r"
  shows "filter (\<lambda>x. key x = k) t = [r]"
  using assms
proof (induction t)
  case Nil
  then show ?case by (simp add: row_simps)
next
  case (Cons x t)
  then have u: "unique_key key t" and nin: "\<forall>y \<in> set t. key y \<noteq> key x"
    by (auto simp: unique_key_def image_iff)
  show ?case
  proof (cases "key x = k")
    case True
    then have "filter (\<lambda>y. key y = k) t = []"
      using nin by (auto simp: filter_empty_conv)
    with True Cons.prems show ?thesis by (auto simp: row_simps)
  next
    case False
    with Cons.IH [OF u] Cons.prems show ?thesis by (auto simp: row_simps)
  qed
qed

text \<open>\<open>INSERT ... ON CONFLICT(key) DO UPDATE\<close>: \<open>merge\<close> is the update of a row that is there.\<close>

definition sql_upsert :: "('r \<Rightarrow> 'k) \<Rightarrow> 'r \<Rightarrow> ('r \<Rightarrow> 'r) \<Rightarrow> 'r list \<Rightarrow> 'r list" where
  "sql_upsert key item merge t =
     (if row_by key (key item) t = None then t @ [item]
      else fst (sql_update (\<lambda>r. key r = key item) merge t))"

lemma upsert_row_by:
  assumes "\<And>r. key r = key item \<Longrightarrow> key (merge r) = key item"
  shows "row_by key k (sql_upsert key item merge t) =
    (if k = key item then Some (case row_by key k t of None \<Rightarrow> item | Some r \<Rightarrow> merge r) else row_by key k t)"
proof (cases "row_by key (key item) t")
  case None
  then show ?thesis
    by (auto simp: sql_upsert_def row_by_append row_simps split: option.splits)
next
  case (Some r)
  have "row_by key k (fst (sql_update (\<lambda>r. key r = key item) merge t)) =
      map_option (\<lambda>r. if key r = key item then merge r else r) (row_by key k t)"
    using assms by (induction t) (auto simp: row_simps sql_update_def)
  with Some show ?thesis
    by (cases "k = key item"; cases "row_by key k t") (auto simp: sql_upsert_def dest: row_by_SomeD)
qed

lemma upsert_unique:
  assumes "unique_key key t" and "\<And>r. key r = key item \<Longrightarrow> key (merge r) = key item"
  shows "unique_key key (sql_upsert key item merge t)"
proof (cases "row_by key (key item) t = None")
  case True
  with assms show ?thesis by (simp add: sql_upsert_def unique_key_append_row)
next
  case False
  have "map key (fst (sql_update (\<lambda>r. key r = key item) merge t)) = map key t"
    using assms(2) by (simp add: sql_update_def)
  with False assms(1) show ?thesis by (auto simp: sql_upsert_def unique_key_def)
qed

lemma upsert_all:
  assumes "\<forall>r \<in> set t. P r" and "P item" and "\<And>r. r \<in> set t \<Longrightarrow> P (merge r)"
  shows "\<forall>r \<in> set (sql_upsert key item merge t). P r"
  using assms by (auto simp: sql_upsert_def set_update)

lemma row_by_unique:
  "unique_key key t \<Longrightarrow> row_by key k t = Some h \<Longrightarrow> r \<in> set t \<Longrightarrow> key r = k \<Longrightarrow> r = h"
  using row_by_eq_Some [of key t k r] by auto

text \<open>On rows with unique keys, updating the one row of a key is writing its new value.\<close>

lemma upsert_same:
  assumes "unique_key key t" and "row_by key (key h) t = Some h"
  shows "sql_upsert key h (\<lambda>_. h) t = t"
  using assms row_by_unique [OF assms, symmetric]
  by (auto simp: sql_upsert_def sql_update_def intro!: map_idI)

lemma update_one_row:
  assumes "unique_key key t" and "row_by key k t = Some h"
    and "\<And>r. P r \<Longrightarrow> key r = k" and "P h" and "key (f h) = k"
  shows "sql_update P f t = (sql_upsert key (f h) (\<lambda>_. f h) t, 1)"
proof -
  have "P r \<longleftrightarrow> r = h" "key r = k \<longleftrightarrow> r = h" if "r \<in> set t" for r
    using row_by_unique [OF assms(1,2) that] assms(3,4) by metis+
  then have "fst (sql_update P f t) = sql_upsert key (f h) (\<lambda>_. f h) t"
    using assms(2,5) by (auto simp: sql_upsert_def sql_update_def)
  moreover have "snd (sql_update P f t) = 1"
    using update_count_le_one [OF assms(1,3), where f = f] assms(2,4) by simp
  ultimately show ?thesis by (simp add: prod_eq_iff)
qed

text \<open>A guarded update of one key that counted a row has changed exactly that row.\<close>

lemma update_changed_one:
  assumes "unique_key key t" and "\<And>r. P r \<Longrightarrow> key r = k" and "snd (sql_update P f t) \<noteq> 0"
  obtains h where "row_by key k t = Some h" and "h \<in> set t" and "key h = k" and "P h"
    and "\<And>r. r \<in> set t \<Longrightarrow> P r \<longleftrightarrow> r = h" and "snd (sql_update P f t) = 1"
proof -
  have "snd (sql_update P f t) = (case row_by key k t of None \<Rightarrow> 0 | Some r \<Rightarrow> if P r then 1 else 0)"
    by (rule update_count_le_one [OF assms(1,2)])
  with assms(3) obtain h where h: "row_by key k t = Some h" "P h" "snd (sql_update P f t) = 1"
    by (auto split: option.splits if_splits)
  moreover have "P r \<longleftrightarrow> r = h" if "r \<in> set t" for r
    using row_by_unique [OF assms(1) h(1) that] assms(2) h(2) by metis
  ultimately show thesis using that row_by_SomeD [OF h(1)] by blast
qed

lemma unique_keyD: "unique_key key t \<Longrightarrow> a \<in> set t \<Longrightarrow> b \<in> set t \<Longrightarrow> key a = key b \<Longrightarrow> a = b"
  by (auto simp: unique_key_def distinct_map inj_on_def)

lemma row_by_key_set: "row_by key k t \<noteq> None \<longleftrightarrow> k \<in> key ` set t"
  by (auto simp: row_by_None)

lemma key_set_update:
  "(\<And>r. key (f r) = key r) \<Longrightarrow> key ` set (fst (sql_update P f t)) = key ` set t"
  by (metis list.set_map update_keys)

subsection \<open>Stable sorting\<close>

text \<open>
  \<open>sort.SliceStable\<close> with a strict order \<open>lt\<close> is insertion sort as a function: a stable
  sort has one result only.
\<close>

fun insert_stable :: "('a \<Rightarrow> 'a \<Rightarrow> bool) \<Rightarrow> 'a \<Rightarrow> 'a list \<Rightarrow> 'a list" where
  "insert_stable lt x [] = [x]"
| "insert_stable lt x (y # ys) =
     (if lt y x then y # insert_stable lt x ys else x # y # ys)"

fun slice_stable :: "('a \<Rightarrow> 'a \<Rightarrow> bool) \<Rightarrow> 'a list \<Rightarrow> 'a list" where
  "slice_stable lt [] = []"
| "slice_stable lt (x # xs) = insert_stable lt x (slice_stable lt xs)"

lemma mset_insert_stable [simp]: "mset (insert_stable lt x ys) = add_mset x (mset ys)"
  by (induction ys) auto

lemma mset_slice_stable [simp]: "mset (slice_stable lt xs) = mset xs"
  by (induction xs) auto

lemma set_slice_stable [simp]: "set (slice_stable lt xs) = set xs"
  by (metis mset_slice_stable set_mset_mset)

lemma length_slice_stable [simp]: "length (slice_stable lt xs) = length xs"
  by (metis mset_slice_stable size_mset)

text \<open>With a strict weak order the result is sorted.\<close>

definition strict_weak :: "('a \<Rightarrow> 'a \<Rightarrow> bool) \<Rightarrow> bool" where
  "strict_weak lt \<longleftrightarrow> (\<forall>a b. lt a b \<longrightarrow> \<not> lt b a) \<and> (\<forall>a b c. \<not> lt a b \<longrightarrow> \<not> lt b c \<longrightarrow> \<not> lt a c)"

lemma set_insert_stable [simp]: "set (insert_stable lt x ys) = insert x (set ys)"
  by (metis mset_insert_stable set_mset_add_mset_insert set_mset_mset)

lemma insert_stable_sorted:
  assumes "strict_weak lt" and "sorted_wrt (\<lambda>a b. \<not> lt b a) ys"
  shows "sorted_wrt (\<lambda>a b. \<not> lt b a) (insert_stable lt x ys)"
  using assms(2)
proof (induction ys)
  case Nil
  then show ?case by simp
next
  case (Cons y ys)
  then have ih: "sorted_wrt (\<lambda>a b. \<not> lt b a) (insert_stable lt x ys)" by simp
  show ?case
  proof (cases "lt y x")
    case True
    then have "\<not> lt x y" using assms(1) unfolding strict_weak_def by blast
    moreover have "\<forall>z \<in> set ys. \<not> lt z y" using Cons.prems by simp
    ultimately show ?thesis using True ih by simp
  next
    case False
    have negtrans: "\<And>a b c. \<not> lt a b \<Longrightarrow> \<not> lt b c \<Longrightarrow> \<not> lt a c"
      using assms(1) unfolding strict_weak_def by blast
    have "\<not> lt z x" if "z \<in> set ys" for z
      by (rule negtrans [OF _ False]) (use Cons.prems that in simp)
    with False Cons.prems show ?thesis by simp
  qed
qed

lemma slice_stable_sorted: "strict_weak lt \<Longrightarrow> sorted_wrt (\<lambda>a b. \<not> lt b a) (slice_stable lt xs)"
  by (induction xs) (simp_all add: insert_stable_sorted)

lemma sorted_wrt_take_drop:
  "sorted_wrt R xs \<Longrightarrow> a \<in> set (take n xs) \<Longrightarrow> b \<in> set (drop n xs) \<Longrightarrow> R a b"
  by (metis append_take_drop_id sorted_wrt_append)

text \<open>With \<open>lt\<close> given by a linear key, the result is the library's \<open>sort_key\<close>.\<close>

lemma insert_stable_key:
  fixes f :: "'a \<Rightarrow> 'k::linorder"
  shows "insert_stable (\<lambda>a b. f a < f b) x ys = insort_key f x ys"
  by (induction ys) (auto simp: not_less)

lemma slice_stable_key:
  fixes f :: "'a \<Rightarrow> 'k::linorder"
  shows "slice_stable (\<lambda>a b. f a < f b) xs = sort_key f xs"
  by (induction xs) (auto simp: insert_stable_key)

end
