(* ===== verification/GoStrings.thy ===== *)
theory GoStrings
  imports Prelude
begin

text \<open>
  The functions of Go's \<open>strings\<close> and \<open>strconv\<close> packages the program uses, on byte strings
  (\<open>string\<close> is a list of bytes, as a Go string is). \<open>strings.TrimSpace\<close> removes the white space of
  Unicode in its UTF-8 encoding. \<open>strings.ToLower\<close> and \<open>strings.EqualFold\<close> are exact on ASCII
  letters and on the non-ASCII runes whose image is ASCII (the Kelvin sign, the dotted capital I
  and the long s), and so is \<open>strings.ToUpper\<close>; other letters are left alone. A comparison with
  a literal of the program cannot see the difference, because the literals are ASCII or have no
  case; names of models that differ only in the case of other letters are outside the model.
\<close>

subsection \<open>Prefixes and substrings\<close>

fun has_prefix :: "string \<Rightarrow> string \<Rightarrow> bool" where
  "has_prefix s [] = True"
| "has_prefix [] (p # ps) = False"
| "has_prefix (c # s) (p # ps) = (c = p \<and> has_prefix s ps)"

definition has_suffix :: "string \<Rightarrow> string \<Rightarrow> bool" where
  "has_suffix s p = has_prefix (rev s) (rev p)"

fun str_contains :: "string \<Rightarrow> string \<Rightarrow> bool" where
  "str_contains [] p = (p = [])"
| "str_contains (c # s) p = (has_prefix (c # s) p \<or> str_contains s p)"

lemma has_prefix_iff: "has_prefix s p \<longleftrightarrow> (\<exists>t. s = p @ t)"
  by (induction s p rule: has_prefix.induct) auto

lemma has_suffix_iff: "has_suffix s p \<longleftrightarrow> (\<exists>t. s = t @ p)"
proof -
  have "has_suffix s p \<longleftrightarrow> (\<exists>t. rev s = rev p @ t)"
    by (simp add: has_suffix_def has_prefix_iff)
  also have "\<dots> \<longleftrightarrow> (\<exists>t. s = t @ p)"
    by (metis rev_append rev_rev_ident)
  finally show ?thesis .
qed

lemma str_contains_iff: "str_contains s p \<longleftrightarrow> (\<exists>a b. s = a @ p @ b)"
proof (induction s)
  case Nil
  then show ?case by simp
next
  case (Cons c s)
  have "(\<exists>a b. c # s = a @ p @ b) \<longleftrightarrow> (\<exists>b. c # s = p @ b) \<or> (\<exists>a b. s = a @ p @ b)"
    by (metis append_Cons append_Nil neq_Nil_conv list.inject)
  then show ?case
    using Cons.IH by (simp add: has_prefix_iff del: has_prefix.simps)
qed

subsection \<open>White space\<close>

definition ascii_space :: "char \<Rightarrow> bool" where
  "ascii_space c \<longleftrightarrow> c = CHR 0x20 \<or> c = CHR 0x09 \<or> c = CHR 0x0A \<or> c = CHR 0x0B \<or> c = CHR 0x0C \<or> c = CHR 0x0D"

text \<open>The other runes of \<open>unicode.IsSpace\<close>, encoded: U+0085, U+00A0, U+1680, U+2000 to U+200A,
  U+2028, U+2029, U+202F, U+205F and U+3000.\<close>

definition unicode_spaces :: "string list" where
  "unicode_spaces =
    [[CHR 0xC2, CHR 0x85], [CHR 0xC2, CHR 0xA0], [CHR 0xE1, CHR 0x9A, CHR 0x80],
     [CHR 0xE2, CHR 0x80, CHR 0x80], [CHR 0xE2, CHR 0x80, CHR 0x81], [CHR 0xE2, CHR 0x80, CHR 0x82],
     [CHR 0xE2, CHR 0x80, CHR 0x83], [CHR 0xE2, CHR 0x80, CHR 0x84], [CHR 0xE2, CHR 0x80, CHR 0x85],
     [CHR 0xE2, CHR 0x80, CHR 0x86], [CHR 0xE2, CHR 0x80, CHR 0x87], [CHR 0xE2, CHR 0x80, CHR 0x88],
     [CHR 0xE2, CHR 0x80, CHR 0x89], [CHR 0xE2, CHR 0x80, CHR 0x8A], [CHR 0xE2, CHR 0x80, CHR 0xA8],
     [CHR 0xE2, CHR 0x80, CHR 0xA9], [CHR 0xE2, CHR 0x80, CHR 0xAF], [CHR 0xE2, CHR 0x81, CHR 0x9F],
     [CHR 0xE3, CHR 0x80, CHR 0x80]]"

text \<open>\<open>drop_space ws s\<close> drops one leading space rune, if there is one.\<close>

definition drop_space :: "string list \<Rightarrow> string \<Rightarrow> string option" where
  "drop_space ws s = (case s of [] \<Rightarrow> None
     | c # t \<Rightarrow> if ascii_space c then Some t
                else map_option (\<lambda>w. drop (length w) s) (find (\<lambda>w. w \<noteq> [] \<and> has_prefix s w) ws))"

lemma drop_space_shorter: "drop_space ws s = Some t \<Longrightarrow> length t < length s"
  by (auto simp: drop_space_def find_Some_iff split: list.splits if_splits)

function trim_start :: "string list \<Rightarrow> string \<Rightarrow> string" where
  "trim_start ws s = (case drop_space ws s of None \<Rightarrow> s | Some t \<Rightarrow> trim_start ws t)"
  by pat_completeness auto
termination
  by (relation "measure (\<lambda>(ws, s). length s)") (auto dest: drop_space_shorter)

declare trim_start.simps [simp del]

definition trim_space :: "string \<Rightarrow> string" where
  "trim_space s =
     rev (trim_start (map rev unicode_spaces) (rev (trim_start unicode_spaces s)))"

lemma drop_space_suffix: "drop_space ws s = Some t \<Longrightarrow> \<exists>u. s = u @ t"
proof (cases s)
  case Nil
  then show "drop_space ws s = Some t \<Longrightarrow> \<exists>u. s = u @ t" by (simp add: drop_space_def)
next
  case (Cons c r)
  have "t = r \<or> (\<exists>n. t = drop n s)" if "drop_space ws s = Some t"
    using that Cons by (auto simp: drop_space_def split: if_splits)
  then show "drop_space ws s = Some t \<Longrightarrow> \<exists>u. s = u @ t"
    using Cons append_take_drop_id [of _ s] by (metis append_Cons append_Nil)
qed

lemma trim_start_suffix: "\<exists>u. s = u @ trim_start ws s"
proof (induction ws s rule: trim_start.induct)
  case (1 ws s)
  show ?case
  proof (cases "drop_space ws s")
    case None
    then show ?thesis by (simp add: trim_start.simps [of ws s])
  next
    case (Some t)
    with 1 obtain u where "t = u @ trim_start ws t" by blast
    moreover from Some obtain v where "s = v @ t" using drop_space_suffix by blast
    ultimately have "s = (v @ u) @ trim_start ws t" by simp
    moreover from Some have "trim_start ws s = trim_start ws t"
      by (simp add: trim_start.simps [of ws s])
    ultimately show ?thesis by metis
  qed
qed

lemma trim_start_done: "drop_space ws (trim_start ws s) = None"
proof (induction ws s rule: trim_start.induct)
  case (1 ws s)
  then show ?case
    by (cases "drop_space ws s") (simp_all add: trim_start.simps [of ws s])
qed

text \<open>\<open>strings.TrimSpace\<close> keeps a contiguous part of its argument and is idempotent on the right end.\<close>

lemma trim_space_infix: "\<exists>a b. s = a @ trim_space s @ b"
proof -
  obtain a where a: "s = a @ trim_start unicode_spaces s"
    using trim_start_suffix by blast
  let ?t = "trim_start unicode_spaces s"
  obtain u where "rev ?t = u @ trim_start (map rev unicode_spaces) (rev ?t)"
    using trim_start_suffix by blast
  then have "?t = trim_space s @ rev u"
    unfolding trim_space_def by (metis rev_append rev_rev_ident)
  with a have "s = a @ trim_space s @ rev u" by simp
  then show ?thesis by blast
qed

lemma trim_space_length: "length (trim_space s) \<le> length s"
  by (metis trim_space_infix length_append le_add1 le_add2 order_trans)

text \<open>\<open>strings.TrimRight(s, "/")\<close> and its kin, for a one-character cut set.\<close>

definition trim_right :: "char \<Rightarrow> string \<Rightarrow> string" where
  "trim_right c s = rev (dropWhile (\<lambda>x. x = c) (rev s))"

lemma trim_right_not_last: "trim_right c s \<noteq> [] \<Longrightarrow> last (trim_right c s) \<noteq> c"
  using hd_dropWhile [of "\<lambda>x. x = c" "rev s"] by (simp add: trim_right_def last_rev)

lemma trim_right_idem [simp]: "trim_right c (trim_right c s) = trim_right c s"
proof -
  have "dropWhile P (dropWhile P xs) = dropWhile P xs" for P and xs :: string
    by (induction xs) auto
  then show ?thesis by (simp add: trim_right_def)
qed

subsection \<open>Case\<close>

definition ascii_upper :: "char \<Rightarrow> bool" where
  "ascii_upper c \<longleftrightarrow> c \<in> set ''ABCDEFGHIJKLMNOPQRSTUVWXYZ''"

fun ascii_lower :: "char \<Rightarrow> char" where
  "ascii_lower (Char b0 b1 b2 b3 b4 b5 b6 b7) = Char b0 b1 b2 b3 b4 True b6 b7"

text \<open>\<open>map_runes special s\<close> lowers ASCII letters and replaces the encoded runes of \<open>special\<close>.\<close>

function map_runes :: "(string \<times> char) list \<Rightarrow> string \<Rightarrow> string" where
  "map_runes special [] = []"
| "map_runes special (c # s) =
     (if ascii_upper c then ascii_lower c # map_runes special s
      else case find (\<lambda>(w, d). has_prefix (c # s) w) special of
             None \<Rightarrow> c # map_runes special s
           | Some (w, d) \<Rightarrow> d # map_runes special (drop (length w - 1) s))"
  by pat_completeness auto
termination
  by (relation "measure (\<lambda>(special, s). length s)") auto

definition to_lower :: "string \<Rightarrow> string" where
  "to_lower = map_runes [([CHR 0xC4, CHR 0xB0], CHR ''i''), ([CHR 0xE2, CHR 0x84, CHR 0xAA], CHR ''k'')]"

definition fold_runes :: "string \<Rightarrow> string" where
  "fold_runes = map_runes [([CHR 0xE2, CHR 0x84, CHR 0xAA], CHR ''k''), ([CHR 0xC5, CHR 0xBF], CHR ''s'')]"

definition ascii_small :: "char \<Rightarrow> bool" where
  "ascii_small c \<longleftrightarrow> c \<in> set ''abcdefghijklmnopqrstuvwxyz''"

fun ascii_raise :: "char \<Rightarrow> char" where
  "ascii_raise (Char b0 b1 b2 b3 b4 b5 b6 b7) = Char b0 b1 b2 b3 b4 False b6 b7"

text \<open>\<open>strings.ToUpper\<close>: the dotless i and the long s are the runes with an ASCII capital.\<close>

function to_upper :: "string \<Rightarrow> string" where
  "to_upper [] = []"
| "to_upper (c # s) =
     (if ascii_small c then ascii_raise c # to_upper s
      else if has_prefix (c # s) [CHR 0xC4, CHR 0xB1] then CHR ''I'' # to_upper (drop 1 s)
      else if has_prefix (c # s) [CHR 0xC5, CHR 0xBF] then CHR ''S'' # to_upper (drop 1 s)
      else c # to_upper s)"
  by pat_completeness auto
termination
  by (relation "measure length") auto

declare to_upper.simps [simp del]

definition equal_fold :: "string \<Rightarrow> string \<Rightarrow> bool" where
  "equal_fold a b \<longleftrightarrow> fold_runes a = fold_runes b"

lemma equal_fold_equiv: "equivp equal_fold"
  by (rule equivpI) (auto simp: equal_fold_def reflp_def symp_def transp_def)

subsection \<open>Numbers\<close>

definition digit_value :: "char \<Rightarrow> int option" where
  "digit_value c = (if c \<in> set ''0123456789'' then Some (of_char c - 48) else None)"

fun digits_value :: "int \<Rightarrow> string \<Rightarrow> int option" where
  "digits_value acc [] = Some acc"
| "digits_value acc (c # s) =
     (case digit_value c of None \<Rightarrow> None | Some d \<Rightarrow> digits_value (10 * acc + d) s)"

text \<open>\<open>strconv.Atoi\<close>: an optional sign and decimal digits, an error outside \<open>int64\<close>.\<close>

definition atoi :: "string \<Rightarrow> int option" where
  "atoi s = (let (neg, ds) = (case s of [] \<Rightarrow> (False, [])
                 | c # t \<Rightarrow> if c = CHR ''-'' then (True, t) else if c = CHR ''+'' then (False, t) else (False, s))
     in if ds = [] then None
        else case digits_value 0 ds of None \<Rightarrow> None
             | Some n \<Rightarrow> (let v = (if neg then - n else n) in if is_int64 v then Some v else None))"

lemma atoi_int64: "atoi s = Some n \<Longrightarrow> is_int64 n"
  by (auto simp: atoi_def Let_def split: prod.splits if_splits option.splits)

end
