(* ===== verification/Protocol.thy ===== *)
theory Protocol
  imports GoStrings
begin

text \<open>
  \<open>internal/inferenceprotocol/capabilities.go\<close> and the protocol-only part of
  \<open>internal/upstream/endpoints.go\<close>: the canonical protocol names, the surfaces each one offers,
  and the path an OpenAI surface is appended to. An unsupported protocol is \<open>None\<close>.
\<close>

record capabilities =
  ModelDiscovery :: bool
  ChatCompletions :: bool
  Responses :: bool
  RouteEligible :: bool

abbreviation no_capabilities :: capabilities where
  "no_capabilities \<equiv> \<lparr>ModelDiscovery = False, ChatCompletions = False, Responses = False, RouteEligible = False\<rparr>"

definition normalize_protocol :: "string \<Rightarrow> string option" where
  "normalize_protocol value =
     (let v = to_lower (trim_space value) in
      if v = ''openai'' then Some ''openai''
      else if v \<in> set [''compatible'', ''openai-compatible'', ''openai_compatible'',
                        ''openai_chat_completions'', ''openai_responses''] then Some ''compatible''
      else if v = ''anthropic'' then Some ''anthropic''
      else if v = ''gemini'' then Some ''gemini''
      else None)"

definition capabilities_for :: "string \<Rightarrow> capabilities" where
  "capabilities_for value =
     (case normalize_protocol value of
        None \<Rightarrow> no_capabilities
      | Some protocol \<Rightarrow>
          if protocol = ''openai'' \<or> protocol = ''compatible'' then
            \<lparr>ModelDiscovery = True, ChatCompletions = True, Responses = True, RouteEligible = True\<rparr>
          else if protocol = ''anthropic'' \<or> protocol = ''gemini'' then
            no_capabilities\<lparr>ModelDiscovery := True\<rparr>
          else no_capabilities)"

definition default_auth_scheme :: "string \<Rightarrow> string" where
  "default_auth_scheme value =
     (case normalize_protocol value of
        None \<Rightarrow> ''bearer''
      | Some protocol \<Rightarrow> if protocol = ''anthropic'' then ''x-api-key''
                         else if protocol = ''gemini'' then ''query-key'' else ''bearer'')"

datatype endpoint_capability = EndpointModels | EndpointChatCompletions | EndpointResponses

fun supports_endpoint :: "string \<Rightarrow> endpoint_capability \<Rightarrow> bool" where
  "supports_endpoint protocol EndpointModels = ModelDiscovery (capabilities_for protocol)"
| "supports_endpoint protocol EndpointChatCompletions = ChatCompletions (capabilities_for protocol)"
| "supports_endpoint protocol EndpointResponses = Responses (capabilities_for protocol)"

definition append_v1_path :: "string \<Rightarrow> string \<Rightarrow> string" where
  "append_v1_path base_path suffix =
     (let base = trim_right (CHR ''/'') base_path in
      if has_suffix base suffix then base
      else (if \<not> has_suffix base ''/v1'' then base @ ''/v1'' else base) @ suffix)"

text \<open>\<open>openAIEndpointURL\<close> on the path of the parsed base URL; the model-list surface is refused.\<close>

fun openai_endpoint_path :: "string \<Rightarrow> endpoint_capability \<Rightarrow> string option" where
  "openai_endpoint_path path EndpointChatCompletions =
     Some (append_v1_path (trim_right (CHR ''/'') path) ''/chat/completions'')"
| "openai_endpoint_path path EndpointResponses =
     Some (append_v1_path (trim_right (CHR ''/'') path) ''/responses'')"
| "openai_endpoint_path path EndpointModels = None"

text \<open>The query of \<open>ResolvePublishedModelForProfile\<close> filters the stored protocol itself.\<close>

definition sql_routable_protocol :: "string \<Rightarrow> bool" where
  "sql_routable_protocol stored \<longleftrightarrow>
     to_lower stored \<in> set [''openai'', ''compatible'', ''openai_chat_completions'', ''openai_responses'']"

subsection \<open>Facts\<close>

lemma normalize_protocol_range:
  "normalize_protocol v = Some p \<Longrightarrow> p \<in> {''openai'', ''compatible'', ''anthropic'', ''gemini''}"
  by (auto simp: normalize_protocol_def Let_def split: if_splits)

lemma canonical_fixed [simp]:
  "normalize_protocol ''openai'' = Some ''openai''"
  "normalize_protocol ''compatible'' = Some ''compatible''"
  "normalize_protocol ''anthropic'' = Some ''anthropic''"
  "normalize_protocol ''gemini'' = Some ''gemini''"
  by code_simp+

lemma normalize_protocol_canonical:
  "normalize_protocol v = Some p \<Longrightarrow> normalize_protocol p = Some p"
  by (drule normalize_protocol_range) auto

lemma append_v1_suffix: "has_suffix (append_v1_path base suffix) suffix"
  by (auto simp: append_v1_path_def Let_def has_suffix_iff)

lemma trim_right_ne: "b \<noteq> [] \<Longrightarrow> last b \<noteq> c \<Longrightarrow> trim_right c b = b"
  by (cases b rule: rev_cases) (auto simp: trim_right_def)

text \<open>
  Normalising a protocol name is a retraction: a name that is accepted is mapped to one
  of the four canonical names, a canonical name is its own image, and the surfaces and the
  authentication scheme of a name are those of its canonical form, so storing the normalised
  name loses nothing.
\<close>

theorem normalize_protocol_retraction:
  assumes "normalize_protocol v = Some p"
  shows "normalize_protocol p = Some p \<and> capabilities_for p = capabilities_for v \<and>
    default_auth_scheme p = default_auth_scheme v \<and>
    (RouteEligible (capabilities_for v) \<longleftrightarrow> sql_routable_protocol p)"
proof -
  have "sql_routable_protocol ''openai''" "sql_routable_protocol ''compatible''"
    "\<not> sql_routable_protocol ''anthropic''" "\<not> sql_routable_protocol ''gemini''"
    by code_simp+
  moreover note normalize_protocol_range [OF assms]
  moreover have "normalize_protocol p = Some p"
    using assms by (rule normalize_protocol_canonical)
  ultimately show ?thesis
    using assms by (auto simp: capabilities_for_def default_auth_scheme_def)
qed

theorem normalize_protocol_retraction_witness:
  "normalize_protocol '' OpenAI-Compatible '' = Some ''compatible'' \<and>
   capabilities_for ''compatible'' = capabilities_for '' OpenAI-Compatible ''"
proof -
  have "normalize_protocol '' OpenAI-Compatible '' = Some ''compatible''" by code_simp
  from this normalize_protocol_retraction [OF this] show ?thesis by blast
qed

text \<open>
  Building an OpenAI path is idempotent: the path of a surface ends in that surface's
  suffix whatever the administrator typed (a bare host, a trailing slash, a \<open>/v1\<close>, the whole
  path), and building it again from the result gives the same path.
\<close>

theorem openai_endpoint_path_idempotent:
  assumes "openai_endpoint_path path endpoint = Some p"
  shows "openai_endpoint_path p endpoint = Some p \<and>
    (has_suffix p ''/chat/completions'' \<or> has_suffix p ''/responses'')"
proof -
  have *: "append_v1_path (trim_right (CHR ''/'') q) suffix = q"
    if q: "q = append_v1_path b suffix" and "suffix \<noteq> []" "last suffix \<noteq> CHR ''/''" for q b suffix
  proof -
    have s: "has_suffix q suffix" using q append_v1_suffix by simp
    then obtain t where t: "q = t @ suffix" by (auto simp: has_suffix_iff)
    have "q \<noteq> []" "last q \<noteq> CHR ''/''" unfolding t using that(2,3) by auto
    then have "trim_right (CHR ''/'') q = q" by (rule trim_right_ne)
    with s show ?thesis by (simp add: append_v1_path_def)
  qed
  show ?thesis
    using assms by (cases endpoint) (auto simp: * append_v1_suffix)
qed

theorem openai_endpoint_path_idempotent_witness:
  "openai_endpoint_path ''/api/'' EndpointResponses = Some ''/api/v1/responses'' \<and>
   openai_endpoint_path ''/api/v1/responses'' EndpointResponses = Some ''/api/v1/responses''"
proof -
  have "openai_endpoint_path ''/api/'' EndpointResponses = Some ''/api/v1/responses''" by code_simp
  from this openai_endpoint_path_idempotent [OF this] show ?thesis by blast
qed

end
