(* ===== verification/Routing.thy ===== *)
theory Routing
  imports Prelude "HOL-Library.Product_Lexorder" "HOL-Library.Sublist"
begin

text \<open>
  \<open>internal/routing/routing.go\<close>: the eligible targets of a legacy route, in the order the
  administrator stored.
\<close>

record routing_target =
  RT_ID :: int
  RT_Position :: int
  RT_Enabled :: bool
  RT_CircuitPhase :: string
  RT_CooldownUntil :: int
  RT_CredentialState :: string
  RT_CapabilityState :: string

definition target_less :: "routing_target \<Rightarrow> routing_target \<Rightarrow> bool" where
  "target_less a b =
     (if RT_Position a = RT_Position b then RT_ID a < RT_ID b else RT_Position a < RT_Position b)"

text \<open>The loop over the ordered copy, with its two \<open>continue\<close> guards.\<close>

fun collect_eligible :: "int \<Rightarrow> routing_target list \<Rightarrow> routing_target list" where
  "collect_eligible now [] = []"
| "collect_eligible now (t # ts) =
     (if \<not> RT_Enabled t \<or> RT_CredentialState t = ''invalid'' \<or> RT_CredentialState t = ''revoked'' \<or>
         RT_CapabilityState t = ''unsupported''
      then collect_eligible now ts
      else if RT_CircuitPhase t = ''open'' \<and> RT_CooldownUntil t > now
      then collect_eligible now ts
      else t # collect_eligible now ts)"

definition ordered_eligible :: "routing_target list \<Rightarrow> int \<Rightarrow> routing_target list" where
  "ordered_eligible targets now = collect_eligible now (slice_stable target_less targets)"

subsection \<open>The order is the administrator's\<close>

definition route_key :: "routing_target \<Rightarrow> int \<times> int" where
  "route_key t = (RT_Position t, RT_ID t)"

definition eligible :: "int \<Rightarrow> routing_target \<Rightarrow> bool" where
  "eligible now t \<longleftrightarrow> RT_Enabled t \<and> RT_CredentialState t \<notin> {''invalid'', ''revoked''} \<and>
     RT_CapabilityState t \<noteq> ''unsupported'' \<and> \<not> (RT_CircuitPhase t = ''open'' \<and> now < RT_CooldownUntil t)"

lemma target_less_key: "target_less a b \<longleftrightarrow> route_key a < route_key b"
  by (auto simp: target_less_def route_key_def)

lemma sorted_targets_key: "slice_stable target_less ts = sort_key route_key ts"
proof -
  have "target_less = (\<lambda>a b. route_key a < route_key b)"
    by (intro ext) (simp add: target_less_key)
  then show ?thesis by (metis slice_stable_key)
qed

lemma collect_eligible_filter: "collect_eligible now ts = filter (eligible now) ts"
  by (induction now ts rule: collect_eligible.induct) (auto simp: eligible_def)

lemma ordered_eligible_filter:
  "ordered_eligible ts now = filter (eligible now) (sort_key route_key ts)"
  by (simp add: ordered_eligible_def sorted_targets_key collect_eligible_filter)

lemma sort_key_map_invariant:
  fixes key :: "'a \<Rightarrow> 'k::linorder"
  assumes "\<And>x. key (f x) = key x"
  shows "sort_key key (map f xs) = map f (sort_key key xs)"
proof -
  have "insort_key key (f x) (map f ys) = map f (insort_key key x ys)" for x ys
    using assms by (induction ys) auto
  then show ?thesis by (induction xs) auto
qed

text \<open>
  Health never reorders a route. Whatever a change \<open>f\<close> of the health, credential and
  capability fields does, the targets that stay eligible are a subsequence of the stored order
  (by position, ties by ID), and exactly the eligible ones are kept, each as often as it occurs.
\<close>

theorem health_never_reorders:
  assumes "\<And>t. RT_ID (f t) = RT_ID t \<and> RT_Position (f t) = RT_Position t"
  shows "subseq (map RT_ID (ordered_eligible (map f ts) now)) (map RT_ID (slice_stable target_less ts))
    \<and> mset (ordered_eligible (map f ts) now) = filter_mset (eligible now) (mset (map f ts))"
proof
  have key: "\<And>t. route_key (f t) = route_key t" using assms by (simp add: route_key_def)
  have "map RT_ID (filter (eligible now) (map f xs)) = map RT_ID (filter (eligible now \<circ> f) xs)" for xs
    using assms by (induction xs) auto
  then show "subseq (map RT_ID (ordered_eligible (map f ts) now)) (map RT_ID (slice_stable target_less ts))"
    by (simp add: ordered_eligible_filter sort_key_map_invariant [of route_key f, OF key] sorted_targets_key
        subseq_map subseq_filter_left)
  show "mset (ordered_eligible (map f ts) now) = filter_mset (eligible now) (mset (map f ts))"
    by (simp add: ordered_eligible_filter)
qed

definition sample_target :: "int \<Rightarrow> int \<Rightarrow> routing_target" where
  "sample_target i p = \<lparr>RT_ID = i, RT_Position = p, RT_Enabled = True, RT_CircuitPhase = ''closed'',
     RT_CooldownUntil = 0, RT_CredentialState = ''active'', RT_CapabilityState = ''supported''\<rparr>"

definition open_circuit :: "routing_target \<Rightarrow> routing_target" where
  "open_circuit t = (if RT_ID t = 7 then t\<lparr>RT_CircuitPhase := ''open'', RT_CooldownUntil := 100\<rparr> else t)"

theorem health_never_reorders_witness:
  "map RT_ID (ordered_eligible (map open_circuit [sample_target 9 2, sample_target 7 1, sample_target 5 2]) 50)
     = [5, 9] \<and>
   subseq [5, 9] (map RT_ID (slice_stable target_less [sample_target 9 2, sample_target 7 1, sample_target 5 2]))"
proof -
  let ?ts = "[sample_target 9 2, sample_target 7 1, sample_target 5 2]"
  have ids: "map RT_ID (ordered_eligible (map open_circuit ?ts) 50) = [5, 9]"
    by (simp add: ordered_eligible_def target_less_def open_circuit_def sample_target_def)
  have "subseq (map RT_ID (ordered_eligible (map open_circuit ?ts) 50)) (map RT_ID (slice_stable target_less ?ts))"
    by (rule health_never_reorders [THEN conjunct1]) (simp add: open_circuit_def)
  with ids show ?thesis by simp
qed

end
