(* ===== verification/StoreBase.thy ===== *)
theory StoreBase
  imports GoStrings
begin

text \<open>
  What the files of \<open>internal/store\<close> share: the error values, \<open>clamp\<close> and its kin, the
  revision check of optimistic updates (\<open>v3_sites.go\<close>), and the retry loop around a busy SQLite
  database (\<open>health.go\<close>). An operation that fails is \<open>Inl\<close> of its error: its transaction is
  rolled back, so the database it was called on stays as it was.
\<close>

datatype store_error =
    ErrNoRows                    \<comment> \<open>\<open>sql.ErrNoRows\<close>\<close>
  | ErrRevisionConflict
  | ErrQuotaExceeded
  | ErrRequestAlreadyFinished
  | ErrInvalidQuotaState
  | ErrDownstreamKeyHasReservations int
  | ErrConstraint                \<comment> \<open>a \<open>CHECK\<close>, \<open>UNIQUE\<close> or \<open>FOREIGN KEY\<close> constraint of the schema\<close>
  | ErrText string               \<comment> \<open>an error known by its message only\<close>

definition clamp :: "int \<Rightarrow> int \<Rightarrow> int \<Rightarrow> int" where
  "clamp value minimum maximum =
     (if value < minimum then minimum else if value > maximum then maximum else value)"

lemma clamp_range: "minimum \<le> maximum \<Longrightarrow> minimum \<le> clamp value minimum maximum \<and> clamp value minimum maximum \<le> maximum"
  by (simp add: clamp_def)

lemma clamp_id: "minimum \<le> value \<Longrightarrow> value \<le> maximum \<Longrightarrow> clamp value minimum maximum = value"
  by (simp add: clamp_def)

lemma clamp_idem: "lo \<le> hi \<Longrightarrow> clamp (clamp v lo hi) lo hi = clamp v lo hi"
  by (auto simp: clamp_def)

text \<open>\<open>if limit > 0 { query += " AND revision=?" }\<close>: an expected revision that is not positive is no guard.\<close>

definition revision_matches :: "int \<Rightarrow> int \<Rightarrow> bool" where
  "revision_matches expected actual \<longleftrightarrow> expected \<le> 0 \<or> actual = expected"

text \<open>
  \<open>revisionResult\<close>: one changed row is success, no row with the ID is \<open>sql.ErrNoRows\<close>, a row
  the guard skipped is a revision conflict.
\<close>

definition revision_result :: "nat \<Rightarrow> bool \<Rightarrow> (store_error, unit) result" where
  "revision_result changed exists =
     (if changed = 1 then Inr () else if exists then Inl ErrRevisionConflict else Inl ErrNoRows)"

text \<open>
  A guarded update of the row with one ID: \<open>UPDATE t SET ... WHERE id=? [AND revision=?]\<close>
  followed by \<open>revisionResult\<close>.
\<close>

definition update_revisioned ::
  "('r \<Rightarrow> int) \<Rightarrow> ('r \<Rightarrow> int) \<Rightarrow> int \<Rightarrow> int \<Rightarrow> ('r \<Rightarrow> 'r) \<Rightarrow> 'r list \<Rightarrow> (store_error, 'r list) result" where
  "update_revisioned key rv row_id expected f t =
     (let (t', changed) = sql_update (\<lambda>r. key r = row_id \<and> revision_matches expected (rv r)) f t in
      case revision_result changed (row_by key row_id t \<noteq> None) of
        Inl e \<Rightarrow> Inl e
      | Inr _ \<Rightarrow> Inr t')"

definition delete_revisioned ::
  "('r \<Rightarrow> int) \<Rightarrow> ('r \<Rightarrow> int) \<Rightarrow> int \<Rightarrow> int \<Rightarrow> 'r list \<Rightarrow> (store_error, 'r list) result" where
  "delete_revisioned key rv row_id expected t =
     (let (t', changed) = sql_delete (\<lambda>r. key r = row_id \<and> revision_matches expected (rv r)) t in
      case revision_result changed (row_by key row_id t' \<noteq> None) of
        Inl e \<Rightarrow> Inl e
      | Inr _ \<Rightarrow> Inr t')"

lemma update_revisioned_cases:
  assumes "unique_key key t"
  shows "update_revisioned key rv row_id expected f t =
    (case row_by key row_id t of
       None \<Rightarrow> Inl ErrNoRows
     | Some r \<Rightarrow> if revision_matches expected (rv r)
                then Inr (fst (sql_update (\<lambda>r. key r = row_id \<and> revision_matches expected (rv r)) f t))
                else Inl ErrRevisionConflict)"
  using update_count_le_one
    [OF assms, of "\<lambda>r. key r = row_id \<and> revision_matches expected (rv r)" row_id f]
  by (auto simp: update_revisioned_def revision_result_def split: prod.splits option.splits
      dest: row_by_SomeD)

text \<open>What a successful guarded update does to the rows: the row read before has its new value, the others are untouched.\<close>

lemma update_revisioned_ok:
  assumes "unique_key key t" and "\<And>r. key (f r) = key r"
    and "update_revisioned key rv row_id expected f t = Inr t'"
  shows "\<exists>r. row_by key row_id t = Some r \<and> revision_matches expected (rv r) \<and>
    row_by key row_id t' = Some (f r) \<and> unique_key key t' \<and> map key t' = map key t \<and>
    (\<forall>k. k \<noteq> row_id \<longrightarrow> row_by key k t' = row_by key k t)"
proof -
  from assms(3) obtain r where r: "row_by key row_id t = Some r" "revision_matches expected (rv r)"
    and t': "t' = fst (sql_update (\<lambda>r. key r = row_id \<and> revision_matches expected (rv r)) f t)"
    by (auto simp: update_revisioned_cases [OF assms(1)] split: option.splits if_splits)
  have "row_by key k t' = row_by key k t" if "k \<noteq> row_id" for k
  proof (cases "row_by key k t")
    case None
    then show ?thesis by (simp add: t' row_by_update [of key f, OF assms(2)])
  next
    case (Some x)
    then have "key x = k" by (auto dest: row_by_SomeD)
    with Some that show ?thesis by (simp add: t' row_by_update [of key f, OF assms(2)])
  qed
  moreover have "row_by key row_id t' = Some (f r)"
    using r row_by_SomeD [OF r(1)] by (simp add: t' row_by_update [of key f, OF assms(2)])
  ultimately show ?thesis
    using r assms(1,2) by (auto simp: t' unique_key_update update_keys)
qed

subsection \<open>A busy database\<close>

definition is_sqlite_busy :: "string \<Rightarrow> bool" where
  "is_sqlite_busy err =
     (let message = to_lower err in
      str_contains message ''sqlite_busy'' \<or> str_contains message ''database is locked'' \<or>
      str_contains message ''database table is locked'')"

text \<open>
  \<open>retrySQLiteBusy\<close>: \<open>operation n\<close> is the outcome of the n-th attempt, \<open>cancelled n\<close> says that the
  context ends while the loop waits after it. \<open>Inl (e, True)\<close> is the error joined with the
  context's.
\<close>

fun retry_from ::
  "nat \<Rightarrow> nat \<Rightarrow> (nat \<Rightarrow> (string, 'a) result) \<Rightarrow> (nat \<Rightarrow> bool) \<Rightarrow> (string \<times> bool, 'a) result" where
  "retry_from left attempt operation cancelled =
     (case operation attempt of
        Inr a \<Rightarrow> Inr a
      | Inl e \<Rightarrow>
          if \<not> is_sqlite_busy e then Inl (e, False)
          else if cancelled attempt then Inl (e, True)
          else (case left of 0 \<Rightarrow> Inl (e, False)
                | Suc left' \<Rightarrow> retry_from left' (Suc attempt) operation cancelled))"

declare retry_from.simps [simp del]

definition retry_sqlite_busy ::
  "(nat \<Rightarrow> (string, 'a) result) \<Rightarrow> (nat \<Rightarrow> bool) \<Rightarrow> (string \<times> bool, 'a) result" where
  "retry_sqlite_busy operation cancelled = retry_from 3 0 operation cancelled"

lemma retry_from_outcome:
  "(\<exists>n \<le> attempt + left. attempt \<le> n \<and>
      (\<forall>m. attempt \<le> m \<and> m < n \<longrightarrow> (\<exists>e. operation m = Inl e \<and> is_sqlite_busy e \<and> \<not> cancelled m)) \<and>
      (case retry_from left attempt operation cancelled of
         Inr a \<Rightarrow> operation n = Inr a
       | Inl (e, c) \<Rightarrow> operation n = Inl e \<and>
           (is_sqlite_busy e \<longrightarrow> cancelled n \<or> n = attempt + left)))"
proof (induction left arbitrary: attempt)
  case 0
  show ?case
    by (rule exI [of _ attempt]) (auto simp: retry_from.simps [of 0] split: sum.splits)
next
  case (Suc left)
  show ?case
  proof (cases "\<exists>e. operation attempt = Inl e \<and> is_sqlite_busy e \<and> \<not> cancelled attempt")
    case True
    from Suc.IH [of "Suc attempt"] obtain n where n: "n \<le> Suc attempt + left" "Suc attempt \<le> n"
      "\<forall>m. Suc attempt \<le> m \<and> m < n \<longrightarrow> (\<exists>e. operation m = Inl e \<and> is_sqlite_busy e \<and> \<not> cancelled m)"
      "case retry_from left (Suc attempt) operation cancelled of
         Inr a \<Rightarrow> operation n = Inr a
       | Inl (e, c) \<Rightarrow> operation n = Inl e \<and> (is_sqlite_busy e \<longrightarrow> cancelled n \<or> n = Suc attempt + left)"
      by blast
    have "\<forall>m. attempt \<le> m \<and> m < n \<longrightarrow> (\<exists>e. operation m = Inl e \<and> is_sqlite_busy e \<and> \<not> cancelled m)"
      using True n(3) by (metis Suc_leI le_neq_implies_less)
    moreover have "retry_from (Suc left) attempt operation cancelled =
        retry_from left (Suc attempt) operation cancelled"
      using True by (auto simp: retry_from.simps [of "Suc left"])
    ultimately show ?thesis using n by (intro exI [of _ n]) (simp split: sum.splits prod.splits)
  next
    case False
    then show ?thesis
      by (intro exI [of _ attempt]) (auto simp: retry_from.simps [of "Suc left"] split: sum.splits)
  qed
qed

text \<open>
  \<^bold>\<open>C17.\<close> The retry loop makes at most four attempts and reports the outcome of the last one it
  made: every earlier attempt failed with a busy database, and it gives up on a busy database
  only when the context ended or the fourth attempt was busy too.
\<close>

theorem retry_sqlite_busy_outcome:
  "\<exists>n < 4. (\<forall>m < n. \<exists>e. operation m = Inl e \<and> is_sqlite_busy e \<and> \<not> cancelled m) \<and>
     (case retry_sqlite_busy operation cancelled of
        Inr a \<Rightarrow> operation n = Inr a
      | Inl (e, c) \<Rightarrow> operation n = Inl e \<and> (\<not> is_sqlite_busy e \<or> cancelled n \<or> n = 3))"
proof -
  obtain n where n: "n \<le> 0 + 3"
      "\<forall>m. 0 \<le> m \<and> m < n \<longrightarrow> (\<exists>e. operation m = Inl e \<and> is_sqlite_busy e \<and> \<not> cancelled m)"
      "case retry_from 3 0 operation cancelled of
         Inr a \<Rightarrow> operation n = Inr a
       | Inl (e, c) \<Rightarrow> operation n = Inl e \<and> (is_sqlite_busy e \<longrightarrow> cancelled n \<or> n = 0 + 3)"
    using retry_from_outcome [of 0 3 operation cancelled] by blast
  then show ?thesis
    by (intro exI [of _ n]) (auto simp: retry_sqlite_busy_def split: sum.splits)
qed

theorem retry_sqlite_busy_outcome_witness:
  "retry_sqlite_busy (\<lambda>n. if n < 2 then Inl ''database is locked'' else Inr n) (\<lambda>_. False) = Inr (2::nat) \<and>
   (\<exists>n < 4. (if n < 2 then Inl ''database is locked'' else Inr n) = (Inr 2 :: (string, nat) result))"
proof
  show res: "retry_sqlite_busy (\<lambda>n. if n < 2 then Inl ''database is locked'' else Inr n) (\<lambda>_. False) = Inr (2::nat)"
    by code_simp
  show "\<exists>n < 4. (if n < 2 then Inl ''database is locked'' else Inr n) = (Inr 2 :: (string, nat) result)"
    using retry_sqlite_busy_outcome
      [of "\<lambda>m. if m < 2 then Inl ''database is locked'' else Inr m" "\<lambda>_. False"] unfolding res sum.case by blast
qed

end
