(* ===== verification/Circuit.thy ===== *)
theory Circuit
  imports StoreBase
begin

text \<open>
  The contract both health stores of the program share (\<open>internal/store/health.go\<close> for the
  upstream routes, \<open>internal/store/v4_health.go\<close> for the site routes): what a permit request sees
  of a target, what it may do, what a recorded outcome may do, and what follows for any sequence of them. \<open>SiteHealth\<close> and
  \<open>LegacyHealth\<close> interpret the locale on their models.
\<close>

record permit_view =
  pv_phase :: string
  pv_capability :: string
  pv_cooldown :: "int option"
  pv_lease :: "int option"

text \<open>\<open>x.Valid && x.Int64 > now\<close>\<close>

definition still_ahead :: "int option \<Rightarrow> int \<Rightarrow> bool" where
  "still_ahead x now = (case x of Some t \<Rightarrow> t > now | None \<Rightarrow> False)"

lemma still_ahead_simps [simp]: "\<not> still_ahead None now" "still_ahead (Some t) now \<longleftrightarrow> t > now"
  by (simp_all add: still_ahead_def)

text \<open>
  The abstract permit: an unsupported target is for probes only, a closed circuit admits
  everybody and changes nothing, an open one nobody before its cooldown ends, and a half-open
  trial is taken by one request, until its lease ends.
\<close>

definition spec_permit :: "int \<Rightarrow> int \<Rightarrow> bool \<Rightarrow> permit_view \<Rightarrow> permit_view \<times> bool" where
  "spec_permit now until probe v =
     (if pv_capability v = ''unsupported'' \<and> \<not> probe then (v, False)
      else if pv_phase v = ''closed'' then (v, True)
      else if pv_phase v = ''open'' \<and> still_ahead (pv_cooldown v) now \<or> still_ahead (pv_lease v) now
      then (v, False)
      else (v\<lparr>pv_phase := ''half_open'', pv_lease := Some until\<rparr>, True))"

lemma spec_permit_phase:
  "pv_phase v \<noteq> ''closed'' \<Longrightarrow> pv_phase (fst (spec_permit now until probe v)) \<noteq> ''closed''"
  by (simp add: spec_permit_def)

lemma spec_permit_refused: "\<not> snd (spec_permit now until probe v) \<Longrightarrow> fst (spec_permit now until probe v) = v"
  by (auto simp: spec_permit_def split: if_splits)

lemma spec_permit_granted:
  "pv_phase v \<noteq> ''closed'' \<Longrightarrow> snd (spec_permit now until probe v) \<Longrightarrow>
    \<not> still_ahead (pv_lease v) now \<and> pv_lease (fst (spec_permit now until probe v)) = Some until"
  by (auto simp: spec_permit_def split: if_splits)

text \<open>What a permit request is refused for, on a circuit that is not closed.\<close>

definition trial_blocked :: "permit_view \<Rightarrow> int \<Rightarrow> bool" where
  "trial_blocked v now \<longleftrightarrow> pv_phase v = ''open'' \<and> still_ahead (pv_cooldown v) now \<or> still_ahead (pv_lease v) now"

lemma spec_permit_trial:
  assumes "pv_phase v \<noteq> ''closed''" and "snd (spec_permit now until probe v)"
  shows "\<not> trial_blocked v now" and "trial_blocked (fst (spec_permit now until probe v)) n \<longleftrightarrow> n < until"
  using assms by (auto simp: spec_permit_def trial_blocked_def split: if_splits)

text \<open>
  What happens to a store of circuits: \<open>Ask target now lease probe\<close> requests a permit, \<open>Report e\<close> records the outcome
  \<open>e\<close> of an attempt. An operation that fails is rolled back.
\<close>

datatype 'e circuit_op = Ask int int int bool | Report 'e

fun circuit_step ::
  "(int \<Rightarrow> int \<Rightarrow> int \<Rightarrow> bool \<Rightarrow> 'db \<Rightarrow> (store_error, bool \<times> 'db) result) \<Rightarrow>
   ('e \<Rightarrow> 'db \<Rightarrow> (store_error, 'db) result) \<Rightarrow> 'e circuit_op \<Rightarrow> 'db \<Rightarrow> 'db" where
  "circuit_step acquire report (Ask target now lease probe) db =
     (case acquire target now lease probe db of Inl _ \<Rightarrow> db | Inr (_, db') \<Rightarrow> db')"
| "circuit_step acquire report (Report e) db = (case report e db of Inl _ \<Rightarrow> db | Inr db' \<Rightarrow> db')"

fun circuit_run ::
  "(int \<Rightarrow> int \<Rightarrow> int \<Rightarrow> bool \<Rightarrow> 'db \<Rightarrow> (store_error, bool \<times> 'db) result) \<Rightarrow>
   ('e \<Rightarrow> 'db \<Rightarrow> (store_error, 'db) result) \<Rightarrow> 'e circuit_op list \<Rightarrow> 'db \<Rightarrow> 'db" where
  "circuit_run acquire report [] db = db"
| "circuit_run acquire report (x # xs) db = circuit_run acquire report xs (circuit_step acquire report x db)"

locale permit_store =
  fixes wf_db :: "'db \<Rightarrow> bool"
    and view :: "int \<Rightarrow> 'db \<Rightarrow> permit_view"
    and acquire :: "int \<Rightarrow> int \<Rightarrow> int \<Rightarrow> bool \<Rightarrow> 'db \<Rightarrow> (store_error, bool \<times> 'db) result"
    and lease_ms :: "int \<Rightarrow> int"
  assumes acquire_wf: "wf_db db \<Longrightarrow> acquire target now lease probe db = Inr (granted, db') \<Longrightarrow> wf_db db'"
    and acquire_spec: "wf_db db \<Longrightarrow> acquire target now lease probe db = Inr (granted, db') \<Longrightarrow>
      (view target db', granted) = spec_permit now (now + lease_ms lease) probe (view target db)"
    and acquire_frame: "wf_db db \<Longrightarrow> acquire target now lease probe db = Inr (granted, db') \<Longrightarrow>
      other \<noteq> target \<Longrightarrow> view other db' = view other db"
begin

lemma not_closed:
  assumes "wf_db db" and "acquire target now lease probe db = Inr (granted, db')"
    and "pv_phase (view t db) \<noteq> ''closed''"
  shows "pv_phase (view t db') \<noteq> ''closed''"
  using acquire_spec [OF assms(1,2)] acquire_frame [OF assms(1,2), of t] assms(3) spec_permit_phase
  by (cases "t = target") (metis fst_conv, simp)

end

text \<open>
  A store that also records outcomes. \<open>reopens e db\<close> is the earliest end of the cooldown that the failure
  \<open>e\<close> stands for, if it is one that counts. An outcome either leaves the circuit of its target as it was,
  or closes it, or opens it for as long as that, and does not touch other targets.
\<close>

locale circuit_store = permit_store +
  fixes report :: "'e \<Rightarrow> 'b \<Rightarrow> (store_error, 'b) result"
    and reported :: "'e \<Rightarrow> int"
    and reopens :: "'e \<Rightarrow> 'b \<Rightarrow> int option"
  assumes lease_nonneg: "0 \<le> lease_ms lease"
    and acquire_reopens: "wf_db db \<Longrightarrow> acquire target now lease probe db = Inr (granted, db') \<Longrightarrow> reopens e db' = reopens e db"
    and report_wf: "wf_db db \<Longrightarrow> report e db = Inr db' \<Longrightarrow> wf_db db'"
    and report_reopens: "wf_db db \<Longrightarrow> report e db = Inr db' \<Longrightarrow> reopens e' db' = reopens e' db"
    and report_frame: "wf_db db \<Longrightarrow> report e db = Inr db' \<Longrightarrow> other \<noteq> reported e \<Longrightarrow> view other db' = view other db"
    and report_spec: "wf_db db \<Longrightarrow> report e db = Inr db' \<Longrightarrow> v = view (reported e) db \<Longrightarrow> v' = view (reported e) db' \<Longrightarrow>
      pv_phase v' = pv_phase v \<and> pv_cooldown v' = pv_cooldown v \<and> pv_lease v' = pv_lease v \<or> pv_phase v' = ''closed'' \<or>
      pv_phase v' = ''open'' \<and> (\<exists>n c. reopens e db = Some n \<and> pv_cooldown v' = Some c \<and> n \<le> c)"
begin

text \<open>\<open>bound\<close> holds of every moment at which the next trial of \<open>t\<close> may begin.\<close>

definition next_trial :: "(int \<Rightarrow> bool) \<Rightarrow> permit_view \<Rightarrow> bool" where
  "next_trial bound v \<longleftrightarrow> pv_phase v = ''closed'' \<or> (\<forall>n. trial_blocked v n \<or> bound n)"

lemma acquire_next_trial:
  assumes "wf_db db" and "acquire target now lease probe db = Inr (granted, db')" and "mono bound"
    and "next_trial bound (view t db)"
  shows "next_trial bound (view t db')"
proof (cases "target = t")
  case False
  then show ?thesis using acquire_frame [OF assms(1,2)] assms(4) by metis
next
  case True
  let ?v = "view t db" and ?until = "now + lease_ms lease"
  have spec: "view t db' = fst (spec_permit now ?until probe ?v)" "granted = snd (spec_permit now ?until probe ?v)"
    using acquire_spec [OF assms(1,2)] True by (metis fst_conv snd_conv)+
  show ?thesis
  proof (cases "pv_phase ?v = ''closed'' \<or> \<not> granted")
    case True
    then have "view t db' = ?v" using spec spec_permit_refused by (auto simp: spec_permit_def)
    with assms(4) show ?thesis by simp
  next
    case False
    then have trial: "pv_phase ?v \<noteq> ''closed''" "snd (spec_permit now ?until probe ?v)" using spec(2) by simp_all
    have "bound now" using spec_permit_trial(1) [OF trial] assms(4) trial(1) by (auto simp: next_trial_def)
    moreover have "now \<le> n" if "\<not> trial_blocked (view t db') n" for n
      using that lease_nonneg [of lease] unfolding spec(1) spec_permit_trial(2) [OF trial] by linarith
    ultimately show ?thesis using monoD [OF assms(3)] by (auto simp: next_trial_def)
  qed
qed

lemma report_next_trial:
  assumes "wf_db db" and "report e db = Inr db'" and "mono bound" and "next_trial bound (view t db)"
    and report_bound: "\<And>n. reported e = t \<Longrightarrow> reopens e db = Some n \<Longrightarrow> bound n"
  shows "next_trial bound (view t db')"
proof (cases "reported e = t")
  case False
  then show ?thesis using report_frame [OF assms(1,2)] assms(4) by metis
next
  case True
  from report_spec [OF assms(1,2) refl refl, unfolded True] show ?thesis
  proof (elim disjE conjE exE)
    fix n c
    assume "pv_phase (view t db') = ''open''" "reopens e db = Some n" "pv_cooldown (view t db') = Some c" "n \<le> c"
    moreover from this have "bound m" if "c \<le> m" for m
      using report_bound that monoD [OF assms(3), of n m] True by simp
    ultimately show ?thesis by (auto simp: next_trial_def trial_blocked_def)
  qed (use assms(4) in \<open>auto simp: next_trial_def trial_blocked_def\<close>)
qed

lemma circuit_run_next_trial:
  assumes "wf_db db" and "mono bound" and "next_trial bound (view t db)"
    and "\<And>e n. Report e \<in> set xs \<Longrightarrow> reported e = t \<Longrightarrow> reopens e db = Some n \<Longrightarrow> bound n"
  shows "next_trial bound (view t (circuit_run acquire report xs db)) \<and> wf_db (circuit_run acquire report xs db)"
  using assms
proof (induction xs arbitrary: db)
  case Nil
  then show ?case by simp
next
  case (Cons x xs)
  let ?db = "circuit_step acquire report x db"
  have "wf_db ?db \<and> next_trial bound (view t ?db) \<and> (\<forall>e. reopens e ?db = reopens e db)"
  proof (cases x)
    case (Ask target now lease probe)
    then show ?thesis
      using Cons.prems(1-3) acquire_wf acquire_next_trial [OF Cons.prems(1) _ Cons.prems(2,3)] acquire_reopens
      by (auto split: sum.split)
  next
    case (Report e)
    have "bound n" if "reported e = t" "reopens e db = Some n" for n
      using Cons.prems(4) [of e n] Report that by simp
    note report = report_next_trial [OF Cons.prems(1) _ Cons.prems(2,3) this]
    show ?thesis
    proof (cases "report e db")
      case (Inl err)
      then show ?thesis using Cons.prems(1,3) Report by simp
    next
      case (Inr db')
      then show ?thesis
        using report_wf [OF Cons.prems(1) Inr] report [OF Inr] report_reopens [OF Cons.prems(1) Inr] Report by simp
    qed
  qed
  then show ?case using Cons.IH [OF _ Cons.prems(2), of ?db] Cons.prems(4) by auto
qed

text \<open>
  Two trials of one target, whatever happens in between: they lie a lease apart, or a failure that
  counts was recorded in between and its cooldown is over.
\<close>

lemma trials_apart:
  assumes "wf_db db" and "acquire t now lease probe db = Inr (True, db1)" and "pv_phase (view t db) \<noteq> ''closed''"
    and "db2 = circuit_run acquire report xs db1"
    and "acquire t now' lease' probe' db2 = Inr (True, db3)" and "pv_phase (view t db2) \<noteq> ''closed''"
  shows "now + lease_ms lease \<le> now' \<or>
    (\<exists>e n. Report e \<in> set xs \<and> reported e = t \<and> reopens e db = Some n \<and> n \<le> now')"
proof -
  define bound where "bound n \<longleftrightarrow> now + lease_ms lease \<le> n \<or>
    (\<exists>e k. Report e \<in> set xs \<and> reported e = t \<and> reopens e db = Some k \<and> k \<le> n)" for n
  have "mono bound" by (force intro!: monoI simp: bound_def)
  moreover have "snd (spec_permit now (now + lease_ms lease) probe (view t db))"
    and v1: "view t db1 = fst (spec_permit now (now + lease_ms lease) probe (view t db))"
    using acquire_spec [OF assms(1,2)] by (metis fst_conv snd_conv)+
  from spec_permit_trial(2) [OF assms(3) this(1)] have "next_trial bound (view t db1)"
    unfolding v1 next_trial_def bound_def by (meson linorder_not_le)
  moreover have "bound n" if "Report e \<in> set xs" "reported e = t" "reopens e db1 = Some n" for e n
    using that acquire_reopens [OF assms(1,2)] by (auto simp: bound_def)
  ultimately have final: "next_trial bound (view t db2)" "wf_db db2"
    unfolding assms(4) using circuit_run_next_trial [OF acquire_wf [OF assms(1,2)]] by blast+
  have "snd (spec_permit now' (now' + lease_ms lease') probe' (view t db2))"
    using acquire_spec [OF final(2) assms(5)] by (metis snd_conv)
  from spec_permit_trial(1) [OF assms(6) this] final(1) assms(6) have "bound now'" by (auto simp: next_trial_def)
  then show ?thesis by (simp add: bound_def)
qed

end

end
