(* ===== verification/Health.thy ===== *)
theory Health
  imports GoStrings
begin

text \<open>
  \<open>internal/health/health.go\<close>: the classification of an upstream outcome into a decision, the
  parsing of a \<open>Retry-After\<close> header, and the failure and success reducers of the in-memory
  circuit state. An HTTP date is parsed by the parameter \<open>parse_http_time\<close> (\<open>http.ParseTime\<close>),
  which returns the instant in nanoseconds. Times in milliseconds and nanoseconds since 1970
  are far from the ends of \<open>int64\<close>, so sums of them are exact; the multiplication of an
  upstream's \<open>Retry-After\<close> by \<open>time.Second\<close> is not, and wraps.
\<close>

datatype health_class =
    ClassNone | ClassClientInvalid | ClassTargetMisconfigured | ClassAuthInvalid
  | ClassPermissionDenied | ClassPaymentRequired | ClassRateLimited | ClassTransport
  | ClassUpstreamTransient | ClassModelUnsupported | ClassStreamInterrupted | ClassUnknown

fun class_string :: "health_class \<Rightarrow> string" where
  "class_string ClassNone = ''none''"
| "class_string ClassClientInvalid = ''client_invalid''"
| "class_string ClassTargetMisconfigured = ''target_misconfigured''"
| "class_string ClassAuthInvalid = ''auth_invalid''"
| "class_string ClassPermissionDenied = ''permission_denied''"
| "class_string ClassPaymentRequired = ''payment_required''"
| "class_string ClassRateLimited = ''rate_limited''"
| "class_string ClassTransport = ''transport''"
| "class_string ClassUpstreamTransient = ''upstream_transient''"
| "class_string ClassModelUnsupported = ''model_unsupported''"
| "class_string ClassStreamInterrupted = ''stream_interrupted''"
| "class_string ClassUnknown = ''unknown''"

record decision =
  Class :: health_class
  Failover :: bool
  PenalizeTarget :: bool
  InvalidateCredential :: bool
  UnsupportedModel :: bool
  RetryAfter :: int

text \<open>\<open>Decision{Class: c}\<close>: the other fields are Go's zero values.\<close>

definition decision_of :: "health_class \<Rightarrow> decision" where
  "decision_of c = \<lparr>Class = c, Failover = False, PenalizeTarget = False,
     InvalidateCredential = False, UnsupportedModel = False, RetryAfter = 0\<rparr>"

text \<open>\<open>http.Header\<close>: canonical keys with their values; \<open>None\<close> is the nil map.\<close>

type_synonym http_header = "(string \<times> string list) list"

definition header_get :: "http_header \<Rightarrow> string \<Rightarrow> string" where
  "header_get h k = (case map_of h k of Some (v # _) \<Rightarrow> v | _ \<Rightarrow> '''')"

subsection \<open>Retry-After\<close>

text \<open>\<open>time.Time.Sub\<close> saturates at the ends of \<open>time.Duration\<close>.\<close>

definition time_sub :: "int \<Rightarrow> int \<Rightarrow> int" where
  "time_sub a b = max min_int64 (min max_int64 (a - b))"

definition parse_retry_after :: "(string \<Rightarrow> int option) \<Rightarrow> http_header option \<Rightarrow> int \<Rightarrow> int" where
  "parse_retry_after parse_http_time headers now =
     (case headers of None \<Rightarrow> 0
      | Some h \<Rightarrow>
        (let raw = trim_space (header_get h ''Retry-After'') in
         if raw = '''' then 0
         else case atoi raw of
           Some seconds \<Rightarrow>
             if seconds \<ge> 0 then wrap64 (seconds * second)
             else (case parse_http_time raw of
                     Some value \<Rightarrow> if value > now then time_sub value now else 0
                   | None \<Rightarrow> 0)
         | None \<Rightarrow> (case parse_http_time raw of
                     Some value \<Rightarrow> if value > now then time_sub value now else 0
                   | None \<Rightarrow> 0)))"

subsection \<open>Classification\<close>

text \<open>The six Chinese phrases of \<open>isModelUnsupportedMessage\<close>, in UTF-8.\<close>

definition unsupported_phrases :: "string list" where
  "unsupported_phrases =
    [''model not found'', ''model does not exist'', ''no such model'', ''unsupported model'',
     ''unknown model'', ''model is not available'',
     [CHR 0xE6, CHR 0xA8, CHR 0xA1, CHR 0xE5, CHR 0x9E, CHR 0x8B, CHR 0xE4, CHR 0xB8, CHR 0x8D,
      CHR 0xE5, CHR 0xAD, CHR 0x98, CHR 0xE5, CHR 0x9C, CHR 0xA8],
     [CHR 0xE6, CHR 0xA8, CHR 0xA1, CHR 0xE5, CHR 0x9E, CHR 0x8B, CHR 0xE6, CHR 0x9C, CHR 0xAA,
      CHR 0xE6, CHR 0x89, CHR 0xBE, CHR 0xE5, CHR 0x88, CHR 0xB0],
     [CHR 0xE4, CHR 0xB8, CHR 0x8D, CHR 0xE6, CHR 0x94, CHR 0xAF, CHR 0xE6, CHR 0x8C, CHR 0x81,
      CHR 0xE7, CHR 0x9A, CHR 0x84, CHR 0xE6, CHR 0xA8, CHR 0xA1, CHR 0xE5, CHR 0x9E, CHR 0x8B],
     [CHR 0xE4, CHR 0xB8, CHR 0x8D, CHR 0xE6, CHR 0x94, CHR 0xAF, CHR 0xE6, CHR 0x8C, CHR 0x81,
      CHR 0xE6, CHR 0xAD, CHR 0xA4, CHR 0xE6, CHR 0xA8, CHR 0xA1, CHR 0xE5, CHR 0x9E, CHR 0x8B],
     [CHR 0xE6, CHR 0x97, CHR 0xA0, CHR 0xE6, CHR 0xAD, CHR 0xA4, CHR 0xE6, CHR 0xA8, CHR 0xA1,
      CHR 0xE5, CHR 0x9E, CHR 0x8B],
     [CHR 0xE6, CHR 0xB2, CHR 0xA1, CHR 0xE6, CHR 0x9C, CHR 0x89, CHR 0xE8, CHR 0xAF, CHR 0xA5,
      CHR 0xE6, CHR 0xA8, CHR 0xA1, CHR 0xE5, CHR 0x9E, CHR 0x8B]]"

definition is_model_unsupported_message :: "string \<Rightarrow> bool" where
  "is_model_unsupported_message text \<longleftrightarrow> (\<exists>phrase \<in> set unsupported_phrases. str_contains text phrase)"

text \<open>
  The outcome of an attempt: \<open>request_failed\<close> is \<open>requestErr != nil\<close> (the code's two branches
  on the kind of error return the same decision).
\<close>

definition classify ::
  "(string \<Rightarrow> int option) \<Rightarrow> int \<Rightarrow> int \<Rightarrow> string \<Rightarrow> bool \<Rightarrow> bool \<Rightarrow> http_header option \<Rightarrow> decision" where
  "classify parse_http_time now status body request_failed committed headers =
     (if committed then (decision_of ClassStreamInterrupted)\<lparr>PenalizeTarget := True\<rparr>
      else if request_failed then
        (decision_of ClassTransport)\<lparr>Failover := True, PenalizeTarget := True\<rparr>
      else if status \<ge> 200 \<and> status < 300 then decision_of ClassNone
      else if status = 401 then
        (decision_of ClassAuthInvalid)\<lparr>Failover := True, InvalidateCredential := True\<rparr>
      else if status = 403 then
        (decision_of ClassPermissionDenied)\<lparr>Failover := True, PenalizeTarget := True\<rparr>
      else if status = 402 then
        (decision_of ClassPaymentRequired)\<lparr>Failover := True, PenalizeTarget := True\<rparr>
      else if is_model_unsupported_message (to_lower body) then
        (decision_of ClassModelUnsupported)\<lparr>Failover := True, UnsupportedModel := True\<rparr>
      else if status = 404 then
        (decision_of ClassTargetMisconfigured)\<lparr>Failover := True, PenalizeTarget := True\<rparr>
      else if status = 429 then
        (decision_of ClassRateLimited)\<lparr>Failover := True, PenalizeTarget := True,
           RetryAfter := parse_retry_after parse_http_time headers now\<rparr>
      else if status = 408 \<or> status = 425 \<or> status \<ge> 500 then
        (decision_of ClassUpstreamTransient)\<lparr>Failover := True, PenalizeTarget := True\<rparr>
      else if status \<ge> 400 \<and> status < 500 then decision_of ClassClientInvalid
      else decision_of ClassUnknown)"

definition classify_invalid_success :: "string \<Rightarrow> decision" where
  "classify_invalid_success body =
     (if is_model_unsupported_message (to_lower body) then
        (decision_of ClassModelUnsupported)\<lparr>Failover := True, UnsupportedModel := True\<rparr>
      else (decision_of ClassUpstreamTransient)\<lparr>Failover := True, PenalizeTarget := True\<rparr>)"

subsection \<open>The circuit reducers\<close>

record circuit_state =
  Phase :: string
  ConsecutiveFailures :: int
  LastFailureAt :: int
  CooldownUntil :: int

definition record_failure ::
  "circuit_state \<Rightarrow> int \<Rightarrow> int \<Rightarrow> int \<Rightarrow> int \<Rightarrow> bool \<Rightarrow> circuit_state" where
  "record_failure state now threshold0 window cooldown immediate =
     (let threshold = (if threshold0 < 1 then 1 else threshold0);
          within_window = (LastFailureAt state > 0 \<and> now \<ge> LastFailureAt state \<and>
                           now - LastFailureAt state \<le> duration_ms window);
          failures = (if within_window then ConsecutiveFailures state + 1 else 1)
      in if Phase state = ''half_open'' \<or> immediate \<or> failures \<ge> threshold
         then \<lparr>Phase = ''open'', ConsecutiveFailures = 0, LastFailureAt = now,
               CooldownUntil = now + duration_ms (max cooldown second)\<rparr>
         else \<lparr>Phase = ''closed'', ConsecutiveFailures = failures, LastFailureAt = now, CooldownUntil = 0\<rparr>)"

definition record_success :: "circuit_state \<Rightarrow> circuit_state" where
  "record_success _ = \<lparr>Phase = ''closed'', ConsecutiveFailures = 0, LastFailureAt = 0, CooldownUntil = 0\<rparr>"

text \<open>A stream of failures at increasing times.\<close>

fun record_failures :: "int \<Rightarrow> int \<Rightarrow> int \<Rightarrow> circuit_state \<Rightarrow> int list \<Rightarrow> circuit_state" where
  "record_failures threshold window cooldown s [] = s"
| "record_failures threshold window cooldown s (now # later) =
     record_failures threshold window cooldown (record_failure s now threshold window cooldown False) later"

subsection \<open>Facts about decisions\<close>

lemma parse_retry_after_int64: "is_int64 (parse_retry_after p headers now)"
proof -
  have "is_int64 (time_sub a b)" for a b
    by (auto simp: time_sub_def is_int64_def)
  then show ?thesis
    by (auto simp: parse_retry_after_def Let_def wrap64_is_int64 is_int64_def [of 0]
        split: option.splits)
qed

lemmas classify_simps = classify_def decision_of_def

lemma decision_of_sel [simp]:
  "Class (decision_of c) = c" "\<not> Failover (decision_of c)" "\<not> PenalizeTarget (decision_of c)"
  "\<not> InvalidateCredential (decision_of c)" "\<not> UnsupportedModel (decision_of c)"
  "RetryAfter (decision_of c) = 0"
  by (simp_all add: decision_of_def)

lemma classify_flags:
  fixes p now status body request_failed committed headers
  defines "d \<equiv> classify p now status body request_failed committed headers"
  shows "PenalizeTarget d \<Longrightarrow> \<not> UnsupportedModel d"
    and "InvalidateCredential d \<longleftrightarrow> Class d = ClassAuthInvalid"
    and "UnsupportedModel d \<longleftrightarrow> Class d = ClassModelUnsupported"
    and "RetryAfter d \<noteq> 0 \<Longrightarrow> Class d = ClassRateLimited"
  by (auto simp: d_def classify_def split: if_splits)

text \<open>The outcomes that move a request on while nothing has been committed.\<close>

definition moves_on :: "int \<Rightarrow> string \<Rightarrow> bool \<Rightarrow> bool" where
  "moves_on status body request_failed \<longleftrightarrow>
     request_failed \<or>
     \<not> (200 \<le> status \<and> status < 300) \<and>
       (status \<in> {401, 402, 403, 404, 408, 425, 429} \<or> status \<ge> 500 \<or>
        is_model_unsupported_message (to_lower body))"

text \<open>
  Which outcomes move a request to another key or site: after output has been committed
  none does; before, exactly a broken attempt, an upstream status the code blames on the key or
  the site, or an unsupported model. A decision taken before output that does not fail over
  penalises no target, and success is the 2xx range and nothing else.
\<close>

theorem classify_failover_iff:
  "(Failover (classify p now status body request_failed committed headers) \<longleftrightarrow>
      \<not> committed \<and> moves_on status body request_failed) \<and>
   (committed \<or> Failover (classify p now status body request_failed committed headers) \<or>
      \<not> PenalizeTarget (classify p now status body request_failed committed headers)) \<and>
   (Class (classify p now status body request_failed committed headers) = ClassNone \<longleftrightarrow>
      \<not> committed \<and> \<not> request_failed \<and> 200 \<le> status \<and> status < 300)"
  by (auto simp: classify_def moves_on_def)

theorem classify_failover_iff_witness:
  "Failover (classify (\<lambda>_. None) 0 429 ''slow down'' False False None) \<and>
   Class (classify (\<lambda>_. None) 0 200 '''' False False None) = ClassNone"
  using classify_failover_iff [of "\<lambda>_. None" 0 429 "''slow down''" False False None]
    classify_failover_iff [of "\<lambda>_. None" 0 200 "''''" False False None]
  by (simp add: moves_on_def)

subsection \<open>Facts about the circuit\<close>

lemma record_failure_closed:
  assumes "Phase s \<noteq> ''half_open''" and "0 < LastFailureAt s" and "LastFailureAt s \<le> now"
    and "now - LastFailureAt s \<le> duration_ms window"
  shows "record_failure s now threshold window cooldown False =
    (if ConsecutiveFailures s + 1 \<ge> max 1 threshold
     then \<lparr>Phase = ''open'', ConsecutiveFailures = 0, LastFailureAt = now,
           CooldownUntil = now + duration_ms (max cooldown second)\<rparr>
     else \<lparr>Phase = ''closed'', ConsecutiveFailures = ConsecutiveFailures s + 1,
           LastFailureAt = now, CooldownUntil = 0\<rparr>)"
  using assms by (auto simp: record_failure_def Let_def)

text \<open>Failure times that stay in the window of the one before.\<close>

fun within_gaps :: "int \<Rightarrow> int \<Rightarrow> int list \<Rightarrow> bool" where
  "within_gaps window last_at [] = True"
| "within_gaps window last_at (t # ts) =
     (last_at \<le> t \<and> t - last_at \<le> duration_ms window \<and> within_gaps window t ts)"

lemma record_failures_count:
  assumes "Phase s = ''closed''" and "0 < LastFailureAt s" and "within_gaps window (LastFailureAt s) ts"
    and "ConsecutiveFailures s + int (length ts) < threshold" and "0 \<le> ConsecutiveFailures s"
  shows "Phase (record_failures threshold window cooldown s ts) = ''closed'' \<and>
    ConsecutiveFailures (record_failures threshold window cooldown s ts) = ConsecutiveFailures s + int (length ts) \<and>
    LastFailureAt (record_failures threshold window cooldown s ts) = last (LastFailureAt s # ts)"
  using assms
proof (induction ts arbitrary: s)
  case Nil
  then show ?case by simp
next
  case (Cons t ts)
  let ?s = "record_failure s t threshold window cooldown False"
  have step: "?s = \<lparr>Phase = ''closed'', ConsecutiveFailures = ConsecutiveFailures s + 1,
      LastFailureAt = t, CooldownUntil = 0\<rparr>"
    using Cons.prems by (subst record_failure_closed) auto
  show ?case
    using Cons.IH [of ?s] Cons.prems by (auto simp: step)
qed

lemma record_failures_append:
  "record_failures threshold window cooldown s (ts @ us) =
   record_failures threshold window cooldown (record_failures threshold window cooldown s ts) us"
  by (induction ts arbitrary: s) auto

lemma within_gaps_append:
  "within_gaps window a (ts @ us) \<longleftrightarrow> within_gaps window a ts \<and> within_gaps window (last (a # ts)) us"
  by (induction ts arbitrary: a) auto

lemma within_gaps_pos: "within_gaps window a ts \<Longrightarrow> 0 < a \<Longrightarrow> 0 < last (a # ts)"
  by (induction ts arbitrary: a) fastforce+

text \<open>
  The circuit opens at the threshold and not before: starting from a closed circuit with
  no failure counted, failures that each follow the previous one within the window leave it
  closed, counting them, while there are fewer than the threshold, and the failure that reaches
  the threshold opens it for the cooldown (never less than a second).
\<close>

theorem circuit_opens_at_threshold:
  assumes "2 \<le> threshold" and "0 < first" and "within_gaps window first (ts @ [final])"
    and "int (length ts) + 2 = threshold"
  shows "Phase (record_failures threshold window cooldown (record_success s) (first # ts)) = ''closed'' \<and>
    ConsecutiveFailures (record_failures threshold window cooldown (record_success s) (first # ts)) = threshold - 1 \<and>
    record_failures threshold window cooldown (record_success s) (first # ts @ [final]) =
      \<lparr>Phase = ''open'', ConsecutiveFailures = 0, LastFailureAt = final,
       CooldownUntil = final + duration_ms (max cooldown second)\<rparr>"
proof -
  let ?one = "record_failure (record_success s) first threshold window cooldown False"
  let ?k = "record_failures threshold window cooldown ?one ts"
  have one: "?one = \<lparr>Phase = ''closed'', ConsecutiveFailures = 1, LastFailureAt = first, CooldownUntil = 0\<rparr>"
    using assms(1) by (simp add: record_failure_def record_success_def)
  from assms(3) have gaps: "within_gaps window first ts" "within_gaps window (last (first # ts)) [final]"
    by (simp_all add: within_gaps_append)
  have k: "Phase ?k = ''closed'' \<and> ConsecutiveFailures ?k = threshold - 1 \<and>
      LastFailureAt ?k = last (first # ts)"
    using record_failures_count [of ?one window ts threshold cooldown] one assms(2,4) gaps(1) by simp
  have "record_failure ?k final threshold window cooldown False =
      \<lparr>Phase = ''open'', ConsecutiveFailures = 0, LastFailureAt = final,
       CooldownUntil = final + duration_ms (max cooldown second)\<rparr>"
    using k gaps(2) within_gaps_pos [OF gaps(1) assms(2)] assms(1)
    by (subst record_failure_closed) auto
  with k show ?thesis by (simp add: record_failures_append)
qed

theorem circuit_opens_at_threshold_witness:
  "record_failures 3 (60 * second) (300 * second)
      (record_success \<lparr>Phase = ''open'', ConsecutiveFailures = 0, LastFailureAt = 5, CooldownUntil = 9\<rparr>)
      [1000, 31000, 91000] =
     \<lparr>Phase = ''open'', ConsecutiveFailures = 0, LastFailureAt = 91000, CooldownUntil = 391000\<rparr>"
proof -
  have "within_gaps (60 * second) 1000 ([31000] @ [91000])"
    by (simp add: duration_ms_def)
  from circuit_opens_at_threshold [OF _ _ this, of 3 "300 * second"]
  show ?thesis by (simp add: duration_ms_def)
qed

text \<open>
  A numeric \<open>Retry-After\<close> is honoured exactly up to 9223372036 seconds; at the next
  second the multiplication by \<open>time.Second\<close> leaves \<open>int64\<close> and the header reads as a negative
  time, which the callers treat as no header at all.
\<close>

theorem retry_after_seconds_wrap:
  assumes "atoi (trim_space (header_get h ''Retry-After'')) = Some n"
  shows "(n < 0 \<or> 9223372036 < n \<or> parse_retry_after p (Some h) now = n * second) \<and>
    (n = 9223372037 \<longrightarrow> parse_retry_after p (Some h) now < 0)"
proof -
  from assms have "trim_space (header_get h ''Retry-After'') \<noteq> []"
    by (auto simp: atoi_def)
  moreover have "n < 0 \<or> 9223372036 < n \<or> wrap64 (n * second) = n * second"
    using wrap64_id [of "n * second"] unfolding is_int64_def by linarith
  moreover have "wrap64 (9223372037 * second) < 0"
    by (simp add: wrap64_def)
  ultimately show ?thesis
    using assms by (auto simp: parse_retry_after_def Let_def)
qed

theorem retry_after_seconds_wrap_witness:
  "parse_retry_after (\<lambda>_. None) (Some [(''Retry-After'', [''120''])]) 0 = 120 * second \<and>
   parse_retry_after (\<lambda>_. None) (Some [(''Retry-After'', [''9223372037''])]) 0 < 0"
proof -
  have "atoi (trim_space (header_get [(''Retry-After'', [''120''])] ''Retry-After'')) = Some 120"
    and "atoi (trim_space (header_get [(''Retry-After'', [''9223372037''])] ''Retry-After'')) = Some 9223372037"
    by code_simp+
  from this [THEN retry_after_seconds_wrap] show ?thesis by force
qed

end
