(* ===== verification/SiteHealth.thy ===== *)
theory SiteHealth
  imports Circuit Health
begin

text \<open>
  \<open>internal/store/v4_health.go\<close>: the circuit of a site target. The table
  \<open>route_site_target_health\<close> is a list of rows in the form of the Go struct (a \<open>NULL\<close> text column
  reads and writes as the empty string); \<open>route_site_targets\<close> and \<open>published_models\<close> are the
  columns the queries join. \<open>redact\<close> stands for \<open>redact.String\<close>, \<open>clock\<close> for \<open>NowMS()\<close>. Instants
  are milliseconds, far from the ends of \<open>int64\<close>, and the schema bounds the policy's seconds by
  a day, so their sums are exact.
\<close>

record site_health =
  SH_TargetID :: int
  SH_CircuitPhase :: string
  SH_ConsecutiveFailures :: int
  SH_LastFailureAt :: "int option"
  SH_LastSuccessAt :: "int option"
  SH_CooldownUntil :: "int option"
  SH_HalfOpenLeaseUntil :: "int option"
  SH_CapabilityState :: string
  SH_LastErrorClass :: string
  SH_LastErrorMessage :: string
  SH_LastIncidentID :: string
  SH_UpdatedAt :: int

record health_policy =
  FailureThreshold :: int
  FailureWindowSeconds :: int
  CooldownSeconds :: int

record health_event =
  EvKind :: string
  EvDecision :: decision
  EvIncidentID :: string
  EvErrorMessage :: string
  EvOccurredAt :: int
  EvRetryAfter :: int

definition route_site_target_health_success :: string where
  "route_site_target_health_success = ''success''"

definition route_site_target_health_failure :: string where
  "route_site_target_health_failure = ''failure''"

lemmas event_kinds = route_site_target_health_success_def route_site_target_health_failure_def

record site_target_ref =
  TR_ID :: int
  TR_PublishedModelID :: int
  TR_Position :: int

record model_policy_row =
  MP_ID :: int
  MP_Policy :: health_policy

record site_health_db =
  site_targets :: "site_target_ref list"
  model_policies :: "model_policy_row list"
  target_health_rows :: "site_health list"

subsection \<open>The reducer\<close>

definition normalize_health_policy :: "health_policy \<Rightarrow> health_policy" where
  "normalize_health_policy policy =
     \<lparr>FailureThreshold = (if FailureThreshold policy < 2 then 2 else FailureThreshold policy),
      FailureWindowSeconds = (if FailureWindowSeconds policy \<le> 0 then 300 else FailureWindowSeconds policy),
      CooldownSeconds = (if CooldownSeconds policy \<le> 0 then 300 else CooldownSeconds policy)\<rparr>"

definition with_default_phases :: "site_health \<Rightarrow> site_health" where
  "with_default_phases h =
     h\<lparr>SH_CircuitPhase := (if SH_CircuitPhase h = '''' then ''closed'' else SH_CircuitPhase h),
       SH_CapabilityState := (if SH_CapabilityState h = '''' then ''unknown'' else SH_CapabilityState h)\<rparr>"

text \<open>The tail of the reducer: a failure that counts against the target.\<close>

definition penalize_target :: "site_health \<Rightarrow> site_health \<Rightarrow> health_policy \<Rightarrow> health_event \<Rightarrow> site_health" where
  "penalize_target current nxt policy0 event =
     (let policy = normalize_health_policy policy0;
          within_window = (case SH_LastFailureAt current of
             None \<Rightarrow> False
           | Some t \<Rightarrow> EvOccurredAt event \<ge> t \<and>
               EvOccurredAt event - t \<le> FailureWindowSeconds policy * 1000);
          failures = (if within_window then SH_ConsecutiveFailures current + 1 else 1);
          nxt = nxt\<lparr>SH_LastFailureAt := Some (EvOccurredAt event)\<rparr>;
          retry_after = max (EvRetryAfter event) (RetryAfter (EvDecision event));
          opens = (SH_CircuitPhase current = ''open'' \<or> SH_CircuitPhase current = ''half_open'' \<or>
                   retry_after > 0 \<or> failures \<ge> FailureThreshold policy)
      in if \<not> opens
         then nxt\<lparr>SH_CircuitPhase := ''closed'', SH_ConsecutiveFailures := failures,
                  SH_CooldownUntil := None, SH_HalfOpenLeaseUntil := None\<rparr>
         else
           (let cooldown = max (max (CooldownSeconds policy * second) retry_after) second;
                cooldown_until = EvOccurredAt event + duration_ms cooldown;
                cooldown_until = (case SH_CooldownUntil current of
                   Some c \<Rightarrow> if c > cooldown_until then c else cooldown_until
                 | None \<Rightarrow> cooldown_until)
            in nxt\<lparr>SH_CircuitPhase := ''open'', SH_ConsecutiveFailures := 0,
                   SH_CooldownUntil := Some cooldown_until, SH_HalfOpenLeaseUntil := None\<rparr>))"

definition reduce_route_site_target_health ::
  "(string \<Rightarrow> string) \<Rightarrow> site_health \<Rightarrow> health_policy \<Rightarrow> health_event \<Rightarrow> (store_error, site_health \<times> bool) result" where
  "reduce_route_site_target_health redact current0 policy event =
     (if SH_TargetID current0 \<le> 0 then Inl (ErrText ''route site target ID must be positive'')
      else if EvOccurredAt event \<le> 0 then Inl (ErrText ''health event time must be positive'')
      else
        (let current = with_default_phases current0 in
         if EvKind event = route_site_target_health_failure \<and> EvIncidentID event \<noteq> '''' \<and>
            EvIncidentID event = SH_LastIncidentID current
         then Inr (current, False)
         else
           (let nxt = current\<lparr>SH_UpdatedAt := EvOccurredAt event\<rparr> in
            if EvKind event = route_site_target_health_success then
              Inr (nxt\<lparr>SH_CircuitPhase := ''closed'', SH_ConsecutiveFailures := 0,
                       SH_LastSuccessAt := Some (EvOccurredAt event), SH_CooldownUntil := None,
                       SH_HalfOpenLeaseUntil := None, SH_CapabilityState := ''supported'',
                       SH_LastErrorClass := '''', SH_LastErrorMessage := ''''\<rparr>, True)
            else if EvKind event \<noteq> route_site_target_health_failure then
              Inl (ErrText ''unknown route site target health event'')
            else
              (let nxt = nxt\<lparr>SH_LastErrorClass := class_string (Class (EvDecision event)),
                             SH_LastErrorMessage := redact (EvErrorMessage event),
                             SH_LastIncidentID := EvIncidentID event\<rparr>
               in if UnsupportedModel (EvDecision event)
                  then Inr (nxt\<lparr>SH_CapabilityState := ''unsupported''\<rparr>, True)
                  else if \<not> PenalizeTarget (EvDecision event) then Inr (nxt, True)
                  else Inr (penalize_target current nxt policy event, True)))))"

subsection \<open>Reading and writing the row\<close>

definition empty_health :: "int \<Rightarrow> int \<Rightarrow> site_health" where
  "empty_health target updated =
     \<lparr>SH_TargetID = target, SH_CircuitPhase = ''closed'', SH_ConsecutiveFailures = 0,
      SH_LastFailureAt = None, SH_LastSuccessAt = None, SH_CooldownUntil = None,
      SH_HalfOpenLeaseUntil = None, SH_CapabilityState = ''unknown'', SH_LastErrorClass = '''',
      SH_LastErrorMessage = '''', SH_LastIncidentID = '''', SH_UpdatedAt = updated\<rparr>"

text \<open>\<open>applyRouteSiteTargetHealthNulls\<close>: a target without a health row reads as an untried, closed one.\<close>

definition apply_health_nulls :: "int \<Rightarrow> site_health option \<Rightarrow> site_health" where
  "apply_health_nulls target h = (case h of Some r \<Rightarrow> r | None \<Rightarrow> empty_health target 0)"

definition get_route_site_target_health :: "int \<Rightarrow> site_health_db \<Rightarrow> (store_error, site_health) result" where
  "get_route_site_target_health target db =
     (case row_by TR_ID target (site_targets db) of
        None \<Rightarrow> Inl ErrNoRows
      | Some t \<Rightarrow> Inr (apply_health_nulls target (row_by SH_TargetID target (target_health_rows db))))"

text \<open>\<open>ORDER BY t.position,t.id\<close>\<close>

definition list_route_site_target_health :: "int \<Rightarrow> site_health_db \<Rightarrow> site_health list" where
  "list_route_site_target_health model db =
     map (\<lambda>t. apply_health_nulls (TR_ID t) (row_by SH_TargetID (TR_ID t) (target_health_rows db)))
       (slice_stable (\<lambda>a b. TR_Position a < TR_Position b \<or> TR_Position a = TR_Position b \<and> TR_ID a < TR_ID b)
         (filter (\<lambda>t. TR_PublishedModelID t = model) (site_targets db)))"

definition get_health_policy_tx ::
  "int \<Rightarrow> site_health_db \<Rightarrow> (store_error, site_health \<times> health_policy) result" where
  "get_health_policy_tx target db =
     (case row_by TR_ID target (site_targets db) of
        None \<Rightarrow> Inl ErrNoRows
      | Some t \<Rightarrow>
          (case row_by MP_ID (TR_PublishedModelID t) (model_policies db) of
             None \<Rightarrow> Inl ErrNoRows
           | Some p \<Rightarrow> Inr (apply_health_nulls target (row_by SH_TargetID target (target_health_rows db)),
                            MP_Policy p)))"

definition health_row_valid :: "site_health \<Rightarrow> bool" where
  "health_row_valid h \<longleftrightarrow> SH_CircuitPhase h \<in> {''closed'', ''open'', ''half_open''} \<and>
     SH_CapabilityState h \<in> {''unknown'', ''supported'', ''unsupported''} \<and> 0 \<le> SH_ConsecutiveFailures h"

text \<open>\<open>INSERT ... ON CONFLICT(target_id) DO UPDATE\<close> of every column, under the \<open>CHECK\<close>s of the schema.\<close>

definition upsert_health_rows :: "site_health \<Rightarrow> site_health list \<Rightarrow> site_health list" where
  "upsert_health_rows item t = sql_upsert SH_TargetID item (\<lambda>_. item) t"

definition upsert_route_site_target_health_tx ::
  "site_health \<Rightarrow> site_health_db \<Rightarrow> (store_error, site_health_db) result" where
  "upsert_route_site_target_health_tx item db =
     (if health_row_valid item
      then Inr (db\<lparr>target_health_rows := upsert_health_rows item (target_health_rows db)\<rparr>)
      else Inl ErrConstraint)"

definition apply_health_event ::
  "(string \<Rightarrow> string) \<Rightarrow> int \<Rightarrow> int \<Rightarrow> health_event \<Rightarrow> site_health_db \<Rightarrow> (store_error, site_health_db) result" where
  "apply_health_event redact clock target event0 db =
     (if target \<le> 0 then Inl (ErrText ''route site target ID must be positive'')
      else
        (let event = (if EvOccurredAt event0 \<le> 0 then event0\<lparr>EvOccurredAt := clock\<rparr> else event0) in
         case get_health_policy_tx target db of
           Inl e \<Rightarrow> Inl e
         | Inr (current, policy) \<Rightarrow>
             (case reduce_route_site_target_health redact current policy event of
                Inl e \<Rightarrow> Inl e
              | Inr (nxt, changed) \<Rightarrow>
                  if \<not> changed then Inr db else upsert_route_site_target_health_tx nxt db)))"

definition record_route_site_target_success ::
  "(string \<Rightarrow> string) \<Rightarrow> int \<Rightarrow> int \<Rightarrow> int \<Rightarrow> site_health_db \<Rightarrow> (store_error, site_health_db) result" where
  "record_route_site_target_success redact clock target now db =
     apply_health_event redact clock target
       \<lparr>EvKind = route_site_target_health_success, EvDecision = decision_of ClassNone, EvIncidentID = '''',
        EvErrorMessage = '''', EvOccurredAt = now, EvRetryAfter = 0\<rparr> db"

definition record_route_site_target_failure ::
  "(string \<Rightarrow> string) \<Rightarrow> int \<Rightarrow> int \<Rightarrow> decision \<Rightarrow> string \<Rightarrow> string \<Rightarrow> int \<Rightarrow> int \<Rightarrow>
   site_health_db \<Rightarrow> (store_error, site_health_db) result" where
  "record_route_site_target_failure redact clock target d incident message now retry_after db =
     apply_health_event redact clock target
       \<lparr>EvKind = route_site_target_health_failure, EvDecision = d, EvIncidentID = trim_space incident,
        EvErrorMessage = redact message, EvOccurredAt = now, EvRetryAfter = retry_after\<rparr> db"

subsection \<open>The permit\<close>

definition acquire_route_site_target_permit ::
  "int \<Rightarrow> int \<Rightarrow> int \<Rightarrow> bool \<Rightarrow> site_health_db \<Rightarrow> (store_error, bool \<times> site_health_db) result" where
  "acquire_route_site_target_permit target now lease0 probe db =
     (if target \<le> 0 then Inl (ErrText ''route site target ID must be positive'')
      else
        (let lease = max lease0 second;
             rows = target_health_rows db;
             rows = (if row_by TR_ID target (site_targets db) \<noteq> None \<and> row_by SH_TargetID target rows = None
                     then rows @ [empty_health target now] else rows);
             db = db\<lparr>target_health_rows := rows\<rparr>
         in case row_by SH_TargetID target rows of
              None \<Rightarrow> Inl ErrNoRows
            | Some h \<Rightarrow>
                if SH_CapabilityState h = ''unsupported'' \<and> \<not> probe then Inr (False, db)
                else if SH_CircuitPhase h = ''closed'' then Inr (True, db)
                else if SH_CircuitPhase h = ''open'' \<and> still_ahead (SH_CooldownUntil h) now then Inr (False, db)
                else if still_ahead (SH_HalfOpenLeaseUntil h) now then Inr (False, db)
                else
                  (let (rows', changed) = sql_update
                         (\<lambda>r. SH_TargetID r = target \<and> SH_CircuitPhase r \<noteq> ''closed'' \<and>
                              \<not> still_ahead (SH_HalfOpenLeaseUntil r) now)
                         (\<lambda>r. r\<lparr>SH_CircuitPhase := ''half_open'',
                                SH_HalfOpenLeaseUntil := Some (now + duration_ms lease), SH_UpdatedAt := now\<rparr>)
                         rows
                   in Inr (changed = 1, db\<lparr>target_health_rows := rows'\<rparr>))))"

subsection \<open>Well-formed rows\<close>

text \<open>
  What a circuit row satisfies: the schema's \<open>CHECK\<close>s; a closed circuit carries neither cooldown
  nor lease, an open one a cooldown and no lease, a half-open one the lease of its trial.
\<close>

definition health_wf :: "site_health \<Rightarrow> bool" where
  "health_wf h \<longleftrightarrow> health_row_valid h \<and>
     (SH_CircuitPhase h = ''closed'' \<longrightarrow> SH_CooldownUntil h = None \<and> SH_HalfOpenLeaseUntil h = None) \<and>
     (SH_CircuitPhase h = ''open'' \<longrightarrow>
        SH_CooldownUntil h \<noteq> None \<and> SH_HalfOpenLeaseUntil h = None \<and> SH_ConsecutiveFailures h = 0) \<and>
     (SH_CircuitPhase h = ''half_open'' \<longrightarrow> SH_CooldownUntil h \<noteq> None \<and> SH_HalfOpenLeaseUntil h \<noteq> None)"

definition site_health_wf :: "site_health_db \<Rightarrow> bool" where
  "site_health_wf db \<longleftrightarrow> unique_key SH_TargetID (target_health_rows db) \<and>
     (\<forall>h \<in> set (target_health_rows db). health_wf h)"

lemma empty_health_wf [simp]: "health_wf (empty_health target updated)"
  by (simp add: health_wf_def health_row_valid_def empty_health_def)

lemma empty_health_sel [simp]:
  "SH_TargetID (empty_health target u) = target" "SH_CircuitPhase (empty_health target u) = ''closed''"
  "SH_CapabilityState (empty_health target u) = ''unknown''" "SH_CooldownUntil (empty_health target u) = None"
  "SH_HalfOpenLeaseUntil (empty_health target u) = None" "SH_LastIncidentID (empty_health target u) = ''''"
  by (simp_all add: empty_health_def)

lemma with_default_phases_wf: "health_wf h \<Longrightarrow> with_default_phases h = h"
  by (auto simp: health_wf_def health_row_valid_def with_default_phases_def)

lemma apply_health_nulls_target:
  "SH_TargetID (apply_health_nulls target (row_by SH_TargetID target rows)) = target"
  by (auto simp: apply_health_nulls_def dest: row_by_SomeD split: option.splits)

lemma apply_health_nulls_wf:
  "site_health_wf db \<Longrightarrow> health_wf (apply_health_nulls target (row_by SH_TargetID target (target_health_rows db)))"
  by (auto simp: apply_health_nulls_def site_health_wf_def dest: row_by_SomeD split: option.splits)

subsection \<open>Facts about the reducer\<close>

lemma penalize_target_wf:
  assumes "health_wf current" and "SH_CapabilityState nxt = SH_CapabilityState current"
  shows "health_wf (penalize_target current nxt policy event)"
proof -
  have "0 \<le> SH_ConsecutiveFailures current" "SH_CapabilityState nxt \<in> {''unknown'', ''supported'', ''unsupported''}"
    using assms by (auto simp: health_wf_def health_row_valid_def)
  then show ?thesis
    by (simp add: penalize_target_def Let_def health_wf_def health_row_valid_def split: option.splits)
qed

lemma penalize_target_keeps [simp]:
  "SH_TargetID (penalize_target current nxt policy event) = SH_TargetID nxt"
  "SH_LastIncidentID (penalize_target current nxt policy event) = SH_LastIncidentID nxt"
  "SH_CapabilityState (penalize_target current nxt policy event) = SH_CapabilityState nxt"
  by (simp_all add: penalize_target_def Let_def)

lemma health_wf_bookkeeping [simp]:
  "health_wf (h\<lparr>SH_UpdatedAt := u, SH_LastErrorClass := c, SH_LastErrorMessage := m, SH_LastIncidentID := i\<rparr>) = health_wf h"
  by (simp add: health_wf_def health_row_valid_def)

lemma reduce_wf:
  assumes "health_wf current" and "reduce_route_site_target_health redact current policy event = Inr (nxt, changed)"
  shows "health_wf nxt \<and> SH_TargetID nxt = SH_TargetID current"
proof -
  have unsupported: "health_wf (h\<lparr>SH_CapabilityState := ''unsupported''\<rparr>)" if "health_wf h" for h
    using that by (simp add: health_wf_def health_row_valid_def)
  have success: "health_wf (h\<lparr>SH_CircuitPhase := ''closed'', SH_ConsecutiveFailures := 0,
      SH_LastSuccessAt := s, SH_CooldownUntil := None, SH_HalfOpenLeaseUntil := None,
      SH_CapabilityState := ''supported'', SH_LastErrorClass := c, SH_LastErrorMessage := m\<rparr>)" for h s c m
    by (simp add: health_wf_def health_row_valid_def)
  show ?thesis
    using assms(2) assms(1)
    by (auto simp: reduce_route_site_target_health_def Let_def with_default_phases_wf [OF assms(1)]
        unsupported success penalize_target_wf split: if_splits)
qed

lemma reduce_incident:
  assumes "reduce_route_site_target_health redact current policy event = Inr (nxt, changed)"
    and "EvKind event = route_site_target_health_failure"
  shows "SH_LastIncidentID nxt = EvIncidentID event"
  using assms
  by (auto simp: reduce_route_site_target_health_def Let_def event_kinds with_default_phases_def split: if_splits)

lemma reduce_unchanged:
  assumes "health_wf current" and "reduce_route_site_target_health redact current policy event = Inr (nxt, False)"
  shows "nxt = current"
  using assms(2)
  by (auto simp: reduce_route_site_target_health_def Let_def with_default_phases_wf [OF assms(1)] split: if_splits)

lemma reduce_duplicate:
  assumes "health_wf current" and "0 < SH_TargetID current" and "0 < EvOccurredAt event"
    and "EvKind event = route_site_target_health_failure"
    and "EvIncidentID event \<noteq> ''''" and "SH_LastIncidentID current = EvIncidentID event"
  shows "reduce_route_site_target_health redact current policy event = Inr (current, False)"
  using assms by (simp add: reduce_route_site_target_health_def with_default_phases_wf)

lemma reduce_total:
  assumes "0 < SH_TargetID current" and "0 < EvOccurredAt event"
    and "EvKind event \<in> {route_site_target_health_success, route_site_target_health_failure}"
  shows "\<exists>nxt changed. reduce_route_site_target_health redact current policy event = Inr (nxt, changed)"
  using assms by (auto simp: reduce_route_site_target_health_def Let_def event_kinds)

subsection \<open>Facts about the table\<close>

lemma upsert_wf:
  assumes "site_health_wf db" and "health_wf item"
  shows "site_health_wf (db\<lparr>target_health_rows := upsert_health_rows item (target_health_rows db)\<rparr>)"
  using assms upsert_all [of "target_health_rows db" health_wf item "\<lambda>_. item" SH_TargetID]
  by (simp add: site_health_wf_def upsert_health_rows_def upsert_unique)

lemma upsert_health_row_by:
  "row_by SH_TargetID k (upsert_health_rows item t) =
     (if k = SH_TargetID item then Some item else row_by SH_TargetID k t)"
  by (simp add: upsert_health_rows_def upsert_row_by split: option.splits)

subsection \<open>Facts about the operations\<close>

definition current_health :: "int \<Rightarrow> site_health_db \<Rightarrow> site_health" where
  "current_health target db = apply_health_nulls target (row_by SH_TargetID target (target_health_rows db))"

lemma current_health_wf: "site_health_wf db \<Longrightarrow> health_wf (current_health target db)"
  by (simp add: current_health_def apply_health_nulls_wf)

lemma current_health_target [simp]: "SH_TargetID (current_health target db) = target"
  by (simp add: current_health_def apply_health_nulls_target)

text \<open>A target with its model: what the join of the event handler finds.\<close>

definition target_policy :: "int \<Rightarrow> site_health_db \<Rightarrow> health_policy option" where
  "target_policy target db =
     (case row_by TR_ID target (site_targets db) of
        None \<Rightarrow> None
      | Some t \<Rightarrow> map_option MP_Policy (row_by MP_ID (TR_PublishedModelID t) (model_policies db)))"

lemma get_health_policy_tx_eq:
  "get_health_policy_tx target db =
     (case target_policy target db of None \<Rightarrow> Inl ErrNoRows | Some p \<Rightarrow> Inr (current_health target db, p))"
  by (auto simp: get_health_policy_tx_def target_policy_def current_health_def split: option.splits)

definition stamped :: "int \<Rightarrow> health_event \<Rightarrow> health_event" where
  "stamped clock event = (if EvOccurredAt event \<le> 0 then event\<lparr>EvOccurredAt := clock\<rparr> else event)"

lemma stamped_keeps [simp]:
  "EvKind (stamped clock event) = EvKind event" "EvIncidentID (stamped clock event) = EvIncidentID event"
  by (simp_all add: stamped_def)

lemma stamped_pos: "0 < clock \<Longrightarrow> 0 < EvOccurredAt (stamped clock event)"
  by (simp add: stamped_def)

lemma stamped_id: "0 < EvOccurredAt event \<Longrightarrow> stamped clock event = event"
  by (simp add: stamped_def)

lemma apply_health_event_eq:
  "apply_health_event redact clock target event db =
     (if target \<le> 0 then Inl (ErrText ''route site target ID must be positive'')
      else case target_policy target db of
        None \<Rightarrow> Inl ErrNoRows
      | Some policy \<Rightarrow>
          (case reduce_route_site_target_health redact (current_health target db) policy (stamped clock event) of
             Inl e \<Rightarrow> Inl e
           | Inr (nxt, changed) \<Rightarrow> if changed then upsert_route_site_target_health_tx nxt db else Inr db))"
  unfolding apply_health_event_def get_health_policy_tx_eq stamped_def [symmetric] Let_def
  by (simp split: option.split sum.split)

text \<open>On a well-formed table an event either fails or writes exactly the reduced row.\<close>

lemma apply_health_event_ok:
  assumes "site_health_wf db" and "apply_health_event redact clock target event db = Inr db'"
  shows "\<exists>policy nxt changed. target_policy target db = Some policy \<and> 0 < target \<and>
    reduce_route_site_target_health redact (current_health target db) policy (stamped clock event) = Inr (nxt, changed) \<and>
    site_health_wf db' \<and> site_targets db' = site_targets db \<and> model_policies db' = model_policies db \<and>
    current_health target db' = nxt \<and>
    (\<forall>k. k \<noteq> target \<longrightarrow> row_by SH_TargetID k (target_health_rows db') = row_by SH_TargetID k (target_health_rows db))"
proof -
  from assms(2) obtain policy nxt changed where p: "target_policy target db = Some policy" "0 < target"
    and red: "reduce_route_site_target_health redact (current_health target db) policy (stamped clock event) = Inr (nxt, changed)"
    and db': "(if \<not> changed then Inr db else upsert_route_site_target_health_tx nxt db) = Inr db'"
    by (auto simp: apply_health_event_def get_health_policy_tx_eq stamped_def Let_def
        split: if_splits sum.splits option.splits)
  have nxt: "health_wf nxt" "SH_TargetID nxt = target"
    using reduce_wf [OF current_health_wf [OF assms(1)] red] by simp_all
  have "nxt = current_health target db" if "\<not> changed"
    using reduce_unchanged [OF current_health_wf [OF assms(1)]] red that by simp
  moreover have "site_health_wf db'"
    using db' assms(1) upsert_wf [OF assms(1) nxt(1)]
    by (auto simp: upsert_route_site_target_health_tx_def split: if_splits)
  ultimately show ?thesis
    using p red db' nxt
    by (auto simp: upsert_route_site_target_health_tx_def upsert_health_row_by current_health_def
        apply_health_nulls_def split: if_splits)
qed

lemma apply_health_event_total:
  assumes "site_health_wf db" and "target_policy target db \<noteq> None" and "0 < target" and "0 < clock"
    and "EvKind event \<in> {route_site_target_health_success, route_site_target_health_failure}"
  shows "\<exists>db'. apply_health_event redact clock target event db = Inr db'"
proof -
  obtain p where p: "target_policy target db = Some p" using assms(2) by auto
  obtain nxt changed where red: "reduce_route_site_target_health redact (current_health target db) p
      (stamped clock event) = Inr (nxt, changed)"
    using reduce_total [of "current_health target db" "stamped clock event" redact p]
      stamped_pos [OF assms(4)] assms(3,5) by auto
  have "health_row_valid nxt"
    using reduce_wf [OF current_health_wf [OF assms(1)] red] by (simp add: health_wf_def)
  then show ?thesis
    using p red assms(3)
    by (auto simp: apply_health_event_def get_health_policy_tx_eq Let_def
        upsert_route_site_target_health_tx_def simp flip: stamped_def)
qed

text \<open>The permit request sees a target as the contract's view, and does what the contract says.\<close>

definition site_view :: "int \<Rightarrow> site_health_db \<Rightarrow> permit_view" where
  "site_view target db =
     (let h = current_health target db in
      \<lparr>pv_phase = SH_CircuitPhase h, pv_capability = SH_CapabilityState h,
       pv_cooldown = SH_CooldownUntil h, pv_lease = SH_HalfOpenLeaseUntil h\<rparr>)"

definition site_lease_ms :: "int \<Rightarrow> int" where
  "site_lease_ms lease = duration_ms (max lease second)"

lemma site_lease_ms_pos: "1000 \<le> site_lease_ms lease"
  using duration_ms_mono [of second "max lease second"] duration_ms_seconds [of 1]
  by (simp add: site_lease_ms_def)

definition half_open_row :: "int \<Rightarrow> int \<Rightarrow> site_health \<Rightarrow> site_health" where
  "half_open_row now until h =
     h\<lparr>SH_CircuitPhase := ''half_open'', SH_HalfOpenLeaseUntil := Some until, SH_UpdatedAt := now\<rparr>"

lemma half_open_row_sel [simp]:
  "SH_TargetID (half_open_row now until h) = SH_TargetID h"
  "SH_CircuitPhase (half_open_row now until h) = ''half_open''"
  "SH_HalfOpenLeaseUntil (half_open_row now until h) = Some until"
  "SH_CooldownUntil (half_open_row now until h) = SH_CooldownUntil h"
  "SH_CapabilityState (half_open_row now until h) = SH_CapabilityState h"
  by (simp_all add: half_open_row_def)

text \<open>What a permit request does to the row of its target, on the table that has the row.\<close>

definition permit_row :: "int \<Rightarrow> int \<Rightarrow> bool \<Rightarrow> site_health \<Rightarrow> site_health \<times> bool" where
  "permit_row now until probe h =
     (if SH_CapabilityState h = ''unsupported'' \<and> \<not> probe then (h, False)
      else if SH_CircuitPhase h = ''closed'' then (h, True)
      else if SH_CircuitPhase h = ''open'' \<and> still_ahead (SH_CooldownUntil h) now \<or>
              still_ahead (SH_HalfOpenLeaseUntil h) now then (h, False)
      else (half_open_row now until h, True))"

definition with_health_row :: "int \<Rightarrow> int \<Rightarrow> site_health_db \<Rightarrow> site_health list" where
  "with_health_row target now db =
     (if row_by TR_ID target (site_targets db) \<noteq> None \<and> row_by SH_TargetID target (target_health_rows db) = None
      then target_health_rows db @ [empty_health target now] else target_health_rows db)"

lemma with_health_row_wf:
  assumes "site_health_wf db"
  shows "unique_key SH_TargetID (with_health_row target now db) \<and> (\<forall>h \<in> set (with_health_row target now db). health_wf h)"
  using assms by (auto simp: with_health_row_def site_health_wf_def unique_key_append_row)

lemma with_health_row_by:
  "row_by SH_TargetID k (with_health_row target now db) =
     (if k = target \<and> row_by TR_ID target (site_targets db) \<noteq> None \<and>
         row_by SH_TargetID target (target_health_rows db) = None
      then Some (empty_health target now) else row_by SH_TargetID k (target_health_rows db))"
  by (auto simp: with_health_row_def row_by_append row_simps split: option.splits)

lemma acquire_site_permit_eq:
  "acquire_route_site_target_permit target now lease probe db =
     (if target \<le> 0 then Inl (ErrText ''route site target ID must be positive'')
      else case row_by SH_TargetID target (with_health_row target now db) of
        None \<Rightarrow> Inl ErrNoRows
      | Some h \<Rightarrow> Inr
          (if SH_CapabilityState h = ''unsupported'' \<and> \<not> probe
           then (False, db\<lparr>target_health_rows := with_health_row target now db\<rparr>)
           else if SH_CircuitPhase h = ''closed''
           then (True, db\<lparr>target_health_rows := with_health_row target now db\<rparr>)
           else if SH_CircuitPhase h = ''open'' \<and> still_ahead (SH_CooldownUntil h) now \<or>
                   still_ahead (SH_HalfOpenLeaseUntil h) now
           then (False, db\<lparr>target_health_rows := with_health_row target now db\<rparr>)
           else (let s = sql_update
                   (\<lambda>r. SH_TargetID r = target \<and> SH_CircuitPhase r \<noteq> ''closed'' \<and>
                        \<not> still_ahead (SH_HalfOpenLeaseUntil r) now)
                   (half_open_row now (now + site_lease_ms lease)) (with_health_row target now db)
                 in (snd s = 1, db\<lparr>target_health_rows := fst s\<rparr>))))"
  unfolding acquire_route_site_target_permit_def Let_def half_open_row_def [abs_def]
    site_lease_ms_def with_health_row_def case_prod_unfold
  by (auto split: option.split)

lemma permit_row_target [simp]: "SH_TargetID (fst (permit_row now until probe h)) = SH_TargetID h"
  by (simp add: permit_row_def)

lemma acquire_site_permit_ok:
  assumes "site_health_wf db"
    and "acquire_route_site_target_permit target now lease probe db = Inr (granted, db')"
  obtains h where "row_by SH_TargetID target (with_health_row target now db) = Some h" and "0 < target"
    and "granted = snd (permit_row now (now + site_lease_ms lease) probe h)"
    and "db' = db\<lparr>target_health_rows := upsert_health_rows
           (fst (permit_row now (now + site_lease_ms lease) probe h)) (with_health_row target now db)\<rparr>"
proof -
  let ?rows = "with_health_row target now db"
  have u: "unique_key SH_TargetID ?rows" using with_health_row_wf [OF assms(1)] by simp
  from assms(2) obtain h where h: "row_by SH_TargetID target ?rows = Some h" and t: "0 < target"
    by (auto simp: acquire_site_permit_eq split: if_splits option.splits)
  have hk: "SH_TargetID h = target" using row_by_SomeD [OF h] by simp
  have same: "upsert_health_rows h ?rows = ?rows"
    using upsert_same [OF u] h hk by (simp add: upsert_health_rows_def)
  have upd: "sql_update (\<lambda>r. SH_TargetID r = target \<and> SH_CircuitPhase r \<noteq> ''closed'' \<and>
        \<not> still_ahead (SH_HalfOpenLeaseUntil r) now) (half_open_row now (now + site_lease_ms lease)) ?rows =
      (upsert_health_rows (half_open_row now (now + site_lease_ms lease) h) ?rows, 1)"
    if "SH_CircuitPhase h \<noteq> ''closed''" "\<not> still_ahead (SH_HalfOpenLeaseUntil h) now"
    unfolding upsert_health_rows_def by (rule update_one_row [OF u h]) (use that hk in auto)
  show thesis
  proof (rule that [OF h t])
    show "granted = snd (permit_row now (now + site_lease_ms lease) probe h)"
      using assms(2) h t upd by (auto simp: acquire_site_permit_eq permit_row_def split: if_splits)
    show "db' = db\<lparr>target_health_rows := upsert_health_rows
           (fst (permit_row now (now + site_lease_ms lease) probe h)) ?rows\<rparr>"
      using assms(2) h t upd same by (auto simp: acquire_site_permit_eq permit_row_def split: if_splits)
  qed
qed

lemma permit_row_wf: "health_wf h \<Longrightarrow> health_wf (fst (permit_row now until probe h))"
  by (auto simp: permit_row_def half_open_row_def health_wf_def health_row_valid_def)

lemma acquire_site_permit_wf:
  assumes "site_health_wf db"
    and "acquire_route_site_target_permit target now lease probe db = Inr (granted, db')"
  shows "site_health_wf db'"
proof -
  from acquire_site_permit_ok [OF assms] obtain h where
    h: "row_by SH_TargetID target (with_health_row target now db) = Some h"
    and db': "db' = db\<lparr>target_health_rows := upsert_health_rows
           (fst (permit_row now (now + site_lease_ms lease) probe h)) (with_health_row target now db)\<rparr>" .
  have "site_health_wf (db\<lparr>target_health_rows := with_health_row target now db\<rparr>)" "health_wf h"
    using with_health_row_wf [OF assms(1), of target now] row_by_SomeD [OF h] by (auto simp: site_health_wf_def)
  from upsert_wf [OF this(1) permit_row_wf [OF this(2)]] show ?thesis by (simp add: db')
qed

lemma site_view_row:
  "row_by SH_TargetID target (target_health_rows db) = Some h \<Longrightarrow> site_view target db =
    \<lparr>pv_phase = SH_CircuitPhase h, pv_capability = SH_CapabilityState h,
     pv_cooldown = SH_CooldownUntil h, pv_lease = SH_HalfOpenLeaseUntil h\<rparr>"
  by (simp add: site_view_def current_health_def apply_health_nulls_def)

lemma site_view_none:
  "row_by SH_TargetID target (target_health_rows db) = None \<Longrightarrow> site_view target db =
    \<lparr>pv_phase = ''closed'', pv_capability = ''unknown'', pv_cooldown = None, pv_lease = None\<rparr>"
  by (simp add: site_view_def current_health_def apply_health_nulls_def)

lemma site_view_with_row:
  "row_by SH_TargetID target (with_health_row target now db) = Some h \<Longrightarrow> site_view target db =
    \<lparr>pv_phase = SH_CircuitPhase h, pv_capability = SH_CapabilityState h,
     pv_cooldown = SH_CooldownUntil h, pv_lease = SH_HalfOpenLeaseUntil h\<rparr>"
  by (auto simp: with_health_row_by site_view_row site_view_none split: if_splits)

lemma acquire_site_permit_view:
  assumes "site_health_wf db"
    and "acquire_route_site_target_permit target now lease probe db = Inr (granted, db')"
  shows "(site_view target db', granted) = spec_permit now (now + site_lease_ms lease) probe (site_view target db)"
proof -
  from acquire_site_permit_ok [OF assms] obtain h where
    h: "row_by SH_TargetID target (with_health_row target now db) = Some h"
    and g: "granted = snd (permit_row now (now + site_lease_ms lease) probe h)"
    and db': "db' = db\<lparr>target_health_rows := upsert_health_rows
           (fst (permit_row now (now + site_lease_ms lease) probe h)) (with_health_row target now db)\<rparr>" .
  let ?h = "fst (permit_row now (now + site_lease_ms lease) probe h)"
  have "row_by SH_TargetID target (target_health_rows db') = Some ?h"
    using row_by_SomeD [OF h] by (simp add: db' upsert_health_row_by)
  then show ?thesis
    by (simp add: site_view_row site_view_with_row [OF h] g permit_row_def spec_permit_def)
qed

lemma acquire_site_permit_frame:
  assumes "site_health_wf db"
    and "acquire_route_site_target_permit target now lease probe db = Inr (granted, db')"
    and "other \<noteq> target"
  shows "site_view other db' = site_view other db"
proof -
  from acquire_site_permit_ok [OF assms(1,2)] obtain h where
    h: "row_by SH_TargetID target (with_health_row target now db) = Some h"
    and db': "db' = db\<lparr>target_health_rows := upsert_health_rows
           (fst (permit_row now (now + site_lease_ms lease) probe h)) (with_health_row target now db)\<rparr>" .
  have "row_by SH_TargetID other (target_health_rows db') = row_by SH_TargetID other (target_health_rows db)"
    using row_by_SomeD [OF h] assms(3) by (simp add: db' upsert_health_row_by with_health_row_by)
  then show ?thesis by (simp add: site_view_def current_health_def)
qed

text \<open>The model keeps the contract, so the lemmas of the contract hold for it.\<close>

interpretation site_permits: permit_store site_health_wf site_view acquire_route_site_target_permit site_lease_ms
  by unfold_locales (fact acquire_site_permit_wf acquire_site_permit_view acquire_site_permit_frame)+

lemma acquire_site_permit_tables:
  assumes "acquire_route_site_target_permit target now lease probe db = Inr (granted, db')"
  shows "site_targets db' = site_targets db \<and> model_policies db' = model_policies db"
  using assms by (auto simp: acquire_site_permit_eq Let_def split: if_splits option.splits)

text \<open>The count, the decision and the cooldown of the failure, apart.\<close>

definition counted_failures :: "site_health \<Rightarrow> health_policy \<Rightarrow> int \<Rightarrow> int" where
  "counted_failures h p now =
     (case SH_LastFailureAt h of
        Some t \<Rightarrow> if t \<le> now \<and> now - t \<le> FailureWindowSeconds p * 1000 then SH_ConsecutiveFailures h + 1 else 1
      | None \<Rightarrow> 1)"

definition stays_closed :: "site_health \<Rightarrow> health_policy \<Rightarrow> int \<Rightarrow> int \<Rightarrow> bool" where
  "stays_closed h p now delay \<longleftrightarrow>
     SH_CircuitPhase h \<notin> {''open'', ''half_open''} \<and> delay \<le> 0 \<and> counted_failures h p now < FailureThreshold p"

definition new_cooldown :: "site_health \<Rightarrow> health_policy \<Rightarrow> int \<Rightarrow> int \<Rightarrow> int" where
  "new_cooldown h p now delay =
     (let c = now + duration_ms (max (max (CooldownSeconds p * second) delay) second) in
      case SH_CooldownUntil h of Some c0 \<Rightarrow> max c0 c | None \<Rightarrow> c)"

lemma penalize_target_sel:
  fixes policy event
  defines "p \<equiv> normalize_health_policy policy"
    and "delay \<equiv> max (EvRetryAfter event) (RetryAfter (EvDecision event))"
  shows "SH_LastFailureAt (penalize_target h nxt policy event) = Some (EvOccurredAt event)"
    and "SH_HalfOpenLeaseUntil (penalize_target h nxt policy event) = None"
    and "SH_CircuitPhase (penalize_target h nxt policy event) =
      (if stays_closed h p (EvOccurredAt event) delay then ''closed'' else ''open'')"
    and "SH_ConsecutiveFailures (penalize_target h nxt policy event) =
      (if stays_closed h p (EvOccurredAt event) delay then counted_failures h p (EvOccurredAt event) else 0)"
    and "SH_CooldownUntil (penalize_target h nxt policy event) =
      (if stays_closed h p (EvOccurredAt event) delay then None
       else Some (new_cooldown h p (EvOccurredAt event) delay))"
proof -
  have count: "(if (case SH_LastFailureAt h of None \<Rightarrow> False
        | Some t \<Rightarrow> EvOccurredAt event \<ge> t \<and> EvOccurredAt event - t \<le> FailureWindowSeconds p * 1000)
      then SH_ConsecutiveFailures h + 1 else 1) = counted_failures h p (EvOccurredAt event)"
    by (simp add: counted_failures_def split: option.split)
  have opens: "(SH_CircuitPhase h = ''open'' \<or> SH_CircuitPhase h = ''half_open'' \<or> delay > 0 \<or>
      counted_failures h p (EvOccurredAt event) \<ge> FailureThreshold p) = (\<not> stays_closed h p (EvOccurredAt event) delay)"
    by (auto simp: stays_closed_def)
  have cool: "(case SH_CooldownUntil h of None \<Rightarrow> c | Some c0 \<Rightarrow> if c < c0 then c0 else c) =
      (case SH_CooldownUntil h of None \<Rightarrow> c | Some c0 \<Rightarrow> max c0 c)" for c :: int
    by (simp split: option.split)
  note def = penalize_target_def [of h nxt policy event, folded p_def, folded delay_def,
      unfolded Let_def, folded delay_def, unfolded count opens cool]
  show "SH_LastFailureAt (penalize_target h nxt policy event) = Some (EvOccurredAt event)"
    and "SH_HalfOpenLeaseUntil (penalize_target h nxt policy event) = None"
    and "SH_CircuitPhase (penalize_target h nxt policy event) =
      (if stays_closed h p (EvOccurredAt event) delay then ''closed'' else ''open'')"
    and "SH_ConsecutiveFailures (penalize_target h nxt policy event) =
      (if stays_closed h p (EvOccurredAt event) delay then counted_failures h p (EvOccurredAt event) else 0)"
    and "SH_CooldownUntil (penalize_target h nxt policy event) =
      (if stays_closed h p (EvOccurredAt event) delay then None
       else Some (new_cooldown h p (EvOccurredAt event) delay))"
    by (simp_all add: def new_cooldown_def Let_def)
qed

lemma new_cooldown_bounds:
  assumes "0 \<le> CooldownSeconds p"
  shows "now + CooldownSeconds p * 1000 \<le> new_cooldown h p now delay"
    and "now + duration_ms delay \<le> new_cooldown h p now delay"
    and "SH_CooldownUntil h = Some c0 \<Longrightarrow> c0 \<le> new_cooldown h p now delay"
proof -
  let ?cool = "max (max (CooldownSeconds p * second) delay) second"
  have "CooldownSeconds p * 1000 \<le> duration_ms ?cool"
    using duration_ms_mono [of "CooldownSeconds p * second" ?cool] assms by simp
  moreover have "duration_ms delay \<le> duration_ms ?cool"
    using duration_ms_mono [of delay ?cool] duration_ms_nonpos [of delay] duration_ms_nonneg [of ?cool]
    by linarith
  ultimately show "now + CooldownSeconds p * 1000 \<le> new_cooldown h p now delay"
    and "now + duration_ms delay \<le> new_cooldown h p now delay"
    by (auto simp: new_cooldown_def Let_def split: option.splits)
  show "SH_CooldownUntil h = Some c0 \<Longrightarrow> c0 \<le> new_cooldown h p now delay"
    by (simp add: new_cooldown_def Let_def)
qed

lemma target_policy_tables:
  "site_targets db' = site_targets db \<Longrightarrow> model_policies db' = model_policies db \<Longrightarrow> target_policy target db' = target_policy target db"
  by (simp add: target_policy_def cong: option.case_cong)

text \<open>The outcomes that are reported of a target: with the clock, should the event carry no time.\<close>

definition health_report ::
  "(string \<Rightarrow> string) \<Rightarrow> int \<times> int \<times> health_event \<Rightarrow> site_health_db \<Rightarrow> (store_error, site_health_db) result" where
  "health_report redact e db = (case e of (clock, target, event) \<Rightarrow> apply_health_event redact clock target event db)"

definition counts_against_target :: "health_event \<Rightarrow> bool" where
  "counts_against_target event \<longleftrightarrow> EvKind event = route_site_target_health_failure \<and>
     PenalizeTarget (EvDecision event) \<and> \<not> UnsupportedModel (EvDecision event)"

text \<open>Until when a failure keeps its target closed off at least, if it opens the circuit.\<close>

definition closed_off_until :: "health_policy \<Rightarrow> int \<Rightarrow> int \<Rightarrow> int" where
  "closed_off_until policy now delay =
     now + max (CooldownSeconds (normalize_health_policy policy) * 1000) (duration_ms delay)"

definition reopens_at :: "int \<times> int \<times> health_event \<Rightarrow> site_health_db \<Rightarrow> int option" where
  "reopens_at e db = (case e of (clock, target, event) \<Rightarrow>
     if counts_against_target event
     then map_option (\<lambda>p. closed_off_until p (EvOccurredAt (stamped clock event))
            (max (EvRetryAfter event) (RetryAfter (EvDecision event)))) (target_policy target db)
     else None)"

lemma stamped_sel [simp]:
  "EvDecision (stamped clock event) = EvDecision event" "EvRetryAfter (stamped clock event) = EvRetryAfter event"
  by (simp_all add: stamped_def)

lemma reduce_cases:
  assumes "health_wf current" and "reduce_route_site_target_health redact current policy event = Inr (nxt, changed)"
  obtains (same) "SH_CircuitPhase nxt = SH_CircuitPhase current" and "SH_CooldownUntil nxt = SH_CooldownUntil current"
      and "SH_HalfOpenLeaseUntil nxt = SH_HalfOpenLeaseUntil current"
  | (closed) "SH_CircuitPhase nxt = ''closed''"
  | (penalized) nxt0 where "nxt = penalize_target current nxt0 policy event" and "counts_against_target event"
  using assms(2)
  by (auto simp: reduce_route_site_target_health_def with_default_phases_wf [OF assms(1)] Let_def
      counts_against_target_def event_kinds split: if_splits)

lemma penalize_closed_off:
  "SH_CircuitPhase (penalize_target h nxt policy event) = ''closed'' \<or>
   SH_CircuitPhase (penalize_target h nxt policy event) = ''open'' \<and>
   (\<exists>c. SH_CooldownUntil (penalize_target h nxt policy event) = Some c \<and>
      closed_off_until policy (EvOccurredAt event) (max (EvRetryAfter event) (RetryAfter (EvDecision event))) \<le> c)"
proof -
  let ?p = "normalize_health_policy policy" and ?d = "max (EvRetryAfter event) (RetryAfter (EvDecision event))"
  have "0 \<le> CooldownSeconds ?p" by (simp add: normalize_health_policy_def)
  note bounds = new_cooldown_bounds(1,2) [OF this, where now = "EvOccurredAt event" and h = h and delay = ?d]
  then have "closed_off_until policy (EvOccurredAt event) ?d \<le> new_cooldown h ?p (EvOccurredAt event) ?d"
    unfolding closed_off_until_def by linarith
  then show ?thesis by (simp add: penalize_target_sel)
qed

text \<open>The model keeps the contract of a store that records outcomes.\<close>

interpretation site_circuits: circuit_store site_health_wf site_view acquire_route_site_target_permit site_lease_ms
    "health_report redact" "\<lambda>e. fst (snd e)" reopens_at for redact :: "string \<Rightarrow> string"
proof unfold_locales
  show "0 \<le> site_lease_ms lease" for lease using site_lease_ms_pos [of lease] by simp
  show "reopens_at e db' = reopens_at e db"
    if "site_health_wf db" "acquire_route_site_target_permit target now lease probe db = Inr (granted, db')"
    for db target now lease probe granted db' e
    using acquire_site_permit_tables [OF that(2)] target_policy_tables [of db' db] by (cases e) (simp add: reopens_at_def)
next
  fix db db' :: site_health_db and e
  assume wf: "site_health_wf db" and rep: "health_report redact e db = Inr db'"
  obtain clock target event where e: "e = (clock, target, event)" by (cases e)
  from apply_health_event_ok [OF wf, of redact clock target event db'] rep
  obtain policy changed where p: "target_policy target db = Some policy"
    and red: "reduce_route_site_target_health redact (current_health target db) policy (stamped clock event) =
      Inr (current_health target db', changed)"
    and wf': "site_health_wf db'" and tables: "site_targets db' = site_targets db" "model_policies db' = model_policies db"
    and frame: "\<And>k. k \<noteq> target \<Longrightarrow> row_by SH_TargetID k (target_health_rows db') = row_by SH_TargetID k (target_health_rows db)"
    by (auto simp: health_report_def e)
  show "site_health_wf db'" by (rule wf')
  show "reopens_at e' db' = reopens_at e' db" for e'
    by (cases e') (simp add: reopens_at_def target_policy_tables [OF tables])
  show "site_view other db' = site_view other db" if "other \<noteq> fst (snd e)" for other
    using that frame [of other] by (simp add: e site_view_def current_health_def)
  show "pv_phase v' = pv_phase v \<and> pv_cooldown v' = pv_cooldown v \<and> pv_lease v' = pv_lease v \<or> pv_phase v' = ''closed'' \<or>
      pv_phase v' = ''open'' \<and> (\<exists>n c. reopens_at e db = Some n \<and> pv_cooldown v' = Some c \<and> n \<le> c)"
    if v: "v = site_view (fst (snd e)) db" "v' = site_view (fst (snd e)) db'" for v v'
    using current_health_wf [OF wf] red
  proof (cases rule: reduce_cases)
    case (penalized nxt0)
    have "counts_against_target event" using penalized(2) by (simp add: counts_against_target_def)
    then show ?thesis
      using penalize_closed_off [of "current_health target db" nxt0 policy "stamped clock event"] penalized(1) p
      by (auto simp: v e site_view_def Let_def reopens_at_def)
  qed (simp_all add: v e site_view_def Let_def)
qed

subsection \<open>Properties\<close>

text \<open>The store as a transition system: permits and health events in any order.\<close>

inductive site_health_step :: "(string \<Rightarrow> string) \<Rightarrow> site_health_db \<Rightarrow> site_health_db \<Rightarrow> bool"
  for redact :: "string \<Rightarrow> string" where
  permit: "acquire_route_site_target_permit target now lease probe db = Inr (granted, db') \<Longrightarrow>
    site_health_step redact db db'"
| event: "apply_health_event redact clock target ev db = Inr db' \<Longrightarrow> site_health_step redact db db'"

inductive_cases site_health_stepE: "site_health_step redact db db'"

lemma site_health_step_keeps:
  assumes "site_health_step redact db db'" and "site_health_wf db"
  shows "site_health_wf db' \<and> site_targets db' = site_targets db \<and> model_policies db' = model_policies db"
  using assms(1)
proof (rule site_health_stepE)
  fix target now lease probe granted
  assume "acquire_route_site_target_permit target now lease probe db = Inr (granted, db')"
  then show ?thesis
    using acquire_site_permit_wf [OF assms(2)] acquire_site_permit_tables by blast
next
  fix clock target ev
  assume "apply_health_event redact clock target ev db = Inr db'"
  from apply_health_event_ok [OF assms(2) this] show ?thesis by blast
qed

text \<open>
  \<^bold>\<open>C11.\<close> Whatever permits are requested and whatever events are recorded, in any order, every
  row of the health table stays well formed: one row per target, a phase and a capability of the
  schema, no cooldown or lease on a closed circuit, a cooldown and no lease on an open one, a
  lease on a half-open one. The tables of targets and models are not written.
\<close>

theorem site_health_reachable_wf:
  assumes "(site_health_step redact)\<^sup>*\<^sup>* db db'" and "target_health_rows db = []"
  shows "site_health_wf db' \<and> site_targets db' = site_targets db \<and> model_policies db' = model_policies db"
  using assms
proof (induction rule: rtranclp_induct)
  case base
  then show ?case by (simp add: site_health_wf_def unique_key_def)
next
  case (step db1 db2)
  then show ?case using site_health_step_keeps [OF step.hyps(2)] by auto
qed

definition demo_health_db :: site_health_db where
  "demo_health_db = \<lparr>site_targets = [\<lparr>TR_ID = 7, TR_PublishedModelID = 1, TR_Position = 0\<rparr>],
     model_policies = [\<lparr>MP_ID = 1, MP_Policy =
       \<lparr>FailureThreshold = 3, FailureWindowSeconds = 60, CooldownSeconds = 30\<rparr>\<rparr>],
     target_health_rows = []\<rparr>"

definition demo_failure :: "string \<Rightarrow> int \<Rightarrow> site_health_db \<Rightarrow> (store_error, site_health_db) result" where
  "demo_failure incident now db = record_route_site_target_failure id 1 7
     ((decision_of ClassTransport)\<lparr>Failover := True, PenalizeTarget := True\<rparr>) incident ''reset'' now 0 db"

definition demo_open_row :: site_health where
  "demo_open_row = \<lparr>SH_TargetID = 7, SH_CircuitPhase = ''open'', SH_ConsecutiveFailures = 0,
     SH_LastFailureAt = Some 3000, SH_LastSuccessAt = None, SH_CooldownUntil = Some 33000,
     SH_HalfOpenLeaseUntil = None, SH_CapabilityState = ''unknown'', SH_LastErrorClass = ''transport'',
     SH_LastErrorMessage = ''reset'', SH_LastIncidentID = ''c'', SH_UpdatedAt = 3000\<rparr>"

definition demo_open_db :: site_health_db where
  "demo_open_db = demo_health_db\<lparr>target_health_rows := [demo_open_row]\<rparr>"

lemma demo_open_db_wf: "site_health_wf demo_open_db"
  by (simp add: demo_open_db_def demo_open_row_def demo_health_db_def site_health_wf_def unique_key_def
      health_wf_def health_row_valid_def)

theorem site_health_reachable_wf_witness:
  "\<exists>db'. acquire_route_site_target_permit 7 1000 0 False demo_health_db = Inr (True, db') \<and> site_health_wf db'"
proof -
  have "acquire_route_site_target_permit 7 1000 0 False demo_health_db =
      Inr (True, demo_health_db\<lparr>target_health_rows := [empty_health 7 1000]\<rparr>)"
    by (simp add: acquire_route_site_target_permit_def demo_health_db_def row_simps Let_def)
  moreover from this have "(site_health_step id)\<^sup>*\<^sup>* demo_health_db
      (demo_health_db\<lparr>target_health_rows := [empty_health 7 1000]\<rparr>)"
    by (intro r_into_rtranclp site_health_step.permit)
  ultimately show ?thesis
    using site_health_reachable_wf [of id demo_health_db] by (auto simp: demo_health_db_def)
qed

text \<open>A penalised failure that is not the duplicate of the last incident reduces the row.\<close>

lemma reduce_penalized:
  assumes "reduce_route_site_target_health redact current policy event = Inr (nxt, changed)"
    and "health_wf current" and "EvKind event = route_site_target_health_failure"
    and "PenalizeTarget (EvDecision event)" and "\<not> UnsupportedModel (EvDecision event)"
    and "EvIncidentID event = [] \<or> EvIncidentID event \<noteq> SH_LastIncidentID current"
  shows "nxt = penalize_target current
    (current\<lparr>SH_UpdatedAt := EvOccurredAt event, SH_LastErrorClass := class_string (Class (EvDecision event)),
       SH_LastErrorMessage := redact (EvErrorMessage event), SH_LastIncidentID := EvIncidentID event\<rparr>) policy event"
  using assms
  by (auto simp: reduce_route_site_target_health_def event_kinds with_default_phases_wf Let_def split: if_splits)

lemma failure_event_row:
  assumes wf: "site_health_wf db"
    and rec: "record_route_site_target_failure redact clock target d incident message now retry_after db = Inr db'"
    and now: "0 < now" and d: "PenalizeTarget d" "\<not> UnsupportedModel d"
    and fresh: "trim_space incident = [] \<or> trim_space incident \<noteq> SH_LastIncidentID (current_health target db)"
  obtains policy nxt event where "target_policy target db = Some policy"
    and "current_health target db' = penalize_target (current_health target db) nxt policy event"
    and "EvOccurredAt event = now" and "EvRetryAfter event = retry_after" and "EvDecision event = d"
proof -
  let ?event = "\<lparr>EvKind = route_site_target_health_failure, EvDecision = d, EvIncidentID = trim_space incident,
    EvErrorMessage = redact message, EvOccurredAt = now, EvRetryAfter = retry_after\<rparr>"
  have stamp: "stamped clock ?event = ?event" using now by (simp add: stamped_id)
  from apply_health_event_ok [OF wf rec [unfolded record_route_site_target_failure_def]]
  obtain policy nxt changed where p: "target_policy target db = Some policy"
    and red: "reduce_route_site_target_health redact (current_health target db) policy ?event = Inr (nxt, changed)"
    and nxt: "current_health target db' = nxt"
    unfolding stamp by blast
  show thesis
    using that [OF p, of _ ?event] reduce_penalized [OF red current_health_wf [OF wf]] d fresh nxt by simp
qed

text \<open>
  An incident counts once: after a failure has been recorded under an incident ID,
  recording a failure under the same ID again, with any decision, message, time or retry delay,
  succeeds and leaves the database as it is.
\<close>

theorem duplicate_incident_counts_once:
  assumes "site_health_wf db" and "trim_space incident \<noteq> ''''" and "0 < clock'"
    and "record_route_site_target_failure redact clock target d incident message now retry_after db = Inr db'"
  shows "record_route_site_target_failure redact clock' target d' incident message' now' retry_after' db' = Inr db'"
proof -
  from apply_health_event_ok [OF assms(1) assms(4) [unfolded record_route_site_target_failure_def]]
  obtain policy nxt changed where p: "target_policy target db = Some policy" and t: "0 < target"
    and inc: "SH_LastIncidentID nxt = trim_space incident"
    and wf: "site_health_wf db'" and "current_health target db' = nxt"
    and same: "site_targets db' = site_targets db" "model_policies db' = model_policies db"
    using reduce_incident by fastforce
  then have inc': "SH_LastIncidentID (current_health target db') = trim_space incident" by simp
  let ?event = "\<lparr>EvKind = route_site_target_health_failure, EvDecision = d', EvIncidentID = trim_space incident,
    EvErrorMessage = redact message', EvOccurredAt = now', EvRetryAfter = retry_after'\<rparr>"
  have "reduce_route_site_target_health redact (current_health target db') policy (stamped clock' ?event) =
      Inr (current_health target db', False)"
    by (rule reduce_duplicate)
      (use t current_health_wf [OF wf] inc' assms(2) stamped_pos [OF assms(3)] in simp_all)
  moreover have "target_policy target db' = Some policy"
    using p unfolding target_policy_def same .
  ultimately show ?thesis
    using t by (simp add: record_route_site_target_failure_def apply_health_event_eq)
qed

definition demo_counted_db :: site_health_db where
  "demo_counted_db = demo_health_db\<lparr>target_health_rows := [demo_open_row\<lparr>SH_CircuitPhase := ''closed'',
     SH_ConsecutiveFailures := 2, SH_LastFailureAt := Some 2000, SH_CooldownUntil := None,
     SH_LastIncidentID := ''b'', SH_UpdatedAt := 2000\<rparr>]\<rparr>"

lemma demo_trims: "trim_space ''c'' = ''c''" "trim_space ''d'' = ''d''"
  by code_simp+

lemma demo_third_failure: "demo_failure ''c'' 3000 demo_counted_db = Inr demo_open_db"
  unfolding demo_failure_def record_route_site_target_failure_def demo_trims
  by (simp add: demo_counted_db_def demo_health_db_def demo_open_db_def demo_open_row_def
      apply_health_event_def get_health_policy_tx_def row_simps apply_health_nulls_def)
    (simp add: reduce_route_site_target_health_def with_default_phases_def
      event_kinds penalize_target_def normalize_health_policy_def Let_def
      upsert_route_site_target_health_tx_def health_row_valid_def upsert_health_rows_def sql_upsert_def
      sql_update_def duration_ms_def row_simps)

theorem duplicate_incident_counts_once_witness:
  "demo_failure ''c'' 9000 demo_open_db = Inr demo_open_db"
proof -
  have "site_health_wf demo_counted_db"
    by (simp add: demo_counted_db_def demo_open_row_def demo_health_db_def site_health_wf_def unique_key_def
        health_wf_def health_row_valid_def)
  from duplicate_incident_counts_once [OF this _ _ demo_third_failure [unfolded demo_failure_def], of 1]
  show ?thesis by (simp add: demo_failure_def demo_trims)
qed

text \<open>
  \<^bold>\<open>C14.\<close> What a penalised failure does to the circuit of its target. A closed circuit stays closed,
  with one failure more counted (or the first one, when the previous lies outside the window),
  exactly as long as that count is below the model's threshold and the upstream asked for no
  retry delay. Otherwise the circuit is open, with the count reset and no lease, and it is open
  for at least the policy's cooldown, at least the retry delay, and never less long than it was.
\<close>

theorem failure_opens_or_counts:
  assumes "site_health_wf db"
    and "record_route_site_target_failure redact clock target d incident message now retry_after db = Inr db'"
    and "0 < now" and "PenalizeTarget d" and "\<not> UnsupportedModel d"
    and "trim_space incident = '''' \<or> trim_space incident \<noteq> SH_LastIncidentID (current_health target db)"
  shows "\<exists>policy. target_policy target db = Some policy \<and>
    (let h = current_health target db; h' = current_health target db'; p = normalize_health_policy policy;
         delay = max retry_after (RetryAfter d); failures = counted_failures h p now
     in SH_LastFailureAt h' = Some now \<and> SH_HalfOpenLeaseUntil h' = None \<and>
        (if SH_CircuitPhase h = ''closed'' \<and> delay \<le> 0 \<and> failures < FailureThreshold p
         then SH_CircuitPhase h' = ''closed'' \<and> SH_ConsecutiveFailures h' = failures \<and> SH_CooldownUntil h' = None
         else SH_CircuitPhase h' = ''open'' \<and> SH_ConsecutiveFailures h' = 0 \<and>
           (\<exists>c. SH_CooldownUntil h' = Some c \<and> now + CooldownSeconds p * 1000 \<le> c \<and>
                now + duration_ms delay \<le> c \<and> (\<forall>c0. SH_CooldownUntil h = Some c0 \<longrightarrow> c0 \<le> c))))"
proof -
  obtain policy nxt event where p: "target_policy target db = Some policy"
    and h': "current_health target db' = penalize_target (current_health target db) nxt policy event"
    and ev: "EvOccurredAt event = now" "EvRetryAfter event = retry_after" "EvDecision event = d"
    using failure_event_row [OF assms] .
  let ?p = "normalize_health_policy policy"
  let ?delay = "max retry_after (RetryAfter d)"
  have "0 \<le> CooldownSeconds ?p" by (simp add: normalize_health_policy_def)
  note bounds = new_cooldown_bounds [OF this]
  have "SH_CircuitPhase (current_health target db) \<in> {''closed'', ''open'', ''half_open''}"
    using current_health_wf [OF assms(1), of target] by (simp add: health_wf_def health_row_valid_def)
  then have closed: "stays_closed (current_health target db) ?p now ?delay \<longleftrightarrow>
      SH_CircuitPhase (current_health target db) = ''closed'' \<and> ?delay \<le> 0 \<and>
      counted_failures (current_health target db) ?p now < FailureThreshold ?p"
    by (auto simp: stays_closed_def)
  show ?thesis
    unfolding Let_def
    by (intro exI [of _ policy] conjI p) (simp_all add: h' penalize_target_sel ev closed bounds del: max.bounded_iff)
qed

theorem failure_opens_or_counts_witness:
  "\<exists>db'. demo_failure ''d'' 40000 demo_open_db = Inr db' \<and>
     SH_CircuitPhase (current_health 7 db') = ''open'' \<and>
     (\<exists>c \<ge> 70000. SH_CooldownUntil (current_health 7 db') = Some c)"
proof -
  have pol: "target_policy 7 demo_open_db = Some \<lparr>FailureThreshold = 3, FailureWindowSeconds = 60, CooldownSeconds = 30\<rparr>"
    by (simp add: target_policy_def demo_open_db_def demo_health_db_def row_simps)
  obtain db' where db': "demo_failure ''d'' 40000 demo_open_db = Inr db'"
    using apply_health_event_total [OF demo_open_db_wf, of 7] pol
    unfolding demo_failure_def record_route_site_target_failure_def by force
  have cur: "current_health 7 demo_open_db = demo_open_row"
    by (simp add: current_health_def demo_open_db_def demo_open_row_def row_simps apply_health_nulls_def)
  have "trim_space ''d'' \<noteq> SH_LastIncidentID (current_health 7 demo_open_db)"
    unfolding cur demo_trims by (simp add: demo_open_row_def)
  from failure_opens_or_counts [OF demo_open_db_wf db' [unfolded demo_failure_def] _ _ _ disjI2 [OF this]] pol
  show ?thesis
    by (auto simp: db' cur demo_open_row_def Let_def normalize_health_policy_def split: if_splits)
qed

text \<open>
  The row stands for a state of the in-memory circuit of \<open>internal/health\<close>: no cooldown is 0, and the time of
  the last failure only matters as long as failures are counted (a success forgets it in memory, but
  leaves it in the row).
\<close>

definition stored_as :: "site_health \<Rightarrow> circuit_state \<Rightarrow> bool" where
  "stored_as h s \<longleftrightarrow> Phase s = SH_CircuitPhase h \<and> ConsecutiveFailures s = SH_ConsecutiveFailures h \<and>
     CooldownUntil s = (case SH_CooldownUntil h of Some t \<Rightarrow> t | None \<Rightarrow> 0) \<and>
     (ConsecutiveFailures s = 0 \<or> 0 < LastFailureAt s \<and> SH_LastFailureAt h = Some (LastFailureAt s))"

text \<open>
  What the store does differently: a failure on a circuit that is open already opens it again whatever the
  count, and a running cooldown is never shortened.
\<close>

definition record_failure_keeping_open ::
  "circuit_state \<Rightarrow> int \<Rightarrow> int \<Rightarrow> int \<Rightarrow> int \<Rightarrow> bool \<Rightarrow> circuit_state" where
  "record_failure_keeping_open s now threshold window cooldown immediate =
     (let s' = record_failure s now threshold window cooldown (immediate \<or> Phase s = ''open'')
      in if Phase s' = ''open'' then s'\<lparr>CooldownUntil := max (CooldownUntil s) (CooldownUntil s')\<rparr> else s')"

lemma record_failure_keeping_open_same:
  assumes "Phase s \<noteq> ''open''" and "CooldownUntil s \<le> now"
  shows "record_failure_keeping_open s now threshold window cooldown immediate =
    record_failure s now threshold window cooldown immediate"
proof -
  have "0 \<le> duration_ms (max cooldown second)" by (rule duration_ms_nonneg) simp
  with assms show ?thesis by (auto simp: record_failure_keeping_open_def record_failure_def Let_def)
qed

lemma penalize_stored_as:
  fixes policy event
  defines "p \<equiv> normalize_health_policy policy"
    and "delay \<equiv> max (EvRetryAfter event) (RetryAfter (EvDecision event))"
  assumes "health_wf h" and "stored_as h s" and "0 < EvOccurredAt event"
  shows "stored_as (penalize_target h nxt policy event)
    (record_failure_keeping_open s (EvOccurredAt event) (FailureThreshold p)
      (FailureWindowSeconds p * second) (max (CooldownSeconds p * second) delay) (delay > 0))"
proof -
  let ?now = "EvOccurredAt event"
  let ?cool = "max (max (CooldownSeconds p * second) delay) second"
  have p: "2 \<le> FailureThreshold p" "0 \<le> FailureWindowSeconds p"
    by (simp_all add: p_def normalize_health_policy_def)
  have count: "(if LastFailureAt s > 0 \<and> ?now \<ge> LastFailureAt s \<and>
        ?now - LastFailureAt s \<le> duration_ms (FailureWindowSeconds p * second)
      then ConsecutiveFailures s + 1 else 1) = counted_failures h p ?now"
    using assms(4) p(2) by (auto simp: stored_as_def counted_failures_def split: option.split)
  have closed: "stays_closed h p ?now delay \<longleftrightarrow>
      \<not> (Phase s = ''half_open'' \<or> delay > 0 \<or> Phase s = ''open'' \<or> counted_failures h p ?now \<ge> FailureThreshold p)"
    using assms(4) by (auto simp: stays_closed_def stored_as_def)
  have "0 \<le> duration_ms ?cool" by (rule duration_ms_nonneg) simp
  then have cool: "new_cooldown h p ?now delay = max (CooldownUntil s) (?now + duration_ms ?cool)"
    using assms(4,5) by (auto simp: new_cooldown_def stored_as_def Let_def split: option.split)
  have "record_failure s ?now (FailureThreshold p) (FailureWindowSeconds p * second)
      (max (CooldownSeconds p * second) delay) (0 < delay \<or> Phase s = ''open'') =
    (if stays_closed h p ?now delay
     then \<lparr>Phase = ''closed'', ConsecutiveFailures = counted_failures h p ?now, LastFailureAt = ?now, CooldownUntil = 0\<rparr>
     else \<lparr>Phase = ''open'', ConsecutiveFailures = 0, LastFailureAt = ?now, CooldownUntil = ?now + duration_ms ?cool\<rparr>)"
    unfolding record_failure_def Let_def count using p(1) closed by auto
  then show ?thesis
    using assms(5) cool
    by (simp add: record_failure_keeping_open_def stored_as_def Let_def penalize_target_sel flip: p_def delay_def)
qed

lemma success_event_row:
  assumes "site_health_wf db" and "record_route_site_target_success redact clock target now db = Inr db'"
  shows "SH_CircuitPhase (current_health target db') = ''closed''"
    and "SH_ConsecutiveFailures (current_health target db') = 0"
    and "SH_CooldownUntil (current_health target db') = None"
    and "SH_CapabilityState (current_health target db') = ''supported''"
    and "SH_LastFailureAt (current_health target db') = SH_LastFailureAt (current_health target db)"
proof -
  obtain changed policy ev where red: "reduce_route_site_target_health redact (current_health target db) policy ev =
      Inr (current_health target db', changed)" and kind: "EvKind ev = route_site_target_health_success"
    using apply_health_event_ok [OF assms(1) assms(2) [unfolded record_route_site_target_success_def]] by force
  have "\<exists>u s. current_health target db' = current_health target db\<lparr>SH_UpdatedAt := u, SH_CircuitPhase := ''closed'',
      SH_ConsecutiveFailures := 0, SH_LastSuccessAt := s, SH_CooldownUntil := None, SH_HalfOpenLeaseUntil := None,
      SH_CapabilityState := ''supported'', SH_LastErrorClass := '''', SH_LastErrorMessage := ''''\<rparr>"
    using red kind
    by (simp add: reduce_route_site_target_health_def with_default_phases_wf [OF current_health_wf [OF assms(1)]]
        event_kinds Let_def split: if_splits) (metis (no_types))
  then show "SH_CircuitPhase (current_health target db') = ''closed''"
    and "SH_ConsecutiveFailures (current_health target db') = 0"
    and "SH_CooldownUntil (current_health target db') = None"
    and "SH_CapabilityState (current_health target db') = ''supported''"
    and "SH_LastFailureAt (current_health target db') = SH_LastFailureAt (current_health target db)"
    by auto
qed

text \<open>
  \<^bold>\<open>C15.\<close> The stored circuit simulates the in-memory one. Whatever state a row stands for, a recorded
  success turns it into a row that stands for what \<open>health.RecordSuccess\<close> makes of the state, and a recorded failure
  that counts into one that stands for what \<open>health.RecordFailure\<close> makes of it under the model's normalised
  policy, with two differences: a failure on a circuit that is open already counts as an immediate one, as
  does one with a retry delay, and a running cooldown is not shortened. On a circuit that is not open, its cooldown
  over, there is no difference.
\<close>

theorem stored_circuit_refines_reducer:
  assumes "site_health_wf db" and "stored_as (current_health target db) s"
    and "record_route_site_target_failure redact clock target d incident message now retry_after db = Inr db'"
    and "0 < now" and "PenalizeTarget d" and "\<not> UnsupportedModel d"
    and "trim_space incident = [] \<or> trim_space incident \<noteq> SH_LastIncidentID (current_health target db)"
    and "record_route_site_target_success redact clock target later db = Inr db''"
  shows "\<exists>policy. target_policy target db = Some policy \<and>
    (let p = normalize_health_policy policy; delay = max retry_after (RetryAfter d);
         threshold = FailureThreshold p; window = FailureWindowSeconds p * second;
         cooldown = max (CooldownSeconds p * second) delay in
     stored_as (current_health target db')
       (record_failure_keeping_open s now threshold window cooldown (delay > 0)) \<and>
     (Phase s \<noteq> ''open'' \<and> CooldownUntil s \<le> now \<longrightarrow>
        record_failure_keeping_open s now threshold window cooldown (delay > 0) =
        record_failure s now threshold window cooldown (delay > 0))) \<and>
    stored_as (current_health target db'') (record_success s)"
proof -
  obtain policy nxt event where p: "target_policy target db = Some policy"
    and h': "current_health target db' = penalize_target (current_health target db) nxt policy event"
    and ev: "EvOccurredAt event = now" "EvRetryAfter event = retry_after" "EvDecision event = d"
    using failure_event_row [OF assms(1,3-7)] .
  have "stored_as (current_health target db'') (record_success s)"
    by (simp add: stored_as_def record_success_def success_event_row [OF assms(1,8)])
  then show ?thesis
    using penalize_stored_as [OF current_health_wf [OF assms(1)] assms(2), of event nxt policy] assms(4)
    by (intro exI [of _ policy]) (simp add: p h' ev Let_def record_failure_keeping_open_same)
qed

theorem stored_circuit_refines_reducer_witness:
  "\<exists>db'. demo_failure ''d'' 9000 demo_open_db = Inr db' \<and>
     stored_as (current_health 7 db') (record_failure_keeping_open
       \<lparr>Phase = ''open'', ConsecutiveFailures = 0, LastFailureAt = 3000, CooldownUntil = 33000\<rparr>
       9000 3 (60 * second) (30 * second) False) \<and>
     record_failure_keeping_open
       \<lparr>Phase = ''open'', ConsecutiveFailures = 0, LastFailureAt = 3000, CooldownUntil = 33000\<rparr>
       9000 3 (60 * second) (30 * second) False =
     \<lparr>Phase = ''open'', ConsecutiveFailures = 0, LastFailureAt = 9000, CooldownUntil = 39000\<rparr>"
proof -
  let ?s = "\<lparr>Phase = ''open'', ConsecutiveFailures = 0, LastFailureAt = 3000, CooldownUntil = 33000\<rparr>"
  have pol: "target_policy 7 demo_open_db = Some \<lparr>FailureThreshold = 3, FailureWindowSeconds = 60, CooldownSeconds = 30\<rparr>"
    by (simp add: target_policy_def demo_open_db_def demo_health_db_def row_simps)
  obtain db' where f: "demo_failure ''d'' 9000 demo_open_db = Inr db'"
    using apply_health_event_total [OF demo_open_db_wf, of 7] pol
    unfolding demo_failure_def record_route_site_target_failure_def by force
  obtain db'' where t: "record_route_site_target_success id 1 7 9000 demo_open_db = Inr db''"
    using apply_health_event_total [OF demo_open_db_wf, of 7] pol unfolding record_route_site_target_success_def by force
  have cur: "current_health 7 demo_open_db = demo_open_row"
    by (simp add: current_health_def demo_open_db_def demo_open_row_def row_simps apply_health_nulls_def)
  have s: "stored_as (current_health 7 demo_open_db) ?s" unfolding cur by (simp add: stored_as_def demo_open_row_def)
  have "trim_space ''d'' \<noteq> SH_LastIncidentID (current_health 7 demo_open_db)"
    unfolding cur demo_trims by (simp add: demo_open_row_def)
  from stored_circuit_refines_reducer [OF demo_open_db_wf s f [unfolded demo_failure_def] _ _ _ disjI2 [OF this] t] pol
  have "stored_as (current_health 7 db') (record_failure_keeping_open ?s 9000 3 (60 * second) (30 * second) False)"
    by (simp add: Let_def normalize_health_policy_def decision_of_def)
  then show ?thesis
    using f by (simp add: record_failure_keeping_open_def record_failure_def duration_ms_def)
qed

text \<open>
  \<^bold>\<open>C12.\<close> Trials of a broken site do not overlap. Take a permit granted on a target whose circuit is not closed,
  and a later one on the same target, its circuit again not closed, with any permit requests and any recorded
  outcomes in between, for any targets, by requests and by probes alike. Either the first one's lease, of at least a second,
  is over, or a failure that counts was recorded of the target in between and the model's cooldown, counted from that failure,
  is over.
\<close>

theorem half_open_trials_are_apart:
  assumes "site_health_wf db"
    and "acquire_route_site_target_permit t now lease probe db = Inr (True, db1)"
    and "SH_CircuitPhase (current_health t db) \<noteq> ''closed''"
    and "db2 = circuit_run acquire_route_site_target_permit (health_report redact) ops db1"
    and "acquire_route_site_target_permit t now' lease' probe' db2 = Inr (True, db3)"
    and "SH_CircuitPhase (current_health t db2) \<noteq> ''closed''"
  shows "now + duration_ms (max lease second) \<le> now' \<or>
    (\<exists>clock event policy. Report (clock, t, event) \<in> set ops \<and> counts_against_target event \<and>
       target_policy t db = Some policy \<and>
       EvOccurredAt (stamped clock event) + CooldownSeconds (normalize_health_policy policy) * 1000 \<le> now')"
proof -
  have phases: "pv_phase (site_view t db) \<noteq> ''closed''" "pv_phase (site_view t db2) \<noteq> ''closed''"
    using assms(3,6) by (simp_all add: site_view_def Let_def)
  from site_circuits.trials_apart [OF assms(1,2) phases(1) assms(4,5) phases(2)]
  show ?thesis
  proof (elim disjE exE conjE)
    fix e n
    assume e: "Report e \<in> set ops" "fst (snd e) = t" "reopens_at e db = Some n" "n \<le> now'"
    then obtain clock event policy where "e = (clock, t, event)" "counts_against_target event" "target_policy t db = Some policy"
      and n: "n = closed_off_until policy (EvOccurredAt (stamped clock event))
        (max (EvRetryAfter event) (RetryAfter (EvDecision event)))"
      by (cases e) (auto simp: reopens_at_def split: if_splits)
    moreover have "EvOccurredAt (stamped clock event) + CooldownSeconds (normalize_health_policy policy) * 1000 \<le> now'"
      using e(4) unfolding n closed_off_until_def by linarith
    ultimately show ?thesis using e(1) by blast
  qed (simp add: site_lease_ms_def)
qed

definition demo_event :: health_event where
  "demo_event = \<lparr>EvKind = ''failure'', EvDecision = (decision_of ClassTransport)\<lparr>Failover := True, PenalizeTarget := True\<rparr>,
     EvIncidentID = ''e'', EvErrorMessage = ''reset'', EvOccurredAt = 34000, EvRetryAfter = 0\<rparr>"

text \<open>A trial with a lease of a minute fails after a second; the next one begins after the cooldown, within that minute.\<close>

definition demo_trial_db :: site_health_db where
  "demo_trial_db = snd (projr (acquire_route_site_target_permit 7 33000 (60 * second) False demo_open_db))"

definition demo_between :: "(int \<times> int \<times> health_event) circuit_op list" where
  "demo_between = [Ask 7 33500 second True, Report (1, 7, demo_event), Ask 7 40000 second False]"

definition demo_failed_db :: site_health_db where
  "demo_failed_db = circuit_run acquire_route_site_target_permit (health_report id) demo_between demo_trial_db"

definition demo_again_db :: site_health_db where
  "demo_again_db = snd (projr (acquire_route_site_target_permit 7 64000 second False demo_failed_db))"

lemma demo_trials:
  "acquire_route_site_target_permit 7 33000 (60 * second) False demo_open_db = Inr (True, demo_trial_db)"
  "acquire_route_site_target_permit 7 64000 second False demo_failed_db = Inr (True, demo_again_db)"
  unfolding demo_trial_db_def demo_again_db_def by code_simp+

theorem half_open_trials_are_apart_witness:
  "acquire_route_site_target_permit 7 33000 (60 * second) False demo_open_db = Inr (True, demo_trial_db) \<and>
   acquire_route_site_target_permit 7 64000 second False demo_failed_db = Inr (True, demo_again_db) \<and>
   (\<exists>clock event. Report (clock, 7, event) \<in> set demo_between \<and> counts_against_target event \<and>
      EvOccurredAt (stamped clock event) + 30 * 1000 \<le> 64000)"
proof -
  have phases: "SH_CircuitPhase (current_health 7 demo_open_db) \<noteq> ''closed''"
    "SH_CircuitPhase (current_health 7 demo_failed_db) \<noteq> ''closed''" by code_simp+
  have pol: "target_policy 7 demo_open_db = Some \<lparr>FailureThreshold = 3, FailureWindowSeconds = 60, CooldownSeconds = 30\<rparr>"
    by code_simp
  have late: "\<not> 33000 + duration_ms (max (60 * second) second) \<le> 64000" by code_simp
  from half_open_trials_are_apart [OF demo_open_db_wf demo_trials(1) phases(1) demo_failed_db_def demo_trials(2) phases(2)]
    late pol
  have "\<exists>clock event. Report (clock, 7, event) \<in> set demo_between \<and> counts_against_target event \<and>
      EvOccurredAt (stamped clock event) + 30 * 1000 \<le> 64000"
    by (auto simp: normalize_health_policy_def)
  with demo_trials show ?thesis by blast
qed

lemma success_row_present:
  assumes "site_health_wf db" and "record_route_site_target_success redact clock target now db = Inr db'"
  shows "row_by SH_TargetID target (target_health_rows db') = Some (current_health target db')"
proof -
  have "\<exists>r. row_by SH_TargetID target (target_health_rows db') = Some r"
    using assms(2) reduce_wf [OF current_health_wf [OF assms(1)]]
    by (fastforce simp: record_route_site_target_success_def apply_health_event_eq
        upsert_route_site_target_health_tx_def upsert_health_row_by reduce_route_site_target_health_def
        event_kinds with_default_phases_def Let_def
        split: if_splits option.splits sum.splits)
  then show ?thesis by (auto simp: current_health_def apply_health_nulls_def)
qed

lemma penalize_opens:
  assumes "health_wf h" and "SH_CircuitPhase h \<noteq> ''closed''"
  shows "SH_CircuitPhase (penalize_target h nxt policy event) = ''open''"
  using assms by (auto simp: penalize_target_sel stays_closed_def health_wf_def health_row_valid_def)

text \<open>
  \<^bold>\<open>C13.\<close> An open circuit recovers. Before its cooldown ends nobody is admitted, probes included, and the row does not
  change; from the end of the cooldown on, the first request of a target whose model is not known as unsupported is
  admitted, and that trial decides. Its success can be recorded and closes the circuit (everybody is admitted
  again). Its failure, under any decision that counts, any message, any retry delay and any incident ID but that of the incident
  recorded last, can be recorded and opens the circuit anew, for at least the model's cooldown and the retry delay,
  both from its own time on.
\<close>

theorem open_circuit_recovers:
  assumes "site_health_wf db" and "0 < target" and "target_policy target db = Some policy"
    and "row_by SH_TargetID target (target_health_rows db) = Some h"
    and "SH_CircuitPhase h = ''open''" and "SH_CooldownUntil h = Some c" and "0 < t" and "0 < clock"
    and "PenalizeTarget d" and "\<not> UnsupportedModel d" and "trim_space incident = [] \<or> trim_space incident \<noteq> SH_LastIncidentID h"
  shows "\<exists>db'. acquire_route_site_target_permit target now lease probe db =
      Inr (c \<le> now \<and> (probe \<or> SH_CapabilityState h \<noteq> ''unsupported''), db') \<and>
    (now < c \<longrightarrow> current_health target db' = h) \<and>
    (\<exists>db''. record_route_site_target_success redact clock target t db' = Inr db'' \<and>
       (\<exists>db3. acquire_route_site_target_permit target now' lease' probe' db'' = Inr (True, db3))) \<and>
    (\<exists>db'' c'. record_route_site_target_failure redact clock target d incident message t retry_after db' = Inr db'' \<and>
       SH_CircuitPhase (current_health target db'') = ''open'' \<and> SH_CooldownUntil (current_health target db'') = Some c' \<and>
       t + CooldownSeconds (normalize_health_policy policy) * 1000 \<le> c' \<and>
       t + duration_ms (max retry_after (RetryAfter d)) \<le> c')"
proof -
  have row: "row_by SH_TargetID target (with_health_row target now db) = Some h"
    using assms(4) by (simp add: with_health_row_by)
  have hwf: "health_wf h"
    using assms(1) row_by_SomeD [OF assms(4)] by (auto simp: site_health_wf_def)
  then have lease: "SH_HalfOpenLeaseUntil h = None"
    using assms(5) by (simp add: health_wf_def)
  have "\<exists>x. acquire_route_site_target_permit target now lease probe db = Inr x"
    using assms(2) row by (simp add: acquire_site_permit_eq)
  then obtain granted db' where acq: "acquire_route_site_target_permit target now lease probe db = Inr (granted, db')"
    by auto
  from acquire_site_permit_ok [OF assms(1) acq]
  obtain h0 where "row_by SH_TargetID target (with_health_row target now db) = Some h0"
    and g0: "granted = snd (permit_row now (now + site_lease_ms lease) probe h0)"
    and d0: "db' = db\<lparr>target_health_rows := upsert_health_rows
        (fst (permit_row now (now + site_lease_ms lease) probe h0)) (with_health_row target now db)\<rparr>" .
  with row have g: "granted = (c \<le> now \<and> (probe \<or> SH_CapabilityState h \<noteq> ''unsupported''))"
    and cur: "current_health target db' = fst (permit_row now (now + site_lease_ms lease) probe h)"
    using assms(5,6) lease row_by_SomeD [OF assms(4)]
    by (auto simp: permit_row_def current_health_def apply_health_nulls_def upsert_health_row_by)
  have wf': "site_health_wf db'" by (rule acquire_site_permit_wf [OF assms(1) acq])
  have policy': "target_policy target db' = Some policy"
    using acquire_site_permit_tables [OF acq] assms(3) target_policy_tables [of db' db] by simp
  then have some': "target_policy target db' \<noteq> None" by simp
  have notclosed: "SH_CircuitPhase (current_health target db') \<noteq> ''closed''"
    and incident': "SH_LastIncidentID (current_health target db') = SH_LastIncidentID h"
    using assms(5) by (simp_all add: cur permit_row_def half_open_row_def)
  have success: "\<exists>db''. record_route_site_target_success redact clock target t db' = Inr db'' \<and>
       (\<exists>db3. acquire_route_site_target_permit target now' lease' probe' db'' = Inr (True, db3))"
  proof -
    obtain db'' where s: "record_route_site_target_success redact clock target t db' = Inr db''"
      using apply_health_event_total [OF wf' some' assms(2,8)] unfolding record_route_site_target_success_def by force
    have "row_by SH_TargetID target (target_health_rows db'') = Some (current_health target db'')"
      by (rule success_row_present [OF wf' s])
    then show ?thesis
      using s success_event_row [OF wf' s] assms(2) by (auto simp: acquire_site_permit_eq with_health_row_by)
  qed
  have failure: "\<exists>db'' c'. record_route_site_target_failure redact clock target d incident message t retry_after db' = Inr db'' \<and>
       SH_CircuitPhase (current_health target db'') = ''open'' \<and> SH_CooldownUntil (current_health target db'') = Some c' \<and>
       t + CooldownSeconds (normalize_health_policy policy) * 1000 \<le> c' \<and>
       t + duration_ms (max retry_after (RetryAfter d)) \<le> c'"
  proof -
    obtain db'' where f: "record_route_site_target_failure redact clock target d incident message t retry_after db' = Inr db''"
      using apply_health_event_total [OF wf' some' assms(2,8)] unfolding record_route_site_target_failure_def by force
    have fresh: "trim_space incident = [] \<or> trim_space incident \<noteq> SH_LastIncidentID (current_health target db')"
      using assms(11) incident' by simp
    obtain policy0 nxt event where p0: "target_policy target db' = Some policy0"
      and row'': "current_health target db'' = penalize_target (current_health target db') nxt policy0 event"
      and ev: "EvOccurredAt event = t" "EvRetryAfter event = retry_after" "EvDecision event = d"
      using failure_event_row [OF wf' f assms(7,9,10) fresh] .
    have "policy0 = policy" using p0 policy' by simp
    then show ?thesis
      using f row'' penalize_closed_off [of "current_health target db'" nxt policy event] ev
        penalize_opens [OF current_health_wf [OF wf'] notclosed, of nxt policy event]
      by (auto simp: closed_off_until_def)
  qed
  show ?thesis
    using acq g cur success failure assms(6)
    by (intro exI [of _ db']) (auto simp: permit_row_def assms(5))
qed

theorem open_circuit_recovers_witness:
  "\<exists>db'. acquire_route_site_target_permit 7 33000 (5 * second) False demo_open_db = Inr (True, db') \<and>
     (\<exists>db''. record_route_site_target_success id 1 7 34000 db' = Inr db'' \<and>
        (\<exists>db3. acquire_route_site_target_permit 7 35000 0 False db'' = Inr (True, db3))) \<and>
     (\<exists>db'' c'. demo_failure ''d'' 34000 db' = Inr db'' \<and> SH_CircuitPhase (current_health 7 db'') = ''open'' \<and>
        SH_CooldownUntil (current_health 7 db'') = Some c' \<and> 64000 \<le> c')"
proof -
  have row: "row_by SH_TargetID 7 (target_health_rows demo_open_db) = Some demo_open_row"
    by (simp add: demo_open_db_def demo_open_row_def row_simps)
  have pol: "target_policy 7 demo_open_db = Some \<lparr>FailureThreshold = 3, FailureWindowSeconds = 60, CooldownSeconds = 30\<rparr>"
    by (simp add: target_policy_def demo_open_db_def demo_health_db_def row_simps)
  have fresh: "trim_space ''d'' \<noteq> SH_LastIncidentID demo_open_row"
    unfolding demo_trims by (simp add: demo_open_row_def)
  show ?thesis
    using open_circuit_recovers [OF demo_open_db_wf _ pol row, of 33000 34000 1
        "(decision_of ClassTransport)\<lparr>Failover := True, PenalizeTarget := True\<rparr>" "''d''" 33000 "5 * second" False id
        35000 0 False "''reset''" 0] fresh
    by (auto simp: demo_open_row_def demo_failure_def decision_of_def normalize_health_policy_def)
qed

end
