(* ===== verification/LegacyHealth.thy ===== *)
theory LegacyHealth
  imports SiteHealth
begin

text \<open>
  \<open>internal/store/health.go\<close>: the circuit of a target of the upstream routes, kept by SQL alone.
  The columns of \<open>target_health\<close> are those of the site table, so its rows have the same type; the
  failure is one \<open>INSERT ... ON CONFLICT DO UPDATE\<close> whose \<open>CASE\<close> expressions are written out here.
  A row of a target that is not in \<open>route_targets\<close> violates the foreign key. The table has no
  \<open>CHECK\<close>s.
\<close>

record credential_state_row =
  CS_ID :: int
  CS_RuntimeState :: string
  CS_UpdatedAt :: int

record probe_result =
  PR_ID :: int
  PR_RouteID :: int
  PR_TargetID :: int
  PR_Status :: string
  PR_LatencyMS :: "int option"
  PR_ErrorClass :: string
  PR_ErrorMessage :: string
  PR_CheckedAt :: int

record legacy_db =
  route_target_ids :: "int list"
  route_ids :: "int list"
  credential_rows :: "credential_state_row list"
  health_rows :: "site_health list"
  probe_results :: "probe_result list"
  probe_results_seq :: int   \<comment> \<open>the sequence of \<open>AUTOINCREMENT\<close>\<close>

text \<open>The fields of \<open>RouteTarget\<close> the health operations read.\<close>

record legacy_target =
  LT_ID :: int
  LT_CredentialID :: int
  LT_CooldownSeconds :: int
  LT_FailureThreshold :: int
  LT_FailureWindowSeconds :: int

definition target_route_cooldown :: "legacy_target \<Rightarrow> int" where
  "target_route_cooldown t = (if LT_CooldownSeconds t \<le> 0 then 300 else LT_CooldownSeconds t)"

definition target_route_failure_threshold :: "legacy_target \<Rightarrow> int" where
  "target_route_failure_threshold t = (if LT_FailureThreshold t < 2 then 2 else LT_FailureThreshold t)"

definition target_route_failure_window :: "legacy_target \<Rightarrow> int" where
  "target_route_failure_window t = (if LT_FailureWindowSeconds t \<le> 0 then 300 else LT_FailureWindowSeconds t)"

subsection \<open>Permits\<close>

definition acquire_target_permit ::
  "int \<Rightarrow> int \<Rightarrow> int \<Rightarrow> bool \<Rightarrow> legacy_db \<Rightarrow> (store_error, bool \<times> legacy_db) result" where
  "acquire_target_permit target now lease ignore_capability db =
     (if row_by SH_TargetID target (health_rows db) = None \<and> target \<notin> set (route_target_ids db)
      then Inl ErrConstraint
      else
        (let rows = sql_upsert SH_TargetID (empty_health target now) id (health_rows db);
             db = db\<lparr>health_rows := rows\<rparr>
         in case row_by SH_TargetID target rows of
              None \<Rightarrow> Inl ErrNoRows
            | Some h \<Rightarrow>
                if SH_CapabilityState h = ''unsupported'' \<and> \<not> ignore_capability then Inr (False, db)
                else if SH_CircuitPhase h = ''closed'' then Inr (True, db)
                else if SH_CircuitPhase h = ''open'' \<and> still_ahead (SH_CooldownUntil h) now then Inr (False, db)
                else if still_ahead (SH_HalfOpenLeaseUntil h) now then Inr (False, db)
                else
                  (let (rows', changed) = sql_update
                         (\<lambda>r. SH_TargetID r = target \<and> \<not> still_ahead (SH_HalfOpenLeaseUntil r) now)
                         (\<lambda>r. r\<lparr>SH_CircuitPhase := ''half_open'',
                                SH_HalfOpenLeaseUntil := Some (now + duration_ms lease), SH_UpdatedAt := now\<rparr>)
                         rows
                   in Inr (changed = 1, db\<lparr>health_rows := rows'\<rparr>))))"

definition acquire_route_target_permit :: "int \<Rightarrow> int \<Rightarrow> int \<Rightarrow> legacy_db \<Rightarrow> (store_error, bool \<times> legacy_db) result" where
  "acquire_route_target_permit target now lease db = acquire_target_permit target now lease False db"

definition acquire_probe_permit :: "int \<Rightarrow> int \<Rightarrow> int \<Rightarrow> legacy_db \<Rightarrow> (store_error, bool \<times> legacy_db) result" where
  "acquire_probe_permit target now lease db = acquire_target_permit target now lease True db"

subsection \<open>Outcomes\<close>

definition set_runtime_state :: "string \<Rightarrow> int \<Rightarrow> int \<Rightarrow> credential_state_row list \<Rightarrow> credential_state_row list" where
  "set_runtime_state state now credential t =
     fst (sql_update (\<lambda>c. CS_ID c = credential) (\<lambda>c. c\<lparr>CS_RuntimeState := state, CS_UpdatedAt := now\<rparr>) t)"

text \<open>The upsert of a health row under its foreign key.\<close>

definition upsert_legacy_row ::
  "site_health \<Rightarrow> (site_health \<Rightarrow> site_health) \<Rightarrow> legacy_db \<Rightarrow> (store_error, legacy_db) result" where
  "upsert_legacy_row item merge db =
     (if row_by SH_TargetID (SH_TargetID item) (health_rows db) = None \<and>
         SH_TargetID item \<notin> set (route_target_ids db)
      then Inl ErrConstraint
      else Inr (db\<lparr>health_rows := sql_upsert SH_TargetID item merge (health_rows db)\<rparr>))"

definition record_target_success :: "legacy_target \<Rightarrow> int \<Rightarrow> legacy_db \<Rightarrow> (store_error, legacy_db) result" where
  "record_target_success target now db =
     (case upsert_legacy_row
         ((empty_health (LT_ID target) now)\<lparr>SH_LastSuccessAt := Some now, SH_CapabilityState := ''supported''\<rparr>)
         (\<lambda>r. r\<lparr>SH_CircuitPhase := ''closed'', SH_ConsecutiveFailures := 0, SH_LastSuccessAt := Some now,
                SH_CooldownUntil := None, SH_HalfOpenLeaseUntil := None, SH_LastErrorClass := '''',
                SH_LastErrorMessage := '''', SH_CapabilityState := ''supported'', SH_UpdatedAt := now\<rparr>) db of
        Inl e \<Rightarrow> Inl e
      | Inr db \<Rightarrow> Inr (db\<lparr>credential_rows :=
          set_runtime_state ''active'' now (LT_CredentialID target) (credential_rows db)\<rparr>))"

text \<open>\<open>CASE WHEN last_failure_at IS NOT NULL AND ? >= last_failure_at AND ?-last_failure_at <= ? THEN ...\<close>\<close>

definition counted_sql :: "int \<Rightarrow> int \<Rightarrow> site_health \<Rightarrow> int" where
  "counted_sql now window_ms r =
     (case SH_LastFailureAt r of
        None \<Rightarrow> 1
      | Some t \<Rightarrow> if now \<ge> t \<and> now - t \<le> window_ms then SH_ConsecutiveFailures r + 1 else 1)"

definition opens_sql :: "int \<Rightarrow> int \<Rightarrow> int \<Rightarrow> bool \<Rightarrow> site_health \<Rightarrow> bool" where
  "opens_sql now window_ms threshold immediate r \<longleftrightarrow>
     SH_CircuitPhase r = ''half_open'' \<or> immediate \<or> counted_sql now window_ms r \<ge> threshold"

definition record_target_failure ::
  "(string \<Rightarrow> string) \<Rightarrow> legacy_target \<Rightarrow> decision \<Rightarrow> string \<Rightarrow> string \<Rightarrow> int \<Rightarrow> int \<Rightarrow>
   legacy_db \<Rightarrow> (store_error, legacy_db) result" where
  "record_target_failure redact target d incident message0 now retry_after db =
     (let message = redact message0;
          db = (if InvalidateCredential d
                then db\<lparr>credential_rows := set_runtime_state ''invalid'' now (LT_CredentialID target) (credential_rows db)\<rparr>
                else db);
          noted = (\<lambda>r. r\<lparr>SH_LastErrorClass := class_string (Class d), SH_LastErrorMessage := message,
                         SH_LastIncidentID := incident, SH_UpdatedAt := now\<rparr>);
          fresh = noted (empty_health (LT_ID target) now)
      in if UnsupportedModel d then
           upsert_legacy_row (fresh\<lparr>SH_CapabilityState := ''unsupported''\<rparr>)
             (\<lambda>r. (noted r)\<lparr>SH_CapabilityState := ''unsupported''\<rparr>) db
         else if \<not> PenalizeTarget d then upsert_legacy_row fresh noted db
         else
           (let threshold = target_route_failure_threshold target;
                window_ms = target_route_failure_window target * 1000;
                cooldown = max (max (target_route_cooldown target * second) retry_after) second;
                immediate = (retry_after > 0);
                until = now + duration_ms cooldown;
                initial_open = (immediate \<or> threshold \<le> 1)
            in upsert_legacy_row
                 (fresh\<lparr>SH_CircuitPhase := (if initial_open then ''open'' else ''closed''),
                        SH_ConsecutiveFailures := (if initial_open then 0 else 1),
                        SH_LastFailureAt := Some now,
                        SH_CooldownUntil := (if initial_open then Some until else None)\<rparr>)
                 (\<lambda>r. if SH_LastIncidentID r \<noteq> incident
                      then (noted r)\<lparr>
                        SH_CircuitPhase := (if opens_sql now window_ms threshold immediate r then ''open'' else ''closed''),
                        SH_ConsecutiveFailures :=
                          (if opens_sql now window_ms threshold immediate r then 0 else counted_sql now window_ms r),
                        SH_LastFailureAt := Some now,
                        SH_CooldownUntil := (if opens_sql now window_ms threshold immediate r then Some until else None),
                        SH_HalfOpenLeaseUntil := None\<rparr>
                      else r)
                 db))"

subsection \<open>Probe results\<close>

text \<open>The 500 newest results of a target stay; the error of the clean-up is ignored by the code.\<close>

definition newest_first :: "probe_result \<Rightarrow> probe_result \<Rightarrow> bool" where
  "newest_first a b \<longleftrightarrow> PR_CheckedAt a > PR_CheckedAt b \<or> PR_CheckedAt a = PR_CheckedAt b \<and> PR_ID a > PR_ID b"

definition trim_probe_results :: "nat \<Rightarrow> int \<Rightarrow> probe_result list \<Rightarrow> probe_result list" where
  "trim_probe_results limit target t =
     (let kept = map PR_ID (take limit (slice_stable newest_first (filter (\<lambda>r. PR_TargetID r = target) t)))
      in fst (sql_delete (\<lambda>r. PR_TargetID r = target \<and> PR_ID r \<notin> set kept) t))"

definition insert_probe_result ::
  "(string \<Rightarrow> string) \<Rightarrow> int \<Rightarrow> int \<Rightarrow> string \<Rightarrow> int option \<Rightarrow> string \<Rightarrow> string \<Rightarrow> int \<Rightarrow>
   legacy_db \<Rightarrow> (store_error, legacy_db) result" where
  "insert_probe_result redact route target status latency cls message checked_at db =
     (if route \<notin> set (route_ids db) \<or> target \<notin> set (route_target_ids db) then Inl ErrConstraint
      else
        (let new_id = probe_results_seq db + 1;
             row = \<lparr>PR_ID = new_id, PR_RouteID = route, PR_TargetID = target, PR_Status = status,
               PR_LatencyMS = latency, PR_ErrorClass = cls, PR_ErrorMessage = redact message,
               PR_CheckedAt = checked_at\<rparr>
         in Inr (db\<lparr>probe_results := trim_probe_results 500 target (probe_results db @ [row]),
                    probe_results_seq := new_id\<rparr>)))"

subsection \<open>Permits keep the contract\<close>

definition legacy_wf :: "legacy_db \<Rightarrow> bool" where
  "legacy_wf db \<longleftrightarrow> unique_key SH_TargetID (health_rows db)"

definition legacy_health :: "int \<Rightarrow> legacy_db \<Rightarrow> site_health" where
  "legacy_health target db = apply_health_nulls target (row_by SH_TargetID target (health_rows db))"

definition legacy_view :: "int \<Rightarrow> legacy_db \<Rightarrow> permit_view" where
  "legacy_view target db =
     (let h = legacy_health target db in
      \<lparr>pv_phase = SH_CircuitPhase h, pv_capability = SH_CapabilityState h,
       pv_cooldown = SH_CooldownUntil h, pv_lease = SH_HalfOpenLeaseUntil h\<rparr>)"

definition ensured_rows :: "int \<Rightarrow> int \<Rightarrow> legacy_db \<Rightarrow> site_health list" where
  "ensured_rows target now db = sql_upsert SH_TargetID (empty_health target now) id (health_rows db)"

lemma ensured_rows_by:
  "row_by SH_TargetID k (ensured_rows target now db) =
     (if k = target then Some (case row_by SH_TargetID target (health_rows db) of
        None \<Rightarrow> empty_health target now | Some r \<Rightarrow> r) else row_by SH_TargetID k (health_rows db))"
  by (simp add: ensured_rows_def upsert_row_by split: option.split)

lemma acquire_target_permit_ok:
  assumes "legacy_wf db" and "acquire_target_permit target now lease probe db = Inr (granted, db')"
  obtains h where "row_by SH_TargetID target (ensured_rows target now db) = Some h"
    and "granted = snd (permit_row now (now + duration_ms lease) probe h)"
    and "db' = db\<lparr>health_rows := upsert_health_rows
           (fst (permit_row now (now + duration_ms lease) probe h)) (ensured_rows target now db)\<rparr>"
proof -
  let ?rows = "ensured_rows target now db"
  have u: "unique_key SH_TargetID ?rows"
    using assms(1) by (simp add: ensured_rows_def legacy_wf_def upsert_unique)
  obtain h where h: "row_by SH_TargetID target ?rows = Some h" by (simp add: ensured_rows_by)
  have hk: "SH_TargetID h = target" using row_by_SomeD [OF h] by simp
  have same: "upsert_health_rows h ?rows = ?rows"
    using upsert_same [OF u] h hk by (simp add: upsert_health_rows_def)
  have upd: "sql_update (\<lambda>r. SH_TargetID r = target \<and> \<not> still_ahead (SH_HalfOpenLeaseUntil r) now)
      (half_open_row now (now + duration_ms lease)) ?rows =
      (upsert_health_rows (half_open_row now (now + duration_ms lease) h) ?rows, 1)"
    if "\<not> still_ahead (SH_HalfOpenLeaseUntil h) now"
    unfolding upsert_health_rows_def by (rule update_one_row [OF u h]) (use that hk in auto)
  note def = acquire_target_permit_def [of target now lease probe db, folded ensured_rows_def half_open_row_def, unfolded Let_def]
  show thesis
  proof (rule that [OF h])
    show "granted = snd (permit_row now (now + duration_ms lease) probe h)"
      using assms(2) h upd by (auto simp: def permit_row_def split: if_splits)
    show "db' = db\<lparr>health_rows := upsert_health_rows
           (fst (permit_row now (now + duration_ms lease) probe h)) ?rows\<rparr>"
      using assms(2) h upd same by (auto simp: def permit_row_def split: if_splits)
  qed
qed

lemma legacy_view_row:
  "row_by SH_TargetID target (health_rows db) = Some h \<Longrightarrow> legacy_view target db =
    \<lparr>pv_phase = SH_CircuitPhase h, pv_capability = SH_CapabilityState h,
     pv_cooldown = SH_CooldownUntil h, pv_lease = SH_HalfOpenLeaseUntil h\<rparr>"
  by (simp add: legacy_view_def legacy_health_def apply_health_nulls_def)

lemma legacy_view_ensured:
  "row_by SH_TargetID target (ensured_rows target now db) = Some h \<Longrightarrow> legacy_view target db =
    \<lparr>pv_phase = SH_CircuitPhase h, pv_capability = SH_CapabilityState h,
     pv_cooldown = SH_CooldownUntil h, pv_lease = SH_HalfOpenLeaseUntil h\<rparr>"
  by (auto simp: ensured_rows_by legacy_view_def legacy_health_def apply_health_nulls_def split: option.splits)

interpretation route_permits: permit_store legacy_wf legacy_view acquire_target_permit duration_ms
proof unfold_locales
  fix db :: legacy_db and target now lease probe granted db'
  assume wf: "legacy_wf db" and acq: "acquire_target_permit target now lease probe db = Inr (granted, db')"
  from acquire_target_permit_ok [OF this] obtain h where
    h: "row_by SH_TargetID target (ensured_rows target now db) = Some h"
    and g: "granted = snd (permit_row now (now + duration_ms lease) probe h)"
    and db': "db' = db\<lparr>health_rows := upsert_health_rows
           (fst (permit_row now (now + duration_ms lease) probe h)) (ensured_rows target now db)\<rparr>" .
  have row: "row_by SH_TargetID k (health_rows db') =
      (if k = target then Some (fst (permit_row now (now + duration_ms lease) probe h))
       else row_by SH_TargetID k (health_rows db))" for k
    using row_by_SomeD [OF h] by (simp add: db' upsert_health_row_by ensured_rows_by)
  show "legacy_wf db'"
    using wf by (simp add: db' legacy_wf_def upsert_health_rows_def ensured_rows_def upsert_unique)
  show "(legacy_view target db', granted) =
      spec_permit now (now + duration_ms lease) probe (legacy_view target db)"
    using row [of target] by (simp add: legacy_view_row legacy_view_ensured [OF h] g permit_row_def spec_permit_def)
  show "legacy_view other db' = legacy_view other db" if "other \<noteq> target" for other
    using row [of other] that by (simp add: legacy_view_def legacy_health_def)
qed

subsection \<open>Failures\<close>

text \<open>
  The row as the in-memory circuit of \<open>internal/health\<close> sees it, where no instant is 0.
\<close>

definition as_circuit_state :: "site_health \<Rightarrow> circuit_state" where
  "as_circuit_state h =
     \<lparr>Phase = SH_CircuitPhase h, ConsecutiveFailures = SH_ConsecutiveFailures h,
      LastFailureAt = (case SH_LastFailureAt h of Some t \<Rightarrow> t | None \<Rightarrow> 0),
      CooldownUntil = (case SH_CooldownUntil h of Some t \<Rightarrow> t | None \<Rightarrow> 0)\<rparr>"

lemma upsert_legacy_row_ok:
  assumes "upsert_legacy_row item merge db = Inr db'"
    and "\<And>r. SH_TargetID r = SH_TargetID item \<Longrightarrow> SH_TargetID (merge r) = SH_TargetID item"
  shows "row_by SH_TargetID (SH_TargetID item) (health_rows db') =
      Some (case row_by SH_TargetID (SH_TargetID item) (health_rows db) of None \<Rightarrow> item | Some r \<Rightarrow> merge r) \<and>
    (legacy_wf db \<longrightarrow> legacy_wf db') \<and>
    (\<forall>k. k \<noteq> SH_TargetID item \<longrightarrow> row_by SH_TargetID k (health_rows db') = row_by SH_TargetID k (health_rows db))"
  using assms(1) upsert_row_by [where key = SH_TargetID and item = item and merge = merge, OF assms(2)]
    upsert_unique [where key = SH_TargetID and item = item and merge = merge, OF _ assms(2)]
  by (auto simp: upsert_legacy_row_def legacy_wf_def split: if_splits option.splits)

text \<open>The row a penalised failure writes over row \<open>r\<close>, when the incident is new.\<close>

definition legacy_failed_row ::
  "(string \<Rightarrow> string) \<Rightarrow> legacy_target \<Rightarrow> decision \<Rightarrow> string \<Rightarrow> string \<Rightarrow> int \<Rightarrow> int \<Rightarrow> site_health \<Rightarrow> site_health" where
  "legacy_failed_row redact target d incident message now retry_after r =
     (let opens = opens_sql now (target_route_failure_window target * 1000)
            (target_route_failure_threshold target) (retry_after > 0) r
      in r\<lparr>SH_LastErrorClass := class_string (Class d), SH_LastErrorMessage := redact message,
           SH_LastIncidentID := incident, SH_UpdatedAt := now,
           SH_CircuitPhase := (if opens then ''open'' else ''closed''),
           SH_ConsecutiveFailures := (if opens then 0 else counted_sql now (target_route_failure_window target * 1000) r),
           SH_LastFailureAt := Some now,
           SH_CooldownUntil := (if opens
             then Some (now + duration_ms (max (max (target_route_cooldown target * second) retry_after) second))
             else None),
           SH_HalfOpenLeaseUntil := None\<rparr>)"

lemma record_target_failure_eq:
  assumes "PenalizeTarget d" and "\<not> UnsupportedModel d"
  shows "record_target_failure redact target d incident message now retry_after db =
    upsert_legacy_row (legacy_failed_row redact target d incident message now retry_after (empty_health (LT_ID target) now))
      (\<lambda>r. if SH_LastIncidentID r \<noteq> incident
           then legacy_failed_row redact target d incident message now retry_after r else r)
      (if InvalidateCredential d
       then db\<lparr>credential_rows := set_runtime_state ''invalid'' now (LT_CredentialID target) (credential_rows db)\<rparr>
       else db)"
proof -
  have empty: "opens_sql now w t b (empty_health k now) \<longleftrightarrow> b \<or> t \<le> 1" "counted_sql now w (empty_health k now) = 1" for w t b k
    by (simp_all add: opens_sql_def counted_sql_def) (simp_all add: empty_health_def)
  show ?thesis
    using assms unfolding record_target_failure_def legacy_failed_row_def Let_def empty
    by (simp add: empty_health_def)
qed

lemma legacy_failed_row_target [simp]:
  "SH_TargetID (legacy_failed_row redact target d incident message now retry_after r) = SH_TargetID r"
  by (simp add: legacy_failed_row_def Let_def)

lemma legacy_failed_row_empty:
  "legacy_failed_row redact target d incident message now retry_after (empty_health k u) =
   legacy_failed_row redact target d incident message now retry_after (empty_health k u')"
  by (simp add: legacy_failed_row_def empty_health_def Let_def opens_sql_def counted_sql_def)

lemma record_target_failure_row:
  assumes "record_target_failure redact target d incident message now retry_after db = Inr db'"
    and "PenalizeTarget d" and "\<not> UnsupportedModel d"
    and "row_by SH_TargetID (LT_ID target) (health_rows db) = None \<or>
      SH_LastIncidentID (legacy_health (LT_ID target) db) \<noteq> incident"
  shows "legacy_health (LT_ID target) db' =
      legacy_failed_row redact target d incident message now retry_after (legacy_health (LT_ID target) db) \<and>
    row_by SH_TargetID (LT_ID target) (health_rows db') \<noteq> None \<and>
    (legacy_wf db \<longrightarrow> legacy_wf db')"
proof -
  let ?db = "if InvalidateCredential d
       then db\<lparr>credential_rows := set_runtime_state ''invalid'' now (LT_CredentialID target) (credential_rows db)\<rparr>
       else db"
  have same: "health_rows ?db = health_rows db" "legacy_wf ?db = legacy_wf db" by (simp_all add: legacy_wf_def)
  from upsert_legacy_row_ok [OF assms(1) [unfolded record_target_failure_eq [OF assms(2,3)]]]
  show ?thesis
    using assms(4) legacy_failed_row_empty unfolding same
    by (simp add: legacy_health_def apply_health_nulls_def split: option.splits)
qed

subsection \<open>Properties\<close>

text \<open>
  \<^bold>\<open>C16.\<close> The \<open>CASE\<close> expressions of the SQL upsert compute \<open>health.RecordFailure\<close>: a counted failure
  under a new incident ID takes the stored circuit, whatever its phase, or the untried one when
  the row is missing, to exactly the state the in-memory reducer gives under the route's threshold,
  window and cooldown, a retry delay of the upstream being an immediate failure.
\<close>

theorem sql_failure_is_record_failure:
  assumes "record_target_failure redact target d incident message now retry_after db = Inr db'"
    and "PenalizeTarget d" and "\<not> UnsupportedModel d"
    and "row_by SH_TargetID (LT_ID target) (health_rows db) = None \<or>
      SH_LastIncidentID (legacy_health (LT_ID target) db) \<noteq> incident"
    and "\<forall>t. SH_LastFailureAt (legacy_health (LT_ID target) db) = Some t \<longrightarrow> 0 < t"
  shows "as_circuit_state (legacy_health (LT_ID target) db') =
    record_failure (as_circuit_state (legacy_health (LT_ID target) db)) now
      (target_route_failure_threshold target) (target_route_failure_window target * second)
      (max (target_route_cooldown target * second) retry_after) (retry_after > 0)"
proof -
  let ?h = "legacy_health (LT_ID target) db"
  let ?w = "target_route_failure_window target"
  have w: "0 \<le> ?w" and t: "2 \<le> target_route_failure_threshold target"
    by (simp_all add: target_route_failure_window_def target_route_failure_threshold_def)
  have count: "(if LastFailureAt (as_circuit_state ?h) > 0 \<and> now \<ge> LastFailureAt (as_circuit_state ?h) \<and>
        now - LastFailureAt (as_circuit_state ?h) \<le> duration_ms (?w * second)
      then ConsecutiveFailures (as_circuit_state ?h) + 1 else 1) = counted_sql now (?w * 1000) ?h"
    using assms(5) w by (auto simp: as_circuit_state_def counted_sql_def split: option.split)
  have opens: "Phase (as_circuit_state ?h) = ''half_open'' \<or> retry_after > 0 \<or>
      counted_sql now (?w * 1000) ?h \<ge> target_route_failure_threshold target \<longleftrightarrow>
      opens_sql now (?w * 1000) (target_route_failure_threshold target) (retry_after > 0) ?h"
    by (simp add: opens_sql_def as_circuit_state_def)
  show ?thesis
    using record_target_failure_row [OF assms(1-4)] t unfolding record_failure_def Let_def count
    by (simp add: opens legacy_failed_row_def Let_def) (simp add: as_circuit_state_def)
qed

definition demo_legacy_target :: legacy_target where
  "demo_legacy_target = \<lparr>LT_ID = 7, LT_CredentialID = 2, LT_CooldownSeconds = 30,
     LT_FailureThreshold = 3, LT_FailureWindowSeconds = 60\<rparr>"

definition demo_legacy_db :: "site_health list \<Rightarrow> legacy_db" where
  "demo_legacy_db rows = \<lparr>route_target_ids = [7], route_ids = [1],
     credential_rows = [\<lparr>CS_ID = 2, CS_RuntimeState = ''active'', CS_UpdatedAt = 0\<rparr>],
     health_rows = rows, probe_results = [], probe_results_seq = 0\<rparr>"

definition demo_decision :: decision where
  "demo_decision = (decision_of ClassTransport)\<lparr>Failover := True, PenalizeTarget := True\<rparr>"

lemma demo_decision_sel [simp]: "PenalizeTarget demo_decision" "\<not> UnsupportedModel demo_decision"
  by (simp_all add: demo_decision_def)

lemma demo_legacy_health [simp]:
  "legacy_health 7 (demo_legacy_db [demo_open_row]) = demo_open_row"
  "row_by SH_TargetID 7 (health_rows (demo_legacy_db [demo_open_row])) = Some demo_open_row"
  by (simp_all add: legacy_health_def demo_legacy_db_def demo_open_row_def row_simps apply_health_nulls_def)

lemma demo_legacy_failure:
  "\<exists>db'. record_target_failure id demo_legacy_target demo_decision ''d'' ''reset'' 9000 0
     (demo_legacy_db [demo_open_row]) = Inr db'"
  by (simp add: record_target_failure_eq upsert_legacy_row_def demo_legacy_target_def demo_legacy_db_def)

theorem sql_failure_is_record_failure_witness:
  "\<exists>db'. record_target_failure id demo_legacy_target demo_decision ''d'' ''reset'' 9000 0
       (demo_legacy_db [demo_open_row]) = Inr db' \<and>
     as_circuit_state (legacy_health 7 db') =
       record_failure \<lparr>Phase = ''open'', ConsecutiveFailures = 0, LastFailureAt = 3000, CooldownUntil = 33000\<rparr>
         9000 3 (60 * second) (30 * second) False"
proof -
  obtain db' where db': "record_target_failure id demo_legacy_target demo_decision ''d'' ''reset'' 9000 0
       (demo_legacy_db [demo_open_row]) = Inr db'" using demo_legacy_failure by blast
  have sel: "LT_ID demo_legacy_target = 7" "target_route_failure_threshold demo_legacy_target = 3"
    "target_route_failure_window demo_legacy_target = 60" "target_route_cooldown demo_legacy_target = 30"
    by (simp_all add: demo_legacy_target_def target_route_failure_threshold_def target_route_failure_window_def
        target_route_cooldown_def)
  from sql_failure_is_record_failure [OF db'] show ?thesis
    by (simp add: db' sel) (simp add: demo_open_row_def as_circuit_state_def)
qed

text \<open>
  A late failure re-closes an open circuit of an upstream route. When the circuit of a target
  is open, its count reset, a failure of a request that was still under way (a new incident, no
  retry delay) sets it back to closed with one failure counted and no cooldown, and the next
  permit is granted however long the cooldown still had to run. The store of the site targets
  keeps the same row open under the same failure, for no less time than before.
\<close>

theorem late_failure_recloses_open_circuit:
  assumes "legacy_wf db" and "row_by SH_TargetID (LT_ID target) (health_rows db) = Some h"
    and "SH_CircuitPhase h = ''open''" and "SH_ConsecutiveFailures h = 0"
    and "SH_CapabilityState h \<noteq> ''unsupported''" and "SH_LastIncidentID h \<noteq> incident"
    and "PenalizeTarget d" and "\<not> UnsupportedModel d" and "retry_after \<le> 0"
    and "record_target_failure redact target d incident message now retry_after db = Inr db'"
  shows "as_circuit_state (legacy_health (LT_ID target) db') =
      \<lparr>Phase = ''closed'', ConsecutiveFailures = 1, LastFailureAt = now, CooldownUntil = 0\<rparr> \<and>
    (\<exists>db''. acquire_target_permit (LT_ID target) later lease probe db' = Inr (True, db'')) \<and>
    (\<forall>nxt policy event. SH_CircuitPhase (penalize_target h nxt policy event) = ''open'' \<and>
       (\<forall>c. SH_CooldownUntil h = Some c \<longrightarrow>
          (\<exists>c' \<ge> c. SH_CooldownUntil (penalize_target h nxt policy event) = Some c')))"
proof -
  have h: "legacy_health (LT_ID target) db = h"
    using assms(2) by (simp add: legacy_health_def apply_health_nulls_def)
  let ?w = "target_route_failure_window target * 1000"
  have "counted_sql now ?w h = 1" "\<not> opens_sql now ?w (target_route_failure_threshold target) (retry_after > 0) h"
    using assms(3,4,9) by (auto simp: counted_sql_def opens_sql_def target_route_failure_threshold_def split: option.split)
  then have row: "legacy_health (LT_ID target) db' = h\<lparr>SH_LastErrorClass := class_string (Class d),
      SH_LastErrorMessage := redact message, SH_LastIncidentID := incident, SH_UpdatedAt := now,
      SH_CircuitPhase := ''closed'', SH_ConsecutiveFailures := 1, SH_LastFailureAt := Some now,
      SH_CooldownUntil := None, SH_HalfOpenLeaseUntil := None\<rparr>"
    and there: "row_by SH_TargetID (LT_ID target) (health_rows db') \<noteq> None"
    using record_target_failure_row [OF assms(10,7,8)] assms(6) h by (simp_all add: legacy_failed_row_def Let_def)
  from there row have "row_by SH_TargetID (LT_ID target) (health_rows db') = Some (legacy_health (LT_ID target) db')"
    by (auto simp: legacy_health_def apply_health_nulls_def)
  then have "\<exists>db''. acquire_target_permit (LT_ID target) later lease probe db' = Inr (True, db'')"
    using assms(5) row by (simp add: acquire_target_permit_def upsert_row_by Let_def)
  moreover have "\<exists>c' \<ge> c. SH_CooldownUntil (penalize_target h nxt policy event) = Some c'"
    if "SH_CooldownUntil h = Some c" for nxt policy event c
    using assms(3) that by (simp add: penalize_target_sel stays_closed_def new_cooldown_def Let_def)
  moreover have "SH_CircuitPhase (penalize_target h nxt policy event) = ''open''" for nxt policy event
    using assms(3) by (simp add: penalize_target_sel stays_closed_def)
  ultimately show ?thesis by (simp add: row as_circuit_state_def)
qed

theorem late_failure_recloses_open_circuit_witness:
  "\<exists>db' db''. record_target_failure id demo_legacy_target demo_decision ''d'' ''reset'' 9000 0
       (demo_legacy_db [demo_open_row]) = Inr db' \<and>
     acquire_target_permit 7 9001 0 False (demo_legacy_db [demo_open_row]) =
       Inr (False, demo_legacy_db [demo_open_row]) \<and>
     acquire_target_permit 7 9001 0 False db' = Inr (True, db'')"
proof -
  obtain db' where db': "record_target_failure id demo_legacy_target demo_decision ''d'' ''reset'' 9000 0
       (demo_legacy_db [demo_open_row]) = Inr db'" using demo_legacy_failure by blast
  have wf: "legacy_wf (demo_legacy_db [demo_open_row])" by (simp add: legacy_wf_def demo_legacy_db_def unique_key_def)
  have target: "LT_ID demo_legacy_target = 7" by (simp add: demo_legacy_target_def)
  have row: "row_by SH_TargetID (LT_ID demo_legacy_target) (health_rows (demo_legacy_db [demo_open_row])) = Some demo_open_row"
    by (simp add: target)
  have refused: "acquire_target_permit 7 9001 0 False (demo_legacy_db [demo_open_row]) =
       Inr (False, demo_legacy_db [demo_open_row])"
    by (simp add: acquire_target_permit_def demo_legacy_db_def demo_open_row_def row_simps sql_upsert_def sql_update_def)
  from late_failure_recloses_open_circuit [OF wf row _ _ _ _ _ _ _ db', of 9001 0 False] db' refused
  show ?thesis by (auto simp: demo_open_row_def target)
qed

lemma newest_first_weak: "strict_weak newest_first"
  by (auto simp: strict_weak_def newest_first_def)

text \<open>
  Recording a probe keeps the history of its target bounded: at most 500 results of the
  target remain, no result outside them is newer than one of them (by time, then ID), the results
  of other targets stay as they were, and nothing is invented: what remains was there or is the
  new result.
\<close>

theorem probe_history_bounded:
  assumes "insert_probe_result redact route target status latency cls message checked_at db = Inr db'"
    and "unique_key PR_ID (probe_results db)" and "\<forall>r \<in> set (probe_results db). PR_ID r \<le> probe_results_seq db"
  shows "length (filter (\<lambda>r. PR_TargetID r = target) (probe_results db')) \<le> 500 \<and>
    filter (\<lambda>r. PR_TargetID r \<noteq> target) (probe_results db') =
      filter (\<lambda>r. PR_TargetID r \<noteq> target) (probe_results db) \<and>
    (\<forall>kept \<in> set (probe_results db'). \<forall>r \<in> set (probe_results db).
       PR_TargetID kept = target \<and> PR_TargetID r = target \<and> r \<notin> set (probe_results db') \<longrightarrow>
       newest_first kept r) \<and>
    unique_key PR_ID (probe_results db') \<and> (\<forall>r \<in> set (probe_results db'). PR_ID r \<le> probe_results_seq db')"
proof -
  define row where "row = \<lparr>PR_ID = probe_results_seq db + 1, PR_RouteID = route, PR_TargetID = target,
    PR_Status = status, PR_LatencyMS = latency, PR_ErrorClass = cls, PR_ErrorMessage = redact message,
    PR_CheckedAt = checked_at\<rparr>"
  define rows where "rows = probe_results db @ [row]"
  define mine where "mine = slice_stable newest_first (filter (\<lambda>r. PR_TargetID r = target) rows)"
  define kept where "kept = map PR_ID (take 500 mine)"
  have db': "probe_results db' = filter (\<lambda>r. \<not> (PR_TargetID r = target \<and> PR_ID r \<notin> set kept)) rows"
    "probe_results_seq db' = probe_results_seq db + 1"
    using assms(1) by (auto simp: insert_probe_result_def trim_probe_results_def sql_delete_def Let_def
        row_def rows_def mine_def kept_def split: if_splits)
  have rt: "PR_TargetID row = target" by (simp add: row_def)
  have u: "unique_key PR_ID rows"
    using assms(2,3) by (force simp: rows_def unique_key_append_row row_by_None row_def)
  have mine: "set mine = {r \<in> set rows. PR_TargetID r = target}" by (simp add: mine_def)
  have inj: "inj_on PR_ID (set rows)" using u by (simp add: unique_key_def distinct_map)
  have in_kept: "PR_ID r \<in> set kept \<longleftrightarrow> r \<in> set (take 500 mine)" if "r \<in> set rows" for r
    using inj that mine by (auto simp: kept_def inj_on_def dest: in_set_takeD)
  have fin: "filter (\<lambda>r. PR_TargetID r = target) (probe_results db') =
      filter (\<lambda>r. PR_TargetID r = target \<and> r \<in> set (take 500 mine)) rows"
    unfolding db' filter_filter using in_kept by (intro filter_cong) auto
  have "distinct (map PR_ID rows)" using u by (simp add: unique_key_def)
  then have d: "distinct (filter (\<lambda>r. PR_TargetID r = target \<and> r \<in> set (take 500 mine)) rows)"
    by (simp add: distinct_map)
  have "length (filter (\<lambda>r. PR_TargetID r = target) (probe_results db')) =
      card (set (filter (\<lambda>r. PR_TargetID r = target \<and> r \<in> set (take 500 mine)) rows))"
    unfolding fin using distinct_card [OF d] by simp
  also have "\<dots> \<le> card (set (take 500 mine))" by (rule card_mono) auto
  also have "\<dots> \<le> 500" using card_length [of "take 500 mine"] by simp
  finally have bound: "length (filter (\<lambda>r. PR_TargetID r = target) (probe_results db')) \<le> 500" .
  have newest: "newest_first k r"
    if "k \<in> set (probe_results db')" "r \<in> set (probe_results db)" "PR_TargetID k = target"
      "PR_TargetID r = target" "r \<notin> set (probe_results db')" for k r
  proof -
    have r: "r \<in> set rows" using that(2) by (simp add: rows_def)
    have k: "k \<in> set rows" "k \<in> set (take 500 mine)" using that(1,3) in_kept by (auto simp: db')
    have "r \<notin> set (take 500 mine)" "r \<in> set mine" using that r in_kept mine by (auto simp: db')
    then have "r \<in> set (drop 500 mine)" by (metis UnE append_take_drop_id set_append)
    with k(2) slice_stable_sorted [OF newest_first_weak] have "\<not> newest_first r k"
      unfolding mine_def by (metis (no_types, lifting) sorted_wrt_take_drop)
    moreover have "PR_ID k \<noteq> PR_ID r"
      using inj k(1) r that(1,5) by (auto simp: inj_on_def)
    ultimately show ?thesis by (auto simp: newest_first_def)
  qed
  have others: "filter (\<lambda>r. PR_TargetID r \<noteq> target) (probe_results db') =
      filter (\<lambda>r. PR_TargetID r \<noteq> target) (probe_results db)"
    unfolding db' filter_filter rows_def using rt by (simp, intro filter_cong) auto
  have "unique_key PR_ID (probe_results db')" unfolding db' by (rule unique_key_filter [OF u])
  moreover have "\<forall>r \<in> set (probe_results db'). PR_ID r \<le> probe_results_seq db'"
    using assms(3) by (auto simp: db' rows_def row_def)
  ultimately show ?thesis using bound others newest by blast
qed

theorem probe_history_bounded_witness:
  "\<exists>db'. insert_probe_result id 1 7 ''success'' (Some 12) '''' '''' 1000 (demo_legacy_db []) = Inr db' \<and>
     length (filter (\<lambda>r. PR_TargetID r = 7) (probe_results db')) \<le> 500"
proof -
  have "\<exists>db'. insert_probe_result id 1 7 ''success'' (Some 12) '''' '''' 1000 (demo_legacy_db []) = Inr db'"
    by (simp add: insert_probe_result_def demo_legacy_db_def Let_def)
  then obtain db' where db': "insert_probe_result id 1 7 ''success'' (Some 12) '''' '''' 1000 (demo_legacy_db []) = Inr db'"
    by blast
  have "length (filter (\<lambda>r. PR_TargetID r = 7) (probe_results db')) \<le> 500"
    using probe_history_bounded [OF db'] by (simp add: demo_legacy_db_def unique_key_def)
  with db' show ?thesis by blast
qed

end
