(* ===== verification/Quota.thy ===== *)
theory Quota
  imports StoreBase
begin

text \<open>
  Downstream keys, their quota and the request log: \<open>internal/store/keys.go\<close>,
  \<open>internal/store/logs.go\<close> and \<open>internal/store/recovery.go\<close>. Amounts are micro-USD in \<open>int64\<close>; the
  one subtraction Go makes outside SQL (\<open>available\<close>) wraps. \<open>digest\<close> stands for SHA-256,
  \<open>redact\<close> for \<open>redact.String\<close>, \<open>clock\<close> for \<open>NowMS()\<close>. The JSON list of allowed models is kept
  decoded, a \<open>NULL\<close> text column is the empty string, and the integer ID of a ledger row is left
  out (nothing reads it). The statistics of the log page (\<open>SummarizeRequestLogs\<close> and the list
  queries) are not modelled.
\<close>

record key_row =
  DK_ID :: int
  DK_Name :: string
  DK_KeyPrefix :: string
  DK_KeyHash :: string
  DK_Enabled :: bool
  DK_Quota :: "int option"
  DK_RPMLimit :: int
  DK_Used :: int
  DK_Reserved :: int
  DK_AllowedModels :: "string list"
  DK_RoutingProfileID :: "int option"
  DK_ExpiresAt :: "int option"
  DK_LastUsedAt :: "int option"
  DK_CreatedAt :: int
  DK_UpdatedAt :: int

record key_write =
  KW_Name :: string
  KW_Enabled :: bool
  KW_Quota :: "int option"
  KW_RPMLimit :: int
  KW_AllowedModels :: "string list"
  KW_RoutingProfileID :: "int option"
  KW_ExpiresAt :: "int option"

record rate_window =
  RW_KeyID :: int
  RW_Start :: int
  RW_Count :: int

record ledger_row =
  QL_KeyID :: int
  QL_RequestID :: string
  QL_Type :: string
  QL_Amount :: int
  QL_CreatedAt :: int

record request_start =
  RS_ID :: string
  RS_RoutingGeneration :: string
  RS_Surface :: string
  RS_DownstreamKeyID :: int
  RS_RouteID :: int
  RS_RouteRevision :: int
  RS_PublishedModelID :: int
  RS_PublishedModelRevision :: int
  RS_RoutingProfileID :: int
  RS_RoutingProfileName :: string
  RS_RequestedModel :: string
  RS_ReasoningEffort :: string
  RS_ThinkingBudget :: "int option"
  RS_Stream :: bool
  RS_StartedAt :: int

record request_finish =
  RF_ActualModel :: string
  RF_Status :: string
  RF_HTTPStatus :: int
  RF_FirstTokenMS :: "int option"
  RF_DurationMS :: int
  RF_InputTokens :: "int option"
  RF_CacheReadTokens :: "int option"
  RF_CacheWriteTokens :: "int option"
  RF_CacheWrite1HTokens :: "int option"
  RF_OutputTokens :: "int option"
  RF_ReasoningTokens :: "int option"
  RF_CostMicroUSD :: int
  RF_PriceSnapshotJSON :: string
  RF_ErrorMessage :: string
  RF_FinishedAt :: int

text \<open>A row of \<open>request_logs\<close>: what starting the request wrote, and what finishing it wrote.\<close>

record request_row =
  RL_ID :: string
  RL_Generation :: string
  RL_Surface :: string
  RL_KeyID :: "int option"
  RL_RouteID :: "int option"
  RL_RouteRevision :: "int option"
  RL_PublishedModelID :: "int option"
  RL_PublishedModelRevision :: "int option"
  RL_RoutingProfileID :: "int option"
  RL_RoutingProfileName :: string
  RL_RequestedModel :: string
  RL_ReasoningEffort :: string
  RL_ThinkingBudget :: "int option"
  RL_Stream :: bool
  RL_StartedAt :: int
  RL_Status :: string
  RL_ActualModel :: string
  RL_HTTPStatus :: "int option"
  RL_FirstTokenMS :: "int option"
  RL_DurationMS :: "int option"
  RL_InputTokens :: "int option"
  RL_CacheReadTokens :: "int option"
  RL_CacheWriteTokens :: "int option"
  RL_CacheWrite1HTokens :: "int option"
  RL_OutputTokens :: "int option"
  RL_ReasoningTokens :: "int option"
  RL_CostMicroUSD :: int
  RL_PriceSnapshotJSON :: string
  RL_ErrorMessage :: string
  RL_FinishedAt :: "int option"

record quota_db =
  keys :: "key_row list"
  key_seq :: int
  rate_windows :: "rate_window list"
  requests :: "request_row list"
  ledger :: "ledger_row list"
  known_profiles :: "int list"
  known_routes :: "int list"
  known_models :: "int list"

subsection \<open>Keys\<close>

definition validate_downstream_routing_profile :: "int option \<Rightarrow> quota_db \<Rightarrow> (store_error, unit) result" where
  "validate_downstream_routing_profile profile db =
     (case profile of
        None \<Rightarrow> Inr ()
      | Some p \<Rightarrow> if p \<le> 0 then Inl (ErrText ''routing profile ID must be positive'')
                 else if p \<notin> set (known_profiles db) then Inl ErrNoRows else Inr ())"

definition create_downstream_key ::
  "(string \<Rightarrow> string) \<Rightarrow> int \<Rightarrow> key_write \<Rightarrow> string \<Rightarrow> string \<Rightarrow> quota_db \<Rightarrow> (store_error, int \<times> quota_db) result" where
  "create_downstream_key digest clock input prefix raw db =
     (if (case KW_Quota input of Some q \<Rightarrow> q < 0 | None \<Rightarrow> False) then Inl (ErrText ''quota cannot be negative'')
      else case validate_downstream_routing_profile (KW_RoutingProfileID input) db of
        Inl e \<Rightarrow> Inl e
      | Inr _ \<Rightarrow>
          if row_by DK_KeyHash (digest raw) (keys db) \<noteq> None then Inl ErrConstraint
          else
            (let new_id = key_seq db + 1;
                 row = \<lparr>DK_ID = new_id, DK_Name = KW_Name input, DK_KeyPrefix = prefix, DK_KeyHash = digest raw,
                   DK_Enabled = KW_Enabled input, DK_Quota = KW_Quota input,
                   DK_RPMLimit = clamp (KW_RPMLimit input) 0 100000, DK_Used = 0, DK_Reserved = 0,
                   DK_AllowedModels = KW_AllowedModels input, DK_RoutingProfileID = KW_RoutingProfileID input,
                   DK_ExpiresAt = KW_ExpiresAt input, DK_LastUsedAt = None, DK_CreatedAt = clock, DK_UpdatedAt = clock\<rparr>
             in Inr (new_id, db\<lparr>keys := keys db @ [row], key_seq := new_id\<rparr>)))"

definition update_downstream_key :: "int \<Rightarrow> int \<Rightarrow> key_write \<Rightarrow> quota_db \<Rightarrow> (store_error, quota_db) result" where
  "update_downstream_key clock key input db =
     (if (case KW_Quota input of Some q \<Rightarrow> q < 0 | None \<Rightarrow> False) then Inl (ErrText ''quota cannot be negative'')
      else case validate_downstream_routing_profile (KW_RoutingProfileID input) db of
        Inl e \<Rightarrow> Inl e
      | Inr _ \<Rightarrow>
          (let (keys', changed) = sql_update
                 (\<lambda>k. DK_ID k = key \<and> (case KW_Quota input of None \<Rightarrow> True
                    | Some q \<Rightarrow> q \<ge> DK_Used k \<and> q - DK_Used k \<ge> DK_Reserved k))
                 (\<lambda>k. k\<lparr>DK_Name := KW_Name input, DK_Enabled := KW_Enabled input, DK_Quota := KW_Quota input,
                        DK_RPMLimit := clamp (KW_RPMLimit input) 0 100000,
                        DK_AllowedModels := KW_AllowedModels input,
                        DK_RoutingProfileID := KW_RoutingProfileID input, DK_ExpiresAt := KW_ExpiresAt input,
                        DK_UpdatedAt := clock\<rparr>)
                 (keys db)
           in if changed = 0 then Inl ErrNoRows else Inr (db\<lparr>keys := keys'\<rparr>)))"

text \<open>Deleting a key cascades to its ledger and its rate windows and clears it from the log.\<close>

definition delete_downstream_key :: "int \<Rightarrow> quota_db \<Rightarrow> (store_error, quota_db) result" where
  "delete_downstream_key key db =
     (let (keys', changed) = sql_delete (\<lambda>k. DK_ID k = key \<and> DK_Reserved k = 0) (keys db) in
      if changed = 1 then
        Inr (db\<lparr>keys := keys',
               ledger := fst (sql_delete (\<lambda>q. QL_KeyID q = key) (ledger db)),
               rate_windows := fst (sql_delete (\<lambda>w. RW_KeyID w = key) (rate_windows db)),
               requests := fst (sql_update (\<lambda>l. RL_KeyID l = Some key) (\<lambda>l. l\<lparr>RL_KeyID := None\<rparr>) (requests db))\<rparr>)
      else case row_by DK_ID key (keys db) of
        None \<Rightarrow> Inl ErrNoRows
      | Some k \<Rightarrow>
          if DK_Reserved k > 0 then Inl (ErrDownstreamKeyHasReservations (DK_Reserved k))
          else if DK_Reserved k < 0 then Inl ErrInvalidQuotaState
          else Inl ErrNoRows)"

definition reset_downstream_key_usage :: "int \<Rightarrow> int \<Rightarrow> quota_db \<Rightarrow> (store_error, quota_db) result" where
  "reset_downstream_key_usage clock key db =
     (let (keys', changed) = sql_update (\<lambda>k. DK_ID k = key \<and> DK_Reserved k = 0)
            (\<lambda>k. k\<lparr>DK_Used := 0, DK_UpdatedAt := clock\<rparr>) (keys db)
      in if changed = 0 then Inl ErrNoRows
         else Inr (db\<lparr>keys := keys', ledger := fst (sql_delete (\<lambda>q. QL_KeyID q = key) (ledger db))\<rparr>))"

definition list_contains :: "string list \<Rightarrow> string \<Rightarrow> bool" where
  "list_contains values needle = (needle \<in> set values)"

definition key_allows_model :: "key_row \<Rightarrow> string \<Rightarrow> bool" where
  "key_allows_model key model = (DK_AllowedModels key = [] \<or> list_contains (DK_AllowedModels key) model)"

subsection \<open>Requests per minute\<close>

definition rate_window_start :: "int \<Rightarrow> int" where
  "rate_window_start now = now - go_mod now 60000"

definition consume_rpm :: "int \<Rightarrow> int \<Rightarrow> int \<Rightarrow> rate_window list \<Rightarrow> (store_error, rate_window list) result" where
  "consume_rpm key limit now t =
     (let window = rate_window_start now;
          here = (\<lambda>w. RW_KeyID w = key \<and> RW_Start w = window);
          (t', changed) = (if \<exists>w \<in> set t. here w
             then sql_update (\<lambda>w. here w \<and> RW_Count w < limit) (\<lambda>w. w\<lparr>RW_Count := RW_Count w + 1\<rparr>) t
             else (t @ [\<lparr>RW_KeyID = key, RW_Start = window, RW_Count = 1\<rparr>], 1))
      in if changed = 0 then Inl (ErrText ''API key RPM limit exceeded'')
         else Inr (fst (sql_delete (\<lambda>w. RW_Start w < window - 120000) t')))"

definition authenticate_downstream_key ::
  "(string \<Rightarrow> string) \<Rightarrow> int \<Rightarrow> string \<Rightarrow> string \<Rightarrow> quota_db \<Rightarrow> (store_error, key_row \<times> quota_db) result" where
  "authenticate_downstream_key digest now raw model db =
     (case row_by DK_KeyHash (digest raw) (keys db) of
        None \<Rightarrow> Inl ErrNoRows
      | Some item \<Rightarrow>
          if \<not> DK_Enabled item then Inl (ErrText ''API key is disabled'')
          else if (case DK_ExpiresAt item of Some e \<Rightarrow> e \<le> now | None \<Rightarrow> False)
          then Inl (ErrText ''API key has expired'')
          else if (case DK_Quota item of None \<Rightarrow> False
                  | Some quota \<Rightarrow> quota < 0 \<or> DK_Used item < 0 \<or> DK_Reserved item < 0 \<or> DK_Used item \<ge> quota \<or>
                      DK_Used item > quota \<or> DK_Reserved item \<ge> quota - DK_Used item)
          then Inl (ErrText ''API key quota exhausted'')
          else if model \<noteq> '''' \<and> DK_AllowedModels item \<noteq> [] \<and> \<not> list_contains (DK_AllowedModels item) model
          then Inl (ErrText ''model is not allowed for this API key'')
          else
            (case (if DK_RPMLimit item > 0 then consume_rpm (DK_ID item) (DK_RPMLimit item) now (rate_windows db)
                   else Inr (rate_windows db)) of
               Inl e \<Rightarrow> Inl e
             | Inr windows \<Rightarrow> Inr (item, db\<lparr>rate_windows := windows,
                 keys := fst (sql_update (\<lambda>k. DK_ID k = DK_ID item)
                   (\<lambda>k. k\<lparr>DK_LastUsedAt := Some now, DK_UpdatedAt := now\<rparr>) (keys db))\<rparr>)))"

subsection \<open>Requests\<close>

definition insert_quota_ledger ::
  "int \<Rightarrow> string \<Rightarrow> string \<Rightarrow> int \<Rightarrow> int \<Rightarrow> quota_db \<Rightarrow> (store_error, quota_db) result" where
  "insert_quota_ledger key request entry amount at db =
     (if amount \<le> 0 then Inl ErrInvalidQuotaState
      else if row_by DK_ID key (keys db) = None then Inl ErrConstraint
      else Inr (db\<lparr>ledger := ledger db @
        [\<lparr>QL_KeyID = key, QL_RequestID = request, QL_Type = entry, QL_Amount = amount, QL_CreatedAt = at\<rparr>]\<rparr>))"

definition nullable_int64 :: "int \<Rightarrow> int option" where
  "nullable_int64 value = (if value \<le> 0 then None else Some value)"

definition default_routing_profile_name :: string where
  "default_routing_profile_name = ''Default route''"

definition with_default :: "string \<Rightarrow> string \<Rightarrow> string" where
  "with_default fallback s = (if s = '''' then fallback else s)"

definition insert_request_start :: "request_start \<Rightarrow> quota_db \<Rightarrow> (store_error, quota_db) result" where
  "insert_request_start input db =
     (let generation = with_default ''legacy'' (to_lower (trim_space (RS_RoutingGeneration input)));
          surface = with_default ''chat_completions'' (to_lower (trim_space (RS_Surface input)));
          profile_name = with_default default_routing_profile_name (trim_space (RS_RoutingProfileName input))
      in if generation \<noteq> ''legacy'' \<and> generation \<noteq> ''v3''
         then Inl (ErrText ''request routing generation must be legacy or v3'')
         else if surface \<noteq> ''chat_completions'' \<and> surface \<noteq> ''responses''
         then Inl (ErrText ''request API surface must be chat_completions or responses'')
         else if row_by RL_ID (RS_ID input) (requests db) \<noteq> None \<or>
                 row_by DK_ID (RS_DownstreamKeyID input) (keys db) = None \<or>
                 (RS_RouteID input > 0 \<and> RS_RouteID input \<notin> set (known_routes db)) \<or>
                 (RS_PublishedModelID input > 0 \<and> RS_PublishedModelID input \<notin> set (known_models db))
         then Inl ErrConstraint
         else Inr (db\<lparr>requests := requests db @
           [\<lparr>RL_ID = RS_ID input, RL_Generation = generation, RL_Surface = surface,
             RL_KeyID = Some (RS_DownstreamKeyID input), RL_RouteID = nullable_int64 (RS_RouteID input),
             RL_RouteRevision = nullable_int64 (RS_RouteRevision input),
             RL_PublishedModelID = nullable_int64 (RS_PublishedModelID input),
             RL_PublishedModelRevision = nullable_int64 (RS_PublishedModelRevision input),
             RL_RoutingProfileID = nullable_int64 (RS_RoutingProfileID input),
             RL_RoutingProfileName = profile_name, RL_RequestedModel = RS_RequestedModel input,
             RL_ReasoningEffort = RS_ReasoningEffort input, RL_ThinkingBudget = RS_ThinkingBudget input,
             RL_Stream = RS_Stream input, RL_StartedAt = RS_StartedAt input, RL_Status = ''running'',
             RL_ActualModel = '''', RL_HTTPStatus = None, RL_FirstTokenMS = None, RL_DurationMS = None,
             RL_InputTokens = None, RL_CacheReadTokens = None, RL_CacheWriteTokens = None,
             RL_CacheWrite1HTokens = None, RL_OutputTokens = None, RL_ReasoningTokens = None,
             RL_CostMicroUSD = 0, RL_PriceSnapshotJSON = '''', RL_ErrorMessage = '''', RL_FinishedAt = None\<rparr>]\<rparr>))"

text \<open>The guard of the reservation, evaluated on the row that is updated.\<close>

definition may_reserve :: "int \<Rightarrow> int \<Rightarrow> key_row \<Rightarrow> bool" where
  "may_reserve amount now k \<longleftrightarrow> DK_Enabled k \<and>
     (case DK_Quota k of
        None \<Rightarrow> False
      | Some quota \<Rightarrow> quota \<ge> 0 \<and> DK_Used k \<ge> 0 \<and> DK_Reserved k \<ge> 0 \<and> DK_Used k \<le> quota \<and>
          DK_Reserved k \<le> quota - DK_Used k \<and> amount \<le> quota - DK_Used k - DK_Reserved k) \<and>
     (case DK_ExpiresAt k of None \<Rightarrow> True | Some e \<Rightarrow> e > now)"

definition start_request_with_reservation ::
  "request_start \<Rightarrow> int \<Rightarrow> bool \<Rightarrow> quota_db \<Rightarrow> (store_error, quota_db) result" where
  "start_request_with_reservation input reserved finite_quota db =
     (if reserved < 0 \<or> finite_quota \<and> reserved = 0 then Inl ErrInvalidQuotaState
      else
        (let (keys', changed) = (if finite_quota
               then sql_update (\<lambda>k. DK_ID k = RS_DownstreamKeyID input \<and> may_reserve reserved (RS_StartedAt input) k)
                      (\<lambda>k. k\<lparr>DK_Reserved := DK_Reserved k + reserved, DK_LastUsedAt := Some (RS_StartedAt input),
                             DK_UpdatedAt := RS_StartedAt input\<rparr>) (keys db)
               else (keys db, 1))
         in if changed \<noteq> 1 then Inl ErrQuotaExceeded
            else case insert_request_start input (db\<lparr>keys := keys'\<rparr>) of
              Inl e \<Rightarrow> Inl e
            | Inr db1 \<Rightarrow>
                if finite_quota
                then insert_quota_ledger (RS_DownstreamKeyID input) (RS_ID input) ''reserve'' reserved (RS_StartedAt input) db1
                else Inr db1))"

definition start_request :: "request_start \<Rightarrow> quota_db \<Rightarrow> (store_error, quota_db) result" where
  "start_request input db = start_request_with_reservation input 0 False db"

definition nullable_status :: "int \<Rightarrow> int option" where
  "nullable_status value = (if value \<le> 0 then None else Some value)"

text \<open>\<open>requestFinishSQL\<close> with its arguments\<close>

definition finish_request_row :: "(string \<Rightarrow> string) \<Rightarrow> request_finish \<Rightarrow> request_row \<Rightarrow> request_row" where
  "finish_request_row redact input l =
     l\<lparr>RL_ActualModel := RF_ActualModel input, RL_Status := RF_Status input,
       RL_HTTPStatus := nullable_status (RF_HTTPStatus input), RL_FirstTokenMS := RF_FirstTokenMS input,
       RL_DurationMS := Some (RF_DurationMS input), RL_InputTokens := RF_InputTokens input,
       RL_CacheReadTokens := RF_CacheReadTokens input, RL_CacheWriteTokens := RF_CacheWriteTokens input,
       RL_CacheWrite1HTokens := RF_CacheWrite1HTokens input, RL_OutputTokens := RF_OutputTokens input,
       RL_ReasoningTokens := RF_ReasoningTokens input, RL_CostMicroUSD := RF_CostMicroUSD input,
       RL_PriceSnapshotJSON := RF_PriceSnapshotJSON input, RL_ErrorMessage := redact (RF_ErrorMessage input),
       RL_FinishedAt := Some (RF_FinishedAt input)\<rparr>"

definition running :: "request_row \<Rightarrow> bool" where
  "running l \<longleftrightarrow> RL_Status l = ''running''"

definition finish_request ::
  "(string \<Rightarrow> string) \<Rightarrow> string \<Rightarrow> request_finish \<Rightarrow> quota_db \<Rightarrow> (store_error, quota_db) result" where
  "finish_request redact request input db =
     (let (requests', changed) = sql_update (\<lambda>l. RL_ID l = request \<and> running l)
            (finish_request_row redact input) (requests db)
      in if changed \<noteq> 1 then Inl ErrRequestAlreadyFinished else Inr (db\<lparr>requests := requests'\<rparr>))"

definition append_accounting_message :: "string \<Rightarrow> string \<Rightarrow> string" where
  "append_accounting_message existing addition =
     (if existing = '''' then addition else existing @ ''; '' @ addition)"

text \<open>The ledger entries of a settlement, in the order the code writes them.\<close>

definition settle_entries :: "int \<Rightarrow> int \<Rightarrow> (string \<times> int) list" where
  "settle_entries reserved applied =
     (if reserved = 0 then (if applied > 0 then [(''settle'', applied)] else [])
      else
        (let settled = (if applied > reserved then reserved else applied) in
         (if settled > 0 then [(''settle'', settled)] else []) @
         (if applied < reserved then [(''release'', reserved - applied)] else []) @
         (if applied > reserved then [(''additional'', applied - reserved)] else [])))"

fun insert_ledger_entries ::
  "int \<Rightarrow> string \<Rightarrow> int \<Rightarrow> (string \<times> int) list \<Rightarrow> quota_db \<Rightarrow> (store_error, quota_db) result" where
  "insert_ledger_entries key request at [] db = Inr db"
| "insert_ledger_entries key request at ((entry, amount) # es) db =
     (case insert_quota_ledger key request entry amount at db of
        Inl e \<Rightarrow> Inl e
      | Inr db' \<Rightarrow> insert_ledger_entries key request at es db')"

definition quota_exhausted_message :: string where
  "quota_exhausted_message = ''official cost exceeded the remaining downstream quota; the key was exhausted''"

definition finish_request_and_settle ::
  "(string \<Rightarrow> string) \<Rightarrow> string \<Rightarrow> int \<Rightarrow> int \<Rightarrow> int \<Rightarrow> request_finish \<Rightarrow> quota_db \<Rightarrow> (store_error, quota_db) result" where
  "finish_request_and_settle redact request key reserved charged input0 db =
     (if key \<le> 0 \<or> reserved < 0 \<or> charged < 0 then Inl ErrInvalidQuotaState
      else case row_by DK_ID key (keys db) of
        None \<Rightarrow> Inl ErrNoRows
      | Some k \<Rightarrow>
          if DK_Used k < 0 \<or> DK_Reserved k < reserved then Inl ErrInvalidQuotaState
          else
            (let other = wrap64 (DK_Reserved k - reserved);
                 checked = (case DK_Quota k of
                   None \<Rightarrow> Inr (charged, input0)
                 | Some quota \<Rightarrow>
                     (let available = wrap64 (wrap64 (quota - DK_Used k) - other) in
                      if quota < 0 \<or> available < 0 then Inl ErrInvalidQuotaState
                      else if charged > available
                      then Inr (available, input0\<lparr>RF_ErrorMessage :=
                             append_accounting_message (RF_ErrorMessage input0) quota_exhausted_message\<rparr>)
                      else Inr (charged, input0)))
             in case checked of
                  Inl e \<Rightarrow> Inl e
                | Inr (applied, input) \<Rightarrow>
                    (let (requests', finished) = sql_update
                           (\<lambda>l. RL_ID l = request \<and> RL_KeyID l = Some key \<and> running l)
                           (finish_request_row redact input) (requests db)
                     in if finished \<noteq> 1 then Inl ErrRequestAlreadyFinished
                        else
                          (let (keys', charged_rows) = sql_update
                                 (\<lambda>r. DK_ID r = key \<and> DK_Reserved r = DK_Reserved k \<and> DK_Used r = DK_Used k \<and>
                                      DK_Used r \<le> max_int64 - applied)
                                 (\<lambda>r. r\<lparr>DK_Reserved := DK_Reserved r - reserved, DK_Used := DK_Used r + applied,
                                        DK_UpdatedAt := RF_FinishedAt input\<rparr>) (keys db)
                           in if charged_rows \<noteq> 1 then Inl ErrInvalidQuotaState
                              else insert_ledger_entries key request (RF_FinishedAt input)
                                     (settle_entries reserved applied)
                                     (db\<lparr>requests := requests', keys := keys'\<rparr>)))))"

subsection \<open>Recovery and clean-up\<close>

text \<open>The signed amount of a ledger row in the sum of what a request still holds.\<close>

definition ledger_sign :: "string \<Rightarrow> int" where
  "ledger_sign entry = (if entry = ''reserve'' then 1 else if entry = ''settle'' \<or> entry = ''release'' then - 1 else 0)"

definition outstanding :: "ledger_row list \<Rightarrow> string \<Rightarrow> int \<Rightarrow> int" where
  "outstanding t request key =
     (\<Sum>q \<leftarrow> filter (\<lambda>q. QL_RequestID q = request \<and> QL_KeyID q = key) t. ledger_sign (QL_Type q) * QL_Amount q)"

text \<open>
  The rows of the recovery query: the groups (request, key) of the running requests' ledger with
  their sums, without the groups that sum to 0. The query orders them; only which of several
  errors is reported depends on it.
\<close>

definition orphaned_reservations :: "quota_db \<Rightarrow> (string \<times> int \<times> int) list" where
  "orphaned_reservations db =
     filter (\<lambda>(request, key, amount). amount \<noteq> 0)
       (map (\<lambda>(request, key). (request, key, outstanding (ledger db) request key))
         (remdups (map (\<lambda>q. (QL_RequestID q, QL_KeyID q))
           (filter (\<lambda>q. \<exists>l \<in> set (requests db). RL_ID l = QL_RequestID q \<and> running l) (ledger db)))))"

fun release_reservations ::
  "int \<Rightarrow> (string \<times> int \<times> int) list \<Rightarrow> quota_db \<Rightarrow> (store_error, quota_db) result" where
  "release_reservations at [] db = Inr db"
| "release_reservations at ((request, key, amount) # rs) db =
     (let (keys', changed) = sql_update (\<lambda>k. DK_ID k = key \<and> DK_Reserved k \<ge> amount)
            (\<lambda>k. k\<lparr>DK_Reserved := DK_Reserved k - amount, DK_UpdatedAt := at\<rparr>) (keys db)
      in if changed \<noteq> 1 then Inl ErrInvalidQuotaState
         else case insert_quota_ledger key request ''release'' amount at (db\<lparr>keys := keys'\<rparr>) of
           Inl e \<Rightarrow> Inl e
         | Inr db' \<Rightarrow> release_reservations at rs db')"

definition interrupted_request_message :: string where
  "interrupted_request_message = ''request interrupted by service restart''"

definition interrupt_request :: "int \<Rightarrow> request_row \<Rightarrow> request_row" where
  "interrupt_request at l =
     l\<lparr>RL_Status := ''failed'',
       RL_DurationMS := Some (if RL_StartedAt l \<le> at then at - RL_StartedAt l else 0),
       RL_ErrorMessage := interrupted_request_message, RL_FinishedAt := Some at\<rparr>"

definition recover_running_requests :: "int \<Rightarrow> int \<Rightarrow> quota_db \<Rightarrow> (store_error, nat \<times> quota_db) result" where
  "recover_running_requests clock recovered_at0 db =
     (let at = (if recovered_at0 \<le> 0 then clock else recovered_at0);
          orphans = orphaned_reservations db
      in if \<exists>(request, key, amount) \<in> set orphans. amount < 0 then Inl ErrInvalidQuotaState
         else case release_reservations at orphans db of
           Inl e \<Rightarrow> Inl e
         | Inr db1 \<Rightarrow>
             (let (requests', recovered) = sql_update running (interrupt_request at) (requests db1)
              in Inr (recovered, db1\<lparr>requests := requests'\<rparr>)))"

definition delete_old_logs :: "int \<Rightarrow> quota_db \<Rightarrow> quota_db" where
  "delete_old_logs cutoff db =
     (let requests' = fst (sql_delete (\<lambda>l. RL_StartedAt l < cutoff \<and> \<not> running l) (requests db)) in
      db\<lparr>requests := requests',
         ledger := fst (sql_delete (\<lambda>q. \<not> (\<exists>l \<in> set requests'. RL_ID l = QL_RequestID q)) (ledger db))\<rparr>)"

end
