(* ===== verification/QuotaInvariant.thy ===== *)
theory QuotaInvariant
  imports Quota
begin

text \<open>
  What the quota of a downstream key promises, and that every operation of the store keeps it: a
  key with a quota has never more used and reserved together than its quota, and what is reserved
  is exactly what the ledger says its running requests still hold. \<open>quota_step\<close> is the store as a
  transition system; its rules for finishing a request state the contract of the gateway, which
  settles a request with the amount it reserved for it (\<open>gateway.go\<close>, \<open>account.reservedMicroUSD\<close>).
\<close>

subsection \<open>The invariant\<close>

text \<open>What the running requests hold of a key.\<close>

definition held :: "request_row list \<Rightarrow> ledger_row list \<Rightarrow> int \<Rightarrow> int" where
  "held rs t key = (\<Sum>l \<leftarrow> rs. if running l then outstanding t (RL_ID l) key else 0)"

definition key_ok :: "key_row \<Rightarrow> bool" where
  "key_ok k \<longleftrightarrow> 0 \<le> DK_Used k \<and> DK_Used k \<le> max_int64 \<and> 0 \<le> DK_Reserved k \<and>
     (case DK_Quota k of None \<Rightarrow> True | Some q \<Rightarrow> q \<le> max_int64 \<and> DK_Used k + DK_Reserved k \<le> q)"

definition ledger_row_ok :: "key_row list \<Rightarrow> request_row list \<Rightarrow> ledger_row \<Rightarrow> bool" where
  "ledger_row_ok ks rs q \<longleftrightarrow> row_by DK_ID (QL_KeyID q) ks \<noteq> None \<and>
     (\<exists>l \<in> set rs. RL_ID l = QL_RequestID q \<and> (running l \<longrightarrow> RL_KeyID l = Some (QL_KeyID q)))"

definition quota_wf :: "quota_db \<Rightarrow> bool" where
  "quota_wf db \<longleftrightarrow>
     unique_key DK_ID (keys db) \<and> unique_key RL_ID (requests db) \<and>
     (\<forall>k \<in> set (keys db). DK_ID k \<le> key_seq db) \<and>
     (\<forall>q \<in> set (ledger db). ledger_row_ok (keys db) (requests db) q) \<and>
     (\<forall>l \<in> set (requests db). running l \<longrightarrow> (\<forall>k. 0 \<le> outstanding (ledger db) (RL_ID l) k)) \<and>
     (\<forall>k \<in> set (keys db). key_ok k \<and> DK_Reserved k = held (requests db) (ledger db) (DK_ID k))"

named_theorems wf_parts

lemma quota_wfD [wf_parts]:
  assumes "quota_wf db"
  shows "unique_key DK_ID (keys db)" and "unique_key RL_ID (requests db)"
    and "\<And>k. k \<in> set (keys db) \<Longrightarrow> DK_ID k \<le> key_seq db"
    and "\<And>q. q \<in> set (ledger db) \<Longrightarrow> ledger_row_ok (keys db) (requests db) q"
    and "\<And>l k. l \<in> set (requests db) \<Longrightarrow> running l \<Longrightarrow> 0 \<le> outstanding (ledger db) (RL_ID l) k"
    and "\<And>k. k \<in> set (keys db) \<Longrightarrow> key_ok k"
    and "\<And>k. k \<in> set (keys db) \<Longrightarrow> DK_Reserved k = held (requests db) (ledger db) (DK_ID k)"
  using assms by (simp_all add: quota_wf_def)

subsection \<open>Sums over the ledger\<close>

lemma outstanding_Nil [simp]: "outstanding [] r k = 0"
  by (simp add: outstanding_def)

lemma outstanding_append:
  "outstanding (t @ u) r k = outstanding t r k + outstanding u r k"
  by (simp add: outstanding_def)

lemma outstanding_one:
  "outstanding [q] r k = (if QL_RequestID q = r \<and> QL_KeyID q = k then ledger_sign (QL_Type q) * QL_Amount q else 0)"
  by (simp add: outstanding_def)

lemma outstanding_none: "(\<And>q. q \<in> set t \<Longrightarrow> QL_RequestID q \<noteq> r \<or> QL_KeyID q \<noteq> k) \<Longrightarrow> outstanding t r k = 0"
proof -
  assume "\<And>q. q \<in> set t \<Longrightarrow> QL_RequestID q \<noteq> r \<or> QL_KeyID q \<noteq> k"
  then have "filter (\<lambda>q. QL_RequestID q = r \<and> QL_KeyID q = k) t = []" by (auto simp: filter_empty_conv)
  then show ?thesis by (simp add: outstanding_def)
qed

lemma outstanding_filter:
  "(\<And>q. q \<in> set t \<Longrightarrow> QL_RequestID q = r \<Longrightarrow> QL_KeyID q = k \<Longrightarrow> P q) \<Longrightarrow> outstanding (filter P t) r k = outstanding t r k"
proof -
  assume "\<And>q. q \<in> set t \<Longrightarrow> QL_RequestID q = r \<Longrightarrow> QL_KeyID q = k \<Longrightarrow> P q"
  then have "filter (\<lambda>q. P q \<and> QL_RequestID q = r \<and> QL_KeyID q = k) t =
      filter (\<lambda>q. QL_RequestID q = r \<and> QL_KeyID q = k) t" by (auto intro: filter_cong)
  then show ?thesis by (simp add: outstanding_def conj_commute)
qed

lemma held_no_ledger: "(\<And>q. q \<in> set t \<Longrightarrow> QL_KeyID q \<noteq> k) \<Longrightarrow> held rs t k = 0"
proof (induction rs)
  case (Cons l rs)
  then show ?case using outstanding_none [of t "RL_ID l" k] by (simp add: held_def)
qed (simp add: held_def)

lemma held_cong:
  "(\<And>l. l \<in> set rs \<Longrightarrow> running l \<Longrightarrow> outstanding t (RL_ID l) k = outstanding u (RL_ID l) k) \<Longrightarrow> held rs t k = held rs u k"
  unfolding held_def by (rule arg_cong [where f = sum_list], rule map_cong) auto

lemma held_update_other:
  "(\<And>l. running (f l) = running l) \<Longrightarrow> (\<And>l. RL_ID (f l) = RL_ID l) \<Longrightarrow>
    held (fst (sql_update P f rs)) t k = held rs t k"
  unfolding held_def sql_update_def by (simp add: comp_def) (rule arg_cong [where f = sum_list], rule map_cong, auto)

lemma held_append_request: "held (rs @ [l]) t k = held rs t k + (if running l then outstanding t (RL_ID l) k else 0)"
  by (simp add: held_def)

lemma held_append_ledger:
  assumes "unique_key RL_ID rs"
  shows "held rs (t @ [q]) k = held rs t k +
    (if QL_KeyID q = k \<and> (\<exists>l \<in> set rs. running l \<and> RL_ID l = QL_RequestID q)
     then ledger_sign (QL_Type q) * QL_Amount q else 0)"
  using assms
proof (induction rs)
  case Nil
  then show ?case by (simp add: held_def)
next
  case (Cons l rs)
  then have "unique_key RL_ID rs" and "\<forall>x \<in> set rs. RL_ID x \<noteq> RL_ID l"
    by (auto simp: unique_key_def image_iff)
  with Cons.IH show ?case
    by (auto simp: held_def outstanding_append outstanding_one)
qed

text \<open>Taking the one running request of an ID out of the running ones gives back what it held.\<close>

lemma held_finish:
  assumes "unique_key RL_ID rs" and "l \<in> set rs" and "running l"
    and "\<And>r. r \<in> set rs \<Longrightarrow> P r \<longleftrightarrow> r = l" and "\<not> running (f l)"
  shows "held (fst (sql_update P f rs)) t k = held rs t k - outstanding t (RL_ID l) k"
  using assms
proof (induction rs)
  case Nil
  then show ?case by simp
next
  case (Cons r rs)
  from Cons.prems(1) have u: "unique_key RL_ID rs" and nin: "r \<notin> set rs"
    by (auto simp: unique_key_def)
  show ?case
  proof (cases "r = l")
    case True
    then have "\<forall>x \<in> set rs. \<not> P x" using Cons.prems(4) nin by auto
    then have "fst (sql_update P f rs) = rs" by (rule update_no_match)
    with True Cons.prems show ?thesis by (simp add: held_def sql_update_def)
  next
    case False
    with Cons.prems have "held (fst (sql_update P f rs)) t k = held rs t k - outstanding t (RL_ID l) k"
      by (intro Cons.IH u) auto
    with False Cons.prems(4) [of r] show ?thesis by (simp add: held_def sql_update_def)
  qed
qed

lemma held_nonneg:
  "(\<And>l. l \<in> set rs \<Longrightarrow> running l \<Longrightarrow> 0 \<le> outstanding t (RL_ID l) k) \<Longrightarrow> 0 \<le> held rs t k"
  unfolding held_def by (induction rs) auto

lemma held_zero:
  "(\<And>l. l \<in> set rs \<Longrightarrow> running l \<Longrightarrow> outstanding t (RL_ID l) k = 0) \<Longrightarrow> held rs t k = 0"
  unfolding held_def by (induction rs) auto

lemma held_member:
  assumes "l \<in> set rs" and "running l"
    and "\<And>l. l \<in> set rs \<Longrightarrow> running l \<Longrightarrow> 0 \<le> outstanding t (RL_ID l) k"
  shows "outstanding t (RL_ID l) k \<le> held rs t k"
  using assms
proof (induction rs)
  case Nil
  then show ?case by simp
next
  case (Cons r rs)
  have "0 \<le> held rs t k" using Cons.prems(3) by (intro held_nonneg) auto
  moreover have "held (r # rs) t k = (if running r then outstanding t (RL_ID r) k else 0) + held rs t k"
    by (simp add: held_def)
  moreover have "0 \<le> (if running r then outstanding t (RL_ID r) k else 0)" using Cons.prems(3) [of r] by auto
  moreover have "outstanding t (RL_ID l) k \<le> held rs t k" if "l \<in> set rs"
    using Cons.IH [OF that Cons.prems(2)] Cons.prems(3) by auto
  ultimately show ?case using Cons.prems(1,2) by auto
qed

subsection \<open>Every operation keeps the invariant\<close>

text \<open>Ledger rows stay valid when the key IDs, the request IDs and the running requests are kept.\<close>

lemma ledger_row_ok_keys: "DK_ID ` set ks \<subseteq> DK_ID ` set ks' \<Longrightarrow> ledger_row_ok ks rs q \<Longrightarrow> ledger_row_ok ks' rs q"
  unfolding ledger_row_ok_def row_by_key_set by blast

lemma ledger_row_ok_requests: "set rs \<subseteq> set rs' \<Longrightarrow> ledger_row_ok ks rs q \<Longrightarrow> ledger_row_ok ks rs' q"
  unfolding ledger_row_ok_def by blast

lemma ledger_row_ok_update:
  assumes "ledger_row_ok ks rs q" and "\<And>l. RL_ID (f l) = RL_ID l"
    and "\<And>l. running (f l) \<Longrightarrow> running l \<and> RL_KeyID (f l) = RL_KeyID l"
  shows "ledger_row_ok ks (fst (sql_update P f rs)) q"
proof -
  from assms(1) obtain l where l: "l \<in> set rs" "RL_ID l = QL_RequestID q"
    "running l \<longrightarrow> RL_KeyID l = Some (QL_KeyID q)" and k: "row_by DK_ID (QL_KeyID q) ks \<noteq> None"
    by (auto simp: ledger_row_ok_def)
  show ?thesis
    unfolding ledger_row_ok_def
    using k l assms(2,3) by (intro conjI bexI [of _ "if P l then f l else l"]) (auto simp: set_update)
qed

text \<open>An update of the keys alone that keeps IDs and reservations.\<close>

lemma quota_wf_keys:
  assumes wf: "quota_wf db"
    and "\<And>k. DK_ID (f k) = DK_ID k" and "\<And>k. DK_Reserved (f k) = DK_Reserved k"
    and "\<And>k. k \<in> set (keys db) \<Longrightarrow> P k \<Longrightarrow> key_ok (f k)"
    and "key_seq db' = key_seq db" and "requests db' = requests db" and "ledger db' = ledger db"
    and "keys db' = fst (sql_update P f (keys db))"
  shows "quota_wf db'"
proof -
  note old = quota_wfD [OF wf]
  show ?thesis
    unfolding quota_wf_def assms(5-8)
    using old unique_key_update [OF old(1) assms(2)] key_set_update [where key = DK_ID and f = f, OF assms(2)] assms(2-4)
      ledger_row_ok_keys [of "keys db" "fst (sql_update P f (keys db))" "requests db"]
    by (auto simp: set_update)
qed

lemma create_key_wf:
  assumes wf: "quota_wf db" and "create_downstream_key digest clock input prefix raw db = Inr (new_id, db')"
    and "\<forall>q. KW_Quota input = Some q \<longrightarrow> q \<le> max_int64"
  shows "quota_wf db'"
proof -
  note old = quota_wfD [OF wf]
  define row where "row = \<lparr>DK_ID = key_seq db + 1, DK_Name = KW_Name input, DK_KeyPrefix = prefix,
     DK_KeyHash = digest raw, DK_Enabled = KW_Enabled input, DK_Quota = KW_Quota input,
     DK_RPMLimit = clamp (KW_RPMLimit input) 0 100000, DK_Used = 0, DK_Reserved = 0,
     DK_AllowedModels = KW_AllowedModels input, DK_RoutingProfileID = KW_RoutingProfileID input,
     DK_ExpiresAt = KW_ExpiresAt input, DK_LastUsedAt = None, DK_CreatedAt = clock, DK_UpdatedAt = clock\<rparr>"
  have db': "db' = db\<lparr>keys := keys db @ [row], key_seq := key_seq db + 1\<rparr>"
    using assms(2) by (auto simp: create_downstream_key_def row_def Let_def split: if_splits sum.splits)
  have row: "DK_ID row = key_seq db + 1" "DK_Reserved row = 0" "key_ok row"
    using assms(2,3) by (auto simp: create_downstream_key_def row_def key_ok_def split: if_splits option.splits)
  have fresh: "\<forall>k \<in> set (keys db). DK_ID k \<noteq> DK_ID row" using old(3) row(1) by force
  have "QL_KeyID q \<noteq> DK_ID row" if "q \<in> set (ledger db)" for q
    using old(4) [OF that] fresh unfolding ledger_row_ok_def row_by_None by metis
  then have held: "held (requests db) (ledger db) (DK_ID row) = 0" by (rule held_no_ledger)
  have lrow: "ledger_row_ok (keys db @ [row]) (requests db) q" if "q \<in> set (ledger db)" for q
    by (rule ledger_row_ok_keys [OF _ old(4) [OF that]]) auto
  have seq: "DK_ID k \<le> key_seq db + 1" if "k \<in> set (keys db)" for k using old(3) [OF that] by simp
  show ?thesis
    using old(1,2,5-7) row held fresh lrow seq unfolding quota_wf_def db'
    by (auto simp: unique_key_append_row row_by_None)
qed

lemma update_key_wf:
  assumes wf: "quota_wf db" and "update_downstream_key clock key input db = Inr db'"
    and "\<forall>q. KW_Quota input = Some q \<longrightarrow> q \<le> max_int64"
  shows "quota_wf db'"
proof -
  let ?P = "\<lambda>k. DK_ID k = key \<and> (case KW_Quota input of None \<Rightarrow> True
    | Some q \<Rightarrow> q \<ge> DK_Used k \<and> q - DK_Used k \<ge> DK_Reserved k)"
  let ?f = "\<lambda>k. k\<lparr>DK_Name := KW_Name input, DK_Enabled := KW_Enabled input, DK_Quota := KW_Quota input,
    DK_RPMLimit := clamp (KW_RPMLimit input) 0 100000, DK_AllowedModels := KW_AllowedModels input,
    DK_RoutingProfileID := KW_RoutingProfileID input, DK_ExpiresAt := KW_ExpiresAt input, DK_UpdatedAt := clock\<rparr>"
  have db': "db' = db\<lparr>keys := fst (sql_update ?P ?f (keys db))\<rparr>"
    using assms(2) unfolding update_downstream_key_def Let_def case_prod_unfold
    by (simp split: if_splits sum.splits)
  show ?thesis
  proof (rule quota_wf_keys [OF wf, of ?f ?P])
    show "key_ok (?f k)" if "k \<in> set (keys db)" "?P k" for k
      using quota_wfD(6) [OF wf that(1)] that(2) assms(3) by (auto simp: key_ok_def split: option.splits)
  qed (simp_all add: db')
qed

lemma delete_key_wf:
  assumes wf: "quota_wf db" and "delete_downstream_key key db = Inr db'"
  shows "quota_wf db'"
proof -
  note old = quota_wfD [OF wf]
  let ?ledger = "filter (\<lambda>q. \<not> QL_KeyID q = key) (ledger db)"
  let ?P = "\<lambda>l. RL_KeyID l = Some key"
  let ?f = "\<lambda>l. l\<lparr>RL_KeyID := None\<rparr>"
  let ?requests = "fst (sql_update ?P ?f (requests db))"
  have db': "keys db' = filter (\<lambda>k. \<not> (DK_ID k = key \<and> DK_Reserved k = 0)) (keys db)"
    "ledger db' = ?ledger" "requests db' = ?requests" "key_seq db' = key_seq db"
    and one: "length (filter (\<lambda>k. DK_ID k = key \<and> DK_Reserved k = 0) (keys db)) = 1"
    using assms(2) by (auto simp: delete_downstream_key_def sql_delete_def Let_def split: if_splits option.splits)
  from one obtain k0 where k0: "k0 \<in> set (keys db)" "DK_ID k0 = key" "DK_Reserved k0 = 0"
    by (metis (mono_tags, lifting) filter_False length_0_conv zero_neq_one)
  have gone: "k \<in> set (keys db') \<longleftrightarrow> k \<in> set (keys db) \<and> DK_ID k \<noteq> key" for k
    using old(1) k0 by (auto simp: db' unique_key_def distinct_map inj_on_def)
  have out: "outstanding ?ledger r k = (if k = key then 0 else outstanding (ledger db) r k)" for r k
    by (auto intro: outstanding_none outstanding_filter)
  have held: "held ?requests ?ledger k = held (requests db) (ledger db) k" if "k \<noteq> key" for k
  proof -
    have "held ?requests ?ledger k = held (requests db) ?ledger k"
      by (rule held_update_other) (simp_all add: running_def)
    also have "\<dots> = held (requests db) (ledger db) k" by (rule held_cong) (simp add: out that)
    finally show ?thesis .
  qed
  have lrow: "ledger_row_ok (keys db') ?requests q" if q: "q \<in> set ?ledger" for q
  proof -
    from q old(4) have ok: "ledger_row_ok (keys db) (requests db) q" and nk: "QL_KeyID q \<noteq> key" by auto
    then obtain l where l: "l \<in> set (requests db)" "RL_ID l = QL_RequestID q"
      "running l \<longrightarrow> RL_KeyID l = Some (QL_KeyID q)" by (auto simp: ledger_row_ok_def)
    have "row_by DK_ID (QL_KeyID q) (keys db') \<noteq> None"
      using ok nk gone unfolding ledger_row_ok_def row_by_key_set by auto
    with l nk show ?thesis
      unfolding ledger_row_ok_def
      by (intro conjI bexI [of _ "if ?P l then ?f l else l"]) (auto simp: set_update running_def)
  qed
  have "unique_key DK_ID (keys db')" unfolding db' by (rule unique_key_filter [OF old(1)])
  moreover have "unique_key RL_ID ?requests" by (rule unique_key_update [OF old(2)]) simp
  moreover have "\<forall>l \<in> set ?requests. running l \<longrightarrow> (\<forall>k. 0 \<le> outstanding ?ledger (RL_ID l) k)"
    using old(5) by (auto simp: set_update out running_def)
  ultimately show ?thesis
    unfolding quota_wf_def db'(2-4) using old(3,6,7) gone held lrow by (auto simp: db')
qed

lemma reset_key_wf:
  assumes wf: "quota_wf db" and "reset_downstream_key_usage clock key db = Inr db'"
  shows "quota_wf db'"
proof -
  note old = quota_wfD [OF wf]
  let ?P = "\<lambda>k. DK_ID k = key \<and> DK_Reserved k = 0"
  let ?f = "\<lambda>k. k\<lparr>DK_Used := 0, DK_UpdatedAt := clock\<rparr>"
  let ?keys = "fst (sql_update ?P ?f (keys db))"
  let ?ledger = "filter (\<lambda>q. \<not> QL_KeyID q = key) (ledger db)"
  have db': "keys db' = ?keys" "ledger db' = ?ledger" "requests db' = requests db" "key_seq db' = key_seq db"
    and some: "snd (sql_update ?P ?f (keys db)) \<noteq> 0"
    using assms(2) by (auto simp: reset_downstream_key_usage_def sql_delete_def Let_def case_prod_unfold split: if_splits)
  obtain k0 where k0: "k0 \<in> set (keys db)" "DK_ID k0 = key" "?P k0" and only: "\<And>r. r \<in> set (keys db) \<Longrightarrow> ?P r \<longleftrightarrow> r = k0"
    by (rule update_changed_one [where k = key, OF old(1) _ some]) auto
  have out: "outstanding ?ledger r k = (if k = key then 0 else outstanding (ledger db) r k)" for r k
    by (auto intro: outstanding_none outstanding_filter)
  have held: "held (requests db) ?ledger (DK_ID k) = held (requests db) (ledger db) (DK_ID k)" if "k \<in> set (keys db)" for k
  proof (cases "DK_ID k = key")
    case True
    then have "k = k0" using old(1) k0 that by (auto simp: unique_key_def distinct_map inj_on_def)
    then have "held (requests db) (ledger db) key = 0" using old(7) [OF k0(1)] k0 by simp
    then show ?thesis using True held_no_ledger [of ?ledger key "requests db"] by simp
  next
    case False
    then show ?thesis by (intro held_cong) (simp add: out)
  qed
  have "DK_ID ` set ?keys = DK_ID ` set (keys db)" by (rule key_set_update) simp
  then have lrow: "ledger_row_ok ?keys (requests db) q" if "q \<in> set ?ledger" for q
    using that old(4) [of q] ledger_row_ok_keys [of "keys db" ?keys] by simp
  have "unique_key DK_ID ?keys" by (rule unique_key_update [OF old(1)]) simp
  moreover have "key_ok (?f k)" if "key_ok k" for k
    using that by (auto simp: key_ok_def split: option.splits)
  ultimately show ?thesis
    unfolding quota_wf_def db' using old(2,3,5,6,7) lrow held by (auto simp: set_update out)
qed

text \<open>Starting a request.\<close>

lemma insert_request_start_ok:
  assumes "insert_request_start input db = Inr db'"
  obtains l where "db' = db\<lparr>requests := requests db @ [l]\<rparr>" and "RL_ID l = RS_ID input" and "running l"
    and "RL_KeyID l = Some (RS_DownstreamKeyID input)" and "row_by RL_ID (RS_ID input) (requests db) = None"
    and "row_by DK_ID (RS_DownstreamKeyID input) (keys db) \<noteq> None" and "RL_StartedAt l = RS_StartedAt input"
  using assms unfolding insert_request_start_def Let_def
  by (auto simp: running_def split: if_splits)

lemma insert_request_start_wf:
  assumes wf: "quota_wf db" and "insert_request_start input db = Inr db'"
  shows "quota_wf db' \<and> outstanding (ledger db') (RS_ID input) k = 0 \<and>
    (\<exists>l \<in> set (requests db'). running l \<and> RL_ID l = RS_ID input \<and> RL_KeyID l = Some (RS_DownstreamKeyID input)) \<and>
    keys db' = keys db \<and> ledger db' = ledger db"
proof -
  note old = quota_wfD [OF wf]
  obtain l where db': "db' = db\<lparr>requests := requests db @ [l]\<rparr>" and l: "RL_ID l = RS_ID input" "running l"
    "RL_KeyID l = Some (RS_DownstreamKeyID input)" and fresh: "row_by RL_ID (RS_ID input) (requests db) = None"
    using insert_request_start_ok [OF assms(2)] by metis
  have none: "outstanding (ledger db) (RS_ID input) k = 0" for k
    using old(4) fresh by (intro outstanding_none) (fastforce simp: ledger_row_ok_def row_by_None)
  have "held (requests db @ [l]) (ledger db) k = held (requests db) (ledger db) k" for k
    by (simp add: held_append_request l none)
  moreover have "ledger_row_ok (keys db) (requests db @ [l]) q" if "q \<in> set (ledger db)" for q
    by (rule ledger_row_ok_requests [OF _ old(4) [OF that]]) auto
  ultimately have "quota_wf db'"
    unfolding quota_wf_def db' using old(1-3,5-7) l fresh none
    by (auto simp: unique_key_append_row)
  with none l show ?thesis by (auto simp: db')
qed

text \<open>
  Moving an amount: one key's reservation changes by \<open>\<delta>\<close>, and so does what the running requests
  hold of it.
\<close>

lemma quota_wf_move:
  assumes wf: "quota_wf db" and h: "h \<in> set (keys db)" and only: "\<And>r. r \<in> set (keys db) \<Longrightarrow> P r \<longleftrightarrow> r = h"
    and ids: "\<And>k. DK_ID (f k) = DK_ID k" and res: "DK_Reserved (f h) = DK_Reserved h + \<delta>" and ok: "key_ok (f h)"
    and keys': "keys db' = fst (sql_update P f (keys db))" and seq: "key_seq db' = key_seq db"
    and u: "unique_key RL_ID (requests db')"
    and lrow: "\<And>q. q \<in> set (ledger db') \<Longrightarrow> ledger_row_ok (keys db) (requests db') q"
    and nonneg: "\<And>l k. l \<in> set (requests db') \<Longrightarrow> running l \<Longrightarrow> 0 \<le> outstanding (ledger db') (RL_ID l) k"
    and held: "\<And>k. held (requests db') (ledger db') k =
      held (requests db) (ledger db) k + (if k = DK_ID h then \<delta> else 0)"
  shows "quota_wf db'"
proof -
  note old = quota_wfD [OF wf]
  have ids': "DK_ID ` set (keys db') = DK_ID ` set (keys db)"
    unfolding keys' by (rule key_set_update) (rule ids)
  have mem: "k' \<in> set (keys db') \<Longrightarrow> \<exists>k \<in> set (keys db). k' = (if k = h then f h else k)" for k'
    using only by (auto simp: keys' set_update)
  have other: "DK_ID k \<noteq> DK_ID h" if "k \<in> set (keys db)" "k \<noteq> h" for k
    using old(1) that h by (auto simp: unique_key_def distinct_map inj_on_def)
  have "key_ok k' \<and> DK_ID k' \<le> key_seq db' \<and> DK_Reserved k' = held (requests db') (ledger db') (DK_ID k')"
    if "k' \<in> set (keys db')" for k'
    using mem [OF that] old(3,6,7) h ok res other by (auto simp: held seq ids)
  moreover have "ledger_row_ok (keys db') (requests db') q" if "q \<in> set (ledger db')" for q
    by (rule ledger_row_ok_keys [OF _ lrow [OF that]]) (simp add: ids')
  moreover have "unique_key DK_ID (keys db')" unfolding keys' by (rule unique_key_update [OF old(1) ids])
  ultimately show ?thesis using u nonneg by (simp add: quota_wf_def)
qed

lemma insert_quota_ledger_ok:
  "insert_quota_ledger key request entry amount at db = Inr db' \<longleftrightarrow>
     0 < amount \<and> row_by DK_ID key (keys db) \<noteq> None \<and>
     db' = db\<lparr>ledger := ledger db @
       [\<lparr>QL_KeyID = key, QL_RequestID = request, QL_Type = entry, QL_Amount = amount, QL_CreatedAt = at\<rparr>]\<rparr>"
  by (auto simp: insert_quota_ledger_def)

lemma start_reserved_ok:
  assumes wf: "quota_wf db" and "start_request_with_reservation input reserved True db = Inr db'"
  obtains h l where "h \<in> set (keys db)" and "DK_ID h = RS_DownstreamKeyID input"
    and "may_reserve reserved (RS_StartedAt input) h" and "0 < reserved"
    and "RL_ID l = RS_ID input" and "running l" and "RL_KeyID l = Some (RS_DownstreamKeyID input)"
    and "row_by RL_ID (RS_ID input) (requests db) = None"
    and "\<forall>r \<in> set (keys db).
      (DK_ID r = RS_DownstreamKeyID input \<and> may_reserve reserved (RS_StartedAt input) r) \<longleftrightarrow> r = h"
    and "db' = db\<lparr>keys := fst (sql_update
        (\<lambda>k. DK_ID k = RS_DownstreamKeyID input \<and> may_reserve reserved (RS_StartedAt input) k)
        (\<lambda>k. k\<lparr>DK_Reserved := DK_Reserved k + reserved, DK_LastUsedAt := Some (RS_StartedAt input),
               DK_UpdatedAt := RS_StartedAt input\<rparr>) (keys db)),
      requests := requests db @ [l],
      ledger := ledger db @ [\<lparr>QL_KeyID = RS_DownstreamKeyID input, QL_RequestID = RS_ID input,
        QL_Type = ''reserve'', QL_Amount = reserved, QL_CreatedAt = RS_StartedAt input\<rparr>]\<rparr>"
proof -
  note old = quota_wfD [OF wf]
  let ?P = "\<lambda>k. DK_ID k = RS_DownstreamKeyID input \<and> may_reserve reserved (RS_StartedAt input) k"
  let ?f = "\<lambda>k. k\<lparr>DK_Reserved := DK_Reserved k + reserved, DK_LastUsedAt := Some (RS_StartedAt input),
     DK_UpdatedAt := RS_StartedAt input\<rparr>"
  from assms(2) obtain db1 where some: "snd (sql_update ?P ?f (keys db)) \<noteq> 0" and pos: "0 < reserved"
    and ins: "insert_request_start input (db\<lparr>keys := fst (sql_update ?P ?f (keys db))\<rparr>) = Inr db1"
    and led: "insert_quota_ledger (RS_DownstreamKeyID input) (RS_ID input) ''reserve'' reserved (RS_StartedAt input) db1 = Inr db'"
    by (auto simp: start_request_with_reservation_def Let_def case_prod_unfold split: if_splits sum.splits)
  obtain h where h: "h \<in> set (keys db)" "DK_ID h = RS_DownstreamKeyID input" "?P h"
    and only: "\<And>r. r \<in> set (keys db) \<Longrightarrow> ?P r \<longleftrightarrow> r = h"
    by (rule update_changed_one [where k = "RS_DownstreamKeyID input", OF old(1) _ some]) auto
  from insert_request_start_ok [OF ins] obtain l where
    db1: "db1 = db\<lparr>keys := fst (sql_update ?P ?f (keys db)), requests := requests db @ [l]\<rparr>"
    and l: "RL_ID l = RS_ID input" "running l" "RL_KeyID l = Some (RS_DownstreamKeyID input)"
    and fresh: "row_by RL_ID (RS_ID input) (requests db) = None" by auto
  show thesis
    by (rule that [OF h(1,2) _ pos l fresh]) (use h(3) only led in \<open>auto simp: insert_quota_ledger_ok db1\<close>)
qed

lemma may_reserve_ok:
  assumes "key_ok k" and "may_reserve amount now k" and "0 < amount"
  shows "key_ok (k\<lparr>DK_Reserved := DK_Reserved k + amount, DK_LastUsedAt := u, DK_UpdatedAt := v\<rparr>)"
  using assms by (auto simp: may_reserve_def key_ok_def split: option.splits)

lemma start_wf:
  assumes wf: "quota_wf db" and start: "start_request_with_reservation input reserved finite_quota db = Inr db'"
  shows "quota_wf db'"
proof (cases finite_quota)
  case False
  with start have "insert_request_start input (db\<lparr>keys := keys db\<rparr>) = Inr db'"
    by (auto simp: start_request_with_reservation_def Let_def split: if_splits sum.splits)
  then show ?thesis using insert_request_start_wf [OF wf] by simp
next
  case True
  note old = quota_wfD [OF wf]
  have "start_request_with_reservation input reserved True db = Inr db'" using start True by simp
  from start_reserved_ok [OF wf this]
  obtain h l where h: "h \<in> set (keys db)" "DK_ID h = RS_DownstreamKeyID input"
    and may: "may_reserve reserved (RS_StartedAt input) h" and pos: "0 < reserved"
    and l: "RL_ID l = RS_ID input" "running l" "RL_KeyID l = Some (RS_DownstreamKeyID input)"
    and fresh: "row_by RL_ID (RS_ID input) (requests db) = None"
    and only: "\<forall>r \<in> set (keys db).
      (DK_ID r = RS_DownstreamKeyID input \<and> may_reserve reserved (RS_StartedAt input) r) \<longleftrightarrow> r = h"
    and db': "db' = db\<lparr>keys := fst (sql_update
        (\<lambda>k. DK_ID k = RS_DownstreamKeyID input \<and> may_reserve reserved (RS_StartedAt input) k)
        (\<lambda>k. k\<lparr>DK_Reserved := DK_Reserved k + reserved, DK_LastUsedAt := Some (RS_StartedAt input),
               DK_UpdatedAt := RS_StartedAt input\<rparr>) (keys db)),
      requests := requests db @ [l],
      ledger := ledger db @ [\<lparr>QL_KeyID = RS_DownstreamKeyID input, QL_RequestID = RS_ID input,
        QL_Type = ''reserve'', QL_Amount = reserved, QL_CreatedAt = RS_StartedAt input\<rparr>]\<rparr>" .
  have u: "unique_key RL_ID (requests db @ [l])" using old(2) fresh l by (simp add: unique_key_append_row)
  have none: "outstanding (ledger db) (RS_ID input) k = 0" for k
    using old(4) fresh by (intro outstanding_none) (fastforce simp: ledger_row_ok_def row_by_None)
  show ?thesis
  proof (rule quota_wf_move [where \<delta> = reserved, OF wf h(1) only [rule_format]])
    fix k
    show "held (requests db') (ledger db') k = held (requests db) (ledger db) k + (if k = DK_ID h then reserved else 0)"
      using l fresh by (auto simp: db' held_append_request held_append_ledger [OF old(2)] outstanding_append
          outstanding_one none h ledger_sign_def row_by_None)
  next
    fix q assume q: "q \<in> set (ledger db')"
    have key: "row_by DK_ID (RS_DownstreamKeyID input) (keys db) \<noteq> None"
      using h by (auto simp: row_by_None)
    show "ledger_row_ok (keys db) (requests db') q"
    proof (cases "q \<in> set (ledger db)")
      case True
      show ?thesis by (rule ledger_row_ok_requests [OF _ old(4) [OF True]]) (auto simp: db')
    next
      case False
      with q key l show ?thesis by (auto simp: db' ledger_row_ok_def)
    qed
  next
    fix r k assume r: "r \<in> set (requests db')" "running r"
    have "0 \<le> outstanding (ledger db) (RL_ID r) k"
    proof (cases "r = l")
      case True
      then show ?thesis using none l by simp
    next
      case False
      then show ?thesis using r old(5) [of r k] by (simp add: db')
    qed
    then show "0 \<le> outstanding (ledger db') (RL_ID r) k"
      using pos by (simp add: db' outstanding_append outstanding_one ledger_sign_def)
  qed (use u may_reserve_ok [OF old(6) [OF h(1)] may pos] in \<open>simp_all add: db'\<close>)
qed

lemma finish_row_sel [simp]:
  "RL_ID (finish_request_row redact input l) = RL_ID l"
  "running (finish_request_row redact input l) \<longleftrightarrow> RF_Status input = ''running''"
  "RL_KeyID (finish_request_row redact input l) = RL_KeyID l"
  by (simp_all add: finish_request_row_def running_def)

text \<open>Ending a request: the row stops running, what it held is given back.\<close>

lemma ledger_row_ok_finish:
  assumes "ledger_row_ok ks rs q" and "RF_Status input \<noteq> ''running''"
  shows "ledger_row_ok ks (fst (sql_update P (finish_request_row redact input) rs)) q"
  by (rule ledger_row_ok_update [OF assms(1)]) (simp_all add: assms(2))

lemma held_extend:
  assumes "\<And>q l. q \<in> set u \<Longrightarrow> l \<in> set rs \<Longrightarrow> running l \<Longrightarrow> RL_ID l \<noteq> QL_RequestID q"
  shows "held rs (t @ u) k = held rs t k"
  using assms by (intro held_cong) (force simp: outstanding_append intro: outstanding_none)

lemma finish_wf:
  assumes wf: "quota_wf db" and "finish_request redact request input db = Inr db'"
    and "RF_Status input \<noteq> ''running''" and "\<And>k. outstanding (ledger db) request k = 0"
  shows "quota_wf db'"
proof -
  note old = quota_wfD [OF wf]
  let ?P = "\<lambda>l. RL_ID l = request \<and> running l"
  let ?f = "finish_request_row redact input"
  have db': "db' = db\<lparr>requests := fst (sql_update ?P ?f (requests db))\<rparr>"
    and some: "snd (sql_update ?P ?f (requests db)) \<noteq> 0"
    using assms(2) by (auto simp: finish_request_def Let_def case_prod_unfold split: if_splits)
  obtain l where l: "l \<in> set (requests db)" "RL_ID l = request" "?P l"
    and only: "\<And>r. r \<in> set (requests db) \<Longrightarrow> ?P r \<longleftrightarrow> r = l"
    by (rule update_changed_one [where k = request, OF old(2) _ some]) auto
  have held: "held (requests db') (ledger db) k = held (requests db) (ledger db) k" for k
    using held_finish [of "requests db" l ?P ?f "ledger db" k, OF old(2) l(1) _ only] l assms(3,4) by (simp add: db')
  have "unique_key RL_ID (requests db')" unfolding db' by (simp add: unique_key_update [OF old(2)])
  moreover have "0 \<le> outstanding (ledger db) (RL_ID r) k" if "r \<in> set (requests db')" "running r" for r k
    using that old(5) assms(3) by (auto simp: db' set_update split: if_splits)
  ultimately show ?thesis
    using old(1,3,4,6,7) held ledger_row_ok_finish [OF old(4) assms(3)] unfolding quota_wf_def by (simp add: db')
qed

definition entry_row :: "int \<Rightarrow> string \<Rightarrow> int \<Rightarrow> string \<times> int \<Rightarrow> ledger_row" where
  "entry_row key request at e =
     \<lparr>QL_KeyID = key, QL_RequestID = request, QL_Type = fst e, QL_Amount = snd e, QL_CreatedAt = at\<rparr>"

lemma entry_row_sel [simp]:
  "QL_KeyID (entry_row key request at e) = key" "QL_RequestID (entry_row key request at e) = request"
  "QL_Type (entry_row key request at e) = fst e" "QL_Amount (entry_row key request at e) = snd e"
  by (simp_all add: entry_row_def)

lemma insert_ledger_entries_ok:
  assumes "\<forall>e \<in> set es. 0 < snd e" and "row_by DK_ID key (keys db) \<noteq> None"
  shows "insert_ledger_entries key request at es db =
    Inr (db\<lparr>ledger := ledger db @ map (entry_row key request at) es\<rparr>)"
  using assms
proof (induction es arbitrary: db)
  case Nil
  then show ?case by simp
next
  case (Cons e es)
  obtain entry amount where e: "e = (entry, amount)" by (cases e)
  have "insert_quota_ledger key request entry amount at db =
      Inr (db\<lparr>ledger := ledger db @ [entry_row key request at e]\<rparr>)"
    using Cons.prems by (auto simp: insert_quota_ledger_def entry_row_def e)
  then show ?case
    using Cons.IH [of "db\<lparr>ledger := ledger db @ [entry_row key request at e]\<rparr>"] Cons.prems by (simp add: e)
qed

lemma settle_entries_pos: "0 \<le> reserved \<Longrightarrow> 0 \<le> applied \<Longrightarrow> \<forall>e \<in> set (settle_entries reserved applied). 0 < snd e"
  by (auto simp: settle_entries_def Let_def)

text \<open>What a settlement charges: the cost, capped by what the key has left beside the other reservations.\<close>

definition applied_charge :: "key_row \<Rightarrow> int \<Rightarrow> int \<Rightarrow> int" where
  "applied_charge k reserved charged =
     (case DK_Quota k of None \<Rightarrow> charged
      | Some quota \<Rightarrow> min charged (quota - DK_Used k - (DK_Reserved k - reserved)))"

lemma available_exact:
  assumes "key_ok k" and "DK_Quota k = Some quota" and "0 \<le> reserved" and "reserved \<le> DK_Reserved k"
  shows "wrap64 (wrap64 (quota - DK_Used k) - wrap64 (DK_Reserved k - reserved)) =
    quota - DK_Used k - (DK_Reserved k - reserved)"
    and "0 \<le> quota - DK_Used k - (DK_Reserved k - reserved)"
proof -
  from assms have b: "0 \<le> DK_Used k" "0 \<le> DK_Reserved k" "quota \<le> max_int64" "DK_Used k + DK_Reserved k \<le> quota"
    by (auto simp: key_ok_def)
  then have "is_int64 (quota - DK_Used k)" "is_int64 (DK_Reserved k - reserved)"
    "is_int64 (quota - DK_Used k - (DK_Reserved k - reserved))"
    using assms(3,4) by (auto simp: is_int64_def)
  then show "wrap64 (wrap64 (quota - DK_Used k) - wrap64 (DK_Reserved k - reserved)) =
      quota - DK_Used k - (DK_Reserved k - reserved)" by (simp add: wrap64_id)
  show "0 \<le> quota - DK_Used k - (DK_Reserved k - reserved)" using b assms(3) by simp
qed

lemma settle_ok:
  assumes wf: "quota_wf db" and "finish_request_and_settle redact request key reserved charged input0 db = Inr db'"
  obtains h l input where "h \<in> set (keys db)" and "DK_ID h = key" and "l \<in> set (requests db)" and "RL_ID l = request"
    and "running l" and "RL_KeyID l = Some key" and "0 \<le> reserved" and "reserved \<le> DK_Reserved h" and "0 \<le> charged"
    and "DK_Used h + applied_charge h reserved charged \<le> max_int64"
    and "input\<lparr>RF_ErrorMessage := m\<rparr> = input0\<lparr>RF_ErrorMessage := m\<rparr>"
    and "0 \<le> applied_charge h reserved charged"
    and "db' = db\<lparr>requests := fst (sql_update (\<lambda>l. RL_ID l = request \<and> RL_KeyID l = Some key \<and> running l)
          (finish_request_row redact input) (requests db)),
        keys := fst (sql_update
          (\<lambda>r. DK_ID r = key \<and> DK_Reserved r = DK_Reserved h \<and> DK_Used r = DK_Used h \<and>
               DK_Used r \<le> max_int64 - applied_charge h reserved charged)
          (\<lambda>r. r\<lparr>DK_Reserved := DK_Reserved r - reserved, DK_Used := DK_Used r + applied_charge h reserved charged,
                 DK_UpdatedAt := RF_FinishedAt input\<rparr>) (keys db)),
        ledger := ledger db @ map (entry_row key request (RF_FinishedAt input))
          (settle_entries reserved (applied_charge h reserved charged))\<rparr>"
proof -
  note old = quota_wfD [OF wf]
  from assms(2) obtain h where row: "row_by DK_ID key (keys db) = Some h" and b: "0 \<le> reserved" "0 \<le> charged"
    "reserved \<le> DK_Reserved h"
    by (fastforce simp: finish_request_and_settle_def Let_def split: if_splits option.splits)
  have h: "h \<in> set (keys db)" "DK_ID h = key" using row_by_SomeD [OF row] by auto
  note av = available_exact [OF old(6) [OF h(1)] _ b(1) b(3)]
  let ?a = "applied_charge h reserved charged"
  let ?P = "\<lambda>l. RL_ID l = request \<and> RL_KeyID l = Some key \<and> running l"
  let ?Q = "\<lambda>r. DK_ID r = key \<and> DK_Reserved r = DK_Reserved h \<and> DK_Used r = DK_Used h \<and> DK_Used r \<le> max_int64 - ?a"
  let ?g = "\<lambda>input r. r\<lparr>DK_Reserved := DK_Reserved r - reserved, DK_Used := DK_Used r + ?a,
      DK_UpdatedAt := RF_FinishedAt input\<rparr>"
  have a0: "0 \<le> ?a" using b(2) av(2) by (auto simp: applied_charge_def split: option.split)
  define input where "input = (case DK_Quota h of None \<Rightarrow> input0
     | Some quota \<Rightarrow> if charged > quota - DK_Used h - (DK_Reserved h - reserved)
         then input0\<lparr>RF_ErrorMessage := append_accounting_message (RF_ErrorMessage input0) quota_exhausted_message\<rparr>
         else input0)"
  have checked: "(case DK_Quota h of None \<Rightarrow> Inr (charged, input0)
      | Some quota \<Rightarrow>
          (let available = wrap64 (wrap64 (quota - DK_Used h) - wrap64 (DK_Reserved h - reserved)) in
           if quota < 0 \<or> available < 0 then Inl ErrInvalidQuotaState
           else if charged > available
           then Inr (available, input0\<lparr>RF_ErrorMessage :=
                  append_accounting_message (RF_ErrorMessage input0) quota_exhausted_message\<rparr>)
           else Inr (charged, input0))) = Inr (?a, input)"
    using av old(6) [OF h(1)] by (auto simp: applied_charge_def input_def Let_def key_ok_def split: option.split)
  have eq: "(if snd (sql_update ?P (finish_request_row redact input) (requests db)) \<noteq> 1 then Inl ErrRequestAlreadyFinished
     else if snd (sql_update ?Q (?g input) (keys db)) \<noteq> 1 then Inl ErrInvalidQuotaState
     else insert_ledger_entries key request (RF_FinishedAt input) (settle_entries reserved ?a)
       (db\<lparr>requests := fst (sql_update ?P (finish_request_row redact input) (requests db)),
           keys := fst (sql_update ?Q (?g input) (keys db))\<rparr>)) = Inr db'"
    using assms(2) unfolding finish_request_and_settle_def Let_def row option.case
    unfolding checked [unfolded Let_def] sum.case prod.case case_prod_unfold by (simp split: if_splits)
  then have one: "snd (sql_update ?P (finish_request_row redact input) (requests db)) \<noteq> 0"
    and one': "snd (sql_update ?Q (?g input) (keys db)) \<noteq> 0"
    and ins: "insert_ledger_entries key request (RF_FinishedAt input) (settle_entries reserved ?a)
       (db\<lparr>requests := fst (sql_update ?P (finish_request_row redact input) (requests db)),
           keys := fst (sql_update ?Q (?g input) (keys db))\<rparr>) = Inr db'"
    by (auto split: if_splits)
  obtain l where l: "l \<in> set (requests db)" "?P l"
    by (rule update_changed_one [where k = request, OF old(2) _ one]) auto
  obtain h' where h': "h' \<in> set (keys db)" "DK_ID h' = key" "?Q h'"
    by (rule update_changed_one [where k = key, OF old(1) _ one']) auto
  then have "DK_Used h + ?a \<le> max_int64" by simp
  moreover have "row_by DK_ID key (keys (db\<lparr>requests := fst (sql_update ?P (finish_request_row redact input) (requests db)),
           keys := fst (sql_update ?Q (?g input) (keys db))\<rparr>)) \<noteq> None"
    using h by (simp add: row_by_update [of DK_ID "?g input"] row)
  from insert_ledger_entries_ok [OF settle_entries_pos [OF b(1) a0] this, of request "RF_FinishedAt input"] ins
  have "db' = db\<lparr>requests := fst (sql_update ?P (finish_request_row redact input) (requests db)),
           keys := fst (sql_update ?Q (?g input) (keys db)),
           ledger := ledger db @ map (entry_row key request (RF_FinishedAt input)) (settle_entries reserved ?a)\<rparr>"
    by simp
  moreover have "input\<lparr>RF_ErrorMessage := m\<rparr> = input0\<lparr>RF_ErrorMessage := m\<rparr>"
    by (auto simp: input_def split: option.split)
  ultimately show thesis using that h l b a0 by blast
qed

text \<open>Taking the reservation of a request out of its key, when the request stops running.\<close>

lemma stop_held:
  assumes wf: "quota_wf db" and l: "l \<in> set (requests db)" "running l"
    and only: "\<And>r. r \<in> set (requests db) \<Longrightarrow> P r \<longleftrightarrow> r = l" and "\<not> running (f l)"
    and ids: "\<And>r. RL_ID (f r) = RL_ID r" and rows: "\<And>q. q \<in> set u \<Longrightarrow> QL_RequestID q = RL_ID l"
  shows "held (fst (sql_update P f (requests db))) (ledger db @ u) k =
    held (requests db) (ledger db) k - outstanding (ledger db) (RL_ID l) k"
proof -
  note old = quota_wfD [OF wf]
  have "RL_ID r \<noteq> RL_ID l" if "r \<in> set (fst (sql_update P f (requests db)))" "running r" for r
  proof -
    from that(1) obtain x where x: "x \<in> set (requests db)" "r = (if P x then f x else x)" by (auto simp: set_update)
    with that(2) only assms(5) have "x \<noteq> l" by auto
    with x(1) l(1) old(2) have "RL_ID x \<noteq> RL_ID l" by (auto simp: unique_key_def distinct_map inj_on_def)
    then show ?thesis using x(2) ids by auto
  qed
  then have "held (fst (sql_update P f (requests db))) (ledger db @ u) k =
      held (fst (sql_update P f (requests db))) (ledger db) k"
    using rows by (intro held_extend) auto
  then show ?thesis
    using held_finish [where P = P and f = f and l = l and rs = "requests db", OF old(2) l only assms(5)] by simp
qed

lemma settle_wf:
  assumes wf: "quota_wf db" and settle: "finish_request_and_settle redact request key reserved charged input0 db = Inr db'"
    and "RF_Status input0 \<noteq> ''running''" and own: "outstanding (ledger db) request key = reserved"
  shows "quota_wf db'"
proof -
  note old = quota_wfD [OF wf]
  from settle_ok [OF wf settle] obtain h l input where h: "h \<in> set (keys db)" "DK_ID h = key"
    and l: "l \<in> set (requests db)" "RL_ID l = request" "running l" "RL_KeyID l = Some key"
    and b: "0 \<le> reserved" "reserved \<le> DK_Reserved h" and top: "DK_Used h + applied_charge h reserved charged \<le> max_int64"
    and same: "input\<lparr>RF_ErrorMessage := ''''\<rparr> = input0\<lparr>RF_ErrorMessage := ''''\<rparr>"
    and a0: "0 \<le> applied_charge h reserved charged"
    and db': "db' = db\<lparr>requests := fst (sql_update (\<lambda>l. RL_ID l = request \<and> RL_KeyID l = Some key \<and> running l)
          (finish_request_row redact input) (requests db)),
        keys := fst (sql_update
          (\<lambda>r. DK_ID r = key \<and> DK_Reserved r = DK_Reserved h \<and> DK_Used r = DK_Used h \<and>
               DK_Used r \<le> max_int64 - applied_charge h reserved charged)
          (\<lambda>r. r\<lparr>DK_Reserved := DK_Reserved r - reserved, DK_Used := DK_Used r + applied_charge h reserved charged,
                 DK_UpdatedAt := RF_FinishedAt input\<rparr>) (keys db)),
        ledger := ledger db @ map (entry_row key request (RF_FinishedAt input))
          (settle_entries reserved (applied_charge h reserved charged))\<rparr>" .
  let ?a = "applied_charge h reserved charged"
  let ?P = "\<lambda>l. RL_ID l = request \<and> RL_KeyID l = Some key \<and> running l"
  let ?Q = "\<lambda>r. DK_ID r = key \<and> DK_Reserved r = DK_Reserved h \<and> DK_Used r = DK_Used h \<and> DK_Used r \<le> max_int64 - ?a"
  let ?g = "\<lambda>r. r\<lparr>DK_Reserved := DK_Reserved r - reserved, DK_Used := DK_Used r + ?a,
    DK_UpdatedAt := RF_FinishedAt input\<rparr>"
  have "RF_Status input = RF_Status input0"
    using arg_cong [OF same, of RF_Status] by simp
  with assms(3) have notrun: "RF_Status input \<noteq> ''running''" by simp
  have onlyl: "?P r \<longleftrightarrow> r = l" if "r \<in> set (requests db)" for r
    using that l old(2) by (auto simp: unique_key_def distinct_map inj_on_def)
  have onlyh: "?Q r \<longleftrightarrow> r = h" if "r \<in> set (keys db)" for r
    using that h old(1) top by (auto simp: unique_key_def distinct_map inj_on_def)
  have other: "outstanding (ledger db) request k = 0" if "k \<noteq> key" for k
  proof (rule outstanding_none)
    fix q assume "q \<in> set (ledger db)"
    from old(4) [OF this] obtain r where "r \<in> set (requests db)" "RL_ID r = QL_RequestID q"
      "running r \<longrightarrow> RL_KeyID r = Some (QL_KeyID q)" by (auto simp: ledger_row_ok_def)
    then show "QL_RequestID q \<noteq> request \<or> QL_KeyID q \<noteq> k"
      using l that old(2) by (auto simp: unique_key_def distinct_map inj_on_def)
  qed
  show ?thesis
  proof (rule quota_wf_move [where \<delta> = "- reserved" and P = ?Q and f = ?g, OF wf h(1) onlyh])
    fix k
    show "held (requests db') (ledger db') k = held (requests db) (ledger db) k + (if k = DK_ID h then - reserved else 0)"
    proof -
      have "held (fst (sql_update ?P (finish_request_row redact input) (requests db)))
          (ledger db @ map (entry_row key request (RF_FinishedAt input)) (settle_entries reserved ?a)) k =
        held (requests db) (ledger db) k - outstanding (ledger db) (RL_ID l) k"
        by (rule stop_held [OF wf l(1,3) onlyl]) (use notrun l(2) in auto)
      then show ?thesis using l(2) h(2) own other by (auto simp: db')
    qed
  next
    show "key_ok (h\<lparr>DK_Reserved := DK_Reserved h - reserved, DK_Used := DK_Used h + ?a, DK_UpdatedAt := RF_FinishedAt input\<rparr>)"
      using old(6) [OF h(1)] b top a0 by (auto simp: key_ok_def applied_charge_def split: option.splits)
  next
    fix q assume q: "q \<in> set (ledger db')"
    have old_ok: "ledger_row_ok (keys db) (requests db') q" if "q \<in> set (ledger db)"
      using ledger_row_ok_finish [OF old(4) [OF that] notrun] by (simp add: db')
    have "row_by DK_ID key (keys db) \<noteq> None" using h by (auto simp: row_by_None)
    moreover have "finish_request_row redact input l \<in> set (requests db')"
      using l by (force simp: db' set_update)
    ultimately have "ledger_row_ok (keys db) (requests db') q" if "QL_KeyID q = key" "QL_RequestID q = request"
      using that notrun l(2) unfolding ledger_row_ok_def by (auto intro!: bexI [of _ "finish_request_row redact input l"])
    then show "ledger_row_ok (keys db) (requests db') q"
      using q old_ok by (auto simp: db')
  next
    fix r k assume r: "r \<in> set (requests db')" "running r"
    then obtain x where x: "x \<in> set (requests db)" "r = (if ?P x then finish_request_row redact input x else x)"
      by (auto simp: db' set_update)
    with r(2) notrun have "r = x" "\<not> ?P x" by (auto split: if_splits)
    with r(2) x(1) onlyl have "RL_ID r \<noteq> request"
      using l old(2) by (auto simp: unique_key_def distinct_map inj_on_def)
    then have "outstanding (map (entry_row key request (RF_FinishedAt input)) (settle_entries reserved ?a)) (RL_ID r) k = 0"
      by (intro outstanding_none) auto
    then show "0 \<le> outstanding (ledger db') (RL_ID r) k"
      using old(5) [OF x(1)] r(2) \<open>r = x\<close> by (simp add: db' outstanding_append)
  qed (simp_all add: db' unique_key_update [OF old(2)])
qed

lemma held_filter_running: "held (filter (\<lambda>l. \<not> (A l \<and> \<not> running l)) rs) t k = held rs t k"
  unfolding held_def by (induction rs) auto

lemma delete_old_wf:
  assumes wf: "quota_wf db"
  shows "quota_wf (delete_old_logs cutoff db)"
proof -
  note old = quota_wfD [OF wf]
  let ?rs = "filter (\<lambda>l. \<not> (RL_StartedAt l < cutoff \<and> \<not> running l)) (requests db)"
  let ?t = "filter (\<lambda>q. \<not> \<not> (\<exists>l \<in> set ?rs. RL_ID l = QL_RequestID q)) (ledger db)"
  have db': "delete_old_logs cutoff db = db\<lparr>requests := ?rs, ledger := ?t\<rparr>"
    by (simp add: delete_old_logs_def sql_delete_def Let_def)
  have out: "outstanding ?t (RL_ID l) k = outstanding (ledger db) (RL_ID l) k" if "l \<in> set ?rs" for l k
    using that by (intro outstanding_filter) auto
  have held: "held ?rs ?t k = held (requests db) (ledger db) k" for k
  proof -
    have "held ?rs ?t k = held ?rs (ledger db) k" using out by (intro held_cong) blast
    also have "\<dots> = held (requests db) (ledger db) k" by (rule held_filter_running)
    finally show ?thesis .
  qed
  have lrow: "ledger_row_ok (keys db) ?rs q" if q: "q \<in> set ?t" for q
  proof -
    from q old(4) have "ledger_row_ok (keys db) (requests db) q" by simp
    then obtain x where x: "x \<in> set (requests db)" "RL_ID x = QL_RequestID q" "running x \<longrightarrow> RL_KeyID x = Some (QL_KeyID q)"
      and k: "row_by DK_ID (QL_KeyID q) (keys db) \<noteq> None" by (auto simp: ledger_row_ok_def)
    from q obtain l where l: "l \<in> set ?rs" "RL_ID l = QL_RequestID q" by auto
    then have "l = x" using x old(2) by (auto simp: unique_key_def distinct_map inj_on_def)
    with l x k show ?thesis by (auto simp: ledger_row_ok_def)
  qed
  show ?thesis
    unfolding quota_wf_def db' using old(1,3,6,7) unique_key_filter [OF old(2)] lrow held old(5) out by simp
qed

lemma authenticate_wf:
  assumes wf: "quota_wf db" and "authenticate_downstream_key digest now raw model db = Inr (item, db')"
  shows "quota_wf db'"
proof -
  from assms(2) have eq: "keys db' = fst (sql_update (\<lambda>k. DK_ID k = DK_ID item)
      (\<lambda>k. k\<lparr>DK_LastUsedAt := Some now, DK_UpdatedAt := now\<rparr>) (keys db))"
    "key_seq db' = key_seq db" "requests db' = requests db" "ledger db' = ledger db"
    by (auto simp: authenticate_downstream_key_def split: option.splits if_splits sum.splits)
  show ?thesis
    by (rule quota_wf_keys [OF wf _ _ _ eq(2-4) eq(1)])
      (use quota_wfD(6) [OF wf] in \<open>fastforce simp: key_ok_def split: option.split\<close>)+
qed

subsection \<open>Recovery\<close>

definition key_account :: "key_row \<Rightarrow> int \<times> int \<times> int option" where
  "key_account k = (DK_ID k, DK_Used k, DK_Quota k)"

lemma map_update_keeps: "(\<And>r. g (f r) = g r) \<Longrightarrow> map g (fst (sql_update P f t)) = map g t"
  by (simp add: sql_update_def)

lemma release_step:
  assumes wf: "quota_wf db" and l: "l \<in> set (requests db)" "running l" "RL_ID l = request"
    and a: "amount = outstanding (ledger db) request key" "0 < amount"
  obtains db1 where "release_reservations at ((request, key, amount) # rs) db = release_reservations at rs db1"
    and "quota_wf db1" and "requests db1 = requests db"
    and "map key_account (keys db1) = map key_account (keys db)"
    and "\<forall>r k. outstanding (ledger db1) r k =
      (if r = request \<and> k = key then 0 else outstanding (ledger db) r k)"
proof -
  note old = quota_wfD [OF wf]
  have "\<exists>q \<in> set (ledger db). QL_RequestID q = request \<and> QL_KeyID q = key"
    using outstanding_none [of "ledger db" request key] a by fastforce
  then obtain q where q: "q \<in> set (ledger db)" "QL_RequestID q = request" "QL_KeyID q = key" by blast
  then obtain h where row: "row_by DK_ID key (keys db) = Some h"
    using old(4) [OF q(1)] by (auto simp: ledger_row_ok_def)
  have h: "h \<in> set (keys db)" "DK_ID h = key" using row_by_SomeD [OF row] by auto
  have le: "amount \<le> DK_Reserved h"
    using held_member [OF l(1,2), of "ledger db" key] old(5) old(7) [OF h(1)] a h l(3) by simp
  let ?P = "\<lambda>k. DK_ID k = key \<and> DK_Reserved k \<ge> amount"
  let ?f = "\<lambda>k. k\<lparr>DK_Reserved := DK_Reserved k - amount, DK_UpdatedAt := at\<rparr>"
  let ?q = "\<lparr>QL_KeyID = key, QL_RequestID = request, QL_Type = ''release'', QL_Amount = amount, QL_CreatedAt = at\<rparr>"
  let ?db = "db\<lparr>keys := fst (sql_update ?P ?f (keys db)), ledger := ledger db @ [?q]\<rparr>"
  have only: "?P r \<longleftrightarrow> r = h" if "r \<in> set (keys db)" for r
    using that h le old(1) by (auto simp: unique_key_def distinct_map inj_on_def)
  have "snd (sql_update ?P ?f (keys db)) = 1"
    using update_count_le_one [OF old(1), of ?P key ?f] row le h by simp
  moreover have "row_by DK_ID key (fst (sql_update ?P ?f (keys db))) \<noteq> None"
    by (simp add: row_by_update [of DK_ID ?f] row)
  moreover from this have "insert_quota_ledger key request ''release'' amount at
      (db\<lparr>keys := fst (sql_update ?P ?f (keys db))\<rparr>) = Inr ?db"
    using a(2) by (simp add: insert_quota_ledger_ok)
  ultimately have step: "release_reservations at ((request, key, amount) # rs) db = release_reservations at rs ?db"
    by (simp add: case_prod_unfold)
  have out: "outstanding (ledger ?db) r k = (if r = request \<and> k = key then 0 else outstanding (ledger db) r k)" for r k
    using a by (auto simp: outstanding_append outstanding_one ledger_sign_def)
  have "quota_wf ?db"
  proof (rule quota_wf_move [where \<delta> = "- amount" and P = ?P and f = ?f, OF wf h(1) only])
    fix k
    have "\<exists>l \<in> set (requests db). running l \<and> RL_ID l = QL_RequestID ?q" using l by auto
    then show "held (requests ?db) (ledger ?db) k = held (requests db) (ledger db) k + (if k = DK_ID h then - amount else 0)"
      using h by (simp add: held_append_ledger [OF old(2)] ledger_sign_def)
  next
    show "key_ok (?f h)" using old(6) [OF h(1)] le a by (auto simp: key_ok_def split: option.split)
  next
    fix p assume "p \<in> set (ledger ?db)"
    then have "p \<in> set (ledger db) \<or> p = ?q" by auto
    then show "ledger_row_ok (keys db) (requests ?db) p"
      using old(4) old(4) [OF q(1)] q unfolding ledger_row_ok_def by auto
  next
    fix r k assume "r \<in> set (requests ?db)" "running r"
    then show "0 \<le> outstanding (ledger ?db) (RL_ID r) k" unfolding out using old(5) [of r k] by simp
  qed (simp_all add: old(2))
  then show thesis
    using that [OF step _ _ _] out by (simp add: map_update_keeps key_account_def)
qed

lemma release_all:
  assumes "quota_wf db" and "distinct (map (\<lambda>(r, k, a). (r, k)) rs)"
    and "\<forall>(r, k, a) \<in> set rs. a = outstanding (ledger db) r k \<and> 0 < a \<and>
      (\<exists>l \<in> set (requests db). running l \<and> RL_ID l = r)"
  shows "\<exists>db'. release_reservations at rs db = Inr db' \<and> quota_wf db' \<and> requests db' = requests db \<and>
    map key_account (keys db') = map key_account (keys db) \<and>
    (\<forall>r k. outstanding (ledger db') r k =
      (if (r, k) \<in> set (map (\<lambda>(r, k, a). (r, k)) rs) then 0 else outstanding (ledger db) r k))"
  using assms
proof (induction rs arbitrary: db)
  case Nil
  then show ?case by simp
next
  case (Cons x rs)
  obtain request key amount where x: "x = (request, key, amount)" by (cases x)
  from Cons.prems(3) obtain l where l: "l \<in> set (requests db)" "running l" "RL_ID l = request"
    and a: "amount = outstanding (ledger db) request key" "0 < amount" by (auto simp: x)
  from release_step [OF Cons.prems(1) l a, of at rs] obtain db1 where
    step: "release_reservations at ((request, key, amount) # rs) db = release_reservations at rs db1"
    and wf1: "quota_wf db1" and same: "requests db1 = requests db"
    and acc: "map key_account (keys db1) = map key_account (keys db)"
    and out: "\<forall>r k. outstanding (ledger db1) r k =
      (if r = request \<and> k = key then 0 else outstanding (ledger db) r k)" .
  have "\<forall>(r, k, a) \<in> set rs. a = outstanding (ledger db1) r k \<and> 0 < a \<and>
      (\<exists>l \<in> set (requests db1). running l \<and> RL_ID l = r)"
    using Cons.prems(2,3) by (fastforce simp: x out same image_iff)
  from Cons.IH [OF wf1 _ this] Cons.prems(2) obtain db' where
    "release_reservations at rs db1 = Inr db'" "quota_wf db'" "requests db' = requests db1"
    "map key_account (keys db') = map key_account (keys db1)"
    "\<forall>r k. outstanding (ledger db') r k =
      (if (r, k) \<in> set (map (\<lambda>(r, k, a). (r, k)) rs) then 0 else outstanding (ledger db1) r k)"
    by (auto simp: x)
  then show ?case
    unfolding x step using same acc out by (intro exI [of _ db']) auto
qed

lemma orphans_ok:
  assumes "quota_wf db"
  shows "distinct (map (\<lambda>(r, k, a). (r, k)) (orphaned_reservations db))"
    and "\<forall>(r, k, a) \<in> set (orphaned_reservations db). a = outstanding (ledger db) r k \<and> 0 < a \<and>
      (\<exists>l \<in> set (requests db). running l \<and> RL_ID l = r)"
    and "\<forall>l \<in> set (requests db). running l \<longrightarrow> outstanding (ledger db) (RL_ID l) k \<noteq> 0 \<longrightarrow>
      (RL_ID l, k) \<in> set (map (\<lambda>(r, k, a). (r, k)) (orphaned_reservations db))"
proof -
  note old = quota_wfD [OF assms]
  let ?pairs = "remdups (map (\<lambda>q. (QL_RequestID q, QL_KeyID q))
    (filter (\<lambda>q. \<exists>l \<in> set (requests db). RL_ID l = QL_RequestID q \<and> running l) (ledger db)))"
  have "map (\<lambda>(r, k, a). (r, k)) (orphaned_reservations db) =
      filter (\<lambda>(r, k). outstanding (ledger db) r k \<noteq> 0) ?pairs"
    unfolding orphaned_reservations_def by (induction ?pairs) (auto simp: filter_map comp_def case_prod_unfold)
  then show "distinct (map (\<lambda>(r, k, a). (r, k)) (orphaned_reservations db))" by simp
  show "\<forall>(r, k, a) \<in> set (orphaned_reservations db). a = outstanding (ledger db) r k \<and> 0 < a \<and>
      (\<exists>l \<in> set (requests db). running l \<and> RL_ID l = r)"
    using old(5) unfolding orphaned_reservations_def by (fastforce simp: less_le)
  show "\<forall>l \<in> set (requests db). running l \<longrightarrow> outstanding (ledger db) (RL_ID l) k \<noteq> 0 \<longrightarrow>
      (RL_ID l, k) \<in> set (map (\<lambda>(r, k, a). (r, k)) (orphaned_reservations db))"
  proof (intro ballI impI)
    fix l assume l: "l \<in> set (requests db)" "running l" "outstanding (ledger db) (RL_ID l) k \<noteq> 0"
    then obtain q where "q \<in> set (ledger db)" "QL_RequestID q = RL_ID l" "QL_KeyID q = k"
      using outstanding_none [of "ledger db" "RL_ID l" k] by fastforce
    with l show "(RL_ID l, k) \<in> set (map (\<lambda>(r, k, a). (r, k)) (orphaned_reservations db))"
      unfolding orphaned_reservations_def by (force simp: image_iff)
  qed
qed

text \<open>
  From a well-formed database recovery succeeds: it ends every running request, gives back every
  reservation and charges nothing.
\<close>

lemma recover_ok:
  assumes wf: "quota_wf db"
  obtains db' where "recover_running_requests clock at db = Inr (length (filter running (requests db)), db')"
    and "quota_wf db'" and "\<forall>l \<in> set (requests db'). \<not> running l" and "\<forall>k \<in> set (keys db'). DK_Reserved k = 0"
    and "map key_account (keys db') = map key_account (keys db)"
proof -
  let ?at = "if at \<le> 0 then clock else at"
  note orphans = orphans_ok [OF wf]
  from release_all [OF wf orphans(1,2), of ?at] obtain db1 where
    rel: "release_reservations ?at (orphaned_reservations db) db = Inr db1" and wf1: "quota_wf db1"
    and same: "requests db1 = requests db" and acc: "map key_account (keys db1) = map key_account (keys db)"
    and out: "\<forall>r k. outstanding (ledger db1) r k =
      (if (r, k) \<in> set (map (\<lambda>(r, k, a). (r, k)) (orphaned_reservations db)) then 0 else outstanding (ledger db) r k)"
    by blast
  have zero: "outstanding (ledger db1) (RL_ID l) k = 0" if "l \<in> set (requests db1)" "running l" for l k
    using that orphans(3) [of k] out same by metis
  then have held: "held (requests db1) (ledger db1) k = 0" for k by (rule held_zero)
  let ?db = "db1\<lparr>requests := fst (sql_update running (interrupt_request ?at) (requests db1))\<rparr>"
  have stopped: "\<not> running l" if "l \<in> set (requests ?db)" for l
    using that by (auto simp: set_update interrupt_request_def running_def)
  note new = quota_wfD [OF wf1]
  have "unique_key RL_ID (requests ?db)"
    by (simp add: unique_key_update [OF new(2)] interrupt_request_def)
  moreover have "held (requests ?db) (ledger ?db) k = 0" for k
    using stopped by (intro held_zero) blast
  moreover have "ledger_row_ok (keys ?db) (requests ?db) q" if "q \<in> set (ledger ?db)" for q
    using ledger_row_ok_update [OF new(4), of q "interrupt_request ?at" running] that
    by (simp add: interrupt_request_def running_def)
  ultimately have wf': "quota_wf ?db"
    unfolding quota_wf_def using new(1,3,6,7) stopped held by auto
  have free: "\<forall>k \<in> set (keys ?db). DK_Reserved k = 0" using new(7) held by simp
  have "\<not> (\<exists>(r, k, a) \<in> set (orphaned_reservations db). a < 0)" using orphans(2) by fastforce
  then have "recover_running_requests clock at db = Inr (snd (sql_update running (interrupt_request ?at) (requests db1)), ?db)"
    unfolding recover_running_requests_def Let_def rel by (simp add: case_prod_unfold)
  moreover have count: "snd (sql_update running (interrupt_request ?at) (requests db1)) = length (filter running (requests db))"
    by (simp add: sql_update_def same)
  ultimately have res: "recover_running_requests clock at db = Inr (length (filter running (requests db)), ?db)"
    unfolding count by blast
  have acc': "map key_account (keys ?db) = map key_account (keys db)" using acc by simp
  have idle: "\<forall>l \<in> set (requests ?db). \<not> running l" using stopped by blast
  show thesis by (rule that [OF res wf' idle free acc'])
qed

subsection \<open>Properties\<close>

text \<open>The store as a transition system, under the contract of its callers.\<close>

inductive quota_step :: "(string \<Rightarrow> string) \<Rightarrow> (string \<Rightarrow> string) \<Rightarrow> quota_db \<Rightarrow> quota_db \<Rightarrow> bool"
  for digest redact :: "string \<Rightarrow> string" where
  create: "create_downstream_key digest clock kw prefix raw db = Inr (new_id, db') \<Longrightarrow>
    \<forall>q. KW_Quota kw = Some q \<longrightarrow> q \<le> max_int64 \<Longrightarrow> quota_step digest redact db db'"
| update: "update_downstream_key clock key kw db = Inr db' \<Longrightarrow>
    \<forall>q. KW_Quota kw = Some q \<longrightarrow> q \<le> max_int64 \<Longrightarrow> quota_step digest redact db db'"
| delete: "delete_downstream_key key db = Inr db' \<Longrightarrow> quota_step digest redact db db'"
| reset: "reset_downstream_key_usage clock key db = Inr db' \<Longrightarrow> quota_step digest redact db db'"
| authenticate: "authenticate_downstream_key digest now raw model db = Inr (item, db') \<Longrightarrow> quota_step digest redact db db'"
| start: "start_request_with_reservation rs reserved finite_quota db = Inr db' \<Longrightarrow> quota_step digest redact db db'"
| settle: "finish_request_and_settle redact request key reserved charged rf db = Inr db' \<Longrightarrow>
    RF_Status rf \<noteq> ''running'' \<Longrightarrow> outstanding (ledger db) request key = reserved \<Longrightarrow> quota_step digest redact db db'"
| finish: "finish_request redact request rf db = Inr db' \<Longrightarrow> RF_Status rf \<noteq> ''running'' \<Longrightarrow>
    \<forall>k. outstanding (ledger db) request k = 0 \<Longrightarrow> quota_step digest redact db db'"
| recover: "recover_running_requests clock at db = Inr (n, db') \<Longrightarrow> quota_step digest redact db db'"
| clean: "quota_step digest redact db (delete_old_logs cutoff db)"

lemma quota_step_wf: "quota_step digest redact db db' \<Longrightarrow> quota_wf db \<Longrightarrow> quota_wf db'"
proof (induction rule: quota_step.induct)
  case (recover clock at db n db')
  then show ?case by (metis Inr_inject Pair_inject recover_ok)
qed (auto intro: create_key_wf update_key_wf delete_key_wf reset_key_wf authenticate_wf start_wf settle_wf finish_wf
    delete_old_wf)

definition empty_quota_db :: "int list \<Rightarrow> int list \<Rightarrow> int list \<Rightarrow> quota_db" where
  "empty_quota_db profiles routes models = \<lparr>keys = [], key_seq = 0, rate_windows = [], requests = [], ledger = [],
     known_profiles = profiles, known_routes = routes, known_models = models\<rparr>"

lemma empty_quota_db_wf: "quota_wf (empty_quota_db p r m)"
  by (simp add: quota_wf_def empty_quota_db_def unique_key_def)

lemma quota_reachable_wf:
  assumes "(quota_step digest redact)\<^sup>*\<^sup>* db db'" and "quota_wf db"
  shows "quota_wf db'"
  using assms by (induction rule: rtranclp_induct) (auto intro: quota_step_wf)

text \<open>
  \<^bold>\<open>C1.\<close> A key never overruns its quota. Whatever keys are created, changed, reset and deleted,
  whatever requests are admitted, settled, interrupted and cleaned up, in any order and however
  they interleave: a key with a quota has at every moment used and reserved no more than the
  quota together, neither is ever negative, and the amount reserved on a key is exactly what the
  ledger says its running requests still hold.
\<close>

theorem quota_never_overrun:
  assumes "(quota_step digest redact)\<^sup>*\<^sup>* (empty_quota_db profiles routes models) db"
  shows "\<forall>k \<in> set (keys db). 0 \<le> DK_Used k \<and> 0 \<le> DK_Reserved k \<and>
    (\<forall>quota. DK_Quota k = Some quota \<longrightarrow> DK_Used k + DK_Reserved k \<le> quota) \<and>
    DK_Reserved k = (\<Sum>l \<leftarrow> requests db. if running l then outstanding (ledger db) (RL_ID l) (DK_ID k) else 0)"
proof -
  have wf: "quota_wf db" using quota_reachable_wf [OF assms empty_quota_db_wf] .
  show ?thesis
  proof
    fix k assume k: "k \<in> set (keys db)"
    have "key_ok k" using quota_wfD(6) [OF wf k] .
    then have "0 \<le> DK_Used k \<and> 0 \<le> DK_Reserved k \<and>
        (\<forall>quota. DK_Quota k = Some quota \<longrightarrow> DK_Used k + DK_Reserved k \<le> quota)"
      by (auto simp: key_ok_def)
    then show "0 \<le> DK_Used k \<and> 0 \<le> DK_Reserved k \<and>
        (\<forall>quota. DK_Quota k = Some quota \<longrightarrow> DK_Used k + DK_Reserved k \<le> quota) \<and>
        DK_Reserved k = (\<Sum>l \<leftarrow> requests db. if running l then outstanding (ledger db) (RL_ID l) (DK_ID k) else 0)"
      using quota_wfD(7) [OF wf k] unfolding held_def by blast
  qed
qed

text \<open>A small run: a key with a quota of 100, a request that reserves 60, its settlement.\<close>

definition demo_key_write :: key_write where
  "demo_key_write = \<lparr>KW_Name = ''k'', KW_Enabled = True, KW_Quota = Some 100, KW_RPMLimit = 2,
     KW_AllowedModels = [], KW_RoutingProfileID = None, KW_ExpiresAt = None\<rparr>"

definition demo_key :: "int \<Rightarrow> int \<Rightarrow> int \<Rightarrow> key_row" where
  "demo_key used reserved at = \<lparr>DK_ID = 1, DK_Name = ''k'', DK_KeyPrefix = ''p'', DK_KeyHash = ''h'', DK_Enabled = True,
     DK_Quota = Some 100, DK_RPMLimit = 2, DK_Used = used, DK_Reserved = reserved, DK_AllowedModels = [],
     DK_RoutingProfileID = None, DK_ExpiresAt = None, DK_LastUsedAt = (if at = 5 then None else Some 10),
     DK_CreatedAt = 5, DK_UpdatedAt = at\<rparr>"

definition demo_start :: request_start where
  "demo_start = \<lparr>RS_ID = ''r1'', RS_RoutingGeneration = '''', RS_Surface = '''', RS_DownstreamKeyID = 1, RS_RouteID = 0,
     RS_RouteRevision = 0, RS_PublishedModelID = 0, RS_PublishedModelRevision = 0, RS_RoutingProfileID = 0,
     RS_RoutingProfileName = '''', RS_RequestedModel = ''m'', RS_ReasoningEffort = '''', RS_ThinkingBudget = None,
     RS_Stream = False, RS_StartedAt = 10\<rparr>"

definition demo_finish :: request_finish where
  "demo_finish = \<lparr>RF_ActualModel = ''m'', RF_Status = ''success'', RF_HTTPStatus = 200, RF_FirstTokenMS = None,
     RF_DurationMS = 7, RF_InputTokens = None, RF_CacheReadTokens = None, RF_CacheWriteTokens = None,
     RF_CacheWrite1HTokens = None, RF_OutputTokens = None, RF_ReasoningTokens = None, RF_CostMicroUSD = 45,
     RF_PriceSnapshotJSON = '''', RF_ErrorMessage = '''', RF_FinishedAt = 17\<rparr>"

definition demo_running :: request_row where
  "demo_running = \<lparr>RL_ID = ''r1'', RL_Generation = ''legacy'', RL_Surface = ''chat_completions'', RL_KeyID = Some 1,
     RL_RouteID = None, RL_RouteRevision = None, RL_PublishedModelID = None, RL_PublishedModelRevision = None,
     RL_RoutingProfileID = None, RL_RoutingProfileName = ''Default route'', RL_RequestedModel = ''m'',
     RL_ReasoningEffort = '''', RL_ThinkingBudget = None, RL_Stream = False, RL_StartedAt = 10,
     RL_Status = ''running'', RL_ActualModel = '''', RL_HTTPStatus = None, RL_FirstTokenMS = None,
     RL_DurationMS = None, RL_InputTokens = None, RL_CacheReadTokens = None, RL_CacheWriteTokens = None,
     RL_CacheWrite1HTokens = None, RL_OutputTokens = None, RL_ReasoningTokens = None, RL_CostMicroUSD = 0,
     RL_PriceSnapshotJSON = '''', RL_ErrorMessage = '''', RL_FinishedAt = None\<rparr>"

definition demo_keyed_db :: quota_db where
  "demo_keyed_db = (empty_quota_db [] [] [])\<lparr>keys := [demo_key 0 0 5], key_seq := 1\<rparr>"

definition demo_running_db :: quota_db where
  "demo_running_db = demo_keyed_db\<lparr>keys := [demo_key 0 60 10], requests := [demo_running],
     ledger := [\<lparr>QL_KeyID = 1, QL_RequestID = ''r1'', QL_Type = ''reserve'', QL_Amount = 60, QL_CreatedAt = 10\<rparr>]\<rparr>"

lemma demo_create: "create_downstream_key (\<lambda>_. ''h'') 5 demo_key_write ''p'' ''sk'' (empty_quota_db [] [] []) =
    Inr (1, demo_keyed_db)"
  by (simp add: create_downstream_key_def demo_key_write_def empty_quota_db_def demo_keyed_db_def demo_key_def
      validate_downstream_routing_profile_def row_simps clamp_def)

lemma demo_started: "start_request_with_reservation demo_start 60 True demo_keyed_db = Inr demo_running_db"
proof -
  have "to_lower (trim_space (''''::string)) = ''''" "trim_space (''''::string) = ''''" by code_simp+
  then show ?thesis
    by (simp add: start_request_with_reservation_def demo_start_def demo_keyed_db_def demo_key_def may_reserve_def
        sql_update_def insert_request_start_def with_default_def default_routing_profile_name_def nullable_int64_def
        empty_quota_db_def row_simps insert_quota_ledger_def demo_running_db_def demo_running_def)
qed

lemma demo_reachable: "(quota_step (\<lambda>_. ''h'') id)\<^sup>*\<^sup>* (empty_quota_db [] [] []) demo_running_db"
proof -
  have "quota_step (\<lambda>_. ''h'') id (empty_quota_db [] [] []) demo_keyed_db"
    by (rule quota_step.create [OF demo_create]) (simp add: demo_key_write_def)
  moreover have "quota_step (\<lambda>_. ''h'') id demo_keyed_db demo_running_db"
    by (rule quota_step.start [OF demo_started])
  ultimately show ?thesis by (rule rtranclp.rtrancl_into_rtrancl [OF r_into_rtranclp])
qed

theorem quota_never_overrun_witness:
  "keys demo_running_db = [demo_key 0 60 10] \<and>
   DK_Used (demo_key 0 60 10) + DK_Reserved (demo_key 0 60 10) \<le> 100"
  using quota_never_overrun [OF demo_reachable] by (simp add: demo_running_db_def demo_key_def)

text \<open>
  \<^bold>\<open>C2.\<close> A settlement is exact and happens once. Settling a running request with the amount it
  reserved ends it, takes exactly its reservation off its key and charges the cost, capped by what
  the quota leaves beside the other requests' reservations; the other keys are untouched; the
  ledger gains entries that account for the whole of both: settled and released amounts make up
  the reservation, settled and additional ones the charge (without a reservation the charge is
  settled). The same request cannot be settled or finished again.
\<close>

theorem settlement_exact_once:
  assumes "(quota_step digest redact)\<^sup>*\<^sup>* (empty_quota_db profiles routes models) db"
    and "finish_request_and_settle redact request key reserved charged input db = Inr db'"
    and "RF_Status input \<noteq> ''running''" and "outstanding (ledger db) request key = reserved"
  shows "\<exists>k k' entries. row_by DK_ID key (keys db) = Some k \<and> row_by DK_ID key (keys db') = Some k' \<and>
      DK_Reserved k' = DK_Reserved k - reserved \<and>
      DK_Used k' = DK_Used k + (case DK_Quota k of None \<Rightarrow> charged
        | Some quota \<Rightarrow> min charged (quota - DK_Used k - (DK_Reserved k - reserved))) \<and>
      (\<forall>other. other \<noteq> key \<longrightarrow> row_by DK_ID other (keys db') = row_by DK_ID other (keys db)) \<and>
      ledger db' = ledger db @ entries \<and>
      (\<forall>q \<in> set entries. QL_KeyID q = key \<and> QL_RequestID q = request \<and> 0 < QL_Amount q) \<and>
      (\<Sum>q \<leftarrow> filter (\<lambda>q. QL_Type q \<noteq> ''release'') entries. QL_Amount q) = DK_Used k' - DK_Used k \<and>
      (reserved = 0 \<or> (\<Sum>q \<leftarrow> filter (\<lambda>q. QL_Type q \<noteq> ''additional'') entries. QL_Amount q) = reserved) \<and>
      finish_request_and_settle redact request key reserved2 charged2 input2 db' \<noteq> Inr db2 \<and>
      finish_request redact request input2 db' = Inl ErrRequestAlreadyFinished"
proof -
  have wf: "quota_wf db" by (rule quota_reachable_wf [OF assms(1) empty_quota_db_wf])
  have wf': "quota_wf db'" by (rule settle_wf [OF wf assms(2-4)])
  note old = quota_wfD [OF wf]
  from settle_ok [OF wf assms(2)] obtain h l input' where h: "h \<in> set (keys db)" "DK_ID h = key"
    and l: "l \<in> set (requests db)" "RL_ID l = request" "running l" "RL_KeyID l = Some key"
    and b: "0 \<le> reserved" and top: "DK_Used h + applied_charge h reserved charged \<le> max_int64"
    and same: "input'\<lparr>RF_ErrorMessage := ''''\<rparr> = input\<lparr>RF_ErrorMessage := ''''\<rparr>"
    and a0: "0 \<le> applied_charge h reserved charged"
    and db': "db' = db\<lparr>requests := fst (sql_update (\<lambda>l. RL_ID l = request \<and> RL_KeyID l = Some key \<and> running l)
          (finish_request_row redact input') (requests db)),
        keys := fst (sql_update
          (\<lambda>r. DK_ID r = key \<and> DK_Reserved r = DK_Reserved h \<and> DK_Used r = DK_Used h \<and>
               DK_Used r \<le> max_int64 - applied_charge h reserved charged)
          (\<lambda>r. r\<lparr>DK_Reserved := DK_Reserved r - reserved, DK_Used := DK_Used r + applied_charge h reserved charged,
                 DK_UpdatedAt := RF_FinishedAt input'\<rparr>) (keys db)),
        ledger := ledger db @ map (entry_row key request (RF_FinishedAt input'))
          (settle_entries reserved (applied_charge h reserved charged))\<rparr>" .
  let ?a = "applied_charge h reserved charged"
  let ?entries = "map (entry_row key request (RF_FinishedAt input')) (settle_entries reserved ?a)"
  have k: "row_by DK_ID key (keys db) = Some h" using h by (simp add: row_by_eq_Some [OF old(1)])
  have k': "row_by DK_ID j (keys db') = map_option (\<lambda>r. if DK_ID r = key \<and> DK_Reserved r = DK_Reserved h \<and>
      DK_Used r = DK_Used h \<and> DK_Used r \<le> max_int64 - ?a
      then r\<lparr>DK_Reserved := DK_Reserved r - reserved, DK_Used := DK_Used r + ?a, DK_UpdatedAt := RF_FinishedAt input'\<rparr>
      else r) (row_by DK_ID j (keys db))" for j
    unfolding db' by (simp, rule row_by_update) simp
  have others: "row_by DK_ID j (keys db') = row_by DK_ID j (keys db)" if "j \<noteq> key" for j
    using that by (cases "row_by DK_ID j (keys db)") (auto simp: k' dest: row_by_SomeD)
  have "RF_Status input' = RF_Status input" using arg_cong [OF same, of RF_Status] by simp
  with assms(3) have status: "RF_Status input' \<noteq> ''running''" by simp
  have notrun: "\<not> running r" if "r \<in> set (requests db')" "RL_ID r = request" for r
  proof -
    let ?P = "\<lambda>l. RL_ID l = request \<and> RL_KeyID l = Some key \<and> running l"
    from that(1) obtain x where x: "x \<in> set (requests db)" "r = (if ?P x then finish_request_row redact input' x else x)"
      by (auto simp: db' set_update)
    with that(2) have "RL_ID x = RL_ID l" using l(2) by (auto split: if_splits)
    then have "x = l" by (rule unique_keyD [OF old(2) x(1) l(1)])
    with x(2) l status show ?thesis by simp
  qed
  have pos: "\<forall>q \<in> set ?entries. QL_KeyID q = key \<and> QL_RequestID q = request \<and> 0 < QL_Amount q"
    using settle_entries_pos [OF b a0] by auto
  have sums: "(\<Sum>q \<leftarrow> filter (\<lambda>q. QL_Type q \<noteq> ''release'') ?entries. QL_Amount q) = ?a"
    "reserved = 0 \<or> (\<Sum>q \<leftarrow> filter (\<lambda>q. QL_Type q \<noteq> ''additional'') ?entries. QL_Amount q) = reserved"
    using a0 b by (auto simp: settle_entries_def Let_def)
  have again: "finish_request_and_settle redact request key reserved2 charged2 input2 db' \<noteq> Inr db2"
  proof
    assume "finish_request_and_settle redact request key reserved2 charged2 input2 db' = Inr db2"
    from settle_ok [OF wf' this] obtain r where "r \<in> set (requests db')" "RL_ID r = request" "running r" .
    with notrun show False by blast
  qed
  have "snd (sql_update (\<lambda>l. RL_ID l = request \<and> running l) (finish_request_row redact input2) (requests db')) = 0"
    unfolding update_count_zero using notrun by blast
  then have finished: "finish_request redact request input2 db' = Inl ErrRequestAlreadyFinished"
    unfolding finish_request_def Let_def case_prod_unfold by simp
  define new where "new = h\<lparr>DK_Reserved := DK_Reserved h - reserved, DK_Used := DK_Used h + ?a,
    DK_UpdatedAt := RF_FinishedAt input'\<rparr>"
  have knew: "row_by DK_ID key (keys db') = Some new" using k' [of key] k h(2) top by (simp add: new_def)
  have reserved_new: "DK_Reserved new = DK_Reserved h - reserved" by (simp add: new_def)
  have used_new: "DK_Used new = DK_Used h + (case DK_Quota h of None \<Rightarrow> charged
        | Some quota \<Rightarrow> min charged (quota - DK_Used h - (DK_Reserved h - reserved)))"
    by (simp add: new_def applied_charge_def)
  have others': "\<forall>other. other \<noteq> key \<longrightarrow> row_by DK_ID other (keys db') = row_by DK_ID other (keys db)"
    using others by blast
  have led: "ledger db' = ledger db @ ?entries" by (simp add: db')
  have used: "(\<Sum>q \<leftarrow> filter (\<lambda>q. QL_Type q \<noteq> ''release'') ?entries. QL_Amount q) = DK_Used new - DK_Used h"
    unfolding sums(1) by (simp add: new_def)
  show ?thesis
    by (rule exI [of _ h], rule exI [of _ new], rule exI [of _ ?entries])
      (intro conjI k knew reserved_new used_new others' led pos used sums(2) again finished)
qed

lemma demo_settled:
  "\<exists>db'. finish_request_and_settle id ''r1'' 1 60 45 demo_finish demo_running_db = Inr db' \<and> keys db' = [demo_key 45 0 17]"
  by (simp add: finish_request_and_settle_def demo_running_db_def demo_key_def row_simps Let_def wrap64_def
      sql_update_def demo_running_def running_def finish_request_row_def demo_finish_def settle_entries_def
      insert_quota_ledger_def)

theorem settlement_exact_once_witness:
  "\<exists>db'. finish_request_and_settle id ''r1'' 1 60 45 demo_finish demo_running_db = Inr db' \<and>
     keys db' = [demo_key 45 0 17] \<and>
     finish_request_and_settle id ''r1'' 1 60 45 demo_finish db' \<noteq> Inr db' \<and>
     finish_request id ''r1'' demo_finish db' = Inl ErrRequestAlreadyFinished"
proof -
  obtain db' where db': "finish_request_and_settle id ''r1'' 1 60 45 demo_finish demo_running_db = Inr db'"
    "keys db' = [demo_key 45 0 17]" using demo_settled by blast
  have "RF_Status demo_finish \<noteq> ''running''" "outstanding (ledger demo_running_db) ''r1'' 1 = 60"
    by (simp_all add: demo_finish_def demo_running_db_def outstanding_def ledger_sign_def)
  from settlement_exact_once [OF demo_reachable db'(1) this] db' show ?thesis by blast
qed

text \<open>
  \<^bold>\<open>C3.\<close> A restart loses nothing. From every state the store can be in when the process dies,
  recovery succeeds; it reports the number of requests that were running, leaves none running and
  no amount reserved on any key, keeps every key with its quota and what it has used, and a second
  recovery finds nothing to do.
\<close>

theorem recovery_releases_everything:
  assumes "(quota_step digest redact)\<^sup>*\<^sup>* (empty_quota_db profiles routes models) db"
  shows "\<exists>db'. recover_running_requests clock at db = Inr (length (filter running (requests db)), db') \<and>
    (\<forall>l \<in> set (requests db'). \<not> running l) \<and> (\<forall>k \<in> set (keys db'). DK_Reserved k = 0) \<and>
    map key_account (keys db') = map key_account (keys db) \<and>
    (\<exists>db''. recover_running_requests clock' at' db' = Inr (0, db'') \<and>
       map key_account (keys db'') = map key_account (keys db))"
proof -
  have wf: "quota_wf db" by (rule quota_reachable_wf [OF assms empty_quota_db_wf])
  from recover_ok [OF wf] obtain db' where
    db': "recover_running_requests clock at db = Inr (length (filter running (requests db)), db')" "quota_wf db'"
      "\<forall>l \<in> set (requests db'). \<not> running l" "\<forall>k \<in> set (keys db'). DK_Reserved k = 0"
      "map key_account (keys db') = map key_account (keys db)" .
  from recover_ok [OF db'(2)] obtain db'' where
    db'': "recover_running_requests clock' at' db' = Inr (length (filter running (requests db')), db'')"
      "map key_account (keys db'') = map key_account (keys db')" .
  have "filter running (requests db') = []" using db'(3) by (simp add: filter_empty_conv)
  with db' db'' show ?thesis by auto
qed

theorem recovery_releases_everything_witness:
  "\<exists>db'. recover_running_requests 99 0 demo_running_db = Inr (1, db') \<and> map DK_Reserved (keys db') = [0]"
proof -
  have one: "length (filter running (requests demo_running_db)) = 1"
    by (simp add: demo_running_db_def demo_running_def running_def)
  obtain db' where
    db': "recover_running_requests 99 0 demo_running_db = Inr (1, db')" "\<forall>k \<in> set (keys db'). DK_Reserved k = 0"
      "map key_account (keys db') = map key_account (keys demo_running_db)"
    using recovery_releases_everything [OF demo_reachable, of 99 0 99 0] unfolding one by blast
  have "length (keys db') = 1"
    using arg_cong [OF db'(3), of length] by (simp add: demo_running_db_def)
  then have "map DK_Reserved (keys db') = [0]"
    using db'(2) by (cases "keys db'") auto
  with db'(1) show ?thesis by (intro exI [of _ db'] conjI) simp_all
qed

subsection \<open>The rate limit\<close>

definition window_key :: "rate_window \<Rightarrow> int \<times> int" where
  "window_key w = (RW_KeyID w, RW_Start w)"

definition window_count :: "int \<Rightarrow> int \<Rightarrow> rate_window list \<Rightarrow> int" where
  "window_count key start t = (case row_by window_key (key, start) t of None \<Rightarrow> 0 | Some w \<Rightarrow> RW_Count w)"

lemma rate_window_start_nonneg: "0 \<le> now \<Longrightarrow> rate_window_start now = 60000 * (now div 60000)"
  by (simp add: rate_window_start_def minus_mod_eq_mult_div)

lemma rate_window_start_mono: "0 \<le> a \<Longrightarrow> a \<le> b \<Longrightarrow> rate_window_start a \<le> rate_window_start b"
  by (simp add: rate_window_start_nonneg zdiv_mono1)

lemma window_count_delete:
  "unique_key window_key t \<Longrightarrow>
    window_count k s (filter (\<lambda>w. \<not> RW_Start w < oldest) t) = (if s < oldest then 0 else window_count k s t)"
proof (induction t)
  case Nil
  then show ?case by (simp add: window_count_def row_simps)
next
  case (Cons w t)
  then have u: "unique_key window_key t" and nin: "\<forall>x \<in> set t. window_key x \<noteq> window_key w"
    by (auto simp: unique_key_def image_iff)
  show ?case
    using Cons.IH [OF u] by (auto simp: window_count_def row_simps window_key_def)
qed

lemma consume_rpm_count:
  assumes u: "unique_key window_key t" and "0 < limit" and W: "W = rate_window_start now"
  shows "window_count key W t < limit \<Longrightarrow>
      \<exists>t'. consume_rpm key limit now t = Inr t' \<and> unique_key window_key t' \<and>
        (\<forall>k s. window_count k s t' = (if s < W - 120000 then 0
           else if k = key \<and> s = W then window_count key W t + 1 else window_count k s t))"
    and "\<not> window_count key W t < limit \<Longrightarrow> \<exists>e. consume_rpm key limit now t = Inl e"
proof -
  let ?here = "\<lambda>w. RW_KeyID w = key \<and> RW_Start w = W"
  let ?P = "\<lambda>w. ?here w \<and> RW_Count w < limit"
  let ?f = "\<lambda>w. w\<lparr>RW_Count := RW_Count w + 1\<rparr>"
  let ?new = "\<lparr>RW_KeyID = key, RW_Start = W, RW_Count = 1\<rparr>"
  have f: "window_key (?f w) = window_key w" for w by (simp add: window_key_def)
  have here: "(\<exists>w \<in> set t. ?here w) \<longleftrightarrow> row_by window_key (key, W) t \<noteq> None"
    by (auto simp: row_by_None window_key_def)
  have num: "snd (sql_update ?P ?f t) = (case row_by window_key (key, W) t of None \<Rightarrow> 0 | Some r \<Rightarrow> if ?P r then 1 else 0)"
    by (rule update_count_le_one [OF u]) (simp add: window_key_def)
  have eq: "consume_rpm key limit now t =
     (let r = (if \<exists>w \<in> set t. ?here w then sql_update ?P ?f t else (t @ [?new], 1))
      in if snd r = 0 then Inl (ErrText ''API key RPM limit exceeded'')
         else Inr (filter (\<lambda>w. \<not> RW_Start w < W - 120000) (fst r)))"
    unfolding consume_rpm_def Let_def case_prod_unfold sql_delete_def fst_conv W [symmetric] by (rule refl)
  show "\<exists>t'. consume_rpm key limit now t = Inr t' \<and> unique_key window_key t' \<and>
        (\<forall>k s. window_count k s t' = (if s < W - 120000 then 0
           else if k = key \<and> s = W then window_count key W t + 1 else window_count k s t))"
    if less: "window_count key W t < limit"
  proof (cases "row_by window_key (key, W) t")
    case None
    let ?t = "t @ [?new]"
    have u': "unique_key window_key ?t" using u None by (simp add: unique_key_append_row window_key_def)
    have "window_count k s ?t = (if k = key \<and> s = W then window_count key W t + 1 else window_count k s t)" for k s
      using None by (auto simp: window_count_def row_by_append row_simps window_key_def split: option.split)
    note count = this
    have "(\<exists>w \<in> set t. ?here w) = False" using here None by simp
    then have "consume_rpm key limit now t = Inr (filter (\<lambda>w. \<not> RW_Start w < W - 120000) ?t)"
      unfolding eq Let_def by (simp only: if_False snd_conv fst_conv) simp
    note res = this
    show ?thesis
      by (intro exI [of _ "filter (\<lambda>w. \<not> RW_Start w < W - 120000) ?t"] conjI res unique_key_filter [OF u'] allI)
        (simp only: window_count_delete [OF u'] count)
  next
    case (Some w)
    then have w: "?here w" "w \<in> set t" by (auto dest: row_by_SomeD simp: window_key_def)
    let ?t = "fst (sql_update ?P ?f t)"
    have u': "unique_key window_key ?t"
      by (rule unique_key_update) (use u in \<open>simp_all add: window_key_def\<close>)
    have P: "?P w" using less w Some by (simp add: window_count_def)
    have "window_count k s ?t = (if k = key \<and> s = W then window_count key W t + 1 else window_count k s t)" for k s
    proof (cases "k = key \<and> s = W")
      case True
      then show ?thesis using P Some by (simp add: window_count_def row_by_update [of window_key ?f, OF f])
    next
      case False
      then show ?thesis
        by (cases "row_by window_key (k, s) t")
          (auto simp: window_count_def row_by_update [of window_key ?f, OF f] window_key_def dest!: row_by_SomeD)
    qed
    note count = this
    have "(\<exists>w \<in> set t. ?here w) = True" using here Some by simp
    moreover have "snd (sql_update ?P ?f t) = 1" using num Some P by simp
    ultimately have "consume_rpm key limit now t = Inr (filter (\<lambda>w. \<not> RW_Start w < W - 120000) ?t)"
      unfolding eq Let_def by (simp only: if_True) simp
    note res = this
    show ?thesis
      by (intro exI [of _ "filter (\<lambda>w. \<not> RW_Start w < W - 120000) ?t"] conjI res unique_key_filter [OF u'] allI)
        (simp only: window_count_delete [OF u'] count)
  qed
  show "\<exists>e. consume_rpm key limit now t = Inl e" if full: "\<not> window_count key W t < limit"
  proof -
    obtain w where w: "row_by window_key (key, W) t = Some w" "\<not> RW_Count w < limit"
      using full assms(2) by (auto simp: window_count_def split: option.splits)
    have "(\<exists>w \<in> set t. ?here w) = True" using here w by simp
    moreover have "snd (sql_update ?P ?f t) = 0" using num w by simp
    ultimately show ?thesis unfolding eq Let_def by (simp only: if_True) simp
  qed
qed

text \<open>Successive requests \<open>(key, limit, now)\<close>; a refused one leaves the windows as they are.\<close>

fun consume_all :: "(int \<times> int \<times> int) list \<Rightarrow> rate_window list \<Rightarrow> bool list" where
  "consume_all [] t = []"
| "consume_all ((key, limit, now) # cs) t =
     (case consume_rpm key limit now t of
        Inl e \<Rightarrow> False # consume_all cs t
      | Inr t' \<Rightarrow> True # consume_all cs t')"

definition in_window :: "int \<Rightarrow> int \<Rightarrow> int \<times> int \<times> int \<Rightarrow> bool" where
  "in_window key W c \<longleftrightarrow> fst c = key \<and> rate_window_start (snd (snd c)) = W"

lemma consume_all_count:
  assumes "unique_key window_key t" and "sorted (map (snd \<circ> snd) cs)" and "\<forall>(k, l, n) \<in> set cs. 0 < l \<and> 0 \<le> n"
    and "\<forall>(k, l, n) \<in> set cs. k = key \<longrightarrow> l = limit" and "window_count key W t \<le> limit"
  shows "int (length (filter (\<lambda>(c, ok). in_window key W c \<and> ok) (zip cs (consume_all cs t)))) =
    min (limit - window_count key W t) (int (length (filter (in_window key W) cs)))"
  using assms
proof (induction cs arbitrary: t)
  case Nil
  then show ?case by simp
next
  case (Cons c cs)
  obtain k l n where c: "c = (k, l, n)" by (cases c)
  let ?V = "rate_window_start n"
  have l: "0 < l" "0 \<le> n" "k = key \<Longrightarrow> l = limit" using Cons.prems(3,4) by (auto simp: c)
  have rest: "sorted (map (snd \<circ> snd) cs)" "\<forall>(k, l, n) \<in> set cs. 0 < l \<and> 0 \<le> n"
    "\<forall>(k, l, n) \<in> set cs. k = key \<longrightarrow> l = limit" using Cons.prems(2-4) by (auto simp: comp_def)
  have later: "?V \<le> rate_window_start m" if "(k', l', m) \<in> set cs" for k' l' m
    using Cons.prems(2) that l(2) by (intro rate_window_start_mono) (force simp: c)+
  show ?case
  proof (cases "window_count k ?V t < l")
    case True
    then obtain t' where t': "consume_rpm k l n t = Inr t'" "unique_key window_key t'"
      "\<forall>k' s. window_count k' s t' = (if s < ?V - 120000 then 0
         else if k' = k \<and> s = ?V then window_count k ?V t + 1 else window_count k' s t)"
      using consume_rpm_count(1) [OF Cons.prems(1) l(1) refl] by blast
    show ?thesis
    proof (cases "W < ?V - 120000")
      case True
      have none: "\<not> in_window key W x" if "x \<in> set (c # cs)" for x
      proof (cases x)
        case (fields k' l' m)
        then have "?V \<le> rate_window_start m" using that later by (auto simp: c)
        with True show ?thesis by (simp add: in_window_def fields)
      qed
      then have "filter (\<lambda>(c, ok). in_window key W c \<and> ok) (zip cs (consume_all cs t')) = []"
        by (auto simp: filter_empty_conv dest: set_zip_leftD)
      moreover have "filter (in_window key W) (c # cs) = []" using none by (simp add: filter_empty_conv)
      ultimately show ?thesis using none [of c] t'(1) Cons.prems(5) by (simp add: c split: if_splits)
    next
      case False
      have le: "window_count key W t' \<le> limit"
        using t'(3) False True l(3) Cons.prems(5) by auto
      show ?thesis
        using Cons.IH [OF t'(2) rest le] t'(1,3) False True l(3) by (auto simp: c in_window_def)
    qed
  next
    case False
    then obtain e where e: "consume_rpm k l n t = Inl e"
      using consume_rpm_count(2) [OF Cons.prems(1) l(1) refl] by blast
    have "window_count key W t = limit" if "in_window key W c"
      using that False l(3) Cons.prems(5) by (auto simp: in_window_def c)
    then show ?thesis using Cons.IH [OF Cons.prems(1) rest Cons.prems(5)] e by (auto simp: c)
  qed
qed

text \<open>
  \<^bold>\<open>C4.\<close> The rate limit is exact: of the requests a key makes in one minute, interleaved with those
  of other keys, the first as many as its limit are admitted and no more, whatever happened in
  other minutes, as long as the clock does not run backwards.
\<close>

theorem rate_limit_exact:
  assumes "sorted (map (snd \<circ> snd) cs)" and "\<forall>(k, l, n) \<in> set cs. 0 < l \<and> 0 \<le> n"
    and "\<forall>(k, l, n) \<in> set cs. k = key \<longrightarrow> l = limit" and "0 \<le> limit"
  shows "int (length (filter (\<lambda>(c, ok). in_window key W c \<and> ok) (zip cs (consume_all cs [])))) =
    min limit (int (length (filter (in_window key W) cs)))"
  using consume_all_count [of "[]" cs key limit W] assms
  by (simp add: window_count_def row_simps unique_key_def)

theorem rate_limit_exact_witness:
  "int (length (filter (\<lambda>(c, ok). in_window 1 60000 c \<and> ok)
     (zip [(1, 2, 60000), (1, 2, 60500), (2, 9, 61000), (1, 2, 119999), (1, 2, 120000)]
       (consume_all [(1, 2, 60000), (1, 2, 60500), (2, 9, 61000), (1, 2, 119999), (1, 2, 120000)] [])))) = 2"
proof -
  let ?cs = "[(1, 2, 60000), (1, 2, 60500), (2, 9, 61000), (1, 2, 119999), (1, 2, 120000)] :: (int \<times> int \<times> int) list"
  have "length (filter (in_window 1 60000) ?cs) = 3"
    by (simp add: in_window_def rate_window_start_nonneg)
  with rate_limit_exact [of ?cs 1 2 60000] show ?thesis by simp
qed

text \<open>
  \<^bold>\<open>C5.\<close> A key that authenticates is usable: it is the stored key of the presented secret, enabled,
  not expired, allowed the model asked for, and when it has a quota, at least one more micro-USD
  can be reserved on it at that moment. Nothing but its time of last use and the rate windows is
  written.
\<close>

theorem authenticated_key_usable:
  assumes "authenticate_downstream_key digest now raw model db = Inr (item, db')"
  shows "item \<in> set (keys db) \<and> DK_KeyHash item = digest raw \<and> DK_Enabled item \<and>
    (\<forall>e. DK_ExpiresAt item = Some e \<longrightarrow> now < e) \<and> (model = '''' \<or> key_allows_model item model) \<and>
    (DK_Quota item = None \<or> may_reserve 1 now item) \<and>
    ledger db' = ledger db \<and> requests db' = requests db \<and> map key_account (keys db') = map key_account (keys db) \<and>
    map DK_Reserved (keys db') = map DK_Reserved (keys db)"
proof -
  from assms have "row_by DK_KeyHash (digest raw) (keys db) = Some item"
    and db': "keys db' = fst (sql_update (\<lambda>k. DK_ID k = DK_ID item)
      (\<lambda>k. k\<lparr>DK_LastUsedAt := Some now, DK_UpdatedAt := now\<rparr>) (keys db))"
    "ledger db' = ledger db" "requests db' = requests db"
    by (auto simp: authenticate_downstream_key_def split: option.splits if_splits sum.splits)
  note row = this(1)
  have "DK_Enabled item \<and> (\<forall>e. DK_ExpiresAt item = Some e \<longrightarrow> now < e) \<and> (model = '''' \<or> key_allows_model item model) \<and>
      (DK_Quota item = None \<or> may_reserve 1 now item)"
    using assms unfolding authenticate_downstream_key_def row
    by (auto simp: key_allows_model_def may_reserve_def split: if_splits option.splits)
  with row_by_SomeD [OF row] show ?thesis
    by (simp add: db' map_update_keeps key_account_def)
qed

theorem authenticated_key_usable_witness:
  "\<exists>db'. authenticate_downstream_key (\<lambda>_. ''h'') 6 ''sk'' ''m'' demo_keyed_db = Inr (demo_key 0 0 5, db') \<and>
     may_reserve 1 6 (demo_key 0 0 5)"
proof -
  have "\<exists>db'. authenticate_downstream_key (\<lambda>_. ''h'') 6 ''sk'' ''m'' demo_keyed_db = Inr (demo_key 0 0 5, db')"
    by (simp add: authenticate_downstream_key_def demo_keyed_db_def demo_key_def row_simps consume_rpm_def Let_def
        empty_quota_db_def)
  then obtain db' where a: "authenticate_downstream_key (\<lambda>_. ''h'') 6 ''sk'' ''m'' demo_keyed_db = Inr (demo_key 0 0 5, db')"
    by blast
  from authenticated_key_usable [OF a] a show ?thesis by (auto simp: demo_key_def)
qed

end
