(* ===== verification/Billing.thy ===== *)
theory Billing
  imports Complex_Main GoStrings
begin

text \<open>
  The official-price engine (\<open>billing/engine.go\<close>, \<open>billing/catalog.go\<close>, \<open>billing/errors.go\<close>):
  the price catalogue and its validation, the snapshot of the prices in force at an instant, the
  quote of a token usage against a snapshot with its rounding, and the reservation and
  settlement of an amount. Costs are exact rationals (\<open>big.Rat\<close>) until they are rounded to
  micro-USD, as in the code. Parameters of the model: \<open>parse_rat\<close> is \<open>big.Rat.SetString\<close>,
  \<open>parse_date\<close> is \<open>time.Parse("2006-01-02", _)\<close> in nanoseconds since 1970, \<open>parse_url\<close> is
  the scheme and host of \<open>url.Parse\<close>, \<open>decode\<close> and \<open>trailing\<close> are the JSON decoder on the first
  value and on what follows it, \<open>digest\<close> is the hexadecimal SHA-256. The texts of error messages
  are left out: an error is its kind and, for a \<open>PricingError\<close>, its model and category.
\<close>

subsection \<open>Errors and data\<close>

datatype price_error_kind =
    Invalid_catalog | Invalid_usage | Model_not_found | Model_unpriced | Category_unpriced
  | Outside_price_range | Amount_overflow

text \<open>\<open>invalidCatalog\<close> and \<open>ErrAmountOverflow\<close> are bare kinds, the others a \<open>PricingError\<close>.\<close>

datatype pricing_error =
    Pricing_error (error_kind: price_error_kind) (error_model: string) (error_category: string)
  | Kind_error (error_kind: price_error_kind)

definition invalid_catalog :: pricing_error where
  "invalid_catalog = Kind_error Invalid_catalog"

record usage =
  U_input :: int
  U_cache_read :: int
  U_cache_write :: int
  U_cache_write_1h :: int
  U_output :: int
  U_reasoning :: int

record fx_snapshot =
  FX_units_per_usd :: string
  FX_as_of :: string
  FX_source_url :: string

record price_source =
  PSrc_name :: string
  PSrc_url :: string
  PSrc_checked_at :: string

record rate_band =
  RB_max_input :: "int option"
  RB_input :: string
  RB_cache :: string
  RB_cache_write :: string
  RB_cache_write_1h :: string
  RB_output :: string
  RB_reasoning :: string

record price_period =
  PP_from :: string
  PP_until :: string
  PP_bands :: "rate_band list"

record model_price =
  Pr_provider :: string
  Pr_name :: string
  Pr_aliases :: "string list"
  Pr_currency :: string
  Pr_priced :: bool
  Pr_unpriced_reason :: string
  Pr_bands :: "rate_band list"
  Pr_periods :: "price_period list"
  Pr_source_url :: string
  Pr_source_checked_at :: string
  Pr_notes :: string

text \<open>\<open>C_index = None\<close> is the nil map of a catalogue that has not been validated.\<close>

record catalog =
  C_schema :: int
  C_version :: string
  C_published_at :: string
  C_checked_at :: string
  C_base_currency :: string
  C_fx :: "(string \<times> fx_snapshot) list"
  C_sources :: "price_source list"
  C_models :: "model_price list"
  C_digest :: string
  C_index :: "(string \<rightharpoonup> nat) option"

record price_snapshot =
  PS_version :: string
  PS_digest :: string
  PS_published_at :: string
  PS_checked_at :: string
  PS_provider :: string
  PS_requested_model :: string
  PS_price_name :: string
  PS_currency :: string
  PS_fx :: "fx_snapshot option"
  PS_bands :: "rate_band list"
  PS_source_url :: string
  PS_source_checked_at :: string
  PS_from :: string
  PS_until :: string
  PS_notes :: string

record component_cost =
  CC_tokens :: int
  CC_rate :: string
  CC_currency :: string
  CC_micro_usd :: int

record cost_breakdown =
  CB_input :: component_cost
  CB_cache_read :: component_cost
  CB_cache_write :: component_cost
  CB_cache_write_1h :: component_cost
  CB_output :: component_cost
  CB_reasoning :: component_cost
  CB_total :: int

record quote =
  Q_usage :: usage
  Q_cost :: cost_breakdown
  Q_band :: rate_band
  Q_snapshot :: price_snapshot

record reservation =
  Rv_maximum :: usage
  Rv_reserved :: int
  Rv_snapshot :: price_snapshot

record settlement =
  St_reserved :: int
  St_charged :: int
  St_release :: int
  St_additional :: int
  St_delta :: int
  St_quote :: quote

subsection \<open>Usage\<close>

definition validate_usage :: "usage \<Rightarrow> (pricing_error, unit) result" where
  "validate_usage u =
     (if U_input u < 0 \<or> U_cache_read u < 0 \<or> U_cache_write u < 0 \<or> U_cache_write_1h u < 0
         \<or> U_output u < 0 \<or> U_reasoning u < 0
      then Inl (Pricing_error Invalid_usage [] []) else Inr ())"

definition prompt_tokens :: "usage \<Rightarrow> (pricing_error, int) result" where
  "prompt_tokens u = (case validate_usage u of Inl e \<Rightarrow> Inl e
     | Inr _ \<Rightarrow>
        if U_input u > max_int64 - U_cache_read u then Inl (Pricing_error Invalid_usage [] [])
        else let p = wrap64 (U_input u + U_cache_read u) in
          if p > max_int64 - U_cache_write u then Inl (Pricing_error Invalid_usage [] [])
          else let p' = wrap64 (p + U_cache_write u) in
            if p' > max_int64 - U_cache_write_1h u then Inl (Pricing_error Invalid_usage [] [])
            else Inr (wrap64 (p' + U_cache_write_1h u)))"

fun select_band :: "rate_band list \<Rightarrow> int \<Rightarrow> rate_band option" where
  "select_band [] n = None"
| "select_band (b # bs) n =
     (case RB_max_input b of None \<Rightarrow> Some b
      | Some m \<Rightarrow> if n \<le> m then Some b else select_band bs n)"

subsection \<open>Rounding\<close>

record component_work =
  CW_name :: string
  CW_tokens :: int
  CW_rate :: string
  CW_raw :: "rat option"

text \<open>\<open>big.Int.Quo\<close> and \<open>QuoRem\<close> truncate.\<close>

definition rat_quo :: "rat \<Rightarrow> int" where
  "rat_quo r = (case quotient_of r of (n, d) \<Rightarrow> go_div n d)"

definition round_half_up :: "rat \<Rightarrow> int" where
  "round_half_up r = (case quotient_of r of (n, d) \<Rightarrow>
     if 2 * go_mod n d \<ge> d then go_div n d + 1 else go_div n d)"

definition bump :: "nat list \<Rightarrow> int list \<Rightarrow> int list" where
  "bump is floors = fold (\<lambda>i fs. fs[i := fs ! i + 1]) is floors"

definition round_components :: "component_work list \<Rightarrow> (pricing_error, int list \<times> int) result" where
  "round_components cs =
     (if list_ex (\<lambda>c. case CW_raw c of None \<Rightarrow> True | Some r \<Rightarrow> r < 0) cs then Inl invalid_catalog
      else let
        raws = map (\<lambda>c. the (CW_raw c)) cs;
        floors = map rat_quo raws;
        remainders = zip [0..<length cs] (map (\<lambda>r. r - of_int (rat_quo r)) raws);
        target = round_half_up (sum_list raws);
        remaining = target - sum_list floors
      in if \<not> is_int64 remaining \<or> remaining < 0 \<or> remaining > int (length cs)
         then Inl (Kind_error Amount_overflow)
         else let
           order = map fst (slice_stable (\<lambda>a b. snd a > snd b) remainders);
           amounts = bump (take (nat remaining) order) floors
         in if \<not> is_int64 target then Inl (Kind_error Amount_overflow)
            else if list_ex (\<lambda>a. \<not> is_int64 a) amounts then Inl (Kind_error Amount_overflow)
            else Inr (amounts, target))"

subsection \<open>Decimals and quotes\<close>

definition non_negative_decimal :: "(string \<Rightarrow> rat option) \<Rightarrow> string \<Rightarrow> rat option" where
  "non_negative_decimal parse_rat s =
     (case parse_rat s of None \<Rightarrow> None | Some r \<Rightarrow> if r < 0 then None else Some r)"

definition positive_decimal :: "(string \<Rightarrow> rat option) \<Rightarrow> string \<Rightarrow> rat option" where
  "positive_decimal parse_rat s =
     (case non_negative_decimal parse_rat s of None \<Rightarrow> None | Some r \<Rightarrow> if r = 0 then None else Some r)"

definition fx_rate :: "(string \<Rightarrow> rat option) \<Rightarrow> price_snapshot \<Rightarrow> (pricing_error, rat) result" where
  "fx_rate parse_rat s =
     (if PS_currency s = ''USD'' then Inr 1
      else case PS_fx s of None \<Rightarrow> Inl invalid_catalog
      | Some fx \<Rightarrow> (case positive_decimal parse_rat (FX_units_per_usd fx) of
          None \<Rightarrow> Inl invalid_catalog | Some r \<Rightarrow> Inr r))"

definition component_list :: "rate_band \<Rightarrow> usage \<Rightarrow> component_work list" where
  "component_list b u =
     [\<lparr>CW_name = ''input'', CW_tokens = U_input u, CW_rate = RB_input b, CW_raw = None\<rparr>,
      \<lparr>CW_name = ''cache_read'', CW_tokens = U_cache_read u, CW_rate = RB_cache b, CW_raw = None\<rparr>,
      \<lparr>CW_name = ''cache_write'', CW_tokens = U_cache_write u, CW_rate = RB_cache_write b, CW_raw = None\<rparr>,
      \<lparr>CW_name = ''cache_write_1h'', CW_tokens = U_cache_write_1h u, CW_rate = RB_cache_write_1h b, CW_raw = None\<rparr>,
      \<lparr>CW_name = ''output'', CW_tokens = U_output u, CW_rate = RB_output b, CW_raw = None\<rparr>,
      \<lparr>CW_name = ''reasoning'', CW_tokens = U_reasoning u, CW_rate = RB_reasoning b, CW_raw = None\<rparr>]"

text \<open>The loop that fills in the raw cost of each component.\<close>

fun price_components ::
  "(string \<Rightarrow> rat option) \<Rightarrow> string \<Rightarrow> rat \<Rightarrow> component_work list \<Rightarrow> (pricing_error, component_work list) result" where
  "price_components parse_rat model fx [] = Inr []"
| "price_components parse_rat model fx (c # cs) =
     (let rest = (\<lambda>raw. case price_components parse_rat model fx cs of Inl e \<Rightarrow> Inl e
                         | Inr cs' \<Rightarrow> Inr (c\<lparr>CW_raw := Some raw\<rparr> # cs'))
      in if CW_tokens c = 0 then rest 0
         else if CW_rate c = [] then Inl (Pricing_error Category_unpriced model (CW_name c))
         else case non_negative_decimal parse_rat (CW_rate c) of None \<Rightarrow> Inl invalid_catalog
           | Some rate \<Rightarrow> rest (rate * of_int (CW_tokens c) / fx))"

definition component_cost_of :: "component_work \<Rightarrow> int \<Rightarrow> string \<Rightarrow> component_cost" where
  "component_cost_of w amount currency =
     \<lparr>CC_tokens = CW_tokens w, CC_rate = CW_rate w, CC_currency = currency, CC_micro_usd = amount\<rparr>"

definition quote_snapshot ::
  "(string \<Rightarrow> rat option) \<Rightarrow> price_snapshot \<Rightarrow> usage \<Rightarrow> (pricing_error, quote) result" where
  "quote_snapshot parse_rat s u =
     (case prompt_tokens u of Inl e \<Rightarrow> Inl e
      | Inr n \<Rightarrow> (case select_band (PS_bands s) n of
          None \<Rightarrow> Inl (Pricing_error Outside_price_range (PS_requested_model s) [])
        | Some band \<Rightarrow> (case fx_rate parse_rat s of Inl e \<Rightarrow> Inl e
          | Inr fx \<Rightarrow> (case price_components parse_rat (PS_requested_model s) fx (component_list band u) of
              Inl e \<Rightarrow> Inl e
            | Inr cs \<Rightarrow> (case round_components cs of Inl e \<Rightarrow> Inl e
              | Inr (amounts, charge) \<Rightarrow>
                  let cost = (\<lambda>i. component_cost_of (cs ! i) (amounts ! i) (PS_currency s)) in
                  Inr \<lparr>Q_usage = u,
                       Q_cost = \<lparr>CB_input = cost 0, CB_cache_read = cost 1, CB_cache_write = cost 2,
                                 CB_cache_write_1h = cost 3, CB_output = cost 4, CB_reasoning = cost 5,
                                 CB_total = charge\<rparr>,
                       Q_band = band, Q_snapshot = s\<rparr>)))))"

subsection \<open>The price in force\<close>

abbreviation zero_time :: int where
  "zero_time \<equiv> - 62135596800000000000"

text \<open>\<open>from, _ := time.Parse(...)\<close>: a date that does not parse is the zero time.\<close>

definition date_or_zero :: "(string \<Rightarrow> int option) \<Rightarrow> string \<Rightarrow> int" where
  "date_or_zero parse_date s = (case parse_date s of None \<Rightarrow> zero_time | Some t \<Rightarrow> t)"

fun select_period :: "(string \<Rightarrow> int option) \<Rightarrow> int \<Rightarrow> price_period list \<Rightarrow> price_period option" where
  "select_period parse_date now [] = None"
| "select_period parse_date now (p # ps) =
     (if now < date_or_zero parse_date (PP_from p) then select_period parse_date now ps
      else if PP_until p \<noteq> [] \<and> \<not> now < date_or_zero parse_date (PP_until p) then select_period parse_date now ps
      else Some p)"

definition select_effective_bands ::
  "(string \<Rightarrow> int option) \<Rightarrow> model_price \<Rightarrow> int \<Rightarrow> (pricing_error, rate_band list \<times> string \<times> string) result" where
  "select_effective_bands parse_date p now =
     (if Pr_periods p = [] then Inr (Pr_bands p, [], [])
      else case select_period parse_date now (Pr_periods p) of
        None \<Rightarrow> Inl (Pricing_error Outside_price_range (Pr_name p) [])
      | Some q \<Rightarrow> Inr (PP_bands q, PP_from q, PP_until q))"

definition normalize_model :: "string \<Rightarrow> string" where
  "normalize_model s = to_lower (trim_space s)"

text \<open>\<open>e.catalog\<close> and \<open>c\<close> may be nil (\<open>None\<close>); a nil index map has no entry.\<close>

definition catalog_lookup :: "catalog option \<Rightarrow> string \<Rightarrow> model_price option" where
  "catalog_lookup oc m = (case oc of None \<Rightarrow> None
     | Some c \<Rightarrow> (case C_index c of None \<Rightarrow> None
         | Some ix \<Rightarrow> map_option (\<lambda>i. C_models c ! i) (ix (normalize_model m))))"

definition lookup_provider :: "catalog option \<Rightarrow> string \<Rightarrow> string \<Rightarrow> model_price option" where
  "lookup_provider oc provider m = (case catalog_lookup oc m of None \<Rightarrow> None
     | Some p \<Rightarrow> if equal_fold (trim_space provider) (Pr_provider p) then Some p else None)"

definition price_snapshot_of ::
  "(string \<Rightarrow> int option) \<Rightarrow> catalog \<Rightarrow> string \<Rightarrow> model_price \<Rightarrow> int \<Rightarrow> (pricing_error, price_snapshot) result" where
  "price_snapshot_of parse_date c requested p now =
     (let build = (\<lambda>fx. case select_effective_bands parse_date p now of Inl e \<Rightarrow> Inl e
        | Inr (bands, from, until) \<Rightarrow>
          Inr \<lparr>PS_version = C_version c, PS_digest = C_digest c, PS_published_at = C_published_at c,
               PS_checked_at = C_checked_at c, PS_provider = Pr_provider p, PS_requested_model = requested,
               PS_price_name = Pr_name p, PS_currency = Pr_currency p, PS_fx = fx, PS_bands = bands,
               PS_source_url = Pr_source_url p, PS_source_checked_at = Pr_source_checked_at p,
               PS_from = from, PS_until = until, PS_notes = Pr_notes p\<rparr>)
      in if Pr_currency p = ''USD'' then build None
         else case map_of (C_fx c) (Pr_currency p) of None \<Rightarrow> Inl invalid_catalog
           | Some fx \<Rightarrow> build (Some fx))"

definition quote_at ::
  "(string \<Rightarrow> rat option) \<Rightarrow> (string \<Rightarrow> int option) \<Rightarrow> catalog option \<Rightarrow> string \<Rightarrow> usage \<Rightarrow> int
     \<Rightarrow> (pricing_error, quote) result" where
  "quote_at parse_rat parse_date oc m u now =
     (case oc of None \<Rightarrow> Inl invalid_catalog
      | Some c \<Rightarrow> (case catalog_lookup oc m of
          None \<Rightarrow> Inl (Pricing_error Model_not_found m [])
        | Some p \<Rightarrow>
            if \<not> Pr_priced p then Inl (Pricing_error Model_unpriced m [])
            else case price_snapshot_of parse_date c m p now of Inl e \<Rightarrow> Inl e
              | Inr s \<Rightarrow> quote_snapshot parse_rat s u))"

subsection \<open>Reservation and settlement\<close>

text \<open>The four prompt prices with the setter of their counter; the loop keeps the first dearest.\<close>

definition prompt_rates :: "rate_band \<Rightarrow> (string \<times> (usage \<Rightarrow> int \<Rightarrow> usage)) list" where
  "prompt_rates b =
     [(RB_input b, \<lambda>u n. u\<lparr>U_input := n\<rparr>), (RB_cache b, \<lambda>u n. u\<lparr>U_cache_read := n\<rparr>),
      (RB_cache_write b, \<lambda>u n. u\<lparr>U_cache_write := n\<rparr>), (RB_cache_write_1h b, \<lambda>u n. u\<lparr>U_cache_write_1h := n\<rparr>)]"

fun dearest_rate ::
  "(string \<Rightarrow> rat option) \<Rightarrow> (string \<times> 'b) list \<Rightarrow> ('b \<times> rat) option \<Rightarrow> (pricing_error, ('b \<times> rat) option) result" where
  "dearest_rate parse_rat [] best = Inr best"
| "dearest_rate parse_rat ((rate, setter) # cs) best =
     (if rate = [] then dearest_rate parse_rat cs best
      else case non_negative_decimal parse_rat rate of None \<Rightarrow> Inl invalid_catalog
        | Some r \<Rightarrow> dearest_rate parse_rat cs
            (case best of None \<Rightarrow> Some (setter, r)
             | Some (_, b) \<Rightarrow> if r > b then Some (setter, r) else best))"

definition conservative_maximum_usage ::
  "(string \<Rightarrow> rat option) \<Rightarrow> price_snapshot \<Rightarrow> usage \<Rightarrow> (pricing_error, usage) result" where
  "conservative_maximum_usage parse_rat s maximum =
     (case prompt_tokens maximum of Inl e \<Rightarrow> Inl e
      | Inr n \<Rightarrow> (case select_band (PS_bands s) n of
          None \<Rightarrow> Inl (Pricing_error Outside_price_range (PS_requested_model s) [])
        | Some band \<Rightarrow> (case dearest_rate parse_rat (prompt_rates band) None of Inl e \<Rightarrow> Inl e
          | Inr None \<Rightarrow> Inl (Pricing_error Category_unpriced (PS_requested_model s) ''input'')
          | Inr (Some (setter, _)) \<Rightarrow>
              Inr (setter \<lparr>U_input = 0, U_cache_read = 0, U_cache_write = 0, U_cache_write_1h = 0,
                           U_output = U_output maximum, U_reasoning = U_reasoning maximum\<rparr> n))))"

definition reserve_at ::
  "(string \<Rightarrow> rat option) \<Rightarrow> (string \<Rightarrow> int option) \<Rightarrow> catalog option \<Rightarrow> string \<Rightarrow> usage \<Rightarrow> int
     \<Rightarrow> (pricing_error, reservation) result" where
  "reserve_at parse_rat parse_date oc m maximum now =
     (case catalog_lookup oc m of
        None \<Rightarrow> Inl (Pricing_error Model_not_found m [])
      | Some p \<Rightarrow>
          if \<not> Pr_priced p then Inl (Pricing_error Model_unpriced m [])
          else case price_snapshot_of parse_date (the oc) m p now of Inl e \<Rightarrow> Inl e
            | Inr s \<Rightarrow> (case conservative_maximum_usage parse_rat s maximum of Inl e \<Rightarrow> Inl e
              | Inr mx \<Rightarrow> (case quote_snapshot parse_rat s mx of Inl e \<Rightarrow> Inl e
                | Inr q \<Rightarrow> Inr \<lparr>Rv_maximum = mx, Rv_reserved = CB_total (Q_cost q), Rv_snapshot = Q_snapshot q\<rparr>)))"

definition settle :: "(string \<Rightarrow> rat option) \<Rightarrow> reservation \<Rightarrow> usage \<Rightarrow> (pricing_error, settlement) result" where
  "settle parse_rat r actual =
     (case quote_snapshot parse_rat (Rv_snapshot r) actual of Inl e \<Rightarrow> Inl e
      | Inr q \<Rightarrow>
        let delta = wrap64 (CB_total (Q_cost q) - Rv_reserved r) in
        Inr \<lparr>St_reserved = Rv_reserved r, St_charged = CB_total (Q_cost q),
             St_release = (if delta < 0 then wrap64 (- delta) else 0),
             St_additional = (if delta < 0 then 0 else delta),
             St_delta = delta, St_quote = q\<rparr>)"

subsection \<open>Validation of a catalogue\<close>

text \<open>The reasons \<open>validateModel\<close> and its helpers give; all of them reach the caller as \<open>ErrInvalidCatalog\<close>.\<close>

datatype model_error =
    Name_required | Currency_required | Not_https | Bad_date | Reason_required | Unpriced_with_rates
  | No_rates | Mixed_rates | Bands_required | Open_band_not_last | Limits_not_increasing
  | Band_without_price | Bad_price | Until_not_after | Open_period_not_last | Periods_not_ordered
  | Periods_overlap

definition validate_https :: "(string \<Rightarrow> (string \<times> string) option) \<Rightarrow> string \<Rightarrow> bool" where
  "validate_https parse_url raw = (case parse_url raw of None \<Rightarrow> False
     | Some (scheme, host) \<Rightarrow> scheme = ''https'' \<and> host \<noteq> [])"

definition validate_date :: "(string \<Rightarrow> int option) \<Rightarrow> string \<Rightarrow> bool" where
  "validate_date parse_date s = (parse_date s \<noteq> None)"

text \<open>The loop of \<open>validateRateBands\<close>; \<open>previous\<close> is the last limit seen.\<close>

fun validate_bands_from :: "(string \<Rightarrow> rat option) \<Rightarrow> int \<Rightarrow> rate_band list \<Rightarrow> (model_error, unit) result" where
  "validate_bands_from parse_rat previous [] = Inr ()"
| "validate_bands_from parse_rat previous (b # bs) =
     (if bs \<noteq> [] \<and> RB_max_input b = None then Inl Open_band_not_last
      else if (case RB_max_input b of None \<Rightarrow> False | Some m \<Rightarrow> m \<le> previous) then Inl Limits_not_increasing
      else if RB_input b = [] \<or> RB_output b = [] then Inl Band_without_price
      else if list_ex (\<lambda>v. v \<noteq> [] \<and> non_negative_decimal parse_rat v = None)
                [RB_input b, RB_cache b, RB_cache_write b, RB_cache_write_1h b, RB_output b, RB_reasoning b]
           then Inl Bad_price
      else validate_bands_from parse_rat
             (case RB_max_input b of None \<Rightarrow> previous | Some m \<Rightarrow> m) bs)"

definition validate_rate_bands :: "(string \<Rightarrow> rat option) \<Rightarrow> rate_band list \<Rightarrow> (model_error, unit) result" where
  "validate_rate_bands parse_rat bands =
     (if bands = [] then Inl Bands_required else validate_bands_from parse_rat 0 bands)"

text \<open>
  The loop over the price periods: the previous period's start, end (the zero time when it has
  none) and whether it was open-ended; \<open>None\<close> before the first.
\<close>

fun validate_periods ::
  "(string \<Rightarrow> rat option) \<Rightarrow> (string \<Rightarrow> int option) \<Rightarrow> (int \<times> int \<times> bool) option \<Rightarrow> price_period list
     \<Rightarrow> (model_error, unit) result" where
  "validate_periods parse_rat parse_date previous [] = Inr ()"
| "validate_periods parse_rat parse_date previous (p # ps) =
     (case parse_date (PP_from p) of None \<Rightarrow> Inl Bad_date
      | Some from \<Rightarrow>
          if PP_until p \<noteq> [] \<and> parse_date (PP_until p) = None then Inl Bad_date
          else if PP_until p \<noteq> [] \<and> \<not> from < the (parse_date (PP_until p)) then Inl Until_not_after
          else if (case previous of None \<Rightarrow> False | Some (f, u, is_open) \<Rightarrow> is_open) then Inl Open_period_not_last
          else if (case previous of None \<Rightarrow> False | Some (f, u, is_open) \<Rightarrow> \<not> from > f) then Inl Periods_not_ordered
          else if (case previous of None \<Rightarrow> False | Some (f, u, is_open) \<Rightarrow> from < u) then Inl Periods_overlap
          else (case validate_rate_bands parse_rat (PP_bands p) of Inl e \<Rightarrow> Inl e
            | Inr _ \<Rightarrow> validate_periods parse_rat parse_date
                (Some (from, if PP_until p \<noteq> [] then the (parse_date (PP_until p)) else zero_time, PP_until p = [])) ps))"

definition validate_model ::
  "(string \<Rightarrow> rat option) \<Rightarrow> (string \<Rightarrow> int option) \<Rightarrow> (string \<Rightarrow> (string \<times> string) option) \<Rightarrow> model_price
     \<Rightarrow> (model_error, model_price) result" where
  "validate_model parse_rat parse_date parse_url m0 =
     (let m = m0\<lparr>Pr_provider := to_lower (trim_space (Pr_provider m0)), Pr_name := trim_space (Pr_name m0),
                 Pr_currency := to_upper (trim_space (Pr_currency m0))\<rparr>
      in if Pr_provider m = [] \<or> Pr_name m = [] then Inl Name_required
         else if Pr_currency m = [] then Inl Currency_required
         else if \<not> validate_https parse_url (Pr_source_url m) then Inl Not_https
         else if \<not> validate_date parse_date (Pr_source_checked_at m) then Inl Bad_date
         else if \<not> Pr_priced m then
           (if trim_space (Pr_unpriced_reason m) = [] then Inl Reason_required
            else if Pr_bands m \<noteq> [] \<or> Pr_periods m \<noteq> [] then Inl Unpriced_with_rates
            else Inr m)
         else if Pr_bands m = [] \<and> Pr_periods m = [] then Inl No_rates
         else if Pr_bands m \<noteq> [] \<and> Pr_periods m \<noteq> [] then Inl Mixed_rates
         else if Pr_bands m \<noteq> [] then
           (case validate_rate_bands parse_rat (Pr_bands m) of Inl e \<Rightarrow> Inl e | Inr _ \<Rightarrow> Inr m)
         else (case validate_periods parse_rat parse_date None (Pr_periods m) of Inl e \<Rightarrow> Inl e | Inr _ \<Rightarrow> Inr m))"

text \<open>The names of the model at position \<open>i\<close> enter the index; a name of another model is refused.\<close>

fun index_names :: "nat \<Rightarrow> string list \<Rightarrow> (string \<rightharpoonup> nat) \<Rightarrow> (string \<rightharpoonup> nat) option" where
  "index_names i [] ix = Some ix"
| "index_names i (n # ns) ix =
     (let key = normalize_model n in
      if key = [] then None
      else if (case ix key of None \<Rightarrow> False | Some j \<Rightarrow> j \<noteq> i) then None
      else index_names i ns (ix(key \<mapsto> i)))"

fun validate_models ::
  "(string \<Rightarrow> rat option) \<Rightarrow> (string \<Rightarrow> int option) \<Rightarrow> (string \<Rightarrow> (string \<times> string) option)
     \<Rightarrow> (string \<times> fx_snapshot) list \<Rightarrow> nat \<Rightarrow> model_price list \<Rightarrow> (string \<rightharpoonup> nat)
     \<Rightarrow> (pricing_error, model_price list \<times> (string \<rightharpoonup> nat)) result" where
  "validate_models parse_rat parse_date parse_url fx i [] ix = Inr ([], ix)"
| "validate_models parse_rat parse_date parse_url fx i (m0 # ms) ix =
     (case validate_model parse_rat parse_date parse_url m0 of Inl _ \<Rightarrow> Inl invalid_catalog
      | Inr m \<Rightarrow>
          if Pr_priced m \<and> Pr_currency m \<noteq> ''USD'' \<and> map_of fx (Pr_currency m) = None then Inl invalid_catalog
          else (case index_names i (Pr_name m # Pr_aliases m) ix of None \<Rightarrow> Inl invalid_catalog
            | Some ix' \<Rightarrow> (case validate_models parse_rat parse_date parse_url fx (Suc i) ms ix' of Inl e \<Rightarrow> Inl e
              | Inr (ms', ix'') \<Rightarrow> Inr (m # ms', ix''))))"

definition fx_entry_ok ::
  "(string \<Rightarrow> rat option) \<Rightarrow> (string \<Rightarrow> int option) \<Rightarrow> (string \<Rightarrow> (string \<times> string) option)
     \<Rightarrow> string \<times> fx_snapshot \<Rightarrow> bool" where
  "fx_entry_ok parse_rat parse_date parse_url e =
     (fst e \<noteq> ''USD'' \<and> positive_decimal parse_rat (FX_units_per_usd (snd e)) \<noteq> None
      \<and> validate_date parse_date (FX_as_of (snd e)) \<and> validate_https parse_url (FX_source_url (snd e)))"

definition source_ok ::
  "(string \<Rightarrow> int option) \<Rightarrow> (string \<Rightarrow> (string \<times> string) option) \<Rightarrow> price_source \<Rightarrow> bool" where
  "source_ok parse_date parse_url s =
     (trim_space (PSrc_name s) \<noteq> [] \<and> validate_https parse_url (PSrc_url s)
      \<and> validate_date parse_date (PSrc_checked_at s))"

definition validate_catalog ::
  "(string \<Rightarrow> rat option) \<Rightarrow> (string \<Rightarrow> int option) \<Rightarrow> (string \<Rightarrow> (string \<times> string) option) \<Rightarrow> catalog
     \<Rightarrow> (pricing_error, catalog) result" where
  "validate_catalog parse_rat parse_date parse_url c =
     (if C_schema c \<noteq> 1 then Inl invalid_catalog
      else if trim_space (C_version c) = [] then Inl invalid_catalog
      else if \<not> validate_date parse_date (C_published_at c) then Inl invalid_catalog
      else if \<not> validate_date parse_date (C_checked_at c) then Inl invalid_catalog
      else if C_base_currency c \<noteq> ''USD'' then Inl invalid_catalog
      else if \<not> list_all (fx_entry_ok parse_rat parse_date parse_url) (C_fx c) then Inl invalid_catalog
      else if \<not> list_all (source_ok parse_date parse_url) (C_sources c) then Inl invalid_catalog
      else if C_models c = [] then Inl invalid_catalog
      else case validate_models parse_rat parse_date parse_url (C_fx c) 0 (C_models c) Map.empty of
             Inl e \<Rightarrow> Inl e
           | Inr (ms, ix) \<Rightarrow> Inr (c\<lparr>C_models := ms, C_index := Some ix\<rparr>))"

definition parse_catalog ::
  "(string \<Rightarrow> catalog option) \<Rightarrow> (string \<Rightarrow> bool) \<Rightarrow> (string \<Rightarrow> string)
     \<Rightarrow> (string \<Rightarrow> rat option) \<Rightarrow> (string \<Rightarrow> int option) \<Rightarrow> (string \<Rightarrow> (string \<times> string) option) \<Rightarrow> string
     \<Rightarrow> (pricing_error, catalog) result" where
  "parse_catalog decode trailing digest parse_rat parse_date parse_url data =
     (case decode data of None \<Rightarrow> Inl invalid_catalog
      | Some c \<Rightarrow>
          if trailing data then Inl invalid_catalog
          else (case validate_catalog parse_rat parse_date parse_url (c\<lparr>C_digest := [], C_index := None\<rparr>) of
                  Inl e \<Rightarrow> Inl e
                | Inr c' \<Rightarrow> Inr (c'\<lparr>C_digest := digest data\<rparr>)))"

text \<open>\<open>billing.New\<close> validates a catalogue that carries no index.\<close>

definition new_engine ::
  "(string \<Rightarrow> rat option) \<Rightarrow> (string \<Rightarrow> int option) \<Rightarrow> (string \<Rightarrow> (string \<times> string) option) \<Rightarrow> catalog option
     \<Rightarrow> (pricing_error, catalog) result" where
  "new_engine parse_rat parse_date parse_url oc =
     (case oc of None \<Rightarrow> Inl invalid_catalog
      | Some c \<Rightarrow> (case C_index c of None \<Rightarrow> validate_catalog parse_rat parse_date parse_url c
          | Some _ \<Rightarrow> Inr c))"

end
