(* ===== verification/BillingLaws.thy ===== *)
theory BillingLaws
  imports Billing
begin

text \<open>
  What the price engine guarantees: rounding neither loses nor invents a micro-dollar, a
  reservation covers the call it was made for, a settlement balances, a validated catalogue
  resolves every name to one model, has at most one price in force at an instant and never
  fails a request as invalid.
\<close>

subsection \<open>Rounding is exact\<close>

lemma rat_quo_floor: "0 \<le> r \<Longrightarrow> rat_quo r = \<lfloor>r\<rfloor>"
proof -
  assume r: "0 \<le> r"
  obtain n d where q: "quotient_of r = (n, d)" by (cases "quotient_of r")
  have d: "0 < d" and eq: "r = of_int n / of_int d"
    using quotient_of_denom_pos [OF q] quotient_of_div [OF q] by simp_all
  with r have "0 \<le> n" by (simp add: zero_le_divide_iff)
  have "rat_quo r = go_div n d" by (simp only: rat_quo_def q prod.case)
  also have "\<dots> = \<lfloor>r\<rfloor>" using d \<open>0 \<le> n\<close> by (simp add: eq floor_divide_of_int_eq)
  finally show ?thesis .
qed

lemma round_half_up_floor: "0 \<le> r \<Longrightarrow> round_half_up r = \<lfloor>r + 1 / 2\<rfloor>"
proof -
  assume r: "0 \<le> r"
  obtain n d where q: "quotient_of r = (n, d)" by (cases "quotient_of r")
  have d: "0 < d" and eq: "r = of_int n / of_int d"
    using quotient_of_denom_pos [OF q] quotient_of_div [OF q] by simp_all
  with r have n: "0 \<le> n" by (simp add: zero_le_divide_iff)
  have "r + 1 / 2 = of_int (2 * n + d) / of_int (2 * d)"
    using d by (simp add: eq field_simps)
  then have "\<lfloor>r + 1 / 2\<rfloor> = (2 * n + d) div (2 * d)"
    by (simp only: floor_divide_of_int_eq)
  also have "\<dots> = (2 * (n mod d) + d + (n div d) * (2 * d)) div (2 * d)"
  proof -
    define q m where "q = n div d" and "m = n mod d"
    have "n = q * d + m" by (simp add: q_def m_def)
    then have "2 * n + d = 2 * m + d + q * (2 * d)" by (simp add: algebra_simps)
    then have "2 * n + d = 2 * (n mod d) + d + (n div d) * (2 * d)" unfolding q_def m_def .
    then show ?thesis by (simp only:)
  qed
  also have "\<dots> = n div d + (2 * (n mod d) + d) div (2 * d)"
    using d by (subst div_mult_self1) simp_all
  also have "(2 * (n mod d) + d) div (2 * d) = (if 2 * (n mod d) \<ge> d then 1 else 0)"
  proof -
    define m where "m = n mod d"
    have "0 \<le> m" "m < d" using d by (simp_all add: m_def)
    then have "(2 * m + d) div (2 * d) = (if 2 * m \<ge> d then 1 else 0)"
      by (auto intro!: int_div_pos_eq [of _ _ _ "2 * m - d"] div_pos_pos_trivial)
    then show ?thesis unfolding m_def .
  qed
  finally have fl: "\<lfloor>r + 1 / 2\<rfloor> = n div d + (if 2 * (n mod d) \<ge> d then 1 else 0)" .
  have "round_half_up r = (if 2 * go_mod n d \<ge> d then go_div n d + 1 else go_div n d)"
    by (simp only: round_half_up_def q prod.case)
  then show ?thesis using n d fl by simp
qed

lemma bump_length [simp]: "length (bump is fs) = length fs"
  by (induction "is" arbitrary: fs) (simp_all add: bump_def)

lemma bump_Cons: "bump (i # is) fs = bump is (fs[i := fs ! i + 1])"
  by (simp add: bump_def)

lemma bump_nth:
  "distinct is \<Longrightarrow> j < length fs \<Longrightarrow> bump is fs ! j = fs ! j + (if j \<in> set is then 1 else 0)"
proof (induction "is" arbitrary: fs)
  case Nil
  then show ?case by (simp add: bump_def)
next
  case (Cons i xs)
  then have "bump (i # xs) fs ! j = fs[i := fs ! i + 1] ! j + (if j \<in> set xs then 1 else 0)"
    by (simp add: bump_Cons)
  also have "\<dots> = fs ! j + (if j \<in> set (i # xs) then 1 else 0)"
    using Cons.prems by (cases "j = i") simp_all
  finally show ?case .
qed

lemma sum_list_update_int:
  "i < length fs \<Longrightarrow> sum_list (fs[i := v]) = sum_list fs + v - fs ! i" for fs :: "int list"
  by (induction fs arbitrary: i) (auto split: nat.splits)

lemma bump_sum:
  "distinct is \<Longrightarrow> set is \<subseteq> {0..<length fs} \<Longrightarrow> sum_list (bump is fs) = sum_list fs + int (length is)"
proof (induction "is" arbitrary: fs)
  case Nil
  then show ?case by (simp add: bump_def)
next
  case (Cons i xs)
  then have "sum_list (bump (i # xs) fs) = sum_list (fs[i := fs ! i + 1]) + int (length xs)"
    by (simp add: bump_Cons)
  moreover have "i < length fs" using Cons.prems by simp
  then have "sum_list (fs[i := fs ! i + 1]) = sum_list fs + 1"
    by (simp add: sum_list_update_int)
  ultimately show ?case by simp
qed

text \<open>The remainder to distribute is at most the number of amounts that are not whole.\<close>

lemma frac_sum_integers: "\<forall>x\<in>set rs. x \<in> \<int> \<Longrightarrow> sum_list (map frac (rs :: rat list)) = 0"
  by (induction rs) simp_all

lemma frac_sum_bound:
  fixes rs :: "rat list"
  shows "rs \<noteq> [] \<Longrightarrow> \<exists>x\<in>set rs. x \<notin> \<int> \<Longrightarrow>
    sum_list (map frac rs) < of_nat (length (filter (\<lambda>x. x \<notin> \<int>) rs))"
proof (induction rs)
  case Nil
  then show ?case by simp
next
  case (Cons r rs)
  show ?case
  proof (cases "\<exists>x\<in>set rs. x \<notin> \<int>")
    case True
    then have "rs \<noteq> []" by auto
    with True Cons.IH have IH: "sum_list (map frac rs) < of_nat (length (filter (\<lambda>x. x \<notin> \<int>) rs))"
      by blast
    show ?thesis using IH frac_lt_1 [of r] by (cases "r \<in> \<int>") (simp_all add: frac_eq_0_iff [THEN iffD2])
  next
    case False
    then have "sum_list (map frac rs) = 0" and "filter (\<lambda>x. x \<notin> \<int>) rs = []"
      by (simp_all add: filter_empty_conv frac_sum_integers)
    moreover have "r \<notin> \<int>" using Cons.prems False by simp
    ultimately show ?thesis using frac_lt_1 [of r] by simp
  qed
qed

lemma floor_sum_frac:
  fixes rs :: "rat list"
  shows "sum_list rs = of_int (sum_list (map floor rs)) + sum_list (map frac rs)"
  by (induction rs) (simp_all add: frac_def)

lemma frac_sum_nonneg: "0 \<le> sum_list (map frac (rs :: rat list))"
  by (induction rs) simp_all

lemma remainder_bounds:
  fixes rs :: "rat list"
  shows "0 \<le> \<lfloor>sum_list rs + 1 / 2\<rfloor> - sum_list (map floor rs)"
    and "\<lfloor>sum_list rs + 1 / 2\<rfloor> - sum_list (map floor rs) \<le> int (length (filter (\<lambda>x. x \<notin> \<int>) rs))"
proof -
  let ?s = "sum_list (map frac rs)"
  have eq: "\<lfloor>sum_list rs + 1 / 2\<rfloor> - sum_list (map floor rs) = \<lfloor>?s + 1 / 2\<rfloor>"
    by (simp add: floor_sum_frac [of rs] add.assoc)
  have nonneg: "0 \<le> ?s" by (rule frac_sum_nonneg)
  then show "0 \<le> \<lfloor>sum_list rs + 1 / 2\<rfloor> - sum_list (map floor rs)"
    unfolding eq by (simp add: zero_le_floor)
  show "\<lfloor>sum_list rs + 1 / 2\<rfloor> - sum_list (map floor rs) \<le> int (length (filter (\<lambda>x. x \<notin> \<int>) rs))"
  proof (cases "\<exists>x\<in>set rs. x \<notin> \<int>")
    case True
    then have "rs \<noteq> []" by auto
    with frac_sum_bound [OF this True] have "?s + 1 / 2 < of_nat (length (filter (\<lambda>x. x \<notin> \<int>) rs)) + 1"
      by simp
    then have "\<lfloor>?s + 1 / 2\<rfloor> < int (length (filter (\<lambda>x. x \<notin> \<int>) rs)) + 1"
      unfolding floor_less_iff by simp
    then show ?thesis unfolding eq by linarith
  next
    case False
    then have "?s = 0" by (simp add: frac_sum_integers)
    moreover have "\<lfloor>1 / 2 :: rat\<rfloor> = 0" by (simp add: floor_eq_iff)
    ultimately show ?thesis unfolding eq by simp
  qed
qed


text \<open>A list sorted by decreasing value takes the entries with a positive value first.\<close>

lemma sorted_positive_first:
  fixes val :: "'a \<Rightarrow> rat"
  assumes "sorted_wrt (\<lambda>a b. val b \<le> val a) xs" and "\<forall>x\<in>set xs. 0 \<le> val x"
    and "n \<le> length (filter (\<lambda>x. val x \<noteq> 0) xs)" and "x \<in> set (take n xs)"
  shows "val x \<noteq> 0"
proof
  assume zero: "val x = 0"
  have rest: "val y = 0" if "y \<in> set (drop n xs)" for y
  proof -
    have "val y \<le> val x"
      by (rule sorted_wrt_take_drop [OF assms(1) assms(4) that])
    moreover have "0 \<le> val y" using assms(2) in_set_dropD [OF that] by blast
    ultimately show ?thesis using zero by simp
  qed
  have "length (filter (\<lambda>x. val x \<noteq> 0) xs)
    = length (filter (\<lambda>x. val x \<noteq> 0) (take n xs)) + length (filter (\<lambda>x. val x \<noteq> 0) (drop n xs))"
    by (metis append_take_drop_id filter_append length_append)
  also have "filter (\<lambda>x. val x \<noteq> 0) (drop n xs) = []"
    using rest by (simp add: filter_empty_conv)
  also have "length (filter (\<lambda>x. val x \<noteq> 0) (take n xs)) < length (take n xs)"
    using assms(4) zero by (intro length_filter_less [of x]) simp_all
  finally show False using assms(3) by simp
qed


text \<open>The cost components of a call, and what the rounding returns when nothing overflows.\<close>

lemma round_components_unfold:
  assumes "\<forall>c\<in>set cs. \<exists>r\<ge>0. CW_raw c = Some r" and "int (length cs) \<le> max_int64"
  defines "raws \<equiv> map (\<lambda>c. the (CW_raw c)) cs"
  defines "order \<equiv> map fst (slice_stable (\<lambda>a b. snd a > snd b) (zip [0..<length cs] (map frac raws)))"
  defines "extra \<equiv> \<lfloor>sum_list raws + 1 / 2\<rfloor> - sum_list (map floor raws)"
  defines "amounts \<equiv> bump (take (nat extra) order) (map floor raws)"
  shows "round_components cs =
    (if is_int64 \<lfloor>sum_list raws + 1 / 2\<rfloor> \<and> list_all is_int64 amounts
     then Inr (amounts, \<lfloor>sum_list raws + 1 / 2\<rfloor>) else Inl (Kind_error Amount_overflow))"
proof -
  have nonneg: "\<forall>r\<in>set raws. 0 \<le> r" using assms(1) by (force simp: raws_def)
  then have "0 \<le> sum_list raws" by (simp add: sum_list_nonneg)
  then have target: "round_half_up (sum_list raws) = \<lfloor>sum_list raws + 1 / 2\<rfloor>"
    by (rule round_half_up_floor)
  have floors: "map rat_quo raws = map floor raws"
    using nonneg by (simp add: rat_quo_floor)
  have fracs: "map (\<lambda>r. r - of_int (rat_quo r)) raws = map frac raws"
    using nonneg by (simp add: rat_quo_floor frac_def)
  have valid: "\<not> list_ex (\<lambda>c. case CW_raw c of None \<Rightarrow> True | Some r \<Rightarrow> r < 0) cs"
    using assms(1) by (auto simp: list_ex_iff)
  have "0 \<le> extra" and le: "extra \<le> int (length (filter (\<lambda>x. x \<notin> \<int>) raws))"
    using remainder_bounds [of raws] by (simp_all add: extra_def)
  moreover have "length (filter (\<lambda>x. x \<notin> \<int>) raws) \<le> length cs"
    using length_filter_le [of "\<lambda>x. x \<notin> \<int>" raws] by (simp add: raws_def)
  ultimately have "is_int64 extra" "\<not> extra < 0" "\<not> extra > int (length cs)"
    using assms(2) by (simp_all add: is_int64_def)
  moreover have "list_ex (\<lambda>a. \<not> is_int64 a) amounts = (\<not> list_all is_int64 amounts)"
    by (simp add: list_ex_iff list_all_iff)
  ultimately show ?thesis
    unfolding round_components_def Let_def
    by (simp only: valid if_False target floors fracs raws_def [symmetric] extra_def [symmetric]
        order_def [symmetric] amounts_def [symmetric]) simp
qed

text \<open>The order in which micro-dollars are handed out: every index once, largest remainder first.\<close>

lemma remainder_order:
  fixes fr :: "rat list"
  defines "ps \<equiv> slice_stable (\<lambda>a b. snd a > snd b) (zip [0..<length fr] fr)"
  shows "distinct (map fst ps)" and "set (map fst ps) = {0..<length fr}"
    and "sorted_wrt (\<lambda>i j. fr ! j \<le> fr ! i) (map fst ps)"
proof -
  let ?lt = "\<lambda>(a :: nat \<times> rat) b. snd a > snd b"
  have fst: "mset (map fst ps) = mset [0..<length fr]"
  proof -
    have "mset (map fst ps) = mset (map fst (zip [0..<length fr] fr))"
      unfolding mset_map ps_def mset_slice_stable ..
    then show ?thesis by simp
  qed
  show "distinct (map fst ps)"
    using mset_eq_imp_distinct_iff [OF fst] by simp
  show "set (map fst ps) = {0..<length fr}"
    using mset_eq_setD [OF fst] by simp
  have "strict_weak ?lt" by (auto simp: strict_weak_def)
  then have sorted: "sorted_wrt (\<lambda>a b. \<not> ?lt b a) ps"
    unfolding ps_def by (rule slice_stable_sorted)
  have entry: "snd p = fr ! fst p" if "p \<in> set ps" for p
    using that by (auto simp: ps_def set_zip)
  have "sorted_wrt (\<lambda>a b. fr ! fst b \<le> fr ! fst a) ps"
    by (rule sorted_wrt_mono_rel [OF _ sorted]) (auto simp: entry)
  then show "sorted_wrt (\<lambda>i j. fr ! j \<le> fr ! i) (map fst ps)"
    by (simp add: sorted_wrt_map)
qed

lemma filter_length_perm:
  "mset xs = mset ys \<Longrightarrow> length (filter P xs) = length (filter P ys)"
  by (metis mset_filter size_mset)

text \<open>
  What handing out \<open>extra\<close> micro-dollars does to the rounded-down amounts: the sum grows by
  exactly \<open>extra\<close>, an amount is its raw cost rounded down or up, and no remainder that was
  rounded down is larger than one that was rounded up.
\<close>

lemma bump_by_remainder:
  fixes raws :: "rat list"
  defines "order \<equiv> map fst (slice_stable (\<lambda>a b. snd a > snd b) (zip [0..<length raws] (map frac raws)))"
  defines "extra \<equiv> \<lfloor>sum_list raws + 1 / 2\<rfloor> - sum_list (map floor raws)"
  defines "amounts \<equiv> bump (take (nat extra) order) (map floor raws)"
  shows "sum_list amounts = \<lfloor>sum_list raws + 1 / 2\<rfloor>"
    and "\<And>i. i < length raws \<Longrightarrow> amounts ! i = \<lfloor>raws ! i\<rfloor> \<or> amounts ! i = \<lceil>raws ! i\<rceil>"
    and "\<And>i j. i < length raws \<Longrightarrow> j < length raws \<Longrightarrow> amounts ! i > \<lfloor>raws ! i\<rfloor> \<Longrightarrow>
           amounts ! j = \<lfloor>raws ! j\<rfloor> \<Longrightarrow> frac (raws ! j) \<le> frac (raws ! i)"
proof -
  let ?top = "take (nat extra) order"
  have dist: "distinct order" and set_order: "set order = {0..<length raws}"
    and sorted: "sorted_wrt (\<lambda>i j. map frac raws ! j \<le> map frac raws ! i) order"
    using remainder_order [of "map frac raws"] by (simp_all add: order_def)
  have len: "length order = length raws" by (simp add: order_def)
  have dtop: "distinct ?top" using dist by simp
  have stop: "set ?top \<subseteq> {0..<length raws}" using set_order set_take_subset by metis
  have e0: "0 \<le> extra" and e1: "extra \<le> int (length (filter (\<lambda>x. x \<notin> \<int>) raws))"
    using remainder_bounds [of raws] by (simp_all add: extra_def)
  have count: "length (filter (\<lambda>i. map frac raws ! i \<noteq> 0) order) = length (filter (\<lambda>x. x \<notin> \<int>) raws)"
  proof -
    have "mset order = mset [0..<length raws]"
      using set_eq_iff_mset_eq_distinct [OF dist distinct_upt] set_order
      by (metis atLeast_upt atLeast0LessThan)
    then have "length (filter (\<lambda>i. map frac raws ! i \<noteq> 0) order)
      = length (filter (\<lambda>i. map frac raws ! i \<noteq> 0) [0..<length raws])"
      by (rule filter_length_perm)
    also have "filter (\<lambda>i. map frac raws ! i \<noteq> 0) [0..<length raws]
      = filter (\<lambda>i. raws ! i \<notin> \<int>) [0..<length raws]"
      by (rule filter_cong) auto
    also have "length (filter (\<lambda>i. raws ! i \<notin> \<int>) [0..<length raws])
      = length (filter (\<lambda>x. x \<notin> \<int>) (map (\<lambda>i. raws ! i) [0..<length raws]))"
      by (simp add: filter_map comp_def)
    finally show ?thesis by (simp add: map_nth)
  qed
  have "length ?top = nat extra"
  proof -
    have "nat extra \<le> length raws"
      using e1 length_filter_le [of "\<lambda>x. x \<notin> \<int>" raws] by linarith
    then show ?thesis by (simp add: len)
  qed
  then show "sum_list amounts = \<lfloor>sum_list raws + 1 / 2\<rfloor>"
    using bump_sum [OF dtop, of "map floor raws"] stop e0 by (simp add: amounts_def extra_def)
  have nth: "amounts ! i = \<lfloor>raws ! i\<rfloor> + (if i \<in> set ?top then 1 else 0)" if "i < length raws" for i
    using bump_nth [OF dtop, of i "map floor raws"] that by (simp add: amounts_def)
  have whole: "raws ! i \<notin> \<int>" if "i < length raws" and "i \<in> set ?top" for i
  proof -
    have "map frac raws ! i \<noteq> 0"
    proof (rule sorted_positive_first [OF sorted _ _ that(2)])
      show "\<forall>x\<in>set order. 0 \<le> map frac raws ! x" by (simp add: set_order)
      show "nat extra \<le> length (filter (\<lambda>i. map frac raws ! i \<noteq> 0) order)"
        using e1 unfolding count by linarith
    qed
    then show ?thesis using that(1) by simp
  qed
  show "amounts ! i = \<lfloor>raws ! i\<rfloor> \<or> amounts ! i = \<lceil>raws ! i\<rceil>" if "i < length raws" for i
    using nth [OF that] whole [OF that] by (auto simp: ceiling_altdef Ints_def)
  show "frac (raws ! j) \<le> frac (raws ! i)"
    if "i < length raws" and "j < length raws" and "amounts ! i > \<lfloor>raws ! i\<rfloor>" and "amounts ! j = \<lfloor>raws ! j\<rfloor>"
    for i j
  proof -
    have "i \<in> set ?top" using nth [OF that(1)] that(3) by (simp split: if_splits)
    moreover have "j \<notin> set ?top" using nth [OF that(2)] that(4) by (simp split: if_splits)
    then have "j \<in> set (drop (nat extra) order)"
      using that(2) set_order by (metis Un_iff append_take_drop_id atLeastLessThan_iff set_append zero_le)
    ultimately have "map frac raws ! j \<le> map frac raws ! i"
      by (rule sorted_wrt_take_drop [OF sorted])
    then show ?thesis using that by simp
  qed
qed

lemma non_negative_sum_bound:
  fixes xs :: "int list"
  shows "\<forall>x\<in>set xs. 0 \<le> x \<Longrightarrow> x \<in> set xs \<Longrightarrow> x \<le> sum_list xs"
  by (induction xs) (auto simp: sum_list_nonneg add_increasing add_increasing2)

lemma bumped_amounts:
  fixes raws :: "rat list"
  defines "amounts \<equiv> bump (take (nat (\<lfloor>sum_list raws + 1 / 2\<rfloor> - sum_list (map floor raws)))
    (map fst (slice_stable (\<lambda>a b. snd a > snd b) (zip [0..<length raws] (map frac raws))))) (map floor raws)"
  assumes "\<forall>r\<in>set raws. 0 \<le> r"
  shows "\<forall>a\<in>set amounts. 0 \<le> a" and "is_int64 \<lfloor>sum_list raws + 1 / 2\<rfloor> \<Longrightarrow> list_all is_int64 amounts"
proof -
  note facts = bump_by_remainder [where raws = raws, folded amounts_def]
  show amounts0: "\<forall>a\<in>set amounts. 0 \<le> a"
  proof
    fix a assume "a \<in> set amounts"
    then obtain i where i: "i < length raws" "a = amounts ! i"
      by (auto simp: in_set_conv_nth amounts_def)
    then have "0 \<le> raws ! i" using assms(2) by simp
    then have "0 \<le> \<lfloor>raws ! i\<rfloor>" and "0 \<le> \<lceil>raws ! i\<rceil>" by simp_all
    with facts(2) [OF i(1)] i(2) show "0 \<le> a" by auto
  qed
  show "list_all is_int64 amounts" if "is_int64 \<lfloor>sum_list raws + 1 / 2\<rfloor>"
    unfolding list_all_iff
  proof
    fix a assume a: "a \<in> set amounts"
    then have "0 \<le> a" and "a \<le> \<lfloor>sum_list raws + 1 / 2\<rfloor>"
      using amounts0 non_negative_sum_bound [OF amounts0 a] facts(1) by simp_all
    then show "is_int64 a" using that unfolding is_int64_def by linarith
  qed
qed

text \<open>\<^bold>\<open>C19.\<close>
  \<open>roundComponents\<close> rounds without losing or inventing a micro-dollar: the amounts add up to
  the exact total rounded half up, each amount is its exact cost rounded down or up (so an
  unused category costs nothing), the categories rounded up are those with the largest
  remainders, and the only failure is a total above \<open>int64\<close>.
\<close>

theorem rounding_exact:
  assumes "\<forall>c\<in>set cs. \<exists>r\<ge>0. CW_raw c = Some r" and "int (length cs) \<le> max_int64"
  shows "let raws = map (\<lambda>c. the (CW_raw c)) cs; target = \<lfloor>sum_list raws + 1 / 2\<rfloor> in
    case round_components cs of
      Inl e \<Rightarrow> e = Kind_error Amount_overflow \<and> target > max_int64
    | Inr (amounts, charge) \<Rightarrow>
        charge = target \<and> is_int64 target \<and> sum_list amounts = charge \<and> length amounts = length cs \<and>
        (\<forall>i < length cs. amounts ! i = \<lfloor>raws ! i\<rfloor> \<or> amounts ! i = \<lceil>raws ! i\<rceil>) \<and>
        (\<forall>i < length cs. \<forall>j < length cs. amounts ! i > \<lfloor>raws ! i\<rfloor> \<longrightarrow> amounts ! j = \<lfloor>raws ! j\<rfloor> \<longrightarrow>
           frac (raws ! j) \<le> frac (raws ! i))"
proof -
  define raws where "raws = map (\<lambda>c. the (CW_raw c)) cs"
  define target where "target = \<lfloor>sum_list raws + 1 / 2\<rfloor>"
  define amounts where "amounts = bump (take (nat (target - sum_list (map floor raws)))
    (map fst (slice_stable (\<lambda>a b. snd a > snd b) (zip [0..<length raws] (map frac raws))))) (map floor raws)"
  have len: "length raws = length cs" by (simp add: raws_def)
  have eq: "round_components cs = (if is_int64 target \<and> list_all is_int64 amounts
      then Inr (amounts, target) else Inl (Kind_error Amount_overflow))"
    using round_components_unfold [OF assms] by (simp add: raws_def target_def amounts_def)
  note facts = bump_by_remainder [where raws = raws, folded target_def, folded amounts_def]
  have nonneg: "\<forall>r\<in>set raws. 0 \<le> r" using assms(1) by (force simp: raws_def)
  note amounts0 = bumped_amounts(1) [OF nonneg, folded target_def, folded amounts_def]
  note all = bumped_amounts(2) [OF nonneg, folded target_def, folded amounts_def]
  have over: "target > max_int64" if "\<not> is_int64 target"
  proof -
    have "0 \<le> target" using amounts0 facts(1) sum_list_nonneg by metis
    then show ?thesis using that by (simp add: is_int64_def)
  qed
  have "length amounts = length cs" by (simp add: amounts_def len)
  then show ?thesis
    unfolding raws_def [symmetric] target_def [symmetric] Let_def
    using facts all over len by (simp add: eq)
qed

text \<open>Three categories of a half, a half and 7/3: the first half is rounded up.\<close>

lemma rounding_example:
  "round_components [\<lparr>CW_name = ''input'', CW_tokens = 1, CW_rate = ''0.5'', CW_raw = Some (1 / 2)\<rparr>,
     \<lparr>CW_name = ''cache_read'', CW_tokens = 1, CW_rate = ''0.5'', CW_raw = Some (1 / 2)\<rparr>,
     \<lparr>CW_name = ''output'', CW_tokens = 1, CW_rate = ''7/3'', CW_raw = Some (7 / 3)\<rparr>] = Inr ([1, 0, 2], 3)"
  by code_simp

lemma rounding_exact_witness:
  "(3 :: int) = \<lfloor>sum_list [1 / 2, 1 / 2, 7 / 3 :: rat] + 1 / 2\<rfloor> \<and> sum_list [1, 0, 2 :: int] = 3"
proof -
  let ?cs = "[\<lparr>CW_name = ''input'', CW_tokens = 1, CW_rate = ''0.5'', CW_raw = Some (1 / 2)\<rparr>,
     \<lparr>CW_name = ''cache_read'', CW_tokens = 1, CW_rate = ''0.5'', CW_raw = Some (1 / 2)\<rparr>,
     \<lparr>CW_name = ''output'', CW_tokens = 1, CW_rate = ''7/3'', CW_raw = Some (7 / 3)\<rparr>]"
  have "\<exists>r\<ge>0. Some (1 / 2 :: rat) = Some r" and "\<exists>r\<ge>0. Some (7 / 3 :: rat) = Some r"
    by (rule exI, rule conjI [OF _ refl], simp)+
  then have "\<forall>c\<in>set ?cs. \<exists>r\<ge>0. CW_raw c = Some r" by simp
  moreover have "int (length ?cs) \<le> max_int64" by simp
  ultimately show ?thesis
    using rounding_exact [of ?cs] unfolding rounding_example by (simp add: Let_def)
qed

subsection \<open>The exact cost of a quote\<close>

lemma prompt_tokens_iff:
  "prompt_tokens u = Inr n \<longleftrightarrow>
     0 \<le> U_input u \<and> 0 \<le> U_cache_read u \<and> 0 \<le> U_cache_write u \<and> 0 \<le> U_cache_write_1h u \<and>
     0 \<le> U_output u \<and> 0 \<le> U_reasoning u \<and>
     n = U_input u + U_cache_read u + U_cache_write u + U_cache_write_1h u \<and> n \<le> max_int64"
proof (cases "0 \<le> U_input u \<and> 0 \<le> U_cache_read u \<and> 0 \<le> U_cache_write u \<and> 0 \<le> U_cache_write_1h u \<and>
     0 \<le> U_output u \<and> 0 \<le> U_reasoning u")
  case True
  then have valid: "validate_usage u = Inr ()" by (simp add: validate_usage_def)
  have w: "wrap64 x = x" if "0 \<le> x" and "x \<le> max_int64" for x
    using that by (simp add: wrap64_id is_int64_def)
  show ?thesis
    using True by (auto simp: prompt_tokens_def valid w Let_def)
next
  case False
  then have "validate_usage u = Inl (Pricing_error Invalid_usage [] [])"
    by (auto simp: validate_usage_def)
  then show ?thesis using False by (auto simp: prompt_tokens_def)
qed

lemma prompt_tokens_error: "prompt_tokens u = Inl e \<Longrightarrow> e = Pricing_error Invalid_usage [] []"
  by (auto simp: prompt_tokens_def validate_usage_def Let_def split: if_splits sum.splits)

lemma select_band_Some: "select_band bs n = Some b \<Longrightarrow> b \<in> set bs"
  by (induction bs) (auto split: option.splits if_splits)

lemma non_negative_decimal_nonneg: "non_negative_decimal P s = Some r \<Longrightarrow> 0 \<le> r"
  by (auto simp: non_negative_decimal_def split: option.splits if_splits)

lemma fx_rate_pos: "fx_rate P s = Inr fx \<Longrightarrow> 0 < fx"
  by (auto simp: fx_rate_def positive_decimal_def less_le split: option.splits if_splits
      dest: non_negative_decimal_nonneg)

text \<open>A component can be priced if it is unused or has a price; then its exact cost is its price times its tokens.\<close>

definition priceable :: "(string \<Rightarrow> rat option) \<Rightarrow> component_work \<Rightarrow> bool" where
  "priceable P c \<longleftrightarrow> CW_tokens c = 0 \<or> CW_rate c \<noteq> [] \<and> non_negative_decimal P (CW_rate c) \<noteq> None"

definition exact_component :: "(string \<Rightarrow> rat option) \<Rightarrow> rat \<Rightarrow> component_work \<Rightarrow> rat" where
  "exact_component P fx c = (if CW_tokens c = 0 then 0
     else the (non_negative_decimal P (CW_rate c)) * of_int (CW_tokens c) / fx)"

definition exact_cost :: "(string \<Rightarrow> rat option) \<Rightarrow> rat \<Rightarrow> component_work list \<Rightarrow> rat" where
  "exact_cost P fx cs = sum_list (map (exact_component P fx) cs)"

lemma price_components_step:
  "price_components P m fx (c # cs) =
    (if priceable P c
     then case price_components P m fx cs of Inl e \<Rightarrow> Inl e
          | Inr ds \<Rightarrow> Inr (c\<lparr>CW_raw := Some (exact_component P fx c)\<rparr> # ds)
     else if CW_rate c = [] then Inl (Pricing_error Category_unpriced m (CW_name c)) else Inl invalid_catalog)"
  by (cases "non_negative_decimal P (CW_rate c)"; cases "price_components P m fx cs")
     (simp_all add: Let_def priceable_def exact_component_def)

lemma price_components_Inr:
  "price_components P m fx cs = Inr cs' \<longleftrightarrow>
     list_all (priceable P) cs \<and> cs' = map (\<lambda>c. c\<lparr>CW_raw := Some (exact_component P fx c)\<rparr>) cs"
proof (induction cs arbitrary: cs')
  case Nil
  then show ?case by auto
next
  case (Cons c cs)
  then show ?case
    unfolding price_components_step
    by (cases "price_components P m fx cs") (auto simp del: price_components.simps)
qed

lemma price_components_error:
  "price_components P m fx cs = Inl e \<Longrightarrow>
     e = invalid_catalog \<and> (\<exists>c\<in>set cs. CW_tokens c \<noteq> 0 \<and> CW_rate c \<noteq> [] \<and> non_negative_decimal P (CW_rate c) = None)
     \<or> (\<exists>c\<in>set cs. e = Pricing_error Category_unpriced m (CW_name c))"
  by (induction cs) (auto simp: Let_def split: if_splits option.splits sum.splits)

lemma exact_component_nonneg:
  assumes "priceable P c" and "0 \<le> CW_tokens c" and "0 < fx"
  shows "0 \<le> exact_component P fx c"
proof (cases "CW_tokens c = 0")
  case False
  with assms(1) obtain r where "non_negative_decimal P (CW_rate c) = Some r" by (auto simp: priceable_def)
  moreover from this have "0 \<le> r" by (rule non_negative_decimal_nonneg)
  ultimately show ?thesis using assms by (simp add: exact_component_def)
qed (simp add: exact_component_def)

lemma component_list_tokens:
  "prompt_tokens u = Inr n \<Longrightarrow> c \<in> set (component_list b u) \<Longrightarrow> 0 \<le> CW_tokens c"
  by (auto simp: prompt_tokens_iff component_list_def)

text \<open>The components of a call, once priced, meet the hypotheses of \<open>rounding_exact\<close>.\<close>

lemma priced_components_valid:
  assumes "prompt_tokens u = Inr n" and "0 < fx" and "list_all (priceable P) (component_list b u)"
  shows "\<forall>c\<in>set (map (\<lambda>c. c\<lparr>CW_raw := Some (exact_component P fx c)\<rparr>) (component_list b u)).
    \<exists>r\<ge>0. CW_raw c = Some r"
proof
  fix c assume "c \<in> set (map (\<lambda>c. c\<lparr>CW_raw := Some (exact_component P fx c)\<rparr>) (component_list b u))"
  then obtain d where d: "d \<in> set (component_list b u)"
    and c: "c = d\<lparr>CW_raw := Some (exact_component P fx d)\<rparr>" by auto
  have "priceable P d" using assms(3) d by (simp add: list_all_iff)
  from exact_component_nonneg [OF this component_list_tokens [OF assms(1) d] assms(2)]
  show "\<exists>r\<ge>0. CW_raw c = Some r" by (simp add: c)
qed

lemma component_list_length [simp]: "length (component_list b u) = 6"
  by (simp add: component_list_def)

text \<open>What a successful quote contains.\<close>

lemma quote_snapshot_InrD:
  assumes "quote_snapshot P s u = Inr q"
  obtains n band fx where "prompt_tokens u = Inr n" and "select_band (PS_bands s) n = Some band"
    and "fx_rate P s = Inr fx" and "list_all (priceable P) (component_list band u)"
    and "CB_total (Q_cost q) = \<lfloor>exact_cost P fx (component_list band u) + 1 / 2\<rfloor>"
    and "is_int64 (CB_total (Q_cost q))" and "0 \<le> CB_total (Q_cost q)"
    and "Q_snapshot q = s" and "Q_usage q = u" and "Q_band q = band"
    and "CC_micro_usd (CB_input (Q_cost q)) + CC_micro_usd (CB_cache_read (Q_cost q))
       + CC_micro_usd (CB_cache_write (Q_cost q)) + CC_micro_usd (CB_cache_write_1h (Q_cost q))
       + CC_micro_usd (CB_output (Q_cost q)) + CC_micro_usd (CB_reasoning (Q_cost q)) = CB_total (Q_cost q)"
proof -
  obtain n where n: "prompt_tokens u = Inr n"
    using assms by (cases "prompt_tokens u") (simp_all add: quote_snapshot_def)
  obtain band where band: "select_band (PS_bands s) n = Some band"
    using assms by (cases "select_band (PS_bands s) n") (simp_all add: quote_snapshot_def n)
  obtain fx where fx: "fx_rate P s = Inr fx"
    using assms by (cases "fx_rate P s") (simp_all add: quote_snapshot_def n band)
  obtain cs where cs: "price_components P (PS_requested_model s) fx (component_list band u) = Inr cs"
    using assms by (cases "price_components P (PS_requested_model s) fx (component_list band u)")
      (simp_all add: quote_snapshot_def n band fx)
  obtain amounts charge where r: "round_components cs = Inr (amounts, charge)"
    using assms by (cases "round_components cs") (auto simp: quote_snapshot_def n band fx cs)
  have ok: "list_all (priceable P) (component_list band u)"
    and cs_eq: "cs = map (\<lambda>c. c\<lparr>CW_raw := Some (exact_component P fx c)\<rparr>) (component_list band u)"
    using cs by (simp_all add: price_components_Inr)
  have pos: "0 < fx" using fx by (rule fx_rate_pos)
  have valid: "\<forall>c\<in>set cs. \<exists>r\<ge>0. CW_raw c = Some r"
    unfolding cs_eq by (rule priced_components_valid [OF n pos ok])
  have raws: "map (\<lambda>c. the (CW_raw c)) cs = map (exact_component P fx) (component_list band u)"
    by (simp add: cs_eq comp_def)
  have len: "length cs = 6" by (simp add: cs_eq)
  note facts = bump_by_remainder [where raws = "map (\<lambda>c. the (CW_raw c)) cs"]
  have eq: "charge = \<lfloor>exact_cost P fx (component_list band u) + 1 / 2\<rfloor>" "is_int64 charge"
      "sum_list amounts = charge" "length amounts = 6" "0 \<le> exact_cost P fx (component_list band u)"
  proof -
    have big: "int (length cs) \<le> max_int64" by (simp add: len)
    have nonneg: "\<forall>r\<in>set (map (\<lambda>c. the (CW_raw c)) cs). 0 \<le> r" using valid by force
    from round_components_unfold [OF valid big] facts(1) r
    show "charge = \<lfloor>exact_cost P fx (component_list band u) + 1 / 2\<rfloor>" "is_int64 charge"
      "sum_list amounts = charge" "length amounts = 6"
      by (auto simp: exact_cost_def raws [symmetric] len split: if_splits)
    show "0 \<le> exact_cost P fx (component_list band u)"
      unfolding exact_cost_def raws [symmetric] using nonneg by (intro sum_list_nonneg) blast
  qed
  have q: "CB_total (Q_cost q) = charge" "Q_snapshot q = s" "Q_usage q = u" "Q_band q = band"
    using assms by (auto simp: quote_snapshot_def n band fx cs r Let_def)
  have "CC_micro_usd (CB_input (Q_cost q)) + CC_micro_usd (CB_cache_read (Q_cost q))
       + CC_micro_usd (CB_cache_write (Q_cost q)) + CC_micro_usd (CB_cache_write_1h (Q_cost q))
       + CC_micro_usd (CB_output (Q_cost q)) + CC_micro_usd (CB_reasoning (Q_cost q))
    = amounts ! 0 + amounts ! 1 + amounts ! 2 + amounts ! 3 + amounts ! 4 + amounts ! 5"
    using assms by (auto simp: quote_snapshot_def n band fx cs r Let_def component_cost_of_def)
  also have "\<dots> = sum_list amounts"
    using eq(4) by (simp add: numeral_eq_Suc) (auto simp: length_Suc_conv)
  finally have items: "CC_micro_usd (CB_input (Q_cost q)) + CC_micro_usd (CB_cache_read (Q_cost q))
       + CC_micro_usd (CB_cache_write (Q_cost q)) + CC_micro_usd (CB_cache_write_1h (Q_cost q))
       + CC_micro_usd (CB_output (Q_cost q)) + CC_micro_usd (CB_reasoning (Q_cost q)) = CB_total (Q_cost q)"
    using eq(3) q(1) by simp
  have "0 \<le> charge" using eq(1,5) by (simp add: zero_le_floor)
  then show thesis using that [OF n band fx ok _ _ _ q(2-4) items] eq q(1) by simp
qed

text \<open>A quote succeeds as soon as every used category has a price and the total fits.\<close>

lemma quote_snapshot_InrI:
  assumes n: "prompt_tokens u = Inr n" and band: "select_band (PS_bands s) n = Some band"
    and fx: "fx_rate P s = Inr fx" and ok: "list_all (priceable P) (component_list band u)"
    and fits: "is_int64 \<lfloor>exact_cost P fx (component_list band u) + 1 / 2\<rfloor>"
  shows "\<exists>q. quote_snapshot P s u = Inr q"
proof -
  define cs where "cs = map (\<lambda>c. c\<lparr>CW_raw := Some (exact_component P fx c)\<rparr>) (component_list band u)"
  have cs: "price_components P (PS_requested_model s) fx (component_list band u) = Inr cs"
    using ok by (simp add: price_components_Inr cs_def)
  have valid: "\<forall>c\<in>set cs. \<exists>r\<ge>0. CW_raw c = Some r"
    unfolding cs_def by (rule priced_components_valid [OF n fx_rate_pos [OF fx] ok])
  define raws where "raws = map (\<lambda>c. the (CW_raw c)) cs"
  have raws: "sum_list raws = exact_cost P fx (component_list band u)"
    by (simp add: raws_def cs_def exact_cost_def comp_def)
  have nonneg: "\<forall>r\<in>set raws. 0 \<le> r" using valid unfolding raws_def by force
  have "int (length cs) \<le> max_int64" and len: "length raws = length cs" by (simp_all add: cs_def raws_def)
  with round_components_unfold [OF valid this(1)] bumped_amounts(2) [OF nonneg] fits
  obtain r where "round_components cs = Inr r" by (simp add: raws_def [symmetric] raws)
  then show ?thesis
    by (cases r) (simp add: quote_snapshot_def n band fx cs Let_def)
qed

lemma quote_total_nonneg: "quote_snapshot P s u = Inr q \<Longrightarrow> 0 \<le> CB_total (Q_cost q) \<and> CB_total (Q_cost q) \<le> max_int64"
  by (elim quote_snapshot_InrD) (simp add: is_int64_def)

text \<open>The dearest prompt price dominates every priced category, and its setter is one of the four.\<close>

lemma dearest_rate_spec:
  assumes "dearest_rate P cs best = Inr (Some (setter, r))"
  shows "(\<forall>c\<in>set cs. fst c \<noteq> [] \<longrightarrow> (\<exists>x. non_negative_decimal P (fst c) = Some x \<and> x \<le> r)) \<and>
    (\<forall>s b. best = Some (s, b) \<longrightarrow> b \<le> r) \<and>
    ((\<exists>rate. (rate, setter) \<in> set cs \<and> rate \<noteq> [] \<and> non_negative_decimal P rate = Some r)
     \<or> best = Some (setter, r))"
  using assms
proof (induction cs arbitrary: best)
  case Nil
  then show ?case by simp
next
  case (Cons c cs)
  obtain rate f where c: "c = (rate, f)" by (cases c)
  show ?case
  proof (cases "rate = []")
    case True
    with Cons.prems c have "dearest_rate P cs best = Inr (Some (setter, r))" by simp
    from Cons.IH [OF this] True show ?thesis unfolding c by (simp add: ex_disj_distrib) blast
  next
    case False
    then obtain x where x: "non_negative_decimal P rate = Some x"
      using Cons.prems c by (auto split: option.splits)
    define best' where "best' = (case best of None \<Rightarrow> Some (f, x) | Some (_, b) \<Rightarrow> if x > b then Some (f, x) else best)"
    have "dearest_rate P cs best' = Inr (Some (setter, r))"
      using Cons.prems c False x by (simp add: best'_def)
    from Cons.IH [OF this] show ?thesis
      using False x by (auto simp: c best'_def split: option.splits prod.splits if_splits)
  qed
qed

subsection \<open>Reservation and settlement\<close>

lemma exact_cost_unfold:
  "exact_cost P fx (component_list b u) =
     (let cost = (\<lambda>rate n. if n = 0 then 0 else the (non_negative_decimal P rate) * of_int n / fx) in
      cost (RB_input b) (U_input u) + cost (RB_cache b) (U_cache_read u) + cost (RB_cache_write b) (U_cache_write u)
      + cost (RB_cache_write_1h b) (U_cache_write_1h u) + cost (RB_output b) (U_output u)
      + cost (RB_reasoning b) (U_reasoning u))"
  by (simp add: exact_cost_def component_list_def exact_component_def Let_def)

lemma priceable_component_list:
  "list_all (priceable P) (component_list b u) \<longleftrightarrow>
     (let ok = (\<lambda>rate n. n = 0 \<or> rate \<noteq> [] \<and> non_negative_decimal P rate \<noteq> None) in
      ok (RB_input b) (U_input u) \<and> ok (RB_cache b) (U_cache_read u) \<and> ok (RB_cache_write b) (U_cache_write u)
      \<and> ok (RB_cache_write_1h b) (U_cache_write_1h u) \<and> ok (RB_output b) (U_output u)
      \<and> ok (RB_reasoning b) (U_reasoning u))"
  by (simp add: component_list_def priceable_def Let_def)

text \<open>One price and one counter: more tokens at a higher price cost no less.\<close>

lemma category_cost_le:
  fixes n :: int and fx r x :: rat
  assumes "n = 0 \<or> v = Some x \<and> x \<le> r" and "0 \<le> n" and "0 < fx"
  shows "(if n = 0 then 0 else the v * of_int n / fx) \<le> r * of_int n / fx"
  using assms by (auto simp: divide_right_mono mult_right_mono)

lemma same_price_cost_le:
  fixes n m :: int and fx :: rat
  assumes "0 \<le> n" and "n \<le> m" and "0 < fx" and "m = 0 \<or> (\<exists>x. v = Some x \<and> 0 \<le> x)"
  shows "(if n = 0 then 0 else the v * of_int n / fx) \<le> (if m = 0 then 0 else the v * of_int m / fx)"
  using assms by (auto simp: divide_right_mono mult_left_mono)

text \<open>What the conservative maximum costs: every prompt token at the dearest prompt price.\<close>

lemma conservative_maximum_spec:
  assumes "conservative_maximum_usage P s mx = Inr u'"
  obtains n band setter r where "prompt_tokens mx = Inr n" and "select_band (PS_bands s) n = Some band"
    and "dearest_rate P (prompt_rates band) None = Inr (Some (setter, r))"
    and "prompt_tokens u' = Inr n" and "U_output u' = U_output mx" and "U_reasoning u' = U_reasoning mx"
    and "\<And>fx. exact_cost P fx (component_list band u') = r * of_int n / fx
        + (if U_output mx = 0 then 0 else the (non_negative_decimal P (RB_output band)) * of_int (U_output mx) / fx)
        + (if U_reasoning mx = 0 then 0 else the (non_negative_decimal P (RB_reasoning band)) * of_int (U_reasoning mx) / fx)"
proof -
  obtain n where n: "prompt_tokens mx = Inr n"
    using assms by (cases "prompt_tokens mx") (simp_all add: conservative_maximum_usage_def)
  obtain band where band: "select_band (PS_bands s) n = Some band"
    using assms by (cases "select_band (PS_bands s) n") (simp_all add: conservative_maximum_usage_def n)
  obtain setter r where d: "dearest_rate P (prompt_rates band) None = Inr (Some (setter, r))"
    using assms by (auto simp: conservative_maximum_usage_def n band split: sum.splits option.splits)
  have u': "u' = setter \<lparr>U_input = 0, U_cache_read = 0, U_cache_write = 0, U_cache_write_1h = 0,
                         U_output = U_output mx, U_reasoning = U_reasoning mx\<rparr> n"
    using assms by (simp add: conservative_maximum_usage_def n band d)
  obtain rate where rate: "(rate, setter) \<in> set (prompt_rates band)" "non_negative_decimal P rate = Some r"
    using dearest_rate_spec [OF d] by auto
  have nn: "0 \<le> n" "n \<le> max_int64" "0 \<le> U_output mx" "0 \<le> U_reasoning mx"
    using n by (simp_all add: prompt_tokens_iff)
  have "prompt_tokens u' = Inr n" "U_output u' = U_output mx" "U_reasoning u' = U_reasoning mx"
    "\<And>fx. exact_cost P fx (component_list band u') = r * of_int n / fx
        + (if U_output mx = 0 then 0 else the (non_negative_decimal P (RB_output band)) * of_int (U_output mx) / fx)
        + (if U_reasoning mx = 0 then 0 else the (non_negative_decimal P (RB_reasoning band)) * of_int (U_reasoning mx) / fx)"
  proof -
    have zero: "(if n = 0 then 0 else r * of_int n / fx) = r * of_int n / fx" for fx :: rat by simp
    consider "setter = (\<lambda>u n. u\<lparr>U_input := n\<rparr>)" "rate = RB_input band"
      | "setter = (\<lambda>u n. u\<lparr>U_cache_read := n\<rparr>)" "rate = RB_cache band"
      | "setter = (\<lambda>u n. u\<lparr>U_cache_write := n\<rparr>)" "rate = RB_cache_write band"
      | "setter = (\<lambda>u n. u\<lparr>U_cache_write_1h := n\<rparr>)" "rate = RB_cache_write_1h band"
      using rate(1) unfolding prompt_rates_def by (elim set_ConsD [THEN disjE]) auto
    note cases = this
    show "prompt_tokens u' = Inr n"
      by (rule cases) (simp_all add: u' prompt_tokens_iff nn)
    show "U_output u' = U_output mx" and "U_reasoning u' = U_reasoning mx"
      by (rule cases; simp add: u')+
    fix fx :: rat
    show "exact_cost P fx (component_list band u') = r * of_int n / fx
        + (if U_output mx = 0 then 0 else the (non_negative_decimal P (RB_output band)) * of_int (U_output mx) / fx)
        + (if U_reasoning mx = 0 then 0 else the (non_negative_decimal P (RB_reasoning band)) * of_int (U_reasoning mx) / fx)"
      by (rule cases; use rate(2) in \<open>simp add: u' exact_cost_unfold Let_def zero\<close>)
  qed
  then show thesis by (rule that [OF n band d])
qed

text \<open>The snapshot carries everything a later settlement needs, so a reservation is its own price list.\<close>

lemma reserve_at_InrD:
  assumes "reserve_at P D oc m mx now = Inr R"
  obtains q where "conservative_maximum_usage P (Rv_snapshot R) mx = Inr (Rv_maximum R)"
    and "quote_snapshot P (Rv_snapshot R) (Rv_maximum R) = Inr q" and "Rv_reserved R = CB_total (Q_cost q)"
proof -
  obtain p where p: "catalog_lookup oc m = Some p"
    using assms by (cases "catalog_lookup oc m") (simp_all add: reserve_at_def)
  have priced: "Pr_priced p" using assms by (simp add: reserve_at_def p split: if_splits)
  obtain s where s: "price_snapshot_of D (the oc) m p now = Inr s"
    using assms by (cases "price_snapshot_of D (the oc) m p now") (simp_all add: reserve_at_def p priced)
  obtain mx' where mx': "conservative_maximum_usage P s mx = Inr mx'"
    using assms by (cases "conservative_maximum_usage P s mx") (simp_all add: reserve_at_def p priced s)
  obtain q where q: "quote_snapshot P s mx' = Inr q"
    using assms by (cases "quote_snapshot P s mx'") (simp_all add: reserve_at_def p priced s mx')
  have "Q_snapshot q = s" using q by (elim quote_snapshot_InrD)
  then have R: "R = \<lparr>Rv_maximum = mx', Rv_reserved = CB_total (Q_cost q), Rv_snapshot = s\<rparr>"
    using assms by (simp add: reserve_at_def p priced s mx' q)
  show thesis by (rule that [of q]) (simp_all add: R mx' q)
qed

lemma reserved_in_range:
  assumes "reserve_at P D oc m mx now = Inr R"
  shows "0 \<le> Rv_reserved R \<and> Rv_reserved R \<le> max_int64"
  by (rule reserve_at_InrD [OF assms]) (simp add: quote_total_nonneg)

lemma settle_InrD:
  assumes "settle P R u = Inr S" and "0 \<le> Rv_reserved R \<and> Rv_reserved R \<le> max_int64"
  obtains q where "quote_snapshot P (Rv_snapshot R) u = Inr q" and "St_charged S = CB_total (Q_cost q)"
    and "St_delta S = St_charged S - Rv_reserved R" and "St_reserved S = Rv_reserved R"
    and "St_release S = max 0 (Rv_reserved R - St_charged S)"
    and "St_additional S = max 0 (St_charged S - Rv_reserved R)"
proof -
  obtain q where q: "quote_snapshot P (Rv_snapshot R) u = Inr q"
    using assms by (cases "quote_snapshot P (Rv_snapshot R) u") (simp_all add: settle_def)
  have "wrap64 (CB_total (Q_cost q) - Rv_reserved R) = CB_total (Q_cost q) - Rv_reserved R"
    and "wrap64 (Rv_reserved R - CB_total (Q_cost q)) = Rv_reserved R - CB_total (Q_cost q)"
    using quote_total_nonneg [OF q] assms(2) by (simp_all add: wrap64_id is_int64_def)
  then show thesis
    using assms(1) by (intro that [OF q]) (auto simp: settle_def q Let_def max_def)
qed

lemma conservative_cost_dominates:
  assumes max: "conservative_maximum_usage P s mx = Inr u'" and n: "prompt_tokens mx = Inr n"
    and band: "select_band (PS_bands s) n = Some band"
    and u: "prompt_tokens u = Inr n'" "n' \<le> n" "U_output u \<le> U_output mx" "U_reasoning u \<le> U_reasoning mx"
    and ok: "list_all (priceable P) (component_list band u)" "list_all (priceable P) (component_list band u')"
    and fx: "0 < fx"
  shows "exact_cost P fx (component_list band u) \<le> exact_cost P fx (component_list band u')"
proof -
  let ?v = "non_negative_decimal P"
  obtain setter r where d: "dearest_rate P (prompt_rates band) None = Inr (Some (setter, r))"
    and out: "U_output u' = U_output mx" "U_reasoning u' = U_reasoning mx"
    and cost: "\<And>fx. exact_cost P fx (component_list band u') = r * of_int n / fx
        + (if U_output mx = 0 then 0 else the (?v (RB_output band)) * of_int (U_output mx) / fx)
        + (if U_reasoning mx = 0 then 0 else the (?v (RB_reasoning band)) * of_int (U_reasoning mx) / fx)"
    using max by (rule conservative_maximum_spec) (use n band in auto)
  have nonneg: "0 \<le> U_input u" "0 \<le> U_cache_read u" "0 \<le> U_cache_write u" "0 \<le> U_cache_write_1h u"
    "0 \<le> U_output u" "0 \<le> U_reasoning u"
    and n': "n' = U_input u + U_cache_read u + U_cache_write u + U_cache_write_1h u"
    using u(1) by (simp_all add: prompt_tokens_iff)
  have r0: "0 \<le> r"
    using dearest_rate_spec [OF d] by (auto dest: non_negative_decimal_nonneg)
  have prompt: "(if k = 0 then 0 else the (?v rate) * of_int k / fx) \<le> r * of_int k / fx"
    if k: "0 \<le> k" and rate: "rate \<in> fst ` set (prompt_rates band)" and p: "k = 0 \<or> rate \<noteq> [] \<and> ?v rate \<noteq> None"
    for k rate
  proof (cases "k = 0")
    case False
    with p rate dearest_rate_spec [OF d] obtain x where "?v rate = Some x" "x \<le> r" by force
    then show ?thesis by (intro category_cost_le [of _ _ x]) (simp_all add: k fx)
  qed simp
  have same: "(if k = 0 then 0 else the (?v rate) * of_int k / fx) \<le> (if l = 0 then 0 else the (?v rate) * of_int l / fx)"
    if "0 \<le> k" and "k \<le> l" and "l = 0 \<or> ?v rate \<noteq> None" for k l rate
    using that fx by (intro same_price_cost_le) (auto dest: non_negative_decimal_nonneg)
  have "exact_cost P fx (component_list band u)
      \<le> r * of_int (U_input u) / fx + r * of_int (U_cache_read u) / fx + r * of_int (U_cache_write u) / fx
        + r * of_int (U_cache_write_1h u) / fx
        + (if U_output mx = 0 then 0 else the (?v (RB_output band)) * of_int (U_output mx) / fx)
        + (if U_reasoning mx = 0 then 0 else the (?v (RB_reasoning band)) * of_int (U_reasoning mx) / fx)"
    unfolding exact_cost_unfold Let_def
    using ok [unfolded priceable_component_list Let_def] nonneg u out
    by (intro add_mono prompt same) (auto simp: prompt_rates_def)
  also have "r * of_int (U_input u) / fx + r * of_int (U_cache_read u) / fx + r * of_int (U_cache_write u) / fx
        + r * of_int (U_cache_write_1h u) / fx = r * of_int n' / fx"
    by (simp add: n' distrib_left add_divide_distrib)
  also have "r * of_int n' / fx \<le> r * of_int n / fx"
    using r0 u(2) fx by (intro divide_right_mono mult_left_mono) auto
  finally show ?thesis by (simp add: cost)
qed

text \<open>\<^bold>\<open>C18.\<close>
  A reservation covers the call it was made for: if the call stays within the maximum that was
  reserved (prompt tokens of any kind, output and reasoning) and within the same price band, the
  settlement charges no more than was reserved, asks for nothing more and releases the rest.
\<close>

theorem reservation_covers:
  assumes "reserve_at P D oc m mx now = Inr R"
    and "prompt_tokens mx = Inr n" and "prompt_tokens u = Inr n'" and "n' \<le> n"
    and "select_band (PS_bands (Rv_snapshot R)) n' = select_band (PS_bands (Rv_snapshot R)) n"
    and "U_output u \<le> U_output mx" and "U_reasoning u \<le> U_reasoning mx"
    and "settle P R u = Inr S"
  shows "St_charged S \<le> Rv_reserved R \<and> St_additional S = 0
    \<and> St_release S = Rv_reserved R - St_charged S"
proof -
  let ?s = "Rv_snapshot R"
  obtain q where mx: "conservative_maximum_usage P ?s mx = Inr (Rv_maximum R)"
    and q: "quote_snapshot P ?s (Rv_maximum R) = Inr q" and R: "Rv_reserved R = CB_total (Q_cost q)"
    using assms(1) by (rule reserve_at_InrD)
  have n: "prompt_tokens (Rv_maximum R) = Inr n"
    using mx by (rule conservative_maximum_spec) (use assms(2) in auto)
  obtain band fx where band: "select_band (PS_bands ?s) n = Some band" and fx: "fx_rate P ?s = Inr fx"
    and ok': "list_all (priceable P) (component_list band (Rv_maximum R))"
    and reserved: "Rv_reserved R = \<lfloor>exact_cost P fx (component_list band (Rv_maximum R)) + 1 / 2\<rfloor>"
    using q by (rule quote_snapshot_InrD) (use n R in auto)
  obtain q' where q': "quote_snapshot P ?s u = Inr q'" and charged: "St_charged S = CB_total (Q_cost q')"
    and release: "St_release S = max 0 (Rv_reserved R - St_charged S)"
    and additional: "St_additional S = max 0 (St_charged S - Rv_reserved R)"
    using assms(8) reserved_in_range [OF assms(1)] by (rule settle_InrD)
  have ok: "list_all (priceable P) (component_list band u)"
    and total: "CB_total (Q_cost q') = \<lfloor>exact_cost P fx (component_list band u) + 1 / 2\<rfloor>"
    by (rule quote_snapshot_InrD [OF q'], use assms(3,5) band fx in auto)+
  have "exact_cost P fx (component_list band u) \<le> exact_cost P fx (component_list band (Rv_maximum R))"
    by (rule conservative_cost_dominates [OF mx assms(2) band assms(3,4,6,7) ok ok' fx_rate_pos [OF fx]])
  then have "St_charged S \<le> Rv_reserved R"
    unfolding charged total reserved by (intro floor_mono) simp
  then show ?thesis by (simp add: release additional)
qed

text \<open>\<^bold>\<open>C20.\<close>
  A settlement balances: what was reserved, plus what is asked for in addition, less what is
  released, is exactly what is charged; the parts are non-negative, never both non-zero, and the
  six amounts of the quote add up to the charge. No subtraction of the code wraps around.
\<close>

theorem settlement_balances:
  assumes "reserve_at P D oc m mx now = Inr R" and "settle P R u = Inr S"
  shows "Rv_reserved R + St_additional S - St_release S = St_charged S
    \<and> 0 \<le> St_additional S \<and> 0 \<le> St_release S \<and> (St_additional S = 0 \<or> St_release S = 0)
    \<and> 0 \<le> St_charged S \<and> St_charged S \<le> max_int64
    \<and> St_delta S = St_charged S - Rv_reserved R
    \<and> (let c = Q_cost (St_quote S) in
        CC_micro_usd (CB_input c) + CC_micro_usd (CB_cache_read c) + CC_micro_usd (CB_cache_write c)
        + CC_micro_usd (CB_cache_write_1h c) + CC_micro_usd (CB_output c) + CC_micro_usd (CB_reasoning c)
        = St_charged S)"
proof -
  obtain q where q: "quote_snapshot P (Rv_snapshot R) u = Inr q" and charged: "St_charged S = CB_total (Q_cost q)"
    and parts: "St_delta S = St_charged S - Rv_reserved R" "St_release S = max 0 (Rv_reserved R - St_charged S)"
      "St_additional S = max 0 (St_charged S - Rv_reserved R)"
    using assms(2) reserved_in_range [OF assms(1)] by (rule settle_InrD)
  have "St_quote S = q" using assms(2) q by (auto simp: settle_def Let_def)
  with q parts quote_total_nonneg [OF q] show ?thesis
    by (elim quote_snapshot_InrD) (auto simp: charged Let_def max_def)
qed

subsection \<open>A plain decimal notation and an example catalogue\<close>

text \<open>
  Digits with at most one point: an instance of \<open>parse_rat\<close> for concrete runs
  (\<open>big.Rat.SetString\<close> reads these as the same number).
\<close>

definition plain_decimal :: "string \<Rightarrow> rat option" where
  "plain_decimal s =
     (let whole = takeWhile (\<lambda>c. c \<noteq> CHR ''.'') s; part = drop (length whole + 1) s in
      if whole = [] then None
      else case (digits_value 0 whole, digits_value 0 part) of
        (Some n, Some m) \<Rightarrow> Some (of_int n + of_int m / 10 ^ length part)
      | _ \<Rightarrow> None)"

definition example_band :: rate_band where
  "example_band = \<lparr>RB_max_input = Some 200000, RB_input = ''2.5'', RB_cache = ''0.25'', RB_cache_write = '''',
     RB_cache_write_1h = '''', RB_output = ''10'', RB_reasoning = ''10''\<rparr>"

definition example_price :: model_price where
  "example_price = \<lparr>Pr_provider = ''OpenAI'', Pr_name = '' GPT-X '', Pr_aliases = [''gpt-x-latest''], Pr_currency = ''usd'',
     Pr_priced = True, Pr_unpriced_reason = '''', Pr_bands = [example_band], Pr_periods = [],
     Pr_source_url = ''https://example.com'', Pr_source_checked_at = ''2026-01-01'', Pr_notes = ''''\<rparr>"

definition example_catalog :: catalog where
  "example_catalog = \<lparr>C_schema = 1, C_version = ''v1'', C_published_at = ''2026-01-01'', C_checked_at = ''2026-01-01'',
     C_base_currency = ''USD'', C_fx = [], C_sources = [], C_models = [example_price], C_digest = '''', C_index = None\<rparr>"

abbreviation example_date :: "string \<Rightarrow> int option" where
  "example_date \<equiv> (\<lambda>s. if s = ''2026-01-01'' then Some 1767225600000000000
                       else if s = ''2026-03-01'' then Some 1772323200000000000 else None)"

abbreviation example_url :: "string \<Rightarrow> (string \<times> string) option" where
  "example_url \<equiv> (\<lambda>s. if s = ''https://example.com'' then Some (''https'', ''example.com'') else None)"

definition example_price' :: model_price where
  "example_price' = example_price\<lparr>Pr_provider := ''openai'', Pr_name := ''GPT-X'', Pr_currency := ''USD''\<rparr>"

definition example_catalog' :: catalog where
  "example_catalog' = example_catalog\<lparr>C_models := [example_price'], C_index := Some [''gpt-x'' \<mapsto> 0, ''gpt-x-latest'' \<mapsto> 0]\<rparr>"

lemma example_strings:
  "trim_space ''OpenAI'' = ''OpenAI''" "trim_space '' GPT-X '' = ''GPT-X''" "trim_space ''usd'' = ''usd''"
  "trim_space ''v1'' = ''v1''" "trim_space ''GPT-X'' = ''GPT-X''" "trim_space ''gpt-x-latest'' = ''gpt-x-latest''"
  "to_lower ''OpenAI'' = ''openai''" "to_upper ''usd'' = ''USD''" "to_lower ''GPT-X'' = ''gpt-x''"
  "to_lower ''gpt-x-latest'' = ''gpt-x-latest''" "trim_space ''GPT-X-Latest '' = ''GPT-X-Latest''"
  "to_lower ''GPT-X-Latest'' = ''gpt-x-latest''"
  by code_simp+

lemma example_decimals:
  "plain_decimal ''2.5'' = Some (5 / 2)" "plain_decimal ''0.25'' = Some (1 / 4)" "plain_decimal ''10'' = Some 10"
  by code_simp+

lemma example_valid:
  "validate_catalog plain_decimal example_date example_url example_catalog = Inr example_catalog'"
  by (simp add: validate_catalog_def example_catalog_def example_catalog'_def example_price_def example_price'_def
      example_band_def validate_date_def validate_https_def validate_model_def validate_rate_bands_def
      non_negative_decimal_def example_decimals example_strings normalize_model_def Let_def)

subsection \<open>A validated catalogue\<close>

definition model_keys :: "model_price \<Rightarrow> string set" where
  "model_keys p = normalize_model ` set (Pr_name p # Pr_aliases p)"

lemma index_names_spec:
  "index_names i ns ix = Some ix' \<Longrightarrow>
     (\<forall>k. ix' k = (if k \<in> normalize_model ` set ns then Some i else ix k)) \<and>
     (\<forall>k \<in> normalize_model ` set ns. ix k = None \<or> ix k = Some i)"
proof (induction ns arbitrary: ix)
  case Nil
  then show ?case by simp
next
  case (Cons n ns)
  let ?key = "normalize_model n"
  have free: "ix ?key = None \<or> ix ?key = Some i"
    and rest: "index_names i ns (ix(?key \<mapsto> i)) = Some ix'"
    using Cons.prems by (auto simp: Let_def split: if_splits option.splits)
  note IH = Cons.IH [OF rest]
  have "ix' k = (if k \<in> normalize_model ` set (n # ns) then Some i else ix k)" for k
    using IH by (simp split: if_splits)
  moreover have "ix k = None \<or> ix k = Some i" if "k \<in> normalize_model ` set (n # ns)" for k
  proof (cases "k = ?key")
    case False
    with that have "k \<in> normalize_model ` set ns" by auto
    from bspec [OF conjunct2 [OF IH] this] False show ?thesis by simp
  next
    case True
    show ?thesis unfolding True by (rule free)
  qed
  ultimately show ?case by (intro conjI allI ballI)
qed

text \<open>The loop over the models: each is validated in place and the index holds exactly their names.\<close>

lemma validate_models_spec:
  "validate_models P D U fx i ms ix = Inr (ms', ix') \<Longrightarrow>
     \<forall>k j. ix k = Some j \<longrightarrow> j < i \<Longrightarrow>
     length ms' = length ms \<and>
     (\<forall>p\<in>set ms'. (\<exists>p0. validate_model P D U p0 = Inr p) \<and>
        (Pr_priced p \<longrightarrow> Pr_currency p = ''USD'' \<or> map_of fx (Pr_currency p) \<noteq> None)) \<and>
     (\<forall>k j. ix' k = Some j \<longleftrightarrow> ix k = Some j \<or> (i \<le> j \<and> j < i + length ms' \<and> k \<in> model_keys (ms' ! (j - i))))"
proof (induction ms arbitrary: i ix ms' ix')
  case Nil
  then show ?case by auto
next
  case (Cons m0 ms)
  obtain m where m: "validate_model P D U m0 = Inr m"
    using Cons.prems(1) by (cases "validate_model P D U m0") simp_all
  have cur: "Pr_priced m \<longrightarrow> Pr_currency m = ''USD'' \<or> map_of fx (Pr_currency m) \<noteq> None"
    using Cons.prems(1) by (auto simp: m split: if_splits)
  obtain ix1 where ix1: "index_names i (Pr_name m # Pr_aliases m) ix = Some ix1"
    using Cons.prems(1) by (cases "index_names i (Pr_name m # Pr_aliases m) ix") (simp_all add: m split: if_splits)
  obtain ms1 where ms1: "validate_models P D U fx (Suc i) ms ix1 = Inr (ms1, ix')" and ms': "ms' = m # ms1"
    using Cons.prems(1) by (auto simp: m ix1 simp del: index_names.simps split: if_splits sum.splits)
  note names = index_names_spec [OF ix1, folded model_keys_def]
  have below: "\<forall>k j. ix1 k = Some j \<longrightarrow> j < Suc i"
    using names Cons.prems(2) by (auto simp: less_Suc_eq split: if_splits)
  note IH = Cons.IH [OF ms1 below]
  have "ix' k = Some j \<longleftrightarrow> ix k = Some j \<or> (i \<le> j \<and> j < i + length ms' \<and> k \<in> model_keys (ms' ! (j - i)))" for k j
  proof -
    have ix1k: "ix1 k = Some j \<longleftrightarrow> ix k = Some j \<or> (j = i \<and> k \<in> model_keys m)"
      using names by (auto split: if_splits)
    have "(\<exists>d. j = i + d \<and> d < length ms' \<and> k \<in> model_keys (ms' ! d))
        \<longleftrightarrow> (j = i \<and> k \<in> model_keys m) \<or> (\<exists>d. j = Suc i + d \<and> d < length ms1 \<and> k \<in> model_keys (ms1 ! d))"
      unfolding ms' by (auto simp: less_Suc_eq_0_disj)
    moreover have "(\<exists>d. j = b + d \<and> d < length xs \<and> k \<in> model_keys (xs ! d))
        \<longleftrightarrow> (b \<le> j \<and> j < b + length xs \<and> k \<in> model_keys (xs ! (j - b)))" for b xs
      by (auto simp: le_iff_add)
    ultimately show ?thesis using IH ix1k by auto
  qed
  then show ?case using IH m cur ms' by auto
qed

lemma validate_catalog_InrD:
  assumes "validate_catalog P D U c = Inr c'"
  obtains ms ix where "validate_models P D U (C_fx c) 0 (C_models c) Map.empty = Inr (ms, ix)"
    and "c' = c\<lparr>C_models := ms, C_index := Some ix\<rparr>" and "list_all (fx_entry_ok P D U) (C_fx c)"
proof (cases "validate_models P D U (C_fx c) 0 (C_models c) Map.empty")
  case (Inr r)
  then show thesis using assms that
    by (cases r) (simp add: validate_catalog_def split: if_splits)
qed (use assms in \<open>simp add: validate_catalog_def split: if_splits\<close>)

lemma validated_index:
  assumes "validate_catalog P D U c = Inr c'"
  obtains ix where "C_index c' = Some ix"
    and "\<forall>k j. ix k = Some j \<longleftrightarrow> j < length (C_models c') \<and> k \<in> model_keys (C_models c' ! j)"
proof -
  obtain ms ix where v: "validate_models P D U (C_fx c) 0 (C_models c) Map.empty = Inr (ms, ix)"
    and c': "c' = c\<lparr>C_models := ms, C_index := Some ix\<rparr>"
    using assms by (rule validate_catalog_InrD)
  have "ix k = Some j \<longleftrightarrow> j < length ms \<and> k \<in> model_keys (ms ! j)" for k j
    using validate_models_spec [OF v] by simp
  then show thesis using that [of ix] by (simp add: c')
qed

text \<open>\<^bold>\<open>C21.\<close>
  In a catalogue that passed validation every model is found under its name and each of its
  aliases, in any letter case and with any surrounding white space, and a lookup finds nothing
  else: no name leads to two models.
\<close>

theorem validated_lookup_exact:
  assumes "validate_catalog P D U c = Inr c'"
  shows "catalog_lookup (Some c') m = Some p \<longleftrightarrow>
    p \<in> set (C_models c') \<and> normalize_model m \<in> normalize_model ` set (Pr_name p # Pr_aliases p)"
proof -
  obtain ix where ix: "C_index c' = Some ix"
    and spec: "\<forall>k j. ix k = Some j \<longleftrightarrow> j < length (C_models c') \<and> k \<in> model_keys (C_models c' ! j)"
    using assms by (rule validated_index)
  have "catalog_lookup (Some c') m = Some p
    \<longleftrightarrow> (\<exists>j. ix (normalize_model m) = Some j \<and> C_models c' ! j = p)"
    by (auto simp: catalog_lookup_def ix)
  also have "\<dots> \<longleftrightarrow> (\<exists>j < length (C_models c'). C_models c' ! j = p \<and> normalize_model m \<in> model_keys p)"
    using spec by auto
  also have "\<dots> \<longleftrightarrow> p \<in> set (C_models c') \<and> normalize_model m \<in> model_keys p"
    by (auto simp: in_set_conv_nth)
  finally show ?thesis by (simp add: model_keys_def)
qed

lemma validated_lookup_exact_witness:
  "catalog_lookup (Some example_catalog') ''GPT-X-Latest '' = Some example_price'"
proof -
  have "example_price' \<in> set (C_models example_catalog')" by (simp add: example_catalog'_def)
  moreover have "normalize_model ''GPT-X-Latest '' \<in> normalize_model ` set (Pr_name example_price' # Pr_aliases example_price')"
    by (simp add: example_price'_def example_price_def normalize_model_def example_strings)
  ultimately show ?thesis
    using validated_lookup_exact [OF example_valid, of "''GPT-X-Latest ''" example_price'] by blast
qed

text \<open>Bands and periods that passed validation.\<close>

definition band_ok :: "(string \<Rightarrow> rat option) \<Rightarrow> rate_band \<Rightarrow> bool" where
  "band_ok P b \<longleftrightarrow> RB_input b \<noteq> [] \<and> RB_output b \<noteq> [] \<and>
     (\<forall>v\<in>set [RB_input b, RB_cache b, RB_cache_write b, RB_cache_write_1h b, RB_output b, RB_reasoning b].
        v \<noteq> [] \<longrightarrow> non_negative_decimal P v \<noteq> None)"

lemma validate_bands_from_ok: "validate_bands_from P prev bs = Inr () \<Longrightarrow> \<forall>b\<in>set bs. band_ok P b"
proof (induction bs arbitrary: prev)
  case (Cons b bs)
  then have "band_ok P b" and "\<exists>prev'. validate_bands_from P prev' bs = Inr ()"
    by (auto simp: band_ok_def split: if_splits)
  with Cons.IH show ?case by auto
qed simp

lemma validate_rate_bands_ok: "validate_rate_bands P bs = Inr () \<Longrightarrow> \<forall>b\<in>set bs. band_ok P b"
  by (auto simp: validate_rate_bands_def dest: validate_bands_from_ok split: if_splits)

lemma validate_periods_chain:
  "validate_periods P D prev ps = Inr () \<Longrightarrow>
     (\<forall>q\<in>set ps. validate_rate_bands P (PP_bands q) = Inr ()) \<and>
     (\<forall>f u is_open. prev = Some (f, u, is_open) \<longrightarrow> (\<forall>q\<in>set ps. \<not> is_open \<and> u \<le> date_or_zero D (PP_from q))) \<and>
     sorted_wrt (\<lambda>p q. PP_until p \<noteq> [] \<and> date_or_zero D (PP_until p) \<le> date_or_zero D (PP_from q)) ps"
proof (induction ps arbitrary: prev)
  case Nil
  then show ?case by simp
next
  case (Cons p ps)
  obtain start where start: "D (PP_from p) = Some start"
    using Cons.prems by (cases "D (PP_from p)") simp_all
  define until where "until = (if PP_until p \<noteq> [] then the (D (PP_until p)) else zero_time)"
  have rest: "validate_periods P D (Some (start, until, PP_until p = [])) ps = Inr ()"
    and bands: "validate_rate_bands P (PP_bands p) = Inr ()"
    using Cons.prems by (auto simp: start until_def split: if_splits sum.splits)
  have until: "date_or_zero D (PP_until p) = until \<and> start < until" if "PP_until p \<noteq> []"
    using Cons.prems that by (auto simp: start until_def date_or_zero_def split: if_splits)
  have prev: "\<not> is_open \<and> u \<le> start" if "prev = Some (f, u, is_open)" for f u is_open
    using Cons.prems that by (auto simp: start split: if_splits)
  note IH = Cons.IH [OF rest]
  have next_from: "PP_until p \<noteq> [] \<and> until \<le> date_or_zero D (PP_from q)" if "q \<in> set ps" for q
    using IH that by auto
  have "date_or_zero D (PP_from p) = start" by (simp add: date_or_zero_def start)
  moreover have "\<not> is_open \<and> u \<le> date_or_zero D (PP_from q)" if "prev = Some (f, u, is_open)" and "q \<in> set ps" for f u is_open q
    using prev [OF that(1)] next_from [OF that(2)] until by auto
  ultimately show ?case using IH bands prev next_from until by auto
qed

definition period_active :: "(string \<Rightarrow> int option) \<Rightarrow> int \<Rightarrow> price_period \<Rightarrow> bool" where
  "period_active D now q \<longleftrightarrow> date_or_zero D (PP_from q) \<le> now
     \<and> (PP_until q = [] \<or> now < date_or_zero D (PP_until q))"

lemma select_period_Some: "select_period D now ps = Some q \<Longrightarrow> q \<in> set ps \<and> period_active D now q"
  by (induction ps) (auto simp: period_active_def split: if_splits)

lemma select_period_None: "select_period D now ps = None \<longleftrightarrow> (\<forall>q\<in>set ps. \<not> period_active D now q)"
  by (induction ps) (auto simp: period_active_def)

lemma select_period_exact:
  assumes "sorted_wrt (\<lambda>p q. PP_until p \<noteq> [] \<and> date_or_zero D (PP_until p) \<le> date_or_zero D (PP_from q)) ps"
  shows "select_period D now ps = Some q \<longleftrightarrow> q \<in> set ps \<and> period_active D now q"
proof
  assume "q \<in> set ps \<and> period_active D now q"
  with assms show "select_period D now ps = Some q"
    by (induction ps) (auto simp: period_active_def)
qed (rule select_period_Some)

lemma validate_model_priced:
  assumes "validate_model P D U p0 = Inr p" and "Pr_priced p"
  shows "if Pr_periods p = [] then validate_rate_bands P (Pr_bands p) = Inr ()
         else validate_periods P D None (Pr_periods p) = Inr ()"
  using assms by (auto simp: validate_model_def Let_def split: if_splits sum.splits)

text \<open>What the validation establishes of a model of the catalogue.\<close>

lemma validated_model:
  assumes "validate_catalog P D U c = Inr c'" and "p \<in> set (C_models c')"
  shows "\<exists>p0. validate_model P D U p0 = Inr p"
    and "Pr_priced p \<Longrightarrow> Pr_currency p \<noteq> ''USD'' \<Longrightarrow> \<exists>fx r. map_of (C_fx c') (Pr_currency p) = Some fx
      \<and> positive_decimal P (FX_units_per_usd fx) = Some r"
proof -
  obtain ms ix where v: "validate_models P D U (C_fx c) 0 (C_models c) Map.empty = Inr (ms, ix)"
    and c': "c' = c\<lparr>C_models := ms, C_index := Some ix\<rparr>" and fx: "list_all (fx_entry_ok P D U) (C_fx c)"
    using assms(1) by (rule validate_catalog_InrD)
  have p: "p \<in> set ms" using assms(2) by (simp add: c')
  note spec = validate_models_spec [OF v]
  show "\<exists>p0. validate_model P D U p0 = Inr p" using spec p by simp
  assume "Pr_priced p" and "Pr_currency p \<noteq> ''USD''"
  with spec p obtain f where f: "map_of (C_fx c) (Pr_currency p) = Some f" by auto
  then have "fx_entry_ok P D U (Pr_currency p, f)" using fx by (auto simp: list_all_iff dest: map_of_SomeD)
  then show "\<exists>fx r. map_of (C_fx c') (Pr_currency p) = Some fx \<and> positive_decimal P (FX_units_per_usd fx) = Some r"
    using f by (auto simp: c' fx_entry_ok_def)
qed

text \<open>\<^bold>\<open>C23.\<close>
  At most one official price is in force at an instant: for a priced model of a validated
  catalogue with price periods, the snapshot uses the bands of a period exactly when that period
  is active at the instant (from its first day up to, not including, its last), and a quote
  outside every period is refused with \<open>ErrOutsidePriceRange\<close>.
\<close>

theorem price_in_force_exact:
  assumes "validate_catalog P D U c = Inr c'" and "p \<in> set (C_models c')" and "Pr_priced p" and "Pr_periods p \<noteq> []"
  shows "select_effective_bands D p now =
    (case filter (period_active D now) (Pr_periods p) of
       [] \<Rightarrow> Inl (Pricing_error Outside_price_range (Pr_name p) [])
     | q # qs \<Rightarrow> Inr (PP_bands q, PP_from q, PP_until q))
    \<and> (\<forall>q\<in>set (Pr_periods p). \<forall>r\<in>set (Pr_periods p). period_active D now q \<and> period_active D now r \<longrightarrow> q = r)"
proof -
  obtain p0 where "validate_model P D U p0 = Inr p" using validated_model(1) [OF assms(1,2)] by blast
  from validate_model_priced [OF this assms(3)] assms(4)
  have "validate_periods P D None (Pr_periods p) = Inr ()" by simp
  then have exact: "select_period D now (Pr_periods p) = Some q \<longleftrightarrow> q \<in> set (Pr_periods p) \<and> period_active D now q" for q
    using validate_periods_chain select_period_exact by blast
  then have "\<forall>q\<in>set (Pr_periods p). \<forall>r\<in>set (Pr_periods p). period_active D now q \<and> period_active D now r \<longrightarrow> q = r"
    by (metis option.inject)
  moreover have "select_effective_bands D p now =
    (case filter (period_active D now) (Pr_periods p) of
       [] \<Rightarrow> Inl (Pricing_error Outside_price_range (Pr_name p) [])
     | q # qs \<Rightarrow> Inr (PP_bands q, PP_from q, PP_until q))"
  proof (cases "filter (period_active D now) (Pr_periods p)")
    case Nil
    then have "select_period D now (Pr_periods p) = None"
      by (simp add: select_period_None filter_empty_conv)
    then show ?thesis by (simp add: select_effective_bands_def assms(4) Nil)
  next
    case (Cons q qs)
    have "q \<in> set (filter (period_active D now) (Pr_periods p))" by (simp add: Cons)
    then have "q \<in> set (Pr_periods p) \<and> period_active D now q" by simp
    with exact have "select_period D now (Pr_periods p) = Some q" by blast
    then show ?thesis by (simp add: select_effective_bands_def assms(4) Cons)
  qed
  ultimately show ?thesis by blast
qed

text \<open>A snapshot of a validated catalogue prices every listed category and has its exchange rate.\<close>

lemma snapshot_of_validated:
  assumes "validate_catalog P D U c = Inr c'" and "catalog_lookup (Some c') m = Some p" and "Pr_priced p"
  shows "price_snapshot_of D c' m p now = Inr s \<Longrightarrow>
      (\<forall>b\<in>set (PS_bands s). band_ok P b) \<and> (\<exists>fx. fx_rate P s = Inr fx)"
    and "price_snapshot_of D c' m p now = Inl e \<Longrightarrow> error_kind e = Outside_price_range"
proof -
  have p: "p \<in> set (C_models c')" using assms(2) validated_lookup_exact [OF assms(1)] by blast
  have cur: "\<exists>fx r. map_of (C_fx c') (Pr_currency p) = Some fx \<and> positive_decimal P (FX_units_per_usd fx) = Some r"
    if "Pr_currency p \<noteq> ''USD''"
    using validated_model(2) [OF assms(1) p assms(3) that] .
  obtain p0 where p0: "validate_model P D U p0 = Inr p" using validated_model(1) [OF assms(1) p] by blast
  have bands: "\<forall>b\<in>set bs. band_ok P b" if "select_effective_bands D p now = Inr (bs, f, t)" for bs f t
    using that validate_model_priced [OF p0 assms(3)]
    by (auto simp: select_effective_bands_def split: if_splits option.splits
        dest!: select_period_Some validate_periods_chain dest: validate_rate_bands_ok)
  have error: "error_kind e = Outside_price_range" if "select_effective_bands D p now = Inl e" for e
    using that by (auto simp: select_effective_bands_def split: if_splits option.splits)
  show "(\<forall>b\<in>set (PS_bands s). band_ok P b) \<and> (\<exists>fx. fx_rate P s = Inr fx)"
    if "price_snapshot_of D c' m p now = Inr s"
    using that cur bands
    by (cases "Pr_currency p = ''USD''")
       (auto simp: price_snapshot_of_def fx_rate_def split: sum.splits option.splits)
  show "error_kind e = Outside_price_range" if "price_snapshot_of D c' m p now = Inl e"
    using that cur error
    by (cases "Pr_currency p = ''USD''")
       (auto simp: price_snapshot_of_def split: sum.splits option.splits)
qed

lemma round_components_error_kind:
  assumes "\<forall>c\<in>set cs. \<exists>r\<ge>0. CW_raw c = Some r" and "length cs = 6" and "round_components cs = Inl e"
  shows "error_kind e = Amount_overflow"
proof -
  have "int (length cs) \<le> max_int64" by (simp add: assms(2))
  from round_components_unfold [OF assms(1) this] assms(3) show ?thesis
    by (auto split: if_splits)
qed

lemma band_ok_components:
  "band_ok P b \<Longrightarrow> c \<in> set (component_list b u) \<Longrightarrow> CW_rate c \<noteq> [] \<Longrightarrow> non_negative_decimal P (CW_rate c) \<noteq> None"
  by (auto simp: band_ok_def component_list_def)

lemma quote_snapshot_error_kind:
  assumes "\<forall>b\<in>set (PS_bands s). band_ok P b" and "fx_rate P s = Inr fx" and "quote_snapshot P s u = Inl e"
  shows "error_kind e \<noteq> Invalid_catalog"
proof (cases "prompt_tokens u")
  case (Inl e')
  then show ?thesis using assms(3) by (auto simp: quote_snapshot_def dest: prompt_tokens_error)
next
  case (Inr n)
  show ?thesis
  proof (cases "select_band (PS_bands s) n")
    case None
    then show ?thesis using assms(3) Inr by (auto simp: quote_snapshot_def)
  next
    case (Some band)
    then have ok: "band_ok P band" using assms(1) select_band_Some by blast
    show ?thesis
    proof (cases "price_components P (PS_requested_model s) fx (component_list band u)")
      case (Inl e')
      then have "error_kind e' = Category_unpriced"
        using price_components_error [OF Inl] band_ok_components [OF ok] by fastforce
      then show ?thesis using assms(2,3) \<open>prompt_tokens u = Inr n\<close> Some Inl by (auto simp: quote_snapshot_def)
    next
      case cs: (Inr cs)
      then have "list_all (priceable P) (component_list band u)"
        and eq: "cs = map (\<lambda>c. c\<lparr>CW_raw := Some (exact_component P fx c)\<rparr>) (component_list band u)"
        by (simp_all add: price_components_Inr)
      from priced_components_valid [OF Inr fx_rate_pos [OF assms(2)] this(1)]
      have "\<forall>c\<in>set cs. \<exists>r\<ge>0. CW_raw c = Some r" by (simp add: eq)
      from round_components_error_kind [OF this] show ?thesis
        using assms(2,3) Inr Some cs by (auto simp: quote_snapshot_def eq Let_def split: sum.splits prod.splits)
    qed
  qed
qed

lemma dearest_rate_error:
  "dearest_rate P cs best = Inl e \<Longrightarrow> \<exists>c\<in>set cs. fst c \<noteq> [] \<and> non_negative_decimal P (fst c) = None"
  by (induction P cs best rule: dearest_rate.induct) (auto split: if_splits option.splits)

lemma conservative_error_kind:
  assumes "\<forall>b\<in>set (PS_bands s). band_ok P b" and "conservative_maximum_usage P s mx = Inl e"
  shows "error_kind e \<noteq> Invalid_catalog"
proof -
  have "dearest_rate P (prompt_rates b) None \<noteq> Inl e'" if "band_ok P b" for b e'
    using that dearest_rate_error [of P "prompt_rates b" None e'] by (force simp: band_ok_def prompt_rates_def)
  then show ?thesis using assms
    by (auto simp: conservative_maximum_usage_def split: sum.splits option.splits
        dest: prompt_tokens_error select_band_Some)
qed

text \<open>\<^bold>\<open>C22.\<close>
  A catalogue that passed validation never fails a request as invalid: every error of a quote or
  a reservation against it is about the call (unknown or unpriced model, no price at that
  instant or size, an unpriced category, token counts out of range, or an amount above
  \<open>int64\<close>), never \<open>ErrInvalidCatalog\<close>.
\<close>

theorem validated_quotes_never_invalid:
  assumes "validate_catalog P D U c = Inr c'"
  shows "(\<forall>e. quote_at P D (Some c') m u now = Inl e \<longrightarrow> error_kind e \<noteq> Invalid_catalog)
    \<and> (\<forall>e. reserve_at P D (Some c') m u now = Inl e \<longrightarrow> error_kind e \<noteq> Invalid_catalog)"
proof (cases "catalog_lookup (Some c') m")
  case None
  then show ?thesis by (auto simp: quote_at_def reserve_at_def)
next
  case (Some p)
  show ?thesis
  proof (cases "Pr_priced p")
    case False
    then show ?thesis using Some by (auto simp: quote_at_def reserve_at_def)
  next
    case True
    note facts = snapshot_of_validated [OF assms Some True]
    show ?thesis
    proof (cases "price_snapshot_of D c' m p now")
      case (Inl e)
      then show ?thesis using Some True facts(2) [OF Inl] by (auto simp: quote_at_def reserve_at_def)
    next
      case (Inr s)
      then obtain fx where "\<forall>b\<in>set (PS_bands s). band_ok P b" and "fx_rate P s = Inr fx"
        using facts(1) [OF Inr] by blast
      then show ?thesis
        using Some True Inr quote_snapshot_error_kind conservative_error_kind
        by (auto simp: quote_at_def reserve_at_def split: sum.splits)
    qed
  qed
qed

subsection \<open>The theorems on the example catalogue\<close>

abbreviation example_usage :: "int \<Rightarrow> int \<Rightarrow> int \<Rightarrow> usage" where
  "example_usage i c x \<equiv> \<lparr>U_input = i, U_cache_read = c, U_cache_write = 0, U_cache_write_1h = 0,
     U_output = x, U_reasoning = 0\<rparr>"

definition example_snapshot :: price_snapshot where
  "example_snapshot = \<lparr>PS_version = ''v1'', PS_digest = '''', PS_published_at = ''2026-01-01'',
     PS_checked_at = ''2026-01-01'', PS_provider = ''openai'', PS_requested_model = ''gpt-x-latest'',
     PS_price_name = ''GPT-X'', PS_currency = ''USD'', PS_fx = None, PS_bands = [example_band],
     PS_source_url = ''https://example.com'', PS_source_checked_at = ''2026-01-01'', PS_from = '''',
     PS_until = '''', PS_notes = ''''\<rparr>"

lemma example_snapshot_of:
  "price_snapshot_of example_date example_catalog' ''gpt-x-latest'' example_price' 0 = Inr example_snapshot"
  by (simp add: price_snapshot_of_def example_catalog'_def example_catalog_def example_price'_def
      example_price_def select_effective_bands_def example_snapshot_def)

lemma example_lookup: "catalog_lookup (Some example_catalog') ''gpt-x-latest'' = Some example_price'"
  by (simp add: catalog_lookup_def example_catalog'_def normalize_model_def example_strings)

definition example_reservation :: reservation where
  "example_reservation = \<lparr>Rv_maximum = example_usage 1000 0 500, Rv_reserved = 7500, Rv_snapshot = example_snapshot\<rparr>"

lemma example_quotes:
  "conservative_maximum_usage plain_decimal example_snapshot (example_usage 1000 0 500) = Inr (example_usage 1000 0 500)"
  "map_sum id (\<lambda>q. CB_total (Q_cost q)) (quote_snapshot plain_decimal example_snapshot (example_usage 1000 0 500)) = Inr 7500"
  "map_sum id (\<lambda>q. CB_total (Q_cost q)) (quote_snapshot plain_decimal example_snapshot (example_usage 600 300 100)) = Inr 2575"
  by code_simp+

lemma example_reserve:
  "reserve_at plain_decimal example_date (Some example_catalog') ''gpt-x-latest'' (example_usage 1000 0 500) 0
    = Inr example_reservation"
proof -
  obtain q where q: "quote_snapshot plain_decimal example_snapshot (example_usage 1000 0 500) = Inr q"
      and "CB_total (Q_cost q) = 7500"
    using example_quotes(2) by (cases "quote_snapshot plain_decimal example_snapshot (example_usage 1000 0 500)") auto
  moreover have "Q_snapshot q = example_snapshot" using q by (elim quote_snapshot_InrD)
  moreover have "Pr_priced example_price'" by (simp add: example_price'_def example_price_def)
  ultimately show ?thesis
    by (simp add: reserve_at_def example_lookup example_snapshot_of example_quotes(1) q example_reservation_def)
qed

lemma example_settle:
  "\<exists>S. settle plain_decimal example_reservation (example_usage 600 300 100) = Inr S \<and> St_charged S = 2575"
  using example_quotes(3)
  by (cases "quote_snapshot plain_decimal example_snapshot (example_usage 600 300 100)")
     (auto simp: settle_def example_reservation_def Let_def)

lemma reservation_covers_witness:
  "\<exists>S. settle plain_decimal example_reservation (example_usage 600 300 100) = Inr S
     \<and> St_charged S = 2575 \<and> St_charged S \<le> 7500 \<and> St_additional S = 0 \<and> St_release S = 4925"
proof -
  obtain S where S: "settle plain_decimal example_reservation (example_usage 600 300 100) = Inr S"
    and charged: "St_charged S = 2575"
    using example_settle by blast
  have max: "prompt_tokens (example_usage 1000 0 500) = Inr 1000"
    and used: "prompt_tokens (example_usage 600 300 100) = Inr 900"
    by (simp_all add: prompt_tokens_iff)
  have "select_band (PS_bands (Rv_snapshot example_reservation)) 900
    = select_band (PS_bands (Rv_snapshot example_reservation)) 1000"
    by (simp add: example_reservation_def example_snapshot_def example_band_def)
  from reservation_covers [OF example_reserve max used _ this _ _ S]
  have "St_charged S \<le> Rv_reserved example_reservation \<and> St_additional S = 0
      \<and> St_release S = Rv_reserved example_reservation - St_charged S"
    by simp
  then show ?thesis using S charged by (auto simp: example_reservation_def)
qed

lemma settlement_balances_witness:
  "\<exists>S. settle plain_decimal example_reservation (example_usage 600 300 100) = Inr S
     \<and> 7500 + St_additional S - St_release S = St_charged S \<and> St_delta S = - 4925"
proof -
  obtain S where S: "settle plain_decimal example_reservation (example_usage 600 300 100) = Inr S"
    and charged: "St_charged S = 2575"
    using example_settle by blast
  have "Rv_reserved example_reservation + St_additional S - St_release S = St_charged S
      \<and> St_delta S = St_charged S - Rv_reserved example_reservation"
    using settlement_balances [OF example_reserve S] by blast
  then show ?thesis using S charged by (auto simp: example_reservation_def)
qed

lemma validated_quotes_never_invalid_witness:
  "\<exists>e. quote_at plain_decimal example_date (Some example_catalog') ''gpt-x-latest'' (example_usage 200001 0 1) 0 = Inl e
    \<and> error_kind e \<noteq> Invalid_catalog"
proof -
  have "prompt_tokens (example_usage 200001 0 1) = Inr 200001" by (simp add: prompt_tokens_iff)
  moreover have "select_band (PS_bands example_snapshot) 200001 = None"
    by (simp add: example_snapshot_def example_band_def)
  moreover have "Pr_priced example_price'" by (simp add: example_price'_def example_price_def)
  ultimately have "\<exists>e. quote_at plain_decimal example_date (Some example_catalog') ''gpt-x-latest''
      (example_usage 200001 0 1) 0 = Inl e"
    by (simp add: quote_at_def example_lookup example_snapshot_of quote_snapshot_def)
  then show ?thesis
    using validated_quotes_never_invalid [OF example_valid, of "''gpt-x-latest''" "example_usage 200001 0 1" 0] by blast
qed

text \<open>A model with two adjacent price periods: the later one starts the instant the first ends.\<close>

definition example_periods :: "price_period list" where
  "example_periods = [\<lparr>PP_from = ''2026-01-01'', PP_until = ''2026-03-01'', PP_bands = [example_band]\<rparr>,
     \<lparr>PP_from = ''2026-03-01'', PP_until = '''', PP_bands = [example_band]\<rparr>]"

definition dated_price :: model_price where
  "dated_price = example_price'\<lparr>Pr_bands := [], Pr_periods := example_periods\<rparr>"

lemma dated_valid:
  "\<exists>c'. validate_catalog plain_decimal example_date example_url (example_catalog\<lparr>C_models := [dated_price]\<rparr>) = Inr c'
     \<and> C_models c' = [dated_price]"
proof -
  have s: "trim_space ''openai'' = ''openai''" "to_lower ''openai'' = ''openai''" "trim_space ''USD'' = ''USD''"
    "to_upper ''USD'' = ''USD''"
    by code_simp+
  show ?thesis
    by (simp add: validate_catalog_def example_catalog_def example_price_def example_price'_def dated_price_def
        example_periods_def example_band_def validate_date_def validate_https_def validate_model_def
        validate_rate_bands_def non_negative_decimal_def example_decimals example_strings s normalize_model_def Let_def)
qed

lemma price_in_force_exact_witness:
  "select_effective_bands example_date dated_price 1772323200000000000 = Inr ([example_band], ''2026-03-01'', '''')"
proof -
  obtain c' where c': "validate_catalog plain_decimal example_date example_url (example_catalog\<lparr>C_models := [dated_price]\<rparr>) = Inr c'"
      "C_models c' = [dated_price]"
    using dated_valid by blast
  have "dated_price \<in> set (C_models c')" "Pr_priced dated_price" "Pr_periods dated_price \<noteq> []"
    by (simp_all add: c' dated_price_def example_price'_def example_price_def example_periods_def)
  from price_in_force_exact [OF c'(1) this, of 1772323200000000000] show ?thesis
    by (simp add: dated_price_def example_periods_def period_active_def date_or_zero_def)
qed

end
