(* ===== verification/Accounting.thy ===== *)
theory Accounting
  imports Quota BillingLaws
begin

text \<open>
  The accounting of the gateway (\<open>gateway/gateway.go\<close>): the limits read from a request body, the
  canonical token usage read from an upstream response, the reservation made before a request
  and the charge computed when it ends. Parameters: \<open>decode\<close> is \<open>json.Decoder\<close> with
  \<open>UseNumber\<close> into a map, \<open>decode_usage\<close> is \<open>json.Unmarshal\<close> into \<open>usageEnvelope\<close>, \<open>encode\<close> is
  the JSON of the price snapshot (\<open>json.Marshal\<close> of these structs does not fail), \<open>now\<close> the clock.
\<close>

subsection \<open>Request limits\<close>

datatype json =
    JNull | JBool bool | JNumber string | JString string
  | JArray "json list" | JObject "(string \<times> json) list"

text \<open>\<open>payload["k"].(string)\<close> and the like: the zero value when the assertion fails.\<close>

definition as_string :: "json option \<Rightarrow> string" where
  "as_string v = (case v of Some (JString s) \<Rightarrow> s | _ \<Rightarrow> [])"

definition as_bool :: "json option \<Rightarrow> bool" where
  "as_bool v = (case v of Some (JBool b) \<Rightarrow> b | _ \<Rightarrow> False)"

definition as_object :: "json option \<Rightarrow> (string \<times> json) list option" where
  "as_object v = (case v of Some (JObject m) \<Rightarrow> Some m | _ \<Rightarrow> None)"

text \<open>\<open>numberInt64\<close> on the values \<open>UseNumber\<close> produces: the \<open>float64\<close> case does not arise.\<close>

definition number_int64 :: "json \<Rightarrow> int option" where
  "number_int64 v = (case v of JNumber s \<Rightarrow>
     (case atoi s of Some n \<Rightarrow> if n \<ge> 0 then Some n else None | None \<Rightarrow> None) | _ \<Rightarrow> None)"

record chat_meta =
  M_model :: string
  M_stream :: bool
  M_reasoning_effort :: string
  M_thinking_budget :: "int option"
  M_max_output :: int

definition default_max_output_tokens :: int where
  "default_max_output_tokens = 4096"

definition max_requested_tokens :: int where
  "max_requested_tokens = 1000000"

definition input_token_overhead :: int where
  "input_token_overhead = 1024"

datatype meta_error = Invalid_json | Model_required | Bad_output_limit string | Bad_thinking_budget

fun output_limits :: "(string \<times> json) list \<Rightarrow> string list \<Rightarrow> bool \<Rightarrow> int \<Rightarrow> (meta_error, bool \<times> int) result" where
  "output_limits payload [] seen limit = Inr (seen, limit)"
| "output_limits payload (name # names) seen limit =
     (case map_of payload name of None \<Rightarrow> output_limits payload names seen limit
      | Some v \<Rightarrow> (case number_int64 v of None \<Rightarrow> Inl (Bad_output_limit name)
          | Some n \<Rightarrow>
              if n > max_requested_tokens then Inl (Bad_output_limit name)
              else output_limits payload names True (if \<not> seen \<or> n > limit then n else limit)))"

text \<open>The second pass, taken when the limit equals the default.\<close>

fun output_limits_again :: "(string \<times> json) list \<Rightarrow> string list \<Rightarrow> int \<Rightarrow> int" where
  "output_limits_again payload [] limit = limit"
| "output_limits_again payload (name # names) limit =
     output_limits_again payload names
       (case map_of payload name of None \<Rightarrow> limit
        | Some v \<Rightarrow> (case number_int64 v of None \<Rightarrow> limit | Some n \<Rightarrow> if n > limit then n else limit))"

definition thinking_limits :: "(string \<times> json) list \<Rightarrow> json list" where
  "thinking_limits payload =
     (case map_of payload ''thinking_budget'' of Some v \<Rightarrow> [v] | None \<Rightarrow> [])
     @ (case as_object (map_of payload ''thinking'') of
          Some m \<Rightarrow> (case map_of m ''budget_tokens'' of Some v \<Rightarrow> [v] | None \<Rightarrow> []) | None \<Rightarrow> [])
     @ (case as_object (map_of payload ''reasoning'') of
          Some m \<Rightarrow> (case map_of m ''max_tokens'' of Some v \<Rightarrow> [v] | None \<Rightarrow> []) | None \<Rightarrow> [])"

fun thinking_budget :: "json list \<Rightarrow> int option \<Rightarrow> (meta_error, int option) result" where
  "thinking_budget [] b = Inr b"
| "thinking_budget (v # vs) b =
     (case number_int64 v of None \<Rightarrow> Inl Bad_thinking_budget
      | Some n \<Rightarrow>
          if n > max_requested_tokens then Inl Bad_thinking_budget
          else thinking_budget vs (case b of None \<Rightarrow> Some n | Some m \<Rightarrow> if n > m then Some n else Some m))"

definition parse_inference_meta ::
  "(string \<Rightarrow> (string \<times> json) list option) \<Rightarrow> string list \<Rightarrow> string \<Rightarrow> (meta_error, chat_meta) result" where
  "parse_inference_meta decode names body =
     (case decode body of None \<Rightarrow> Inl Invalid_json
      | Some payload \<Rightarrow>
         let model = trim_space (as_string (map_of payload ''model'')) in
         if model = [] then Inl Model_required
         else let
           effort0 = as_string (map_of payload ''reasoning_effort'');
           effort = (case as_object (map_of payload ''reasoning'') of None \<Rightarrow> effort0
             | Some m \<Rightarrow> (let e = trim_space (as_string (map_of m ''effort'')) in if e \<noteq> [] then e else effort0))
         in case output_limits payload names False default_max_output_tokens of Inl e \<Rightarrow> Inl e
            | Inr (seen, limit0) \<Rightarrow>
              (let limit = (if seen \<and> limit0 = default_max_output_tokens
                            then output_limits_again payload names 0 else limit0)
               in case thinking_budget (thinking_limits payload) None of Inl e \<Rightarrow> Inl e
                  | Inr budget \<Rightarrow> Inr \<lparr>M_model = model, M_stream = as_bool (map_of payload ''stream''),
                      M_reasoning_effort = effort, M_thinking_budget = budget, M_max_output = limit\<rparr>))"

definition parse_chat_meta where
  "parse_chat_meta decode body = parse_inference_meta decode [''max_tokens'', ''max_completion_tokens''] body"

definition parse_responses_meta where
  "parse_responses_meta decode body = parse_inference_meta decode [''max_output_tokens''] body"

subsection \<open>Token usage of a response\<close>

record token_usage =
  T_input :: "int option"
  T_cache_read :: "int option"
  T_cache_write :: "int option"
  T_cache_write_1h :: "int option"
  T_output :: "int option"
  T_reasoning :: "int option"

definition no_usage :: token_usage where
  "no_usage = \<lparr>T_input = None, T_cache_read = None, T_cache_write = None, T_cache_write_1h = None,
     T_output = None, T_reasoning = None\<rparr>"

text \<open>\<open>usagePayload\<close>; the nested detail structs are flattened into fields with their prefix.\<close>

record usage_payload =
  UP_prompt_tokens :: "int option"
  UP_input_tokens :: "int option"
  UP_completion_tokens :: "int option"
  UP_output_tokens :: "int option"
  UP_cache_read_input :: "int option"
  UP_cache_creation_input :: "int option"
  UP_ephemeral_5m :: "int option"
  UP_ephemeral_1h :: "int option"
  UP_prompt_cached :: "int option"
  UP_prompt_cache_write :: "int option"
  UP_prompt_cache_creation :: "int option"
  UP_input_cached :: "int option"
  UP_input_cache_write :: "int option"
  UP_input_cache_creation :: "int option"
  UP_completion_reasoning :: "int option"
  UP_output_reasoning :: "int option"

datatype usage_envelope =
  Envelope (env_model: string) (env_usage: "usage_payload option") (env_response: "usage_envelope option")

fun first_int64 :: "int option list \<Rightarrow> int option" where
  "first_int64 [] = None"
| "first_int64 (v # vs) = (case v of Some n \<Rightarrow> Some n | None \<Rightarrow> first_int64 vs)"

abbreviation or_zero :: "int option \<Rightarrow> int" where
  "or_zero v \<equiv> (case v of None \<Rightarrow> 0 | Some n \<Rightarrow> n)"

text \<open>The Boolean result \<open>false\<close> of the three functions is \<open>None\<close>.\<close>

definition canonical_token_pair :: "int option \<Rightarrow> int option \<Rightarrow> (int \<times> int) option" where
  "canonical_token_pair tot subset' =
     (case tot of None \<Rightarrow> None
      | Some t \<Rightarrow>
          if t < 0 then None
          else (case subset' of None \<Rightarrow> Some (wrap64 (t - 0), 0)
            | Some s \<Rightarrow> if s < 0 \<or> s > t then None else Some (wrap64 (t - s), s)))"

fun canonical_groups_loop :: "int \<Rightarrow> int option list \<Rightarrow> (int \<times> int list) option" where
  "canonical_groups_loop remaining [] = Some (remaining, [])"
| "canonical_groups_loop remaining (v # vs) =
     (case v of None \<Rightarrow> map_option (\<lambda>(r, ns). (r, 0 # ns)) (canonical_groups_loop remaining vs)
      | Some s \<Rightarrow>
          if s < 0 \<or> s > remaining then None
          else map_option (\<lambda>(r, ns). (r, s # ns)) (canonical_groups_loop (wrap64 (remaining - s)) vs))"

definition canonical_token_groups :: "int option \<Rightarrow> int option list \<Rightarrow> (int \<times> int list) option" where
  "canonical_token_groups tot subsets =
     (case tot of None \<Rightarrow> None
      | Some t \<Rightarrow> if t < 0 \<or> length subsets \<noteq> 2 then None else canonical_groups_loop t subsets)"

definition canonical_anthropic_prompt :: "usage_payload \<Rightarrow> (int \<times> int \<times> int \<times> int) option" where
  "canonical_anthropic_prompt v =
     (let input = or_zero (UP_input_tokens v); r = or_zero (UP_cache_read_input v);
          creation = or_zero (UP_cache_creation_input v);
          w5 = or_zero (UP_ephemeral_5m v); w1 = or_zero (UP_ephemeral_1h v)
      in if input < 0 \<or> r < 0 \<or> creation < 0 \<or> w5 < 0 \<or> w1 < 0 \<or> w5 > creation
            \<or> w1 > wrap64 (creation - w5) then None
         else if w5 = 0 \<and> w1 = 0 then Some (input, r, creation, w1)
         else if wrap64 (w5 + w1) \<noteq> creation then None
         else Some (input, r, w5, w1))"

definition select_envelope :: "usage_envelope \<Rightarrow> usage_envelope" where
  "select_envelope e = (case env_response e of None \<Rightarrow> e
     | Some r \<Rightarrow> if trim_space (env_model r) \<noteq> [] \<or> env_usage r \<noteq> None then r else e)"

definition canonical_usage :: "usage_payload \<Rightarrow> token_usage" where
  "canonical_usage u =
     (let prompt = (if UP_cache_read_input u \<noteq> None \<or> UP_cache_creation_input u \<noteq> None
                    then canonical_anthropic_prompt u
                    else map_option (\<lambda>(r, ns). (r, ns ! 0, ns ! 1, 0))
                      (canonical_token_groups (first_int64 [UP_prompt_tokens u, UP_input_tokens u])
                        [first_int64 [UP_prompt_cached u, UP_input_cached u],
                         first_int64 [UP_prompt_cache_write u, UP_input_cache_write u,
                                      UP_prompt_cache_creation u, UP_input_cache_creation u]]));
          completion = canonical_token_pair (first_int64 [UP_completion_tokens u, UP_output_tokens u])
            (first_int64 [UP_completion_reasoning u, UP_output_reasoning u])
      in case (prompt, completion) of
           (Some (i, r, w, w1), Some (x, t)) \<Rightarrow>
             \<lparr>T_input = Some i, T_cache_read = Some r, T_cache_write = Some w, T_cache_write_1h = Some w1,
              T_output = Some x, T_reasoning = Some t\<rparr>
         | _ \<Rightarrow> no_usage)"

definition parse_usage ::
  "(string \<Rightarrow> usage_envelope option) \<Rightarrow> string \<Rightarrow> string \<Rightarrow> string \<times> token_usage" where
  "parse_usage decode_usage body fallback =
     (case decode_usage body of None \<Rightarrow> (fallback, no_usage)
      | Some e0 \<Rightarrow>
         (let e = select_envelope e0; m = trim_space (env_model e); model = (if m = [] then fallback else m)
          in case env_usage e of None \<Rightarrow> (model, no_usage) | Some u \<Rightarrow> (model, canonical_usage u)))"

definition usage_complete :: "token_usage \<Rightarrow> bool" where
  "usage_complete u \<longleftrightarrow>
     \<not> (T_input u = None \<or> T_cache_read u = None \<or> T_cache_write u = None \<or> T_cache_write_1h u = None
        \<or> T_output u = None \<or> T_reasoning u = None)
     \<and> (or_zero (T_input u) > 0 \<or> or_zero (T_cache_read u) > 0 \<or> or_zero (T_cache_write u) > 0
        \<or> or_zero (T_cache_write_1h u) > 0 \<or> or_zero (T_output u) > 0 \<or> or_zero (T_reasoning u) > 0)"

definition billing_usage :: "token_usage \<Rightarrow> usage" where
  "billing_usage u = \<lparr>U_input = the (T_input u), U_cache_read = the (T_cache_read u),
     U_cache_write = the (T_cache_write u), U_cache_write_1h = the (T_cache_write_1h u),
     U_output = the (T_output u), U_reasoning = the (T_reasoning u)\<rparr>"

definition usage_from_billing :: "usage \<Rightarrow> token_usage" where
  "usage_from_billing u = \<lparr>T_input = Some (U_input u), T_cache_read = Some (U_cache_read u),
     T_cache_write = Some (U_cache_write u), T_cache_write_1h = Some (U_cache_write_1h u),
     T_output = Some (U_output u), T_reasoning = Some (U_reasoning u)\<rparr>"

subsection \<open>Reservation before the request\<close>

datatype accounting_error = Engine_unavailable | Request_too_large | Price_error pricing_error

record request_accounting =
  RA_key :: int
  RA_reserved :: int
  RA_maximum :: usage
  RA_reservation :: "reservation option"

definition is_pricing_unavailable :: "accounting_error \<Rightarrow> bool" where
  "is_pricing_unavailable e = (case e of
     Price_error p \<Rightarrow> error_kind p = Model_not_found \<or> error_kind p = Model_unpriced
       \<or> error_kind p = Category_unpriced \<or> error_kind p = Outside_price_range
   | _ \<Rightarrow> False)"

text \<open>The most a request may use: one token per byte of the body and an overhead, and the completion limit.\<close>

definition maximum_usage :: "chat_meta \<Rightarrow> int \<Rightarrow> usage" where
  "maximum_usage meta body_length =
     (let reasoning = or_zero (M_thinking_budget meta);
          completion = (case M_thinking_budget meta of None \<Rightarrow> M_max_output meta
            | Some b \<Rightarrow> if b > M_max_output meta then b else M_max_output meta)
      in \<lparr>U_input = wrap64 (body_length + input_token_overhead), U_cache_read = 0, U_cache_write = 0,
          U_cache_write_1h = 0, U_output = wrap64 (completion - reasoning), U_reasoning = reasoning\<rparr>)"

definition prepare_accounting_for_model ::
  "(string \<Rightarrow> rat option) \<Rightarrow> (string \<Rightarrow> int option) \<Rightarrow> catalog option \<Rightarrow> int \<Rightarrow> key_row \<Rightarrow> chat_meta \<Rightarrow> string
     \<Rightarrow> string \<Rightarrow> (accounting_error, request_accounting) result" where
  "prepare_accounting_for_model parse_rat parse_date engine now key meta body price_model0 =
     (if engine = None then Inl Engine_unavailable
      else if int (length body) > max_int64 - input_token_overhead then Inl Request_too_large
      else let
        mx = maximum_usage meta (int (length body));
        trimmed = trim_space price_model0;
        price_model = (if trimmed = [] then M_model meta else trimmed)
      in case reserve_at parse_rat parse_date engine price_model mx now of
           Inl e \<Rightarrow>
             if DK_Quota key = None \<and> is_pricing_unavailable (Price_error e)
             then Inr \<lparr>RA_key = DK_ID key, RA_reserved = 0, RA_maximum = mx, RA_reservation = None\<rparr>
             else Inl (Price_error e)
         | Inr r \<Rightarrow>
             (case DK_Quota key of
                None \<Rightarrow> Inr \<lparr>RA_key = DK_ID key, RA_reserved = 0, RA_maximum = Rv_maximum r, RA_reservation = Some r\<rparr>
              | Some _ \<Rightarrow>
                  if Rv_reserved r = 0
                  then Inr \<lparr>RA_key = DK_ID key, RA_reserved = 1, RA_maximum = Rv_maximum r,
                            RA_reservation = Some (r\<lparr>Rv_reserved := 1\<rparr>)\<rparr>
                  else Inr \<lparr>RA_key = DK_ID key, RA_reserved = Rv_reserved r, RA_maximum = Rv_maximum r,
                            RA_reservation = Some r\<rparr>))"

definition prepare_accounting where
  "prepare_accounting parse_rat parse_date engine now key meta body =
     prepare_accounting_for_model parse_rat parse_date engine now key meta body (M_model meta)"

subsection \<open>The charge when the request ends\<close>

record finish_params =
  FP_model :: string
  FP_status :: string
  FP_http_status :: int
  FP_first_token :: "int option"
  FP_tokens :: token_usage
  FP_message :: string
  FP_charge :: bool

definition append_message :: "string \<Rightarrow> string \<Rightarrow> string" where
  "append_message existing addition = (if existing = [] then addition else existing @ ''; '' @ addition)"

definition usage_missing_message :: string where
  "usage_missing_message = ''upstream usage missing or invalid; billed the conservative reservation estimate''"

definition zero_usage :: usage where
  "zero_usage = \<lparr>U_input = 0, U_cache_read = 0, U_cache_write = 0, U_cache_write_1h = 0, U_output = 0, U_reasoning = 0\<rparr>"

text \<open>
  The first half of \<open>finish\<close>: the charge, the tokens and message to store, and the settlement's
  quote (\<open>None\<close> when the request had no price).
\<close>

definition compute_charge ::
  "(string \<Rightarrow> rat option) \<Rightarrow> request_accounting \<Rightarrow> finish_params
     \<Rightarrow> (pricing_error, int \<times> token_usage \<times> string \<times> quote option) result" where
  "compute_charge parse_rat account params =
     (case RA_reservation account of None \<Rightarrow> Inr (0, FP_tokens params, FP_message params, None)
      | Some reservation \<Rightarrow>
        let complete = usage_complete (FP_tokens params);
            fallback0 = (FP_charge params \<and> \<not> complete);
            actual0 = (if \<not> FP_charge params then zero_usage
                       else if complete then billing_usage (FP_tokens params) else RA_maximum account);
            tokens0 = (if fallback0 then usage_from_billing (RA_maximum account) else FP_tokens params);
            first = settle parse_rat reservation actual0;
            retry = (\<not> is_ok first \<and> FP_charge params \<and> \<not> fallback0);
            outcome = (if retry then settle parse_rat reservation (RA_maximum account) else first);
            tokens = (if retry then usage_from_billing (RA_maximum account) else tokens0)
        in case outcome of Inl e \<Rightarrow> Inl e
           | Inr s \<Rightarrow> Inr (St_charged s, tokens,
               if fallback0 \<or> retry then append_message (FP_message params) usage_missing_message else FP_message params,
               Some (St_quote s)))"

datatype finish_error = Settlement_error pricing_error | Store_error store_error

definition gateway_finish ::
  "(string \<Rightarrow> rat option) \<Rightarrow> (quote \<Rightarrow> string) \<Rightarrow> (string \<Rightarrow> string) \<Rightarrow> string \<Rightarrow> int \<Rightarrow> int \<Rightarrow> request_accounting
     \<Rightarrow> finish_params \<Rightarrow> quota_db \<Rightarrow> (finish_error, quota_db) result" where
  "gateway_finish parse_rat encode redact request duration now account params db =
     (case compute_charge parse_rat account params of Inl e \<Rightarrow> Inl (Settlement_error e)
      | Inr (charged, tokens, message, q) \<Rightarrow>
        (case finish_request_and_settle redact request (RA_key account) (RA_reserved account) charged
           \<lparr>RF_ActualModel = FP_model params, RF_Status = FP_status params, RF_HTTPStatus = FP_http_status params,
            RF_FirstTokenMS = FP_first_token params, RF_DurationMS = duration, RF_InputTokens = T_input tokens,
            RF_CacheReadTokens = T_cache_read tokens, RF_CacheWriteTokens = T_cache_write tokens,
            RF_CacheWrite1HTokens = T_cache_write_1h tokens, RF_OutputTokens = T_output tokens,
            RF_ReasoningTokens = T_reasoning tokens, RF_CostMicroUSD = charged,
            RF_PriceSnapshotJSON = (case q of None \<Rightarrow> [] | Some q' \<Rightarrow> encode q'), RF_ErrorMessage = message,
            RF_FinishedAt = now\<rparr> db of
           Inl e \<Rightarrow> Inl (Store_error e) | Inr db' \<Rightarrow> Inr db'))"

subsection \<open>The limits of a request\<close>

text \<open>The limits a body gives under the names of a surface, in order.\<close>

fun named_limits :: "(string \<times> json) list \<Rightarrow> string list \<Rightarrow> int list" where
  "named_limits payload [] = []"
| "named_limits payload (n # ns) =
     (case Option.bind (map_of payload n) number_int64 of None \<Rightarrow> named_limits payload ns
      | Some l \<Rightarrow> l # named_limits payload ns)"

lemma number_int64_nonneg: "number_int64 v = Some n \<Longrightarrow> 0 \<le> n"
  by (auto simp: number_int64_def split: json.splits option.splits if_splits)

lemma output_limits_spec:
  "output_limits payload names seen limit = Inr (seen', limit') \<Longrightarrow>
     seen' = (seen \<or> named_limits payload names \<noteq> []) \<and>
     limit' = (if seen then Max (insert limit (set (named_limits payload names)))
               else if named_limits payload names = [] then limit else Max (set (named_limits payload names))) \<and>
     (\<forall>n\<in>set (named_limits payload names). 0 \<le> n \<and> n \<le> max_requested_tokens)"
proof (induction payload names seen limit rule: output_limits.induct)
  case (1 payload seen limit)
  then show ?case by simp
next
  case (2 payload name names seen limit)
  show ?case
  proof (cases "map_of payload name")
    case None
    then show ?thesis using 2 by simp
  next
    case (Some v)
    then obtain n where n: "number_int64 v = Some n" "n \<le> max_requested_tokens"
      and rest: "output_limits payload names True (if \<not> seen \<or> n > limit then n else limit) = Inr (seen', limit')"
      using 2(3) by (auto split: option.splits if_splits)
    have bound: "\<not> n > max_requested_tokens" using n(2) by simp
    note IH = "2.IH"(2) [OF Some n(1) bound rest]
    have "Max (insert (if \<not> seen \<or> n > limit then n else limit) (set (named_limits payload names)))
      = (if seen then Max (insert limit (insert n (set (named_limits payload names))))
         else Max (insert n (set (named_limits payload names))))"
      by (cases "named_limits payload names = []") (auto simp: max_def)
    then show ?thesis using IH number_int64_nonneg [OF n(1)] n Some by simp
  qed
qed

lemma output_limits_again_spec:
  "output_limits_again payload names limit = Max (insert limit (set (named_limits payload names)))"
proof (induction names arbitrary: limit)
  case (Cons name names)
  show ?case
  proof (cases "Option.bind (map_of payload name) number_int64")
    case None
    then show ?thesis using Cons by (auto simp: Option.bind_eq_None_conv split: option.splits)
  next
    case (Some n)
    then obtain v where v: "map_of payload name = Some v" "number_int64 v = Some n"
      by (auto simp: bind_eq_Some_conv)
    have "Max (insert (if n > limit then n else limit) (set (named_limits payload names)))
      = Max (insert limit (insert n (set (named_limits payload names))))"
      by (cases "named_limits payload names = []") (auto simp: max_def)
    then show ?thesis using Cons v by simp
  qed
qed simp

lemma thinking_budget_spec:
  "thinking_budget vs b = Inr b' \<Longrightarrow> (\<forall>m. b = Some m \<longrightarrow> 0 \<le> m \<and> m \<le> max_requested_tokens) \<Longrightarrow>
     (\<forall>v\<in>set vs. number_int64 v \<noteq> None) \<and> (\<forall>m. b' = Some m \<longrightarrow> 0 \<le> m \<and> m \<le> max_requested_tokens)
     \<and> (b' = None \<longleftrightarrow> b = None \<and> vs = [])
     \<and> (\<forall>m. b' = Some m \<longrightarrow> (\<forall>v\<in>set vs. the (number_int64 v) \<le> m) \<and> (\<forall>k. b = Some k \<longrightarrow> k \<le> m))"
proof (induction vs arbitrary: b)
  case (Cons v vs)
  from Cons.prems(1) obtain n where n: "number_int64 v = Some n" "n \<le> max_requested_tokens"
    by (auto split: option.splits if_splits)
  define c where "c = (case b of None \<Rightarrow> Some n | Some m \<Rightarrow> if n > m then Some n else Some m)"
  have "thinking_budget vs c = Inr b'" using Cons.prems(1) n by (simp add: c_def split: if_splits)
  moreover have "\<forall>m. c = Some m \<longrightarrow> 0 \<le> m \<and> m \<le> max_requested_tokens"
    using Cons.prems(2) n number_int64_nonneg [OF n(1)] by (auto simp: c_def split: option.splits if_splits)
  ultimately have IH: "(\<forall>v\<in>set vs. number_int64 v \<noteq> None) \<and> (\<forall>m. b' = Some m \<longrightarrow> 0 \<le> m \<and> m \<le> max_requested_tokens)
     \<and> (b' = None \<longleftrightarrow> c = None \<and> vs = [])
     \<and> (\<forall>m. b' = Some m \<longrightarrow> (\<forall>v\<in>set vs. the (number_int64 v) \<le> m) \<and> (\<forall>k. c = Some k \<longrightarrow> k \<le> m))"
    by (rule Cons.IH)
  define k where "k = (case b of None \<Rightarrow> n | Some m \<Rightarrow> max n m)"
  have k: "c = Some k" "n \<le> k" "\<And>l. b = Some l \<Longrightarrow> l \<le> k"
    by (auto simp: c_def k_def max_def split: option.splits)
  then obtain m where m: "b' = Some m" "k \<le> m" using IH by (cases b') auto
  then have "l \<le> m" if "b = Some l" for l using k(3) [OF that] by simp
  then show ?case using IH n k m by auto
qed simp

text \<open>
  The completion limit used for metering is the largest limit the client named, the default of
  4096 when it named none; the thinking budget is at least every budget it named; both lie
  between 0 and a million, and an accepted request has a model name.
\<close>

theorem request_limits_exact:
  assumes "parse_inference_meta decode names body = Inr m"
  shows "\<exists>payload. decode body = Some payload \<and> M_model m \<noteq> []
    \<and> M_max_output m = (if named_limits payload names = [] then 4096 else Max (set (named_limits payload names)))
    \<and> 0 \<le> M_max_output m \<and> M_max_output m \<le> 1000000
    \<and> (M_thinking_budget m = None \<longleftrightarrow> thinking_limits payload = [])
    \<and> (\<forall>b. M_thinking_budget m = Some b \<longrightarrow> 0 \<le> b \<and> b \<le> 1000000
        \<and> (\<forall>v\<in>set (thinking_limits payload). the (number_int64 v) \<le> b))"
proof -
  obtain payload where p: "decode body = Some payload"
    using assms by (cases "decode body") (simp_all add: parse_inference_meta_def)
  obtain seen limit where l: "output_limits payload names False default_max_output_tokens = Inr (seen, limit)"
    and model: "M_model m \<noteq> []"
    and m: "M_max_output m = (if seen \<and> limit = default_max_output_tokens
        then output_limits_again payload names 0 else limit)"
    and t: "thinking_budget (thinking_limits payload) None = Inr (M_thinking_budget m)"
    using assms by (auto simp: parse_inference_meta_def p Let_def split: if_splits sum.splits prod.splits)
  note spec = output_limits_spec [OF l]
  let ?L = "named_limits payload names"
  have out: "M_max_output m = (if ?L = [] then 4096 else Max (set ?L))"
  proof (cases "?L = []")
    case True
    then show ?thesis using spec m by (simp add: default_max_output_tokens_def)
  next
    case False
    then have "0 \<le> Max (set ?L)" using spec by (auto simp: Max_ge_iff neq_Nil_conv)
    then have "Max (insert 0 (set ?L)) = Max (set ?L)" using False by simp
    then show ?thesis using spec m False by (simp add: output_limits_again_spec default_max_output_tokens_def)
  qed
  have range: "0 \<le> M_max_output m \<and> M_max_output m \<le> 1000000"
  proof (cases "?L = []")
    case False
    then have "Max (set ?L) \<in> set ?L" by simp
    then show ?thesis using spec out False by (simp add: max_requested_tokens_def)
  qed (simp add: out)
  have "\<forall>b. M_thinking_budget m = Some b \<longrightarrow> 0 \<le> b \<and> b \<le> 1000000
        \<and> (\<forall>v\<in>set (thinking_limits payload). the (number_int64 v) \<le> b)"
    and "M_thinking_budget m = None \<longleftrightarrow> thinking_limits payload = []"
    using thinking_budget_spec [OF t] by (simp_all add: max_requested_tokens_def)
  with p model out range show ?thesis by (intro exI [of _ payload] conjI) simp_all
qed

text \<open>A chat body that names both limits: the larger one counts.\<close>

definition example_payload :: "(string \<times> json) list" where
  "example_payload = [(''model'', JString ''gpt-x''), (''max_tokens'', JNumber ''100''),
     (''max_completion_tokens'', JNumber ''500''), (''thinking_budget'', JNumber ''200''), (''stream'', JBool True)]"

definition example_meta :: chat_meta where
  "example_meta = \<lparr>M_model = ''gpt-x'', M_stream = True, M_reasoning_effort = '''',
     M_thinking_budget = Some 200, M_max_output = 500\<rparr>"

lemma example_parse: "parse_chat_meta (\<lambda>_. Some example_payload) ''x'' = Inr example_meta"
proof -
  have "trim_space ''gpt-x'' = ''gpt-x''" "atoi ''100'' = Some 100" "atoi ''500'' = Some 500" "atoi ''200'' = Some 200"
    by code_simp+
  then show ?thesis
    by (simp add: parse_chat_meta_def parse_inference_meta_def example_payload_def example_meta_def as_string_def
        as_bool_def as_object_def number_int64_def thinking_limits_def max_requested_tokens_def
        default_max_output_tokens_def Let_def)
qed

lemma request_limits_exact_witness:
  "M_max_output example_meta = 500 \<and> M_max_output example_meta \<le> 1000000 \<and> M_model example_meta \<noteq> []"
  using request_limits_exact [OF example_parse [unfolded parse_chat_meta_def]]
  by (simp add: example_meta_def)

subsection \<open>Token usage\<close>

definition payload_values :: "usage_payload \<Rightarrow> int option list" where
  "payload_values u = [UP_prompt_tokens u, UP_input_tokens u, UP_completion_tokens u, UP_output_tokens u,
     UP_cache_read_input u, UP_cache_creation_input u, UP_ephemeral_5m u, UP_ephemeral_1h u, UP_prompt_cached u,
     UP_prompt_cache_write u, UP_prompt_cache_creation u, UP_input_cached u, UP_input_cache_write u,
     UP_input_cache_creation u, UP_completion_reasoning u, UP_output_reasoning u]"

text \<open>The fields of \<open>usagePayload\<close> are \<open>int64\<close>.\<close>

definition payload_int64 :: "usage_payload \<Rightarrow> bool" where
  "payload_int64 u \<longleftrightarrow> list_all (\<lambda>v. case v of None \<Rightarrow> True | Some n \<Rightarrow> is_int64 n) (payload_values u)"

lemma first_int64_mem: "first_int64 vs = Some n \<Longrightarrow> Some n \<in> set vs"
  by (induction vs) (auto split: option.splits)

lemma payload_int64_first:
  "payload_int64 u \<Longrightarrow> first_int64 vs = Some n \<Longrightarrow> set vs \<subseteq> set (payload_values u) \<Longrightarrow> is_int64 n"
  using first_int64_mem by (fastforce simp: payload_int64_def list_all_iff)

lemma wrap64_difference: "is_int64 t \<Longrightarrow> 0 \<le> s \<Longrightarrow> s \<le> t \<Longrightarrow> wrap64 (t - s) = t - s"
  by (simp add: wrap64_id is_int64_def)

text \<open>What the parsers of totals and subsets answer, without wrap-around.\<close>

lemma canonical_pair_exact:
  assumes "\<forall>t. tot = Some t \<longrightarrow> is_int64 t"
  shows "canonical_token_pair tot part =
    (case tot of None \<Rightarrow> None
     | Some t \<Rightarrow> if 0 \<le> or_zero part \<and> or_zero part \<le> t then Some (t - or_zero part, or_zero part) else None)"
proof (cases tot)
  case (Some t)
  with assms have "is_int64 t" by blast
  with Some show ?thesis
    by (cases part) (auto simp: canonical_token_pair_def wrap64_difference wrap64_id)
qed (simp add: canonical_token_pair_def)

lemma canonical_groups_exact:
  assumes "\<forall>t. tot = Some t \<longrightarrow> is_int64 t"
  shows "canonical_token_groups tot [a, b] =
    (case tot of None \<Rightarrow> None
     | Some t \<Rightarrow> if 0 \<le> or_zero a \<and> 0 \<le> or_zero b \<and> or_zero a + or_zero b \<le> t
                 then Some (t - or_zero a - or_zero b, [or_zero a, or_zero b]) else None)"
proof (cases tot)
  case (Some t)
  with assms have t: "is_int64 t" by blast
  then have sub: "0 \<le> s \<Longrightarrow> s \<le> t \<Longrightarrow> is_int64 (t - s)" for s by (auto simp: is_int64_def)
  show ?thesis
    using Some t sub [of "or_zero a"]
    by (cases a; cases b) (auto simp: canonical_token_groups_def wrap64_difference wrap64_id)
qed (simp add: canonical_token_groups_def)

lemma canonical_anthropic_exact:
  assumes "payload_int64 u"
  shows "canonical_anthropic_prompt u =
    (let c = or_zero (UP_cache_creation_input u); w5 = or_zero (UP_ephemeral_5m u); w1 = or_zero (UP_ephemeral_1h u)
     in if 0 \<le> or_zero (UP_input_tokens u) \<and> 0 \<le> or_zero (UP_cache_read_input u) \<and> 0 \<le> c \<and> 0 \<le> w5 \<and> 0 \<le> w1 \<and>
           (w5 = 0 \<and> w1 = 0 \<or> w5 + w1 = c)
        then Some (or_zero (UP_input_tokens u), or_zero (UP_cache_read_input u), if w5 = 0 \<and> w1 = 0 then c else w5, w1)
        else None)"
proof -
  let ?c = "or_zero (UP_cache_creation_input u)" and ?w5 = "or_zero (UP_ephemeral_5m u)"
    and ?w1 = "or_zero (UP_ephemeral_1h u)"
  have "is_int64 ?c"
    using assms by (auto simp: payload_int64_def payload_values_def is_int64_def [of 0] split: option.splits)
  then have "0 \<le> ?w5 \<Longrightarrow> ?w5 \<le> ?c \<Longrightarrow> wrap64 (?c - ?w5) = ?c - ?w5"
    and "0 \<le> ?w5 \<Longrightarrow> 0 \<le> ?w1 \<Longrightarrow> ?w5 + ?w1 \<le> ?c \<Longrightarrow> wrap64 (?w5 + ?w1) = ?w5 + ?w1"
    by (simp_all add: wrap64_id is_int64_def)
  then show ?thesis
    unfolding canonical_anthropic_prompt_def Let_def
    by (smt (verit, best))
qed

text \<open>\<^bold>\<open>C25.\<close>
  The tokens of a response are sorted into their categories exactly. Usage is read when the upstream reports
  the output tokens, its reasoning tokens are a part of them, and the prompt adds up; else it is withheld
  altogether (\<open>no_usage\<close>). Reasoning tokens are taken out of the output. If neither of the top-level fields
  \<open>cache_read_input_tokens\<close> and \<open>cache_creation_input_tokens\<close> is there, the prompt total must be, the cached
  and the cache-write tokens of the detail fields must fit into it, and they are taken out of the input. If one of the two is
  there, the input is \<open>input_tokens\<close> alone, beside the two, and the cache writes are split by lifetime,
  which must add up unless none is given. In that case \<open>prompt_tokens\<close> is never looked at: a payload that
  has it and no \<open>input_tokens\<close> is read as one without input.
\<close>

theorem usage_counted_once:
  assumes "payload_int64 u"
    and "reasoning = or_zero (first_int64 [UP_completion_reasoning u, UP_output_reasoning u])"
    and "cached = or_zero (first_int64 [UP_prompt_cached u, UP_input_cached u])"
    and "written = or_zero (first_int64 [UP_prompt_cache_write u, UP_input_cache_write u,
      UP_prompt_cache_creation u, UP_input_cache_creation u])"
    and "creation = or_zero (UP_cache_creation_input u)" and "input = or_zero (UP_input_tokens u)"
    and "read = or_zero (UP_cache_read_input u)"
    and "w5 = or_zero (UP_ephemeral_5m u)" and "w1 = or_zero (UP_ephemeral_1h u)"
  shows "canonical_usage u =
    (case first_int64 [UP_completion_tokens u, UP_output_tokens u] of
       None \<Rightarrow> no_usage
     | Some output \<Rightarrow>
         if reasoning < 0 \<or> output < reasoning then no_usage
         else if UP_cache_read_input u \<noteq> None \<or> UP_cache_creation_input u \<noteq> None
         then if 0 \<le> input \<and> 0 \<le> read \<and> 0 \<le> creation \<and> 0 \<le> w5 \<and> 0 \<le> w1 \<and> (w5 = 0 \<and> w1 = 0 \<or> w5 + w1 = creation)
              then \<lparr>T_input = Some input, T_cache_read = Some read,
                     T_cache_write = Some (if w5 = 0 \<and> w1 = 0 then creation else w5), T_cache_write_1h = Some w1,
                     T_output = Some (output - reasoning), T_reasoning = Some reasoning\<rparr>
              else no_usage
         else case first_int64 [UP_prompt_tokens u, UP_input_tokens u] of
           None \<Rightarrow> no_usage
         | Some prompt \<Rightarrow>
             if 0 \<le> cached \<and> 0 \<le> written \<and> cached + written \<le> prompt
             then \<lparr>T_input = Some (prompt - cached - written), T_cache_read = Some cached, T_cache_write = Some written,
                    T_cache_write_1h = Some 0, T_output = Some (output - reasoning), T_reasoning = Some reasoning\<rparr>
             else no_usage)"
proof -
  let ?done = "first_int64 [UP_completion_tokens u, UP_output_tokens u]"
  let ?prompt = "first_int64 [UP_prompt_tokens u, UP_input_tokens u]"
  have "\<forall>k. ?done = Some k \<longrightarrow> is_int64 k"
    by (intro allI impI, rule payload_int64_first [OF assms(1)], assumption) (simp add: payload_values_def)
  note out = canonical_pair_exact [OF this]
  have "\<forall>k. ?prompt = Some k \<longrightarrow> is_int64 k"
    by (intro allI impI, rule payload_int64_first [OF assms(1)], assumption) (simp add: payload_values_def)
  note groups = canonical_groups_exact [OF this]
  define finished where "finished = ?done"
  define prompt where "prompt = ?prompt"
  define anthropic where "anthropic \<longleftrightarrow> UP_cache_read_input u \<noteq> None \<or> UP_cache_creation_input u \<noteq> None"
  define adds_up where "adds_up \<longleftrightarrow> 0 \<le> input \<and> 0 \<le> read \<and> 0 \<le> creation \<and> 0 \<le> w5 \<and> 0 \<le> w1 \<and>
    (w5 = 0 \<and> w1 = 0 \<or> w5 + w1 = creation)"
  note usage = canonical_usage_def [of u, unfolded Let_def out groups
    canonical_anthropic_exact [OF assms(1), unfolded Let_def, folded assms(5-9)],
    folded assms(2-4) finished_def prompt_def anthropic_def adds_up_def]
  have fits: "(0 \<le> reasoning \<and> reasoning \<le> n) \<longleftrightarrow> \<not> (reasoning < 0 \<or> n < reasoning)" for n by auto
  show ?thesis
    unfolding finished_def [symmetric] prompt_def [symmetric] anthropic_def [symmetric] adds_up_def [symmetric] usage fits
    by (cases finished; cases anthropic; cases adds_up; cases prompt) simp_all
qed

text \<open>A chat payload with details, and one that mixes both shapes: its thousand prompt tokens are not counted.\<close>

definition example_reported :: usage_payload where
  "example_reported = \<lparr>UP_prompt_tokens = Some 1000, UP_input_tokens = None, UP_completion_tokens = Some 300,
     UP_output_tokens = None, UP_cache_read_input = None, UP_cache_creation_input = None, UP_ephemeral_5m = None,
     UP_ephemeral_1h = None, UP_prompt_cached = Some 400, UP_prompt_cache_write = None,
     UP_prompt_cache_creation = Some 50, UP_input_cached = None, UP_input_cache_write = None,
     UP_input_cache_creation = None, UP_completion_reasoning = Some 120, UP_output_reasoning = None\<rparr>"

lemma usage_counted_once_witness:
  "canonical_usage example_reported = \<lparr>T_input = Some 550, T_cache_read = Some 400, T_cache_write = Some 50,
      T_cache_write_1h = Some 0, T_output = Some 180, T_reasoning = Some 120\<rparr>
   \<and> canonical_usage (example_reported\<lparr>UP_cache_read_input := Some 400\<rparr>) = \<lparr>T_input = Some 0, T_cache_read = Some 400,
      T_cache_write = Some 0, T_cache_write_1h = Some 0, T_output = Some 180, T_reasoning = Some 120\<rparr>
   \<and> canonical_usage (example_reported\<lparr>UP_prompt_cached := Some 1001\<rparr>) = no_usage"
proof -
  have "payload_int64 example_reported" "payload_int64 (example_reported\<lparr>UP_cache_read_input := Some 400\<rparr>)"
    "payload_int64 (example_reported\<lparr>UP_prompt_cached := Some 1001\<rparr>)"
    by (simp_all add: payload_int64_def payload_values_def example_reported_def is_int64_def)
  from this [THEN usage_counted_once] show ?thesis
    by (simp add: example_reported_def)
qed

subsection \<open>The charge of a finished request\<close>

lemma settle_Inr_iff: "(\<exists>s. settle P R u = Inr s) \<longleftrightarrow> (\<exists>q. quote_snapshot P (Rv_snapshot R) u = Inr q)"
  by (auto simp: settle_def Let_def split: sum.splits)

lemma settle_charged:
  "settle P R u = Inr s \<Longrightarrow> \<exists>q. quote_snapshot P (Rv_snapshot R) u = Inr q \<and> St_charged s = CB_total (Q_cost q) \<and> St_quote s = q"
  by (auto simp: settle_def Let_def split: sum.splits)

lemma select_band_zero: "select_band bs n = Some b \<Longrightarrow> 0 \<le> n \<Longrightarrow> \<exists>b'. select_band bs 0 = Some b'"
  by (induction bs) (auto split: option.splits if_splits)

text \<open>A snapshot that prices some usage prices no usage at all, at nothing.\<close>

lemma quote_zero:
  assumes "quote_snapshot P s u = Inr q"
  shows "\<exists>q0. quote_snapshot P s zero_usage = Inr q0 \<and> CB_total (Q_cost q0) = 0"
proof -
  obtain n band fx where n: "prompt_tokens u = Inr n" and band: "select_band (PS_bands s) n = Some band"
    and fx: "fx_rate P s = Inr fx"
    using assms by (rule quote_snapshot_InrD) blast
  have zero: "prompt_tokens zero_usage = Inr 0" by (simp add: prompt_tokens_iff zero_usage_def)
  have "0 \<le> n" using n by (simp add: prompt_tokens_iff)
  then obtain b0 where b0: "select_band (PS_bands s) 0 = Some b0" using select_band_zero [OF band] by blast
  have ok: "list_all (priceable P) (component_list b0 zero_usage)"
    by (simp add: priceable_component_list zero_usage_def)
  have cost: "exact_cost P fx (component_list b0 zero_usage) = 0"
    by (simp add: exact_cost_unfold zero_usage_def Let_def)
  have half: "\<lfloor>1 / 2 :: rat\<rfloor> = 0" by (simp add: floor_eq_iff)
  obtain q0 where q0: "quote_snapshot P s zero_usage = Inr q0"
    using quote_snapshot_InrI [OF zero b0 fx ok] by (auto simp: cost half is_int64_def)
  have "CB_total (Q_cost q0) = 0"
    using q0 by (rule quote_snapshot_InrD) (use zero b0 fx cost half in auto)
  then show ?thesis using q0 by blast
qed

text \<open>The cases of \<open>prepareAccountingForModel\<close>.\<close>

lemma prepare_accounting_InrD:
  assumes "prepare_accounting_for_model P D engine now key meta body model = Inr acc"
  shows "RA_reservation acc = None \<and> RA_reserved acc = 0 \<and> DK_Quota key = None
    \<or> (\<exists>m mx R. reserve_at P D engine m mx now = Inr R \<and> RA_maximum acc = Rv_maximum R
        \<and> (\<exists>R'. RA_reservation acc = Some R' \<and> Rv_snapshot R' = Rv_snapshot R)
        \<and> RA_reserved acc = (if DK_Quota key = None then 0 else max 1 (Rv_reserved R)))"
proof -
  define mx where "mx = maximum_usage meta (int (length body))"
  define m where "m = (if trim_space model = [] then M_model meta else trim_space model)"
  have eq: "(case reserve_at P D engine m mx now of
           Inl e \<Rightarrow>
             if DK_Quota key = None \<and> is_pricing_unavailable (Price_error e)
             then Inr \<lparr>RA_key = DK_ID key, RA_reserved = 0, RA_maximum = mx, RA_reservation = None\<rparr>
             else Inl (Price_error e)
         | Inr r \<Rightarrow>
             (case DK_Quota key of
                None \<Rightarrow> Inr \<lparr>RA_key = DK_ID key, RA_reserved = 0, RA_maximum = Rv_maximum r, RA_reservation = Some r\<rparr>
              | Some _ \<Rightarrow>
                  if Rv_reserved r = 0
                  then Inr \<lparr>RA_key = DK_ID key, RA_reserved = 1, RA_maximum = Rv_maximum r,
                            RA_reservation = Some (r\<lparr>Rv_reserved := 1\<rparr>)\<rparr>
                  else Inr \<lparr>RA_key = DK_ID key, RA_reserved = Rv_reserved r, RA_maximum = Rv_maximum r,
                            RA_reservation = Some r\<rparr>)) = Inr acc"
    using assms unfolding prepare_accounting_for_model_def Let_def mx_def [symmetric] m_def [symmetric]
    by (simp split: if_split_asm)
  show ?thesis
  proof (cases "reserve_at P D engine m mx now")
    case (Inl e)
    then show ?thesis using eq by (auto split: if_splits)
  next
    case (Inr R)
    have "0 \<le> Rv_reserved R" using reserved_in_range [OF Inr] by simp
    then have "RA_maximum acc = Rv_maximum R \<and> (\<exists>R'. RA_reservation acc = Some R' \<and> Rv_snapshot R' = Rv_snapshot R)
        \<and> RA_reserved acc = (if DK_Quota key = None then 0 else max 1 (Rv_reserved R))"
      using eq Inr by (auto simp: max_def split: option.splits if_splits)
    then show ?thesis using Inr by blast
  qed
qed

lemma compute_charge_outcome:
  assumes "RA_reservation acc = Some R" and max: "settle P R (RA_maximum acc) = Inr s1"
    and zero: "settle P R zero_usage = Inr s0"
  shows "\<exists>s tokens message. compute_charge P acc params = Inr (St_charged s, tokens, message, Some (St_quote s))
    \<and> s = (if \<not> FP_charge params then s0
           else if usage_complete (FP_tokens params)
           then (case settle P R (billing_usage (FP_tokens params)) of Inl _ \<Rightarrow> s1 | Inr s \<Rightarrow> s) else s1)
    \<and> tokens = (if FP_charge params \<and> (\<not> usage_complete (FP_tokens params)
           \<or> \<not> is_ok (settle P R (billing_usage (FP_tokens params))))
           then usage_from_billing (RA_maximum acc) else FP_tokens params)"
  using assms by (cases "settle P R (billing_usage (FP_tokens params))") (simp_all add: compute_charge_def Let_def)

text \<open>\<^bold>\<open>C24.\<close>
  A request that was let in can always be settled: whatever the upstream reports, the charge is
  computed without error and lies in the range of \<open>int64\<close>. A request that is not charged costs
  nothing; one whose usage is missing or cannot be priced is charged the estimate that was
  reserved (never more than the reservation a metered key holds, which is at least one
  micro-dollar); a request without a confirmed price, possible for unmetered keys only, is free.
\<close>

theorem admitted_request_settles:
  assumes "prepare_accounting_for_model P D engine now key meta body model = Inr acc"
  shows "\<exists>charged tokens message q. compute_charge P acc params = Inr (charged, tokens, message, q)
    \<and> 0 \<le> charged \<and> charged \<le> max_int64
    \<and> (\<not> FP_charge params \<or> RA_reservation acc = None \<longrightarrow> charged = 0)
    \<and> (RA_reservation acc = None \<longrightarrow> DK_Quota key = None)
    \<and> (DK_Quota key = None \<longleftrightarrow> RA_reserved acc = 0) \<and> 0 \<le> RA_reserved acc
    \<and> (FP_charge params \<and> \<not> usage_complete (FP_tokens params) \<and> DK_Quota key \<noteq> None \<longrightarrow> charged \<le> RA_reserved acc)"
proof (cases "RA_reservation acc")
  case None
  then show ?thesis
    using prepare_accounting_InrD [OF assms] by (auto simp: compute_charge_def)
next
  case (Some R')
  then obtain m mx R where R: "reserve_at P D engine m mx now = Inr R" and top: "RA_maximum acc = Rv_maximum R"
    and snap: "Rv_snapshot R' = Rv_snapshot R"
    and reserved: "RA_reserved acc = (if DK_Quota key = None then 0 else max 1 (Rv_reserved R))"
    using prepare_accounting_InrD [OF assms] by auto
  obtain q1 where q1: "quote_snapshot P (Rv_snapshot R') (RA_maximum acc) = Inr q1"
    and est: "Rv_reserved R = CB_total (Q_cost q1)"
    using reserve_at_InrD [OF R] snap top by metis
  obtain q0 where q0: "quote_snapshot P (Rv_snapshot R') zero_usage = Inr q0" "CB_total (Q_cost q0) = 0"
    using quote_zero [OF q1] by blast
  obtain s1 where s1: "settle P R' (RA_maximum acc) = Inr s1" using settle_Inr_iff q1 by blast
  obtain s0 where s0: "settle P R' zero_usage = Inr s0" using settle_Inr_iff q0(1) by blast
  have charged: "St_charged s1 = Rv_reserved R" "St_charged s0 = 0"
    using settle_charged [OF s1] settle_charged [OF s0] q1 q0 est by auto
  have range: "0 \<le> St_charged s \<and> St_charged s \<le> max_int64" if "settle P R' u = Inr s" for u s
    using settle_charged [OF that] quote_total_nonneg by auto
  obtain s tokens message where c: "compute_charge P acc params = Inr (St_charged s, tokens, message, Some (St_quote s))"
    and s: "s = (if \<not> FP_charge params then s0
           else if usage_complete (FP_tokens params)
           then (case settle P R' (billing_usage (FP_tokens params)) of Inl _ \<Rightarrow> s1 | Inr s \<Rightarrow> s) else s1)"
    using compute_charge_outcome [OF Some s1 s0, of params] by blast
  have "0 \<le> St_charged s \<and> St_charged s \<le> max_int64"
    using range [OF s1] range [OF s0] range by (auto simp: s split: sum.splits)
  then show ?thesis
    using c s charged reserved Some by auto
qed

definition example_key :: key_row where
  "example_key = \<lparr>DK_ID = 1, DK_Name = ''k'', DK_KeyPrefix = '''', DK_KeyHash = ''h'', DK_Enabled = True,
     DK_Quota = Some 100000, DK_RPMLimit = 0, DK_Used = 0, DK_Reserved = 0, DK_AllowedModels = [],
     DK_RoutingProfileID = None, DK_ExpiresAt = None, DK_LastUsedAt = None, DK_CreatedAt = 0, DK_UpdatedAt = 0\<rparr>"

abbreviation example_maximum :: usage where
  "example_maximum \<equiv> \<lparr>U_input = 1024, U_cache_read = 0, U_cache_write = 0, U_cache_write_1h = 0,
     U_output = 300, U_reasoning = 200\<rparr>"

lemma example_maximum_quotes:
  "conservative_maximum_usage plain_decimal example_snapshot example_maximum = Inr example_maximum"
  "map_sum id (\<lambda>q. CB_total (Q_cost q)) (quote_snapshot plain_decimal example_snapshot example_maximum) = Inr 7560"
  by code_simp+

lemma example_prepared:
  "\<exists>acc. prepare_accounting_for_model plain_decimal example_date (Some example_catalog') 0 example_key example_meta
     '''' ''gpt-x-latest'' = Inr acc \<and> RA_reserved acc = 7560"
proof -
  obtain q where q: "quote_snapshot plain_decimal example_snapshot example_maximum = Inr q" "CB_total (Q_cost q) = 7560"
    using example_maximum_quotes(2) by (cases "quote_snapshot plain_decimal example_snapshot example_maximum") auto
  have "maximum_usage example_meta 0 = example_maximum"
    by (simp add: maximum_usage_def example_meta_def input_token_overhead_def wrap64_def Let_def)
  moreover have "Pr_priced example_price'" by (simp add: example_price'_def example_price_def)
  moreover have "trim_space ''gpt-x-latest'' = ''gpt-x-latest''" by code_simp
  ultimately show ?thesis
    by (simp add: prepare_accounting_for_model_def example_key_def input_token_overhead_def Let_def reserve_at_def
        example_lookup example_snapshot_of example_maximum_quotes(1) q)
qed

lemma admitted_request_settles_witness:
  "\<exists>acc charged tokens message q.
     prepare_accounting_for_model plain_decimal example_date (Some example_catalog') 0 example_key example_meta
       '''' ''gpt-x-latest'' = Inr acc \<and> RA_reserved acc = 7560
     \<and> compute_charge plain_decimal acc
         \<lparr>FP_model = ''gpt-x'', FP_status = ''success'', FP_http_status = 200, FP_first_token = None,
          FP_tokens = no_usage, FP_message = '''', FP_charge = True\<rparr> = Inr (charged, tokens, message, q)
     \<and> charged \<le> 7560"
proof -
  let ?p = "\<lparr>FP_model = ''gpt-x'', FP_status = ''success'', FP_http_status = 200, FP_first_token = None,
          FP_tokens = no_usage, FP_message = '''', FP_charge = True\<rparr>"
  obtain acc where acc: "prepare_accounting_for_model plain_decimal example_date (Some example_catalog') 0 example_key
      example_meta '''' ''gpt-x-latest'' = Inr acc" "RA_reserved acc = 7560"
    using example_prepared by blast
  have "FP_charge ?p \<and> \<not> usage_complete (FP_tokens ?p) \<and> DK_Quota example_key \<noteq> None"
    by (simp add: usage_complete_def no_usage_def example_key_def)
  then show ?thesis using admitted_request_settles [OF acc(1), of ?p] acc by fastforce
qed

end
