(* ===== verification/SiteStore.thy ===== *)
theory SiteStore
  imports StoreBase Protocol
begin

text \<open>
  The site domain of the store: sites with their inference endpoints and credentials
  (\<open>store/v3_sites.go\<close>, \<open>store/v3_inference.go\<close>). The tables of the whole domain, which the
  theories on the model catalogue, the published models and the routing profiles share, are
  declared here, with the constraints of the schema (\<open>store/migrations.go\<close>) written out at each
  statement: \<open>UNIQUE\<close> (site, credential and profile names without case), foreign keys, and the
  deletions they cascade to. Each table's \<open>AUTOINCREMENT\<close> counter is a field of the state.
  Boolean columns are \<open>bool\<close>, a \<open>NULL\<close> text column is the empty string. \<open>NowMS()\<close> is the argument
  \<open>clock\<close>; \<open>compact_json\<close> is \<open>json.Valid\<close> with \<open>json.Compact\<close>; \<open>redact\<close> is \<open>redact.String\<close>.
\<close>

subsection \<open>The tables\<close>

record site_row =
  S_ID :: int
  S_Name :: string
  S_DashboardURL :: string
  S_Enabled :: bool
  S_Revision :: int
  S_CreatedAt :: int
  S_UpdatedAt :: int

record endpoint_row =
  E_ID :: int
  E_SiteID :: int
  E_Name :: string
  E_BaseURL :: string
  E_WireProtocol :: string
  E_CompatibilityProfile :: string
  E_AuthScheme :: string
  E_CustomHeaders :: string
  E_Position :: int
  E_Enabled :: bool
  E_Revision :: int
  E_CreatedAt :: int
  E_UpdatedAt :: int

record credential_row =
  CR_ID :: int
  CR_SiteID :: int
  CR_Name :: string
  CR_SecretCipher :: string
  CR_Position :: int
  CR_Enabled :: bool
  CR_RuntimeState :: string
  CR_CooldownUntil :: "int option"
  CR_LastTestAt :: "int option"
  CR_LastTestStatus :: string
  CR_LastErrorMessage :: string
  CR_Revision :: int
  CR_CreatedAt :: int
  CR_UpdatedAt :: int

record site_model_row =
  SM_ID :: int
  SM_SiteID :: int
  SM_EndpointID :: int
  SM_ModelName :: string
  SM_DisplayName :: string
  SM_Enabled :: bool
  SM_Stale :: bool
  SM_MissingCount :: int
  SM_LastSeenAt :: "int option"
  SM_Revision :: int
  SM_CreatedAt :: int
  SM_UpdatedAt :: int

record access_row =
  MA_SiteID :: int
  MA_CredentialID :: int
  MA_SiteModelID :: int
  MA_Availability :: string
  MA_MissingCount :: int
  MA_LastSeenAt :: "int option"
  MA_LastCheckedAt :: "int option"
  MA_Revision :: int
  MA_UpdatedAt :: int

record published_row =
  PM_ID :: int
  PM_PublicName :: string
  PM_DisplayName :: string
  PM_OfficialPriceSKU :: string
  PM_Enabled :: bool
  PM_MonitorEnabled :: bool
  PM_MonitorIntervalSeconds :: int
  PM_CooldownSeconds :: int
  PM_FailureThreshold :: int
  PM_FailureWindowSeconds :: int
  PM_FirstOutputTimeoutSeconds :: int
  PM_StreamIdleTimeoutSeconds :: int
  PM_RequestDeadlineSeconds :: int
  PM_MaxAttempts :: int
  PM_Revision :: int
  PM_CreatedAt :: int
  PM_UpdatedAt :: int

record target_row =
  RT_ID :: int
  RT_PublishedModelID :: int
  RT_SiteID :: int
  RT_EndpointID :: int
  RT_SiteModelID :: int
  RT_Position :: int
  RT_Enabled :: bool
  RT_Revision :: int
  RT_CreatedAt :: int
  RT_UpdatedAt :: int

record profile_row =
  RP_ID :: int
  RP_Name :: string
  RP_Revision :: int
  RP_CreatedAt :: int
  RP_UpdatedAt :: int

record override_row =
  OV_ProfileID :: int
  OV_ModelID :: int
  OV_TargetID :: int
  OV_Position :: int
  OV_CreatedAt :: int
  OV_UpdatedAt :: int

record site_db =
  db_sites :: "site_row list"
  db_endpoints :: "endpoint_row list"
  db_credentials :: "credential_row list"
  db_models :: "site_model_row list"
  db_access :: "access_row list"
  db_published :: "published_row list"
  db_targets :: "target_row list"
  db_profiles :: "profile_row list"
  db_overrides :: "override_row list"
  seq_sites :: int
  seq_endpoints :: int
  seq_credentials :: int
  seq_models :: int
  seq_published :: int
  seq_targets :: int
  seq_profiles :: int

definition empty_site_db :: site_db where
  "empty_site_db = \<lparr>db_sites = [], db_endpoints = [], db_credentials = [], db_models = [], db_access = [],
     db_published = [], db_targets = [], db_profiles = [], db_overrides = [], seq_sites = 0, seq_endpoints = 0,
     seq_credentials = 0, seq_models = 0, seq_published = 0, seq_targets = 0, seq_profiles = 0\<rparr>"

subsection \<open>SQL\<close>

text \<open>\<open>COLLATE NOCASE\<close> and \<open>lower()\<close> fold the 26 ASCII letters.\<close>

definition nocase :: "string \<Rightarrow> string" where
  "nocase s = map (\<lambda>c. if ascii_upper c then ascii_lower c else c) s"

fun bytes_less :: "string \<Rightarrow> string \<Rightarrow> bool" where
  "bytes_less [] t = (t \<noteq> [])"
| "bytes_less (c # s) [] = False"
| "bytes_less (c # s) (d # t) =
     (of_char c < (of_char d :: int) \<or> c = d \<and> bytes_less s t)"

text \<open>\<open>ORDER BY name COLLATE NOCASE, id\<close>\<close>

definition name_before :: "('r \<Rightarrow> string) \<Rightarrow> ('r \<Rightarrow> int) \<Rightarrow> 'r \<Rightarrow> 'r \<Rightarrow> bool" where
  "name_before name key a b \<longleftrightarrow> bytes_less (nocase (name a)) (nocase (name b))
     \<or> nocase (name a) = nocase (name b) \<and> key a < key b"

text \<open>\<open>ORDER BY position, id\<close>\<close>

definition position_before :: "('r \<Rightarrow> int) \<Rightarrow> ('r \<Rightarrow> int) \<Rightarrow> 'r \<Rightarrow> 'r \<Rightarrow> bool" where
  "position_before pos key a b \<longleftrightarrow> pos a < pos b \<or> pos a = pos b \<and> key a < key b"

text \<open>\<open>COALESCE(MAX(position)+1,0)\<close>\<close>

definition next_position :: "('r \<Rightarrow> int) \<Rightarrow> 'r list \<Rightarrow> int" where
  "next_position pos rows = (case rows of [] \<Rightarrow> 0 | r # rs \<Rightarrow> fold (\<lambda>x m. max (pos x) m) rs (pos r) + 1)"

text \<open>
  A guarded update whose new row must satisfy the constraints \<open>ok\<close>: the statement fails when the
  row it changes violates one.
\<close>

definition update_constrained ::
  "('r \<Rightarrow> int) \<Rightarrow> ('r \<Rightarrow> int) \<Rightarrow> int \<Rightarrow> int \<Rightarrow> ('r \<Rightarrow> 'r) \<Rightarrow> ('r \<Rightarrow> bool) \<Rightarrow> 'r list \<Rightarrow> (store_error, 'r list) result" where
  "update_constrained key rv row_id expected f ok t =
     (case row_by key row_id t of
        Some r \<Rightarrow> if revision_matches expected (rv r) \<and> \<not> ok r then Inl ErrConstraint
                  else update_revisioned key rv row_id expected f t
      | None \<Rightarrow> update_revisioned key rv row_id expected f t)"

subsection \<open>Cascades\<close>

definition cascade_targets :: "(target_row \<Rightarrow> bool) \<Rightarrow> site_db \<Rightarrow> site_db" where
  "cascade_targets gone db =
     db\<lparr>db_targets := filter (\<lambda>t. \<not> gone t) (db_targets db),
        db_overrides := filter (\<lambda>o'. \<not> (\<exists>t\<in>set (db_targets db). gone t \<and> RT_ID t = OV_TargetID o')) (db_overrides db)\<rparr>"

text \<open>Deleting site models takes their access rows and the route targets that use them along.\<close>

definition cascade_models :: "(site_model_row \<Rightarrow> bool) \<Rightarrow> site_db \<Rightarrow> site_db" where
  "cascade_models gone db =
     cascade_targets (\<lambda>t. \<exists>m\<in>set (db_models db). gone m \<and> SM_ID m = RT_SiteModelID t)
       (db\<lparr>db_models := filter (\<lambda>m. \<not> gone m) (db_models db),
          db_access := filter (\<lambda>a. \<not> (\<exists>m\<in>set (db_models db). gone m \<and> SM_ID m = MA_SiteModelID a)) (db_access db)\<rparr>)"

definition cascade_endpoints :: "(endpoint_row \<Rightarrow> bool) \<Rightarrow> site_db \<Rightarrow> site_db" where
  "cascade_endpoints gone db =
     cascade_targets (\<lambda>t. \<exists>e\<in>set (db_endpoints db). gone e \<and> E_ID e = RT_EndpointID t)
       (cascade_models (\<lambda>m. \<exists>e\<in>set (db_endpoints db). gone e \<and> E_ID e = SM_EndpointID m)
         (db\<lparr>db_endpoints := filter (\<lambda>e. \<not> gone e) (db_endpoints db)\<rparr>))"

definition cascade_credentials :: "(credential_row \<Rightarrow> bool) \<Rightarrow> site_db \<Rightarrow> site_db" where
  "cascade_credentials gone db =
     db\<lparr>db_credentials := filter (\<lambda>c. \<not> gone c) (db_credentials db),
        db_access := filter (\<lambda>a. \<not> (\<exists>c\<in>set (db_credentials db). gone c \<and> CR_ID c = MA_CredentialID a)) (db_access db)\<rparr>"

definition cascade_site :: "int \<Rightarrow> site_db \<Rightarrow> site_db" where
  "cascade_site site db =
     cascade_targets (\<lambda>t. RT_SiteID t = site)
       (cascade_endpoints (\<lambda>e. E_SiteID e = site) (cascade_credentials (\<lambda>c. CR_SiteID c = site) db))"

subsection \<open>Revisions of sites and published models\<close>

definition bump_site_revision_tx :: "int \<Rightarrow> int \<Rightarrow> int \<Rightarrow> site_db \<Rightarrow> (store_error, site_db) result" where
  "bump_site_revision_tx site expected now db =
     and_then (update_revisioned S_ID S_Revision site expected
                (\<lambda>s. s\<lparr>S_Revision := S_Revision s + 1, S_UpdatedAt := now\<rparr>) (db_sites db))
       (\<lambda>t. Inr (db\<lparr>db_sites := t\<rparr>))"

definition bump_published_model_revision_tx :: "int \<Rightarrow> int \<Rightarrow> int \<Rightarrow> site_db \<Rightarrow> (store_error, site_db) result" where
  "bump_published_model_revision_tx model expected now db =
     and_then (update_revisioned PM_ID PM_Revision model expected
                (\<lambda>m. m\<lparr>PM_Revision := PM_Revision m + 1, PM_UpdatedAt := now\<rparr>) (db_published db))
       (\<lambda>t. Inr (db\<lparr>db_published := t\<rparr>))"

text \<open>The three bulk bumps: every published model with a target of the site, endpoint or site model.\<close>

definition bump_published_where :: "(target_row \<Rightarrow> bool) \<Rightarrow> int \<Rightarrow> site_db \<Rightarrow> site_db" where
  "bump_published_where P now db =
     db\<lparr>db_published := fst (sql_update (\<lambda>m. \<exists>t\<in>set (db_targets db). P t \<and> RT_PublishedModelID t = PM_ID m)
          (\<lambda>m. m\<lparr>PM_Revision := PM_Revision m + 1, PM_UpdatedAt := now\<rparr>) (db_published db))\<rparr>"

definition bump_published_models_for_site_tx :: "int \<Rightarrow> int \<Rightarrow> site_db \<Rightarrow> site_db" where
  "bump_published_models_for_site_tx site now db = bump_published_where (\<lambda>t. RT_SiteID t = site) now db"

definition bump_published_models_for_endpoint_tx :: "int \<Rightarrow> int \<Rightarrow> site_db \<Rightarrow> site_db" where
  "bump_published_models_for_endpoint_tx endpoint now db = bump_published_where (\<lambda>t. RT_EndpointID t = endpoint) now db"

definition bump_published_models_for_site_model_tx :: "int \<Rightarrow> int \<Rightarrow> site_db \<Rightarrow> site_db" where
  "bump_published_models_for_site_model_tx model now db = bump_published_where (\<lambda>t. RT_SiteModelID t = model) now db"

subsection \<open>Sites\<close>

record site_write =
  SW_Name :: string
  SW_DashboardURL :: string
  SW_Enabled :: bool

definition normalize_site_write :: "site_write \<Rightarrow> (store_error, site_write) result" where
  "normalize_site_write w0 =
     (let w = w0\<lparr>SW_Name := trim_space (SW_Name w0),
                 SW_DashboardURL := trim_right (CHR ''/'') (trim_space (SW_DashboardURL w0))\<rparr>
      in if SW_Name w = [] then Inl (ErrText ''site name is required'') else Inr w)"

definition site_name_free :: "string \<Rightarrow> int \<Rightarrow> site_db \<Rightarrow> bool" where
  "site_name_free name site db = list_all (\<lambda>s. S_ID s = site \<or> nocase (S_Name s) \<noteq> nocase name) (db_sites db)"

definition create_site :: "int \<Rightarrow> site_write \<Rightarrow> site_db \<Rightarrow> (store_error, int \<times> site_db) result" where
  "create_site clock input db =
     and_then (normalize_site_write input) (\<lambda>w.
       if \<not> site_name_free (SW_Name w) 0 db then Inl ErrConstraint
       else let new_id = seq_sites db + 1 in
         Inr (new_id, db\<lparr>seq_sites := new_id, db_sites := db_sites db @
           [\<lparr>S_ID = new_id, S_Name = SW_Name w, S_DashboardURL = SW_DashboardURL w, S_Enabled = SW_Enabled w,
             S_Revision = 1, S_CreatedAt = clock, S_UpdatedAt = clock\<rparr>]\<rparr>))"

definition get_site :: "int \<Rightarrow> site_db \<Rightarrow> site_row option" where
  "get_site site db = row_by S_ID site (db_sites db)"

definition list_sites :: "site_db \<Rightarrow> site_row list" where
  "list_sites db = slice_stable (name_before S_Name S_ID) (db_sites db)"

definition update_site :: "int \<Rightarrow> int \<Rightarrow> int \<Rightarrow> site_write \<Rightarrow> site_db \<Rightarrow> (store_error, site_db) result" where
  "update_site clock site expected input db =
     and_then (normalize_site_write input) (\<lambda>w.
       let db1 = bump_published_models_for_site_tx site clock db in
       and_then (update_constrained S_ID S_Revision site expected
           (\<lambda>s. s\<lparr>S_Name := SW_Name w, S_DashboardURL := SW_DashboardURL w, S_Enabled := SW_Enabled w,
                  S_Revision := S_Revision s + 1, S_UpdatedAt := clock\<rparr>)
           (\<lambda>_. site_name_free (SW_Name w) site db1) (db_sites db1))
         (\<lambda>t. Inr (db1\<lparr>db_sites := t\<rparr>)))"

definition delete_site :: "int \<Rightarrow> int \<Rightarrow> int \<Rightarrow> site_db \<Rightarrow> (store_error, site_db) result" where
  "delete_site clock site expected db =
     (let db1 = bump_published_models_for_site_tx site clock db in
      and_then (delete_revisioned S_ID S_Revision site expected (db_sites db1))
        (\<lambda>t. Inr (cascade_site site (db1\<lparr>db_sites := t\<rparr>))))"

text \<open>\<open>ListSiteSummaries\<close>: the counts of each site's children and of the models it serves.\<close>

record site_summary =
  SS_Site :: site_row
  SS_EndpointCount :: nat
  SS_EnabledEndpointCount :: nat
  SS_CredentialCount :: nat
  SS_EnabledCredentialCount :: nat
  SS_UnavailableCredentialCount :: nat
  SS_ModelCount :: nat
  SS_ActiveModelCount :: nat
  SS_PublishedModelCount :: nat
  SS_LastModelSeenAt :: "int option"

definition site_summary_of :: "site_db \<Rightarrow> site_row \<Rightarrow> site_summary" where
  "site_summary_of db s =
     (let es = filter (\<lambda>e. E_SiteID e = S_ID s) (db_endpoints db);
          cs = filter (\<lambda>c. CR_SiteID c = S_ID s) (db_credentials db);
          ms = filter (\<lambda>m. SM_SiteID m = S_ID s) (db_models db);
          seen = List.map_filter SM_LastSeenAt ms
      in \<lparr>SS_Site = s, SS_EndpointCount = length es, SS_EnabledEndpointCount = length (filter E_Enabled es),
          SS_CredentialCount = length cs, SS_EnabledCredentialCount = length (filter CR_Enabled cs),
          SS_UnavailableCredentialCount = length (filter (\<lambda>c. CR_Enabled c \<and> CR_RuntimeState c \<noteq> ''active'') cs),
          SS_ModelCount = length ms, SS_ActiveModelCount = length (filter (\<lambda>m. SM_Enabled m \<and> \<not> SM_Stale m) ms),
          SS_PublishedModelCount = length (remdups (map RT_PublishedModelID
            (filter (\<lambda>t. RT_SiteID t = S_ID s) (db_targets db)))),
          SS_LastModelSeenAt = (case seen of [] \<Rightarrow> None | t # ts \<Rightarrow> Some (fold max ts t))\<rparr>)"

definition list_site_summaries :: "site_db \<Rightarrow> site_summary list" where
  "list_site_summaries db = map (site_summary_of db) (list_sites db)"

end
