(* ===== verification/Inference.thy ===== *)
theory Inference
  imports SiteStore
begin

text \<open>
  \<open>store/v3_inference.go\<close>: the inference endpoints and credentials of a site. \<open>compact_json\<close> is
  \<open>json.Valid\<close> followed by \<open>json.Compact\<close> (\<open>None\<close> for an invalid text); what it returns passes the
  schema's \<open>json_valid\<close>. The numbers and names formatted into error messages are left out.
\<close>

subsection \<open>Reordering the rows of one parent\<close>

text \<open>
  The loop of \<open>reorderSiteChildren\<close> and \<open>ReorderRouteSiteTargets\<close>: the \<open>position\<close>-th ID gets that
  position; every ID must be new and belong to the parent. \<open>put p r\<close> is the row update.
\<close>

fun reorder_loop ::
  "('r \<Rightarrow> int) \<Rightarrow> ('r \<Rightarrow> bool) \<Rightarrow> (int \<Rightarrow> 'r \<Rightarrow> 'r) \<Rightarrow> int \<Rightarrow> int list \<Rightarrow> int list \<Rightarrow> 'r list
    \<Rightarrow> (store_error, 'r list) result" where
  "reorder_loop key mine put position seen [] t = Inr t"
| "reorder_loop key mine put position seen (row_id # ids) t =
     (if row_id \<in> set seen then Inl (ErrText ''duplicate id'')
      else let (t', changed) = sql_update (\<lambda>r. key r = row_id \<and> mine r) (put position) t
           in if changed \<noteq> 1 then Inl (ErrText ''id does not belong to its parent'')
              else reorder_loop key mine put (position + 1) (row_id # seen) ids t')"

definition reorder_rows ::
  "('r \<Rightarrow> int) \<Rightarrow> ('r \<Rightarrow> bool) \<Rightarrow> (int \<Rightarrow> 'r \<Rightarrow> 'r) \<Rightarrow> int list \<Rightarrow> 'r list \<Rightarrow> (store_error, 'r list) result" where
  "reorder_rows key mine put ids t =
     (if length (filter mine t) \<noteq> length ids then Inl (ErrText ''ids must contain every row exactly once'')
      else reorder_loop key mine put 0 [] ids t)"

subsection \<open>Endpoints\<close>

record endpoint_write =
  EW_Name :: string
  EW_BaseURL :: string
  EW_WireProtocol :: string
  EW_CompatibilityProfile :: string
  EW_AuthScheme :: string
  EW_CustomHeaders :: string
  EW_Enabled :: bool

definition normalized_v3_json :: "(string \<Rightarrow> string option) \<Rightarrow> string \<Rightarrow> (store_error, string) result" where
  "normalized_v3_json compact_json v =
     (if trim_space v = [] then Inr ''{}''
      else case compact_json v of
             None \<Rightarrow> Inl (ErrText ''custom headers must be valid JSON'')
           | Some c \<Rightarrow> Inr c)"

definition normalize_endpoint_write ::
  "(string \<Rightarrow> string option) \<Rightarrow> endpoint_write \<Rightarrow> (store_error, endpoint_write \<times> string) result" where
  "normalize_endpoint_write compact_json w0 =
     (case normalize_protocol (EW_WireProtocol w0) of
        None \<Rightarrow> Inl (ErrText ''unsupported inference protocol'')
      | Some protocol \<Rightarrow>
          (let profile = to_lower (trim_space (EW_CompatibilityProfile w0));
               auth = to_lower (trim_space (EW_AuthScheme w0));
               w = w0\<lparr>EW_Name := trim_space (EW_Name w0),
                      EW_BaseURL := trim_right (CHR ''/'') (trim_space (EW_BaseURL w0)),
                      EW_WireProtocol := protocol,
                      EW_CompatibilityProfile := (if profile = [] then ''generic'' else profile),
                      EW_AuthScheme := (if auth = [] then default_auth_scheme protocol else auth)\<rparr>
           in if EW_Name w = [] \<or> EW_BaseURL w = [] \<or> EW_WireProtocol w = []
              then Inl (ErrText ''endpoint name, base URL, and wire protocol are required'')
              else and_then (normalized_v3_json compact_json (EW_CustomHeaders w)) (\<lambda>headers. Inr (w, headers))))"

text \<open>\<open>UNIQUE(site_id, base_url, wire_protocol)\<close>, except for the row \<open>endpoint\<close> itself.\<close>

definition endpoint_free :: "int \<Rightarrow> string \<Rightarrow> string \<Rightarrow> int \<Rightarrow> site_db \<Rightarrow> bool" where
  "endpoint_free site url protocol endpoint db =
     list_all (\<lambda>e. E_ID e = endpoint \<or> \<not> (E_SiteID e = site \<and> E_BaseURL e = url \<and> E_WireProtocol e = protocol))
       (db_endpoints db)"

definition create_inference_endpoint ::
  "(string \<Rightarrow> string option) \<Rightarrow> int \<Rightarrow> int \<Rightarrow> int \<Rightarrow> endpoint_write \<Rightarrow> site_db \<Rightarrow> (store_error, int \<times> site_db) result" where
  "create_inference_endpoint compact_json clock site expected input db =
     and_then (normalize_endpoint_write compact_json input) (\<lambda>(w, headers).
       if \<not> endpoint_free site (EW_BaseURL w) (EW_WireProtocol w) 0 db \<or> row_by S_ID site (db_sites db) = None
       then Inl ErrConstraint
       else let new_id = seq_endpoints db + 1;
                db1 = db\<lparr>seq_endpoints := new_id, db_endpoints := db_endpoints db @
                  [\<lparr>E_ID = new_id, E_SiteID = site, E_Name = EW_Name w, E_BaseURL = EW_BaseURL w,
                    E_WireProtocol = EW_WireProtocol w, E_CompatibilityProfile = EW_CompatibilityProfile w,
                    E_AuthScheme = EW_AuthScheme w, E_CustomHeaders = headers,
                    E_Position = next_position E_Position (filter (\<lambda>e. E_SiteID e = site) (db_endpoints db)),
                    E_Enabled = EW_Enabled w, E_Revision = 1, E_CreatedAt = clock, E_UpdatedAt = clock\<rparr>]\<rparr>
            in and_then (bump_site_revision_tx site expected clock db1) (\<lambda>db2. Inr (new_id, db2)))"

definition get_inference_endpoint :: "int \<Rightarrow> site_db \<Rightarrow> endpoint_row option" where
  "get_inference_endpoint endpoint db = row_by E_ID endpoint (db_endpoints db)"

definition list_inference_endpoints :: "int \<Rightarrow> site_db \<Rightarrow> endpoint_row list" where
  "list_inference_endpoints site db =
     slice_stable (position_before E_Position E_ID) (filter (\<lambda>e. E_SiteID e = site) (db_endpoints db))"

definition endpoint_columns :: "int \<Rightarrow> endpoint_write \<Rightarrow> string \<Rightarrow> endpoint_row \<Rightarrow> endpoint_row" where
  "endpoint_columns clock w headers e =
     e\<lparr>E_Name := EW_Name w, E_BaseURL := EW_BaseURL w, E_WireProtocol := EW_WireProtocol w,
       E_CompatibilityProfile := EW_CompatibilityProfile w, E_AuthScheme := EW_AuthScheme w,
       E_CustomHeaders := headers, E_Enabled := EW_Enabled w, E_Revision := E_Revision e + 1, E_UpdatedAt := clock\<rparr>"

definition update_inference_endpoint ::
  "(string \<Rightarrow> string option) \<Rightarrow> int \<Rightarrow> int \<Rightarrow> int \<Rightarrow> endpoint_write \<Rightarrow> site_db \<Rightarrow> (store_error, site_db) result" where
  "update_inference_endpoint compact_json clock endpoint expected input db =
     and_then (normalize_endpoint_write compact_json input) (\<lambda>(w, headers).
       case row_by E_ID endpoint (db_endpoints db) of
         None \<Rightarrow> Inl ErrNoRows
       | Some current \<Rightarrow>
           if RouteEligible (capabilities_for (E_WireProtocol current))
              \<and> \<not> RouteEligible (capabilities_for (EW_WireProtocol w))
              \<and> 0 < length (filter (\<lambda>t. RT_EndpointID t = endpoint) (db_targets db))
           then Inl (ErrText ''endpoint protocol cannot change while route targets use it'')
           else let db1 = bump_published_models_for_endpoint_tx endpoint clock db in
             and_then (update_constrained E_ID E_Revision endpoint expected (endpoint_columns clock w headers)
                 (\<lambda>e. endpoint_free (E_SiteID e) (EW_BaseURL w) (EW_WireProtocol w) endpoint db1) (db_endpoints db1))
               (\<lambda>t. bump_site_revision_tx (E_SiteID current) 0 clock (db1\<lparr>db_endpoints := t\<rparr>)))"

definition delete_inference_endpoint :: "int \<Rightarrow> int \<Rightarrow> int \<Rightarrow> site_db \<Rightarrow> (store_error, site_db) result" where
  "delete_inference_endpoint clock endpoint expected db =
     (case row_by E_ID endpoint (db_endpoints db) of
        None \<Rightarrow> Inl ErrNoRows
      | Some current \<Rightarrow>
          let db1 = bump_published_models_for_endpoint_tx endpoint clock db in
          and_then (delete_revisioned E_ID E_Revision endpoint expected (db_endpoints db1))
            (\<lambda>_. bump_site_revision_tx (E_SiteID current) 0 clock (cascade_endpoints (\<lambda>e. E_ID e = endpoint) db1)))"

definition reorder_inference_endpoints ::
  "int \<Rightarrow> int \<Rightarrow> int \<Rightarrow> int list \<Rightarrow> site_db \<Rightarrow> (store_error, site_db) result" where
  "reorder_inference_endpoints clock site expected ids db =
     and_then (bump_site_revision_tx site expected clock db) (\<lambda>db1.
       and_then (reorder_rows E_ID (\<lambda>e. E_SiteID e = site)
           (\<lambda>p e. e\<lparr>E_Position := p, E_Revision := E_Revision e + 1, E_UpdatedAt := clock\<rparr>) ids (db_endpoints db1))
         (\<lambda>t. Inr (db1\<lparr>db_endpoints := t\<rparr>)))"

subsection \<open>Credentials\<close>

record credential_write =
  CW_Name :: string
  CW_SecretCipher :: string
  CW_Enabled :: bool

record credential_update =
  CU_Name :: string
  CU_SecretCipher :: string
  CU_ReplaceSecret :: bool
  CU_Enabled :: bool

record credential_runtime_update =
  CX_RuntimeState :: string
  CX_CooldownUntil :: "int option"
  CX_LastTestAt :: "int option"
  CX_LastTestStatus :: string
  CX_LastErrorMessage :: string

text \<open>The unique index on \<open>(site_id, name COLLATE NOCASE)\<close>, except for the row \<open>credential\<close> itself.\<close>

definition credential_name_free :: "int \<Rightarrow> string \<Rightarrow> int \<Rightarrow> site_db \<Rightarrow> bool" where
  "credential_name_free site name credential db =
     list_all (\<lambda>c. CR_ID c = credential \<or> \<not> (CR_SiteID c = site \<and> nocase (CR_Name c) = nocase name)) (db_credentials db)"

definition create_inference_credential ::
  "int \<Rightarrow> int \<Rightarrow> int \<Rightarrow> credential_write \<Rightarrow> site_db \<Rightarrow> (store_error, int \<times> site_db) result" where
  "create_inference_credential clock site expected input db =
     (let name = trim_space (CW_Name input) in
      if name = [] \<or> length (CW_SecretCipher input) = 0
      then Inl (ErrText ''credential name and encrypted secret are required'')
      else if \<not> credential_name_free site name 0 db \<or> row_by S_ID site (db_sites db) = None then Inl ErrConstraint
      else let new_id = seq_credentials db + 1;
               db1 = db\<lparr>seq_credentials := new_id, db_credentials := db_credentials db @
                 [\<lparr>CR_ID = new_id, CR_SiteID = site, CR_Name = name, CR_SecretCipher = CW_SecretCipher input,
                   CR_Position = next_position CR_Position (filter (\<lambda>c. CR_SiteID c = site) (db_credentials db)),
                   CR_Enabled = CW_Enabled input, CR_RuntimeState = ''active'', CR_CooldownUntil = None,
                   CR_LastTestAt = None, CR_LastTestStatus = [], CR_LastErrorMessage = [], CR_Revision = 1,
                   CR_CreatedAt = clock, CR_UpdatedAt = clock\<rparr>]\<rparr>
           in and_then (bump_site_revision_tx site expected clock db1) (\<lambda>db2. Inr (new_id, db2)))"

definition get_inference_credential :: "int \<Rightarrow> site_db \<Rightarrow> credential_row option" where
  "get_inference_credential credential db = row_by CR_ID credential (db_credentials db)"

text \<open>\<open>GetInferenceCredential\<close> leaves the secret out of what it returns; the row has it here.\<close>

definition get_inference_credential_secret :: "int \<Rightarrow> site_db \<Rightarrow> (credential_row \<times> string) option" where
  "get_inference_credential_secret credential db =
     map_option (\<lambda>c. (c, CR_SecretCipher c)) (row_by CR_ID credential (db_credentials db))"

definition list_inference_credentials :: "int \<Rightarrow> site_db \<Rightarrow> credential_row list" where
  "list_inference_credentials site db =
     slice_stable (position_before CR_Position CR_ID) (filter (\<lambda>c. CR_SiteID c = site) (db_credentials db))"

text \<open>\<open>enabled=1 AND (runtime_state='active' OR (... 'rate_limited' AND cooldown_until <= now))\<close>\<close>

definition credential_routable :: "int \<Rightarrow> credential_row \<Rightarrow> bool" where
  "credential_routable now c \<longleftrightarrow> CR_Enabled c \<and>
     (CR_RuntimeState c = ''active'' \<or>
      CR_RuntimeState c = ''rate_limited'' \<and> (case CR_CooldownUntil c of None \<Rightarrow> False | Some u \<Rightarrow> u \<le> now))"

definition list_routable_inference_credentials :: "int \<Rightarrow> int \<Rightarrow> site_db \<Rightarrow> credential_row list" where
  "list_routable_inference_credentials site now db =
     slice_stable (position_before CR_Position CR_ID)
       (filter (\<lambda>c. CR_SiteID c = site \<and> credential_routable now c) (db_credentials db))"

definition update_inference_credential ::
  "int \<Rightarrow> int \<Rightarrow> int \<Rightarrow> credential_update \<Rightarrow> site_db \<Rightarrow> (store_error, site_db) result" where
  "update_inference_credential clock credential expected input db =
     (let name = trim_space (CU_Name input) in
      if name = [] then Inl (ErrText ''credential name is required'')
      else if CU_ReplaceSecret input \<and> length (CU_SecretCipher input) = 0
      then Inl (ErrText ''replacement encrypted secret is required'')
      else case row_by CR_ID credential (db_credentials db) of
        None \<Rightarrow> Inl ErrNoRows
      | Some current \<Rightarrow>
          and_then (update_constrained CR_ID CR_Revision credential expected
              (\<lambda>c. let c1 = c\<lparr>CR_Name := name, CR_Enabled := CU_Enabled input, CR_Revision := CR_Revision c + 1,
                             CR_UpdatedAt := clock\<rparr>
                   in if CU_ReplaceSecret input
                      then c1\<lparr>CR_SecretCipher := CU_SecretCipher input, CR_RuntimeState := ''active'',
                             CR_CooldownUntil := None, CR_LastErrorMessage := []\<rparr>
                      else c1)
              (\<lambda>c. credential_name_free (CR_SiteID c) name credential db) (db_credentials db))
            (\<lambda>t. bump_site_revision_tx (CR_SiteID current) 0 clock (db\<lparr>db_credentials := t\<rparr>)))"

definition valid_credential_runtime_state :: "string \<Rightarrow> bool" where
  "valid_credential_runtime_state v \<longleftrightarrow> v \<in> set [''active'', ''invalid'', ''exhausted'', ''rate_limited'']"

definition update_inference_credential_runtime ::
  "(string \<Rightarrow> string) \<Rightarrow> int \<Rightarrow> int \<Rightarrow> credential_runtime_update \<Rightarrow> site_db \<Rightarrow> (store_error, site_db) result" where
  "update_inference_credential_runtime redact clock credential input db =
     (let state = to_lower (trim_space (CX_RuntimeState input)) in
      if \<not> valid_credential_runtime_state state then Inl (ErrText ''invalid credential runtime state'')
      else and_then (update_revisioned CR_ID CR_Revision credential 0
          (\<lambda>c. c\<lparr>CR_RuntimeState := state, CR_CooldownUntil := CX_CooldownUntil input,
                 CR_LastTestAt := CX_LastTestAt input, CR_LastTestStatus := trim_space (CX_LastTestStatus input),
                 CR_LastErrorMessage := redact (CX_LastErrorMessage input), CR_UpdatedAt := clock\<rparr>) (db_credentials db))
        (\<lambda>t. Inr (db\<lparr>db_credentials := t\<rparr>)))"

definition delete_inference_credential :: "int \<Rightarrow> int \<Rightarrow> int \<Rightarrow> site_db \<Rightarrow> (store_error, site_db) result" where
  "delete_inference_credential clock credential expected db =
     (case row_by CR_ID credential (db_credentials db) of
        None \<Rightarrow> Inl ErrNoRows
      | Some current \<Rightarrow>
          and_then (delete_revisioned CR_ID CR_Revision credential expected (db_credentials db))
            (\<lambda>_. bump_site_revision_tx (CR_SiteID current) 0 clock (cascade_credentials (\<lambda>c. CR_ID c = credential) db)))"

definition reorder_inference_credentials ::
  "int \<Rightarrow> int \<Rightarrow> int \<Rightarrow> int list \<Rightarrow> site_db \<Rightarrow> (store_error, site_db) result" where
  "reorder_inference_credentials clock site expected ids db =
     and_then (bump_site_revision_tx site expected clock db) (\<lambda>db1.
       and_then (reorder_rows CR_ID (\<lambda>c. CR_SiteID c = site)
           (\<lambda>p c. c\<lparr>CR_Position := p, CR_Revision := CR_Revision c + 1, CR_UpdatedAt := clock\<rparr>) ids (db_credentials db1))
         (\<lambda>t. Inr (db1\<lparr>db_credentials := t\<rparr>)))"

end
