(* ===== verification/SiteCatalog.thy ===== *)
theory SiteCatalog
  imports Inference
begin

text \<open>
  \<open>store/v3_catalog.go\<close>: the models discovered at a site's endpoints and which credential may use
  which model. The composite foreign keys of the schema are checked by the statements that can
  violate them; a parent key that other rows refer to cannot be changed (\<open>NO ACTION\<close>).
\<close>

record site_model_write =
  MW_SiteID :: int
  MW_EndpointID :: int
  MW_ModelName :: string
  MW_DisplayName :: string
  MW_Enabled :: bool
  MW_Stale :: bool
  MW_MissingCount :: int
  MW_LastSeenAt :: "int option"

definition normalize_site_model_write :: "site_model_write \<Rightarrow> (store_error, site_model_write) result" where
  "normalize_site_model_write w0 =
     (let w = w0\<lparr>MW_ModelName := trim_space (MW_ModelName w0), MW_DisplayName := trim_space (MW_DisplayName w0)\<rparr>
      in if MW_SiteID w \<le> 0 \<or> MW_EndpointID w \<le> 0 \<or> MW_ModelName w = []
         then Inl (ErrText ''site, endpoint, and model name are required'')
         else if MW_MissingCount w < 0 then Inl (ErrText ''missing count cannot be negative'')
         else Inr w)"

text \<open>\<open>FOREIGN KEY(site_id, endpoint_id)\<close> and \<open>UNIQUE(endpoint_id, model_name)\<close>\<close>

definition endpoint_of_site :: "int \<Rightarrow> int \<Rightarrow> site_db \<Rightarrow> bool" where
  "endpoint_of_site site endpoint db = list_ex (\<lambda>e. E_SiteID e = site \<and> E_ID e = endpoint) (db_endpoints db)"

definition model_named :: "int \<Rightarrow> string \<Rightarrow> site_db \<Rightarrow> site_model_row option" where
  "model_named endpoint name db = find (\<lambda>m. SM_EndpointID m = endpoint \<and> SM_ModelName m = name) (db_models db)"

definition new_site_model :: "int \<Rightarrow> int \<Rightarrow> site_model_write \<Rightarrow> site_model_row" where
  "new_site_model new_id clock w =
     \<lparr>SM_ID = new_id, SM_SiteID = MW_SiteID w, SM_EndpointID = MW_EndpointID w, SM_ModelName = MW_ModelName w,
      SM_DisplayName = MW_DisplayName w, SM_Enabled = MW_Enabled w, SM_Stale = MW_Stale w,
      SM_MissingCount = MW_MissingCount w, SM_LastSeenAt = MW_LastSeenAt w, SM_Revision = 1,
      SM_CreatedAt = clock, SM_UpdatedAt = clock\<rparr>"

definition insert_site_model :: "int \<Rightarrow> site_model_write \<Rightarrow> site_db \<Rightarrow> (store_error, int \<times> site_db) result" where
  "insert_site_model clock w db =
     (if \<not> endpoint_of_site (MW_SiteID w) (MW_EndpointID w) db \<or> model_named (MW_EndpointID w) (MW_ModelName w) db \<noteq> None
      then Inl ErrConstraint
      else let new_id = seq_models db + 1 in
        Inr (new_id, db\<lparr>seq_models := new_id, db_models := db_models db @ [new_site_model new_id clock w]\<rparr>))"

definition create_site_model :: "int \<Rightarrow> site_model_write \<Rightarrow> site_db \<Rightarrow> (store_error, int \<times> site_db) result" where
  "create_site_model clock input db =
     and_then (normalize_site_model_write input) (\<lambda>w. insert_site_model clock w db)"

text \<open>
  \<open>ON CONFLICT(endpoint_id,model_name) DO UPDATE ... WHERE site_id=excluded.site_id\<close>: a row of
  another site is left alone, and the final \<open>SELECT\<close> then finds nothing. The gap a conflicting
  insert may leave in the \<open>AUTOINCREMENT\<close> counter is not modelled.
\<close>

definition upsert_site_model :: "int \<Rightarrow> site_model_write \<Rightarrow> site_db \<Rightarrow> (store_error, int \<times> site_db) result" where
  "upsert_site_model clock input db =
     and_then (normalize_site_model_write input) (\<lambda>w.
       case model_named (MW_EndpointID w) (MW_ModelName w) db of
         None \<Rightarrow> insert_site_model clock w db
       | Some old \<Rightarrow>
           if SM_SiteID old \<noteq> MW_SiteID w then Inl ErrNoRows
           else let db1 = bump_published_models_for_site_model_tx (SM_ID old) clock db in
             Inr (SM_ID old, db1\<lparr>db_models := fst (sql_update (\<lambda>m. SM_ID m = SM_ID old)
               (\<lambda>m. m\<lparr>SM_DisplayName := MW_DisplayName w, SM_Enabled := MW_Enabled w, SM_Stale := MW_Stale w,
                      SM_MissingCount := MW_MissingCount w, SM_LastSeenAt := MW_LastSeenAt w,
                      SM_Revision := SM_Revision m + 1, SM_UpdatedAt := clock\<rparr>) (db_models db1))\<rparr>))"

definition get_site_model :: "int \<Rightarrow> site_db \<Rightarrow> site_model_row option" where
  "get_site_model model db = row_by SM_ID model (db_models db)"

definition list_site_models :: "int \<Rightarrow> site_db \<Rightarrow> site_model_row list" where
  "list_site_models site db =
     slice_stable (name_before SM_ModelName SM_ID) (filter (\<lambda>m. SM_SiteID m = site) (db_models db))"

definition list_endpoint_models :: "int \<Rightarrow> site_db \<Rightarrow> site_model_row list" where
  "list_endpoint_models endpoint db =
     slice_stable (name_before SM_ModelName SM_ID) (filter (\<lambda>m. SM_EndpointID m = endpoint) (db_models db))"

text \<open>\<open>COALESCE(a.availability,'unknown')\<close> of the \<open>LEFT JOIN\<close> with the access table\<close>

definition availability_of :: "int \<Rightarrow> int \<Rightarrow> site_db \<Rightarrow> string" where
  "availability_of credential model db =
     (case find (\<lambda>a. MA_CredentialID a = credential \<and> MA_SiteModelID a = model) (db_access db) of
        None \<Rightarrow> ''unknown''
      | Some a \<Rightarrow> MA_Availability a)"

record site_model_coverage =
  CV_Model :: site_model_row
  CV_CredentialCount :: nat
  CV_SupportedCredentialCount :: nat
  CV_UnsupportedCredentialCount :: nat
  CV_UnknownCredentialCount :: nat

definition model_coverage :: "site_db \<Rightarrow> site_model_row \<Rightarrow> site_model_coverage" where
  "model_coverage db m =
     (let cs = filter (\<lambda>c. CR_SiteID c = SM_SiteID m \<and> CR_Enabled c) (db_credentials db);
          count = (\<lambda>v. length (filter (\<lambda>c. availability_of (CR_ID c) (SM_ID m) db = v) cs))
      in \<lparr>CV_Model = m, CV_CredentialCount = length cs, CV_SupportedCredentialCount = count ''supported'',
          CV_UnsupportedCredentialCount = count ''unsupported'', CV_UnknownCredentialCount = count ''unknown''\<rparr>)"

definition list_site_models_with_coverage :: "int \<Rightarrow> site_db \<Rightarrow> site_model_coverage list" where
  "list_site_models_with_coverage site db = map (model_coverage db) (list_site_models site db)"

text \<open>The constraints on the new values of the row \<open>m\<close>.\<close>

definition site_model_update_ok :: "site_model_write \<Rightarrow> site_db \<Rightarrow> site_model_row \<Rightarrow> bool" where
  "site_model_update_ok w db m \<longleftrightarrow>
     endpoint_of_site (MW_SiteID w) (MW_EndpointID w) db \<and>
     list_all (\<lambda>x. SM_ID x = SM_ID m \<or> \<not> (SM_EndpointID x = MW_EndpointID w \<and> SM_ModelName x = MW_ModelName w)) (db_models db) \<and>
     (SM_SiteID m = MW_SiteID w \<or> list_all (\<lambda>a. MA_SiteModelID a \<noteq> SM_ID m) (db_access db)) \<and>
     (SM_SiteID m = MW_SiteID w \<and> SM_EndpointID m = MW_EndpointID w \<or>
      list_all (\<lambda>t. RT_SiteModelID t \<noteq> SM_ID m) (db_targets db))"

definition site_model_columns :: "int \<Rightarrow> site_model_write \<Rightarrow> site_model_row \<Rightarrow> site_model_row" where
  "site_model_columns clock w m =
     m\<lparr>SM_SiteID := MW_SiteID w, SM_EndpointID := MW_EndpointID w, SM_ModelName := MW_ModelName w,
       SM_DisplayName := MW_DisplayName w, SM_Enabled := MW_Enabled w, SM_Stale := MW_Stale w,
       SM_MissingCount := MW_MissingCount w, SM_LastSeenAt := MW_LastSeenAt w,
       SM_Revision := SM_Revision m + 1, SM_UpdatedAt := clock\<rparr>"

definition update_site_model :: "int \<Rightarrow> int \<Rightarrow> int \<Rightarrow> site_model_write \<Rightarrow> site_db \<Rightarrow> (store_error, site_db) result" where
  "update_site_model clock model expected input db =
     and_then (normalize_site_model_write input) (\<lambda>w.
       let db1 = bump_published_models_for_site_model_tx model clock db in
       and_then (update_constrained SM_ID SM_Revision model expected (site_model_columns clock w)
           (site_model_update_ok w db1) (db_models db1))
         (\<lambda>t. Inr (db1\<lparr>db_models := t\<rparr>)))"

definition delete_site_model :: "int \<Rightarrow> int \<Rightarrow> int \<Rightarrow> site_db \<Rightarrow> (store_error, site_db) result" where
  "delete_site_model clock model expected db =
     (let db1 = bump_published_models_for_site_model_tx model clock db in
      and_then (delete_revisioned SM_ID SM_Revision model expected (db_models db1))
        (\<lambda>_. Inr (cascade_models (\<lambda>m. SM_ID m = model) db1)))"

subsection \<open>Model access of credentials\<close>

record access_write =
  AW_SiteID :: int
  AW_CredentialID :: int
  AW_SiteModelID :: int
  AW_Availability :: string
  AW_MissingCount :: int
  AW_LastSeenAt :: "int option"
  AW_LastCheckedAt :: "int option"

definition valid_model_availability :: "string \<Rightarrow> bool" where
  "valid_model_availability v \<longleftrightarrow> v \<in> set [''unknown'', ''supported'', ''unsupported'']"

definition upsert_credential_model_access :: "int \<Rightarrow> access_write \<Rightarrow> site_db \<Rightarrow> (store_error, site_db) result" where
  "upsert_credential_model_access clock w db =
     (let availability = to_lower (trim_space (AW_Availability w)) in
      if \<not> valid_model_availability availability then Inl (ErrText ''invalid model availability'')
      else if AW_SiteID w \<le> 0 \<or> AW_CredentialID w \<le> 0 \<or> AW_SiteModelID w \<le> 0 \<or> AW_MissingCount w < 0
      then Inl (ErrText ''site, credential, model, and non-negative missing count are required'')
      else case find (\<lambda>a. MA_CredentialID a = AW_CredentialID w \<and> MA_SiteModelID a = AW_SiteModelID w) (db_access db) of
        Some old \<Rightarrow>
          Inr (db\<lparr>db_access := fst (sql_update
            (\<lambda>a. MA_CredentialID a = AW_CredentialID w \<and> MA_SiteModelID a = AW_SiteModelID w \<and> MA_SiteID a = AW_SiteID w)
            (\<lambda>a. a\<lparr>MA_Availability := availability, MA_MissingCount := AW_MissingCount w,
                   MA_LastSeenAt := AW_LastSeenAt w, MA_LastCheckedAt := AW_LastCheckedAt w,
                   MA_Revision := MA_Revision a + 1, MA_UpdatedAt := clock\<rparr>) (db_access db))\<rparr>)
      | None \<Rightarrow>
          if \<not> list_ex (\<lambda>c. CR_SiteID c = AW_SiteID w \<and> CR_ID c = AW_CredentialID w) (db_credentials db)
             \<or> \<not> list_ex (\<lambda>m. SM_SiteID m = AW_SiteID w \<and> SM_ID m = AW_SiteModelID w) (db_models db)
          then Inl ErrConstraint
          else Inr (db\<lparr>db_access := db_access db @
            [\<lparr>MA_SiteID = AW_SiteID w, MA_CredentialID = AW_CredentialID w, MA_SiteModelID = AW_SiteModelID w,
              MA_Availability = availability, MA_MissingCount = AW_MissingCount w, MA_LastSeenAt = AW_LastSeenAt w,
              MA_LastCheckedAt = AW_LastCheckedAt w, MA_Revision = 1, MA_UpdatedAt = clock\<rparr>]\<rparr>))"

definition get_credential_model_access :: "int \<Rightarrow> int \<Rightarrow> site_db \<Rightarrow> access_row option" where
  "get_credential_model_access credential model db =
     find (\<lambda>a. MA_CredentialID a = credential \<and> MA_SiteModelID a = model) (db_access db)"

definition list_credential_model_access :: "int \<Rightarrow> site_db \<Rightarrow> access_row list" where
  "list_credential_model_access credential db =
     slice_stable (\<lambda>a b. MA_SiteModelID a < MA_SiteModelID b)
       (filter (\<lambda>a. MA_CredentialID a = credential) (db_access db))"

definition delete_credential_model_access :: "int \<Rightarrow> int \<Rightarrow> site_db \<Rightarrow> (store_error, site_db) result" where
  "delete_credential_model_access credential model db =
     (let (t, changed) = sql_delete (\<lambda>a. MA_CredentialID a = credential \<and> MA_SiteModelID a = model) (db_access db)
      in if changed \<noteq> 1 then Inl ErrNoRows else Inr (db\<lparr>db_access := t\<rparr>))"

end
