(* ===== verification/Published.thy ===== *)
theory Published
  imports SiteCatalog
begin

text \<open>
  \<open>store/v3_published.go\<close>: the public models with their runtime policy, the ordered site targets of
  each, and \<open>ResolvePublishedModelForProfile\<close>, which computes the route a request takes.
\<close>

subsection \<open>Published models\<close>

record published_write =
  PW_PublicName :: string
  PW_DisplayName :: string
  PW_OfficialPriceSKU :: string
  PW_Enabled :: bool
  PW_MonitorEnabled :: bool
  PW_MonitorIntervalSeconds :: int
  PW_CooldownSeconds :: int
  PW_FailureThreshold :: int
  PW_FailureWindowSeconds :: int
  PW_FirstOutputTimeoutSeconds :: int
  PW_StreamIdleTimeoutSeconds :: int
  PW_RequestDeadlineSeconds :: int
  PW_MaxAttempts :: int

text \<open>\<open>if value <= 0 { value = fallback }\<close>\<close>

definition positive_or :: "int \<Rightarrow> int \<Rightarrow> int" where
  "positive_or fallback v = (if v \<le> 0 then fallback else v)"

definition normalize_published_model_write :: "published_write \<Rightarrow> (store_error, published_write) result" where
  "normalize_published_model_write w =
     (let name = trim_space (PW_PublicName w) in
      if name = [] then Inl (ErrText ''public model name is required'')
      else Inr (w\<lparr>PW_PublicName := name,
        PW_DisplayName := trim_space (PW_DisplayName w),
        PW_OfficialPriceSKU := trim_space (PW_OfficialPriceSKU w),
        PW_MonitorIntervalSeconds := clamp (positive_or 300 (PW_MonitorIntervalSeconds w)) 30 86400,
        PW_CooldownSeconds := clamp (positive_or 300 (PW_CooldownSeconds w)) 1 86400,
        PW_FailureThreshold := clamp (positive_or 2 (PW_FailureThreshold w)) 2 10,
        PW_FailureWindowSeconds := clamp (positive_or 300 (PW_FailureWindowSeconds w)) 1 86400,
        PW_FirstOutputTimeoutSeconds := clamp (positive_or 30 (PW_FirstOutputTimeoutSeconds w)) 1 600,
        PW_StreamIdleTimeoutSeconds := clamp (positive_or 60 (PW_StreamIdleTimeoutSeconds w)) 1 3600,
        PW_RequestDeadlineSeconds := clamp (positive_or 120 (PW_RequestDeadlineSeconds w)) 1 3600,
        PW_MaxAttempts := clamp (positive_or 3 (PW_MaxAttempts w)) 1 20\<rparr>))"

definition preserve_published_model_runtime_settings :: "published_write \<Rightarrow> published_row \<Rightarrow> published_write" where
  "preserve_published_model_runtime_settings w current =
     w\<lparr>PW_MonitorIntervalSeconds := positive_or (PM_MonitorIntervalSeconds current) (PW_MonitorIntervalSeconds w),
       PW_CooldownSeconds := positive_or (PM_CooldownSeconds current) (PW_CooldownSeconds w),
       PW_FailureThreshold := positive_or (PM_FailureThreshold current) (PW_FailureThreshold w),
       PW_FailureWindowSeconds := positive_or (PM_FailureWindowSeconds current) (PW_FailureWindowSeconds w),
       PW_FirstOutputTimeoutSeconds := positive_or (PM_FirstOutputTimeoutSeconds current) (PW_FirstOutputTimeoutSeconds w),
       PW_StreamIdleTimeoutSeconds := positive_or (PM_StreamIdleTimeoutSeconds current) (PW_StreamIdleTimeoutSeconds w),
       PW_RequestDeadlineSeconds := positive_or (PM_RequestDeadlineSeconds current) (PW_RequestDeadlineSeconds w),
       PW_MaxAttempts := positive_or (PM_MaxAttempts current) (PW_MaxAttempts w)\<rparr>"

text \<open>\<open>public_name TEXT UNIQUE\<close>, except for the row \<open>model\<close> itself.\<close>

definition public_name_free :: "string \<Rightarrow> int \<Rightarrow> site_db \<Rightarrow> bool" where
  "public_name_free name model db = list_all (\<lambda>m. PM_ID m = model \<or> PM_PublicName m \<noteq> name) (db_published db)"

text \<open>The columns a write sets, on a row that is there or a fresh one.\<close>

definition published_columns :: "published_write \<Rightarrow> published_row \<Rightarrow> published_row" where
  "published_columns w m = m\<lparr>PM_PublicName := PW_PublicName w, PM_DisplayName := PW_DisplayName w,
     PM_OfficialPriceSKU := PW_OfficialPriceSKU w, PM_Enabled := PW_Enabled w, PM_MonitorEnabled := PW_MonitorEnabled w,
     PM_MonitorIntervalSeconds := PW_MonitorIntervalSeconds w, PM_CooldownSeconds := PW_CooldownSeconds w,
     PM_FailureThreshold := PW_FailureThreshold w, PM_FailureWindowSeconds := PW_FailureWindowSeconds w,
     PM_FirstOutputTimeoutSeconds := PW_FirstOutputTimeoutSeconds w,
     PM_StreamIdleTimeoutSeconds := PW_StreamIdleTimeoutSeconds w,
     PM_RequestDeadlineSeconds := PW_RequestDeadlineSeconds w, PM_MaxAttempts := PW_MaxAttempts w\<rparr>"

definition create_published_model :: "int \<Rightarrow> published_write \<Rightarrow> site_db \<Rightarrow> (store_error, int \<times> site_db) result" where
  "create_published_model clock input db =
     and_then (normalize_published_model_write input) (\<lambda>w.
       if \<not> public_name_free (PW_PublicName w) 0 db then Inl ErrConstraint
       else let new_id = seq_published db + 1 in
         Inr (new_id, db\<lparr>seq_published := new_id, db_published := db_published db @
           [published_columns w \<lparr>PM_ID = new_id, PM_PublicName = [], PM_DisplayName = [], PM_OfficialPriceSKU = [],
             PM_Enabled = False, PM_MonitorEnabled = False, PM_MonitorIntervalSeconds = 0, PM_CooldownSeconds = 0,
             PM_FailureThreshold = 0, PM_FailureWindowSeconds = 0, PM_FirstOutputTimeoutSeconds = 0,
             PM_StreamIdleTimeoutSeconds = 0, PM_RequestDeadlineSeconds = 0, PM_MaxAttempts = 0, PM_Revision = 1,
             PM_CreatedAt = clock, PM_UpdatedAt = clock\<rparr>]\<rparr>))"

definition get_published_model :: "int \<Rightarrow> site_db \<Rightarrow> published_row option" where
  "get_published_model model db = row_by PM_ID model (db_published db)"

definition get_published_model_by_name :: "string \<Rightarrow> site_db \<Rightarrow> published_row option" where
  "get_published_model_by_name name db = row_by PM_PublicName (trim_space name) (db_published db)"

definition list_published_models :: "site_db \<Rightarrow> published_row list" where
  "list_published_models db = slice_stable (name_before PM_PublicName PM_ID) (db_published db)"

definition update_published_model ::
  "int \<Rightarrow> int \<Rightarrow> int \<Rightarrow> published_write \<Rightarrow> site_db \<Rightarrow> (store_error, site_db) result" where
  "update_published_model clock model expected input db =
     (case get_published_model model db of
        None \<Rightarrow> Inl ErrNoRows
      | Some current \<Rightarrow>
          and_then (normalize_published_model_write (preserve_published_model_runtime_settings input current)) (\<lambda>w.
            and_then (update_constrained PM_ID PM_Revision model expected
                (\<lambda>m. (published_columns w m)\<lparr>PM_Revision := PM_Revision m + 1, PM_UpdatedAt := clock\<rparr>)
                (\<lambda>_. public_name_free (PW_PublicName w) model db) (db_published db))
              (\<lambda>t. Inr (db\<lparr>db_published := t\<rparr>))))"

text \<open>The targets and the profile overrides of the model go with it.\<close>

definition cascade_published :: "int \<Rightarrow> site_db \<Rightarrow> site_db" where
  "cascade_published model db =
     (let db1 = cascade_targets (\<lambda>t. RT_PublishedModelID t = model) db
      in db1\<lparr>db_published := filter (\<lambda>m. PM_ID m \<noteq> model) (db_published db1),
             db_overrides := filter (\<lambda>ov. OV_ModelID ov \<noteq> model) (db_overrides db1)\<rparr>)"

definition delete_published_model :: "int \<Rightarrow> int \<Rightarrow> site_db \<Rightarrow> (store_error, site_db) result" where
  "delete_published_model model expected db =
     and_then (delete_revisioned PM_ID PM_Revision model expected (db_published db))
       (\<lambda>_. Inr (cascade_published model db))"

subsection \<open>Route targets\<close>

record target_write =
  TW_SiteID :: int
  TW_EndpointID :: int
  TW_SiteModelID :: int
  TW_Enabled :: bool

definition validate_route_site_target_tx :: "target_write \<Rightarrow> site_db \<Rightarrow> (store_error, unit) result" where
  "validate_route_site_target_tx w db =
     (case find (\<lambda>e. E_ID e = TW_EndpointID w \<and> E_SiteID e = TW_SiteID w) (db_endpoints db) of
        Some e \<Rightarrow>
          if row_by S_ID (TW_SiteID w) (db_sites db) = None
             \<or> \<not> list_ex (\<lambda>m. SM_ID m = TW_SiteModelID w \<and> SM_SiteID m = TW_SiteID w \<and> SM_EndpointID m = TW_EndpointID w) (db_models db)
          then Inl (ErrText ''site, endpoint, and site model must belong to the same site and endpoint'')
          else if \<not> RouteEligible (capabilities_for (E_WireProtocol e))
          then Inl (ErrText ''endpoint protocol supports model discovery only; OpenAI gateway routes require openai or compatible'')
          else Inr ()
      | None \<Rightarrow> Inl (ErrText ''site, endpoint, and site model must belong to the same site and endpoint''))"

text \<open>\<open>UNIQUE(published_model_id, site_id)\<close>, except for the row \<open>target\<close> itself.\<close>

definition route_site_free :: "int \<Rightarrow> int \<Rightarrow> int \<Rightarrow> site_db \<Rightarrow> bool" where
  "route_site_free model site target db =
     list_all (\<lambda>t. RT_ID t = target \<or> \<not> (RT_PublishedModelID t = model \<and> RT_SiteID t = site)) (db_targets db)"

definition create_route_site_target ::
  "int \<Rightarrow> int \<Rightarrow> int \<Rightarrow> target_write \<Rightarrow> site_db \<Rightarrow> (store_error, int \<times> site_db) result" where
  "create_route_site_target clock model expected w db =
     (if TW_SiteID w \<le> 0 \<or> TW_EndpointID w \<le> 0 \<or> TW_SiteModelID w \<le> 0
      then Inl (ErrText ''site, endpoint, and site model are required'')
      else and_then (validate_route_site_target_tx w db) (\<lambda>_.
        and_then (bump_published_model_revision_tx model expected clock db) (\<lambda>db1.
          if \<not> route_site_free model (TW_SiteID w) 0 db1 then Inl ErrConstraint
          else let new_id = seq_targets db1 + 1 in
            Inr (new_id, db1\<lparr>seq_targets := new_id, db_targets := db_targets db1 @
              [\<lparr>RT_ID = new_id, RT_PublishedModelID = model, RT_SiteID = TW_SiteID w, RT_EndpointID = TW_EndpointID w,
                RT_SiteModelID = TW_SiteModelID w,
                RT_Position = next_position RT_Position (filter (\<lambda>t. RT_PublishedModelID t = model) (db_targets db1)),
                RT_Enabled = TW_Enabled w, RT_Revision = 1, RT_CreatedAt = clock, RT_UpdatedAt = clock\<rparr>]\<rparr>))))"

definition target_columns :: "int \<Rightarrow> target_write \<Rightarrow> target_row \<Rightarrow> target_row" where
  "target_columns clock w t =
     t\<lparr>RT_SiteID := TW_SiteID w, RT_EndpointID := TW_EndpointID w, RT_SiteModelID := TW_SiteModelID w,
       RT_Enabled := TW_Enabled w, RT_Revision := RT_Revision t + 1, RT_UpdatedAt := clock\<rparr>"

definition update_route_site_target ::
  "int \<Rightarrow> int \<Rightarrow> int \<Rightarrow> int \<Rightarrow> target_write \<Rightarrow> site_db \<Rightarrow> (store_error, site_db) result" where
  "update_route_site_target clock target expected expected_published w db =
     (if TW_SiteID w \<le> 0 \<or> TW_EndpointID w \<le> 0 \<or> TW_SiteModelID w \<le> 0
      then Inl (ErrText ''site, endpoint, and site model are required'')
      else case row_by RT_ID target (db_targets db) of
        None \<Rightarrow> Inl ErrNoRows
      | Some current \<Rightarrow>
          and_then (validate_route_site_target_tx w db) (\<lambda>_.
            and_then (bump_published_model_revision_tx (RT_PublishedModelID current) expected_published clock db) (\<lambda>db1.
              and_then (update_constrained RT_ID RT_Revision target expected (target_columns clock w)
                  (\<lambda>t. route_site_free (RT_PublishedModelID t) (TW_SiteID w) target db1) (db_targets db1))
                (\<lambda>ts. Inr (db1\<lparr>db_targets := ts\<rparr>)))))"

definition delete_route_site_target :: "int \<Rightarrow> int \<Rightarrow> int \<Rightarrow> int \<Rightarrow> site_db \<Rightarrow> (store_error, site_db) result" where
  "delete_route_site_target clock target expected expected_published db =
     (case row_by RT_ID target (db_targets db) of
        None \<Rightarrow> Inl ErrNoRows
      | Some current \<Rightarrow>
          and_then (bump_published_model_revision_tx (RT_PublishedModelID current) expected_published clock db) (\<lambda>db1.
            and_then (delete_revisioned RT_ID RT_Revision target expected (db_targets db1))
              (\<lambda>_. Inr (cascade_targets (\<lambda>t. RT_ID t = target) db1))))"

definition reorder_route_site_targets ::
  "int \<Rightarrow> int \<Rightarrow> int \<Rightarrow> int list \<Rightarrow> site_db \<Rightarrow> (store_error, site_db) result" where
  "reorder_route_site_targets clock model expected ids db =
     and_then (bump_published_model_revision_tx model expected clock db) (\<lambda>db1.
       and_then (reorder_rows RT_ID (\<lambda>t. RT_PublishedModelID t = model)
           (\<lambda>p t. t\<lparr>RT_Position := p, RT_Revision := RT_Revision t + 1, RT_UpdatedAt := clock\<rparr>) ids (db_targets db1))
         (\<lambda>ts. Inr (db1\<lparr>db_targets := ts\<rparr>)))"

subsection \<open>Listing\<close>

text \<open>A target joined with its site, endpoint and site model.\<close>

record route_site_target =
  RV_Target :: target_row
  RV_SiteName :: string
  RV_EndpointName :: string
  RV_WireProtocol :: string
  RV_SourceModel :: string

definition joined :: "target_row \<Rightarrow> site_db \<Rightarrow> (site_row \<times> endpoint_row \<times> site_model_row) option" where
  "joined t db =
     (case row_by S_ID (RT_SiteID t) (db_sites db) of None \<Rightarrow> None
      | Some s \<Rightarrow> (case row_by E_ID (RT_EndpointID t) (db_endpoints db) of None \<Rightarrow> None
        | Some e \<Rightarrow> (case row_by SM_ID (RT_SiteModelID t) (db_models db) of None \<Rightarrow> None
          | Some m \<Rightarrow> Some (s, e, m))))"

definition route_view :: "site_db \<Rightarrow> target_row \<Rightarrow> route_site_target option" where
  "route_view db t = map_option (\<lambda>(s, e, m). \<lparr>RV_Target = t, RV_SiteName = S_Name s, RV_EndpointName = E_Name e,
     RV_WireProtocol = E_WireProtocol e, RV_SourceModel = SM_ModelName m\<rparr>) (joined t db)"

definition get_route_site_target :: "int \<Rightarrow> site_db \<Rightarrow> route_site_target option" where
  "get_route_site_target target db =
     (case row_by RT_ID target (db_targets db) of None \<Rightarrow> None | Some t \<Rightarrow> route_view db t)"

text \<open>The targets of a model in the administrator's order.\<close>

definition default_targets :: "int \<Rightarrow> site_db \<Rightarrow> target_row list" where
  "default_targets model db =
     slice_stable (position_before RT_Position RT_ID) (filter (\<lambda>t. RT_PublishedModelID t = model) (db_targets db))"

definition list_route_site_targets :: "int \<Rightarrow> site_db \<Rightarrow> route_site_target list" where
  "list_route_site_targets model db = List.map_filter (route_view db) (default_targets model db)"

definition list_published_model_routes :: "site_db \<Rightarrow> (published_row \<times> route_site_target list) list" where
  "list_published_model_routes db =
     map (\<lambda>m. (m, list_route_site_targets (PM_ID m) db)) (list_published_models db)"

subsection \<open>Resolving a route\<close>

record resolved_target =
  RS_Target :: target_row
  RS_Site :: site_row
  RS_Endpoint :: endpoint_row
  RS_Model :: site_model_row
  RS_Credentials :: "credential_row list"

record resolved_model =
  RM_Model :: published_row
  RM_RoutingProfileID :: "int option"
  RM_RoutingProfileName :: string
  RM_Targets :: "resolved_target list"

text \<open>\<open>lower(e.wire_protocol) IN (...)\<close> and the four \<open>enabled\<close> flags\<close>

definition routable_protocol :: "string \<Rightarrow> bool" where
  "routable_protocol p \<longleftrightarrow> nocase p \<in> set [''openai'', ''compatible'', ''openai_chat_completions'', ''openai_responses'']"

definition resolve_target :: "site_db \<Rightarrow> target_row \<Rightarrow> resolved_target option" where
  "resolve_target db t =
     (case joined t db of
        None \<Rightarrow> None
      | Some (s, e, m) \<Rightarrow>
          if RT_Enabled t \<and> S_Enabled s \<and> E_Enabled e \<and> SM_Enabled m \<and> routable_protocol (E_WireProtocol e)
          then Some \<lparr>RS_Target = t, RS_Site = s, RS_Endpoint = e, RS_Model = m, RS_Credentials = []\<rparr>
          else None)"

text \<open>The targets of a profile's override, joined with it, in its order.\<close>

definition override_targets :: "int \<Rightarrow> int \<Rightarrow> site_db \<Rightarrow> target_row list" where
  "override_targets profile model db =
     map snd (slice_stable (\<lambda>a b. OV_Position (fst a) < OV_Position (fst b)
         \<or> OV_Position (fst a) = OV_Position (fst b) \<and> RT_ID (snd a) < RT_ID (snd b))
       (concat (map (\<lambda>ov. map (Pair ov) (filter (\<lambda>t. RT_ID t = OV_TargetID ov) (db_targets db)))
         (filter (\<lambda>ov. OV_ProfileID ov = profile \<and> OV_ModelID ov = model) (db_overrides db)))))"

text \<open>The credential query: every target of the model with every credential of its site that may serve it.\<close>

definition credential_rows :: "int \<Rightarrow> int \<Rightarrow> site_db \<Rightarrow> (int \<times> credential_row) list" where
  "credential_rows model now db =
     concat (map (\<lambda>t. map (Pair (RT_ID t))
         (slice_stable (position_before CR_Position CR_ID)
           (filter (\<lambda>c. CR_SiteID c = RT_SiteID t \<and> credential_routable now c \<and>
                        availability_of (CR_ID c) (RT_SiteModelID t) db \<noteq> ''unsupported'') (db_credentials db))))
       (default_targets model db))"

definition attach_credentials :: "(int \<times> credential_row) list \<Rightarrow> resolved_target \<Rightarrow> resolved_target" where
  "attach_credentials rows r =
     r\<lparr>RS_Credentials := map snd (filter (\<lambda>(target, c). target = RT_ID (RS_Target r)) rows)\<rparr>"

text \<open>The override that applies: the profile is there and has one for the model.\<close>

definition applied_profile :: "int option \<Rightarrow> int \<Rightarrow> site_db \<Rightarrow> profile_row option" where
  "applied_profile profile model db =
     (case profile of
        None \<Rightarrow> None
      | Some p \<Rightarrow>
          if p \<le> 0 then None
          else case row_by RP_ID p (db_profiles db) of
            None \<Rightarrow> None
          | Some row \<Rightarrow>
              if list_ex (\<lambda>ov. OV_ProfileID ov = p \<and> OV_ModelID ov = model) (db_overrides db) then Some row else None)"

definition resolve_published_model_for_profile ::
  "string \<Rightarrow> int \<Rightarrow> int option \<Rightarrow> site_db \<Rightarrow> (store_error, resolved_model) result" where
  "resolve_published_model_for_profile public_name now profile db =
     (case row_by PM_PublicName (trim_space public_name) (db_published db) of
        None \<Rightarrow> Inl ErrNoRows
      | Some model \<Rightarrow>
          if \<not> PM_Enabled model then Inl ErrNoRows
          else let (profile_id, profile_name, targets) =
                 (case applied_profile profile (PM_ID model) db of
                    Some row \<Rightarrow> (Some (RP_ID row), RP_Name row, override_targets (RP_ID row) (PM_ID model) db)
                  | None \<Rightarrow> (None, ''Default route'', default_targets (PM_ID model) db));
               resolved = List.map_filter (resolve_target db) targets
             in Inr \<lparr>RM_Model = model, RM_RoutingProfileID = profile_id, RM_RoutingProfileName = profile_name,
                     RM_Targets = map (attach_credentials (credential_rows (PM_ID model) now db)) resolved\<rparr>)"

definition resolve_published_model :: "string \<Rightarrow> int \<Rightarrow> site_db \<Rightarrow> (store_error, resolved_model) result" where
  "resolve_published_model public_name now db = resolve_published_model_for_profile public_name now None db"

end
