(* ===== verification/Profiles.thy ===== *)
theory Profiles
  imports Published
begin

text \<open>
  \<open>store/routing_profiles.go\<close>: named profiles that override the site order of single models.
\<close>

definition normalize_routing_profile_name :: "string \<Rightarrow> (store_error, string) result" where
  "normalize_routing_profile_name name0 =
     (let name = trim_space name0 in
      if name = [] then Inl (ErrText ''routing profile name is required'')
      else if 120 < length name then Inl (ErrText ''routing profile name must not exceed 120 bytes'')
      else if equal_fold name ''Default route'' then Inl (ErrText ''the name is reserved for the default route'')
      else Inr name)"

definition profile_name_free :: "string \<Rightarrow> int \<Rightarrow> site_db \<Rightarrow> bool" where
  "profile_name_free name profile db =
     list_all (\<lambda>p. RP_ID p = profile \<or> nocase (RP_Name p) \<noteq> nocase name) (db_profiles db)"

definition create_routing_profile :: "int \<Rightarrow> string \<Rightarrow> site_db \<Rightarrow> (store_error, int \<times> site_db) result" where
  "create_routing_profile clock name0 db =
     and_then (normalize_routing_profile_name name0) (\<lambda>name.
       if \<not> profile_name_free name 0 db then Inl ErrConstraint
       else let new_id = seq_profiles db + 1 in
         Inr (new_id, db\<lparr>seq_profiles := new_id, db_profiles := db_profiles db @
           [\<lparr>RP_ID = new_id, RP_Name = name, RP_Revision = 1, RP_CreatedAt = clock, RP_UpdatedAt = clock\<rparr>]\<rparr>))"

text \<open>\<open>COUNT(DISTINCT rpt.published_model_id)\<close>\<close>

definition model_override_count :: "int \<Rightarrow> site_db \<Rightarrow> nat" where
  "model_override_count profile db =
     length (remdups (map OV_ModelID (filter (\<lambda>ov. OV_ProfileID ov = profile) (db_overrides db))))"

definition list_routing_profiles :: "site_db \<Rightarrow> (profile_row \<times> nat) list" where
  "list_routing_profiles db =
     map (\<lambda>p. (p, model_override_count (RP_ID p) db)) (slice_stable (name_before RP_Name RP_ID) (db_profiles db))"

definition get_routing_profile :: "int \<Rightarrow> site_db \<Rightarrow> (profile_row \<times> nat) option" where
  "get_routing_profile profile db =
     (if profile \<le> 0 then None
      else map_option (\<lambda>p. (p, model_override_count (RP_ID p) db)) (row_by RP_ID profile (db_profiles db)))"

definition update_routing_profile :: "int \<Rightarrow> int \<Rightarrow> int \<Rightarrow> string \<Rightarrow> site_db \<Rightarrow> (store_error, site_db) result" where
  "update_routing_profile clock profile expected name0 db =
     and_then (normalize_routing_profile_name name0) (\<lambda>name.
       and_then (update_constrained RP_ID RP_Revision profile expected
           (\<lambda>p. p\<lparr>RP_Name := name, RP_Revision := RP_Revision p + 1, RP_UpdatedAt := clock\<rparr>)
           (\<lambda>_. profile_name_free name profile db) (db_profiles db))
         (\<lambda>t. Inr (db\<lparr>db_profiles := t\<rparr>)))"

text \<open>
  The overrides go with the profile. \<open>downstream_keys.routing_profile_id\<close>, which is set to
  \<open>NULL\<close>, is a column of the key table.
\<close>

definition delete_routing_profile :: "int \<Rightarrow> int \<Rightarrow> site_db \<Rightarrow> (store_error, site_db) result" where
  "delete_routing_profile profile expected db =
     and_then (delete_revisioned RP_ID RP_Revision profile expected (db_profiles db))
       (\<lambda>t. Inr (db\<lparr>db_profiles := t, db_overrides := filter (\<lambda>ov. OV_ProfileID ov \<noteq> profile) (db_overrides db)\<rparr>))"

record routing_profile_model_route =
  PR_RoutingProfileID :: int
  PR_PublishedModelID :: int
  PR_ProfileRevision :: int
  PR_InheritsDefault :: bool
  PR_Targets :: "route_site_target list"

definition get_routing_profile_model_route ::
  "int \<Rightarrow> int \<Rightarrow> site_db \<Rightarrow> (store_error, routing_profile_model_route) result" where
  "get_routing_profile_model_route profile model db =
     (case row_by RP_ID profile (db_profiles db) of
        None \<Rightarrow> Inl ErrNoRows
      | Some row \<Rightarrow>
          if row_by PM_ID model (db_published db) = None then Inl ErrNoRows
          else let overridden = List.map_filter (route_view db) (override_targets profile model db);
                   inherits = (overridden = [])
               in Inr \<lparr>PR_RoutingProfileID = profile, PR_PublishedModelID = model, PR_ProfileRevision = RP_Revision row,
                       PR_InheritsDefault = inherits,
                       PR_Targets = (if inherits then list_route_site_targets model db else overridden)\<rparr>)"

definition bump_routing_profile_revision_tx :: "int \<Rightarrow> int \<Rightarrow> int \<Rightarrow> site_db \<Rightarrow> (store_error, site_db) result" where
  "bump_routing_profile_revision_tx profile expected now db =
     and_then (update_revisioned RP_ID RP_Revision profile expected
                (\<lambda>p. p\<lparr>RP_Revision := RP_Revision p + 1, RP_UpdatedAt := now\<rparr>) (db_profiles db))
       (\<lambda>t. Inr (db\<lparr>db_profiles := t\<rparr>))"

definition validate_routing_profile_targets_tx :: "int \<Rightarrow> int list \<Rightarrow> site_db \<Rightarrow> (store_error, unit) result" where
  "validate_routing_profile_targets_tx model targets db =
     (if row_by PM_ID model (db_published db) = None then Inl ErrNoRows
      else if length (filter (\<lambda>t. RT_PublishedModelID t = model \<and> RT_ID t \<in> set targets) (db_targets db)) \<noteq> length targets
      then Inl (ErrText ''every routing profile target must belong to the selected published model'')
      else Inr ())"

text \<open>The checks of the ID list, in the loop's order.\<close>

fun check_profile_targets :: "int list \<Rightarrow> int list \<Rightarrow> (store_error, unit) result" where
  "check_profile_targets seen [] = Inr ()"
| "check_profile_targets seen (t # ts) =
     (if t \<le> 0 then Inl (ErrText ''routing profile target IDs must be positive'')
      else if t \<in> set seen then Inl (ErrText ''routing profile target is duplicated'')
      else check_profile_targets (t # seen) ts)"

text \<open>One inserted row per target, at positions 0, 1, 2, ...\<close>

fun override_rows :: "int \<Rightarrow> int \<Rightarrow> int \<Rightarrow> int \<Rightarrow> int list \<Rightarrow> override_row list" where
  "override_rows profile model now position [] = []"
| "override_rows profile model now position (t # ts) =
     \<lparr>OV_ProfileID = profile, OV_ModelID = model, OV_TargetID = t, OV_Position = position,
      OV_CreatedAt = now, OV_UpdatedAt = now\<rparr> # override_rows profile model now (position + 1) ts"

definition clear_overrides :: "int \<Rightarrow> int \<Rightarrow> site_db \<Rightarrow> site_db" where
  "clear_overrides profile model db =
     db\<lparr>db_overrides := filter (\<lambda>ov. \<not> (OV_ProfileID ov = profile \<and> OV_ModelID ov = model)) (db_overrides db)\<rparr>"

definition set_routing_profile_model_targets ::
  "int \<Rightarrow> int \<Rightarrow> int \<Rightarrow> int \<Rightarrow> int list \<Rightarrow> site_db \<Rightarrow> (store_error, site_db) result" where
  "set_routing_profile_model_targets clock profile model expected targets db =
     (if targets = [] then Inl (ErrText ''routing profile override must contain at least one target'')
      else and_then (check_profile_targets [] targets) (\<lambda>_.
        and_then (bump_routing_profile_revision_tx profile expected clock db) (\<lambda>db1.
          and_then (validate_routing_profile_targets_tx model targets db1) (\<lambda>_.
            let db2 = clear_overrides profile model db1 in
            Inr (db2\<lparr>db_overrides := db_overrides db2 @ override_rows profile model clock 0 targets\<rparr>)))))"

definition clear_routing_profile_model_targets ::
  "int \<Rightarrow> int \<Rightarrow> int \<Rightarrow> int \<Rightarrow> site_db \<Rightarrow> (store_error, site_db) result" where
  "clear_routing_profile_model_targets clock profile model expected db =
     and_then (bump_routing_profile_revision_tx profile expected clock db) (\<lambda>db1.
       if row_by PM_ID model (db_published db1) = None then Inl ErrNoRows
       else Inr (clear_overrides profile model db1))"

end
