(* ===== verification/SiteLaws.thy ===== *)
theory SiteLaws
  imports Profiles
begin

text \<open>
  The invariant of the site domain: IDs are unique and below the counters, every reference leads to
  a row, every route target has a route-eligible endpoint, one target per site and distinct positions
  in a published model, and an override only holds targets of its own model. The lemmas say what the
  statements of the store keep of it: inserts, updates, deletions with their cascades, reordering.
\<close>

subsection \<open>Statements on tables\<close>

named_theorems table_simps

lemma update_revisioned_InrD:
  "update_revisioned key rv row_id expected f t = Inr t' \<Longrightarrow>
     t' = fst (sql_update (\<lambda>r. key r = row_id \<and> revision_matches expected (rv r)) f t)"
  by (auto simp: update_revisioned_def Let_def split: prod.splits sum.splits)

lemma update_constrained_InrD:
  "update_constrained key rv row_id expected f ok t = Inr t' \<Longrightarrow>
     t' = fst (sql_update (\<lambda>r. key r = row_id \<and> revision_matches expected (rv r)) f t)"
  by (auto simp: update_constrained_def dest: update_revisioned_InrD split: option.splits if_splits)

lemma update_constrained_ok:
  assumes "unique_key key t" and "update_constrained key rv row_id expected f ok t = Inr t'"
  shows "\<exists>r. row_by key row_id t = Some r \<and> revision_matches expected (rv r) \<and> ok r"
  using assms by (auto simp: update_constrained_def update_revisioned_cases [OF assms(1)] split: option.splits if_splits)

lemma delete_revisioned_ok:
  assumes "unique_key key t" and "delete_revisioned key rv row_id expected t = Inr t'"
  shows "t' = filter (\<lambda>r. key r \<noteq> row_id) t \<and> (\<exists>r. row_by key row_id t = Some r \<and> revision_matches expected (rv r))"
proof -
  define P where P: "P = (\<lambda>r. key r = row_id \<and> revision_matches expected (rv r))"
  from assms(2) have t': "t' = filter (\<lambda>r. \<not> P r) t" and n: "length (filter P t) = 1"
    by (auto simp: delete_revisioned_def sql_delete_def revision_result_def P split: prod.splits sum.splits if_splits)
  note P_def = fun_cong [OF P]
  from n obtain r where r: "r \<in> set t" "P r"
    by (metis One_nat_def filter_empty_conv length_0_conv nat.simps(3))
  then have k: "row_by key row_id t = Some r" by (simp add: row_by_eq_Some [OF assms(1)] P_def)
  have "\<not> P x \<longleftrightarrow> key x \<noteq> row_id" if "x \<in> set t" for x
    using row_by_unique [OF assms(1) k that] r by (auto simp: P_def)
  then have "t' = filter (\<lambda>r. key r \<noteq> row_id) t" unfolding t' by (rule filter_cong [OF refl])
  with k r show ?thesis by (auto simp: P_def)
qed

lemma image_update [table_simps]:
  "(\<And>r. k (f r) = k r) \<Longrightarrow> k ` set (fst (sql_update P f t)) = k ` set t"
  by (rule key_set_update)

lemma unique_update [table_simps]:
  "(\<And>r. k (f r) = k r) \<Longrightarrow> unique_key k (fst (sql_update P f t)) = unique_key k t"
  by (simp add: unique_key_def update_keys)

lemma ball_update [table_simps]:
  "(\<And>r. Q (f r) = Q r) \<Longrightarrow> (\<forall>r\<in>set (fst (sql_update P f t)). Q r) = (\<forall>r\<in>set t. Q r)"
  by (induction t) (simp_all add: sql_update_def)

text \<open>IDs: unique, positive, and not above the counter that hands out the next one.\<close>

definition ids_ok :: "('r \<Rightarrow> int) \<Rightarrow> int \<Rightarrow> 'r list \<Rightarrow> bool" where
  "ids_ok key sq t \<longleftrightarrow> 0 \<le> sq \<and> unique_key key t \<and> (\<forall>k\<in>key ` set t. 0 < k \<and> k \<le> sq)"

lemma ids_ok_update [table_simps]:
  "(\<And>r. key (f r) = key r) \<Longrightarrow> ids_ok key sq (fst (sql_update P f t)) = ids_ok key sq t"
  by (simp add: ids_ok_def image_update unique_update)

lemma ids_ok_filter: "ids_ok key sq t \<Longrightarrow> ids_ok key sq (filter P t)"
  by (auto simp: ids_ok_def unique_key_filter)

lemma ids_ok_append: "ids_ok key sq t \<Longrightarrow> key r = sq + 1 \<Longrightarrow> ids_ok key (sq + 1) (t @ [r])"
  by (fastforce simp: ids_ok_def unique_key_append_row row_by_None)

lemma ids_ok_unique: "ids_ok key sq t \<Longrightarrow> unique_key key t"
  by (simp add: ids_ok_def)

subsection \<open>The invariant\<close>

definition endpoint_eligible :: "endpoint_row \<Rightarrow> bool" where
  "endpoint_eligible e = RouteEligible (capabilities_for (E_WireProtocol e))"

definition keys_ok :: "site_db \<Rightarrow> bool" where
  "keys_ok db \<longleftrightarrow> ids_ok S_ID (seq_sites db) (db_sites db) \<and> ids_ok E_ID (seq_endpoints db) (db_endpoints db) \<and>
     ids_ok CR_ID (seq_credentials db) (db_credentials db) \<and> ids_ok SM_ID (seq_models db) (db_models db) \<and>
     ids_ok PM_ID (seq_published db) (db_published db) \<and> ids_ok RT_ID (seq_targets db) (db_targets db) \<and>
     ids_ok RP_ID (seq_profiles db) (db_profiles db)"

definition site_refs_ok :: "site_db \<Rightarrow> bool" where
  "site_refs_ok db \<longleftrightarrow> E_SiteID ` set (db_endpoints db) \<subseteq> S_ID ` set (db_sites db) \<and>
     CR_SiteID ` set (db_credentials db) \<subseteq> S_ID ` set (db_sites db)"

definition model_refs_ok :: "site_db \<Rightarrow> bool" where
  "model_refs_ok db \<longleftrightarrow>
     (\<lambda>m. (SM_SiteID m, SM_EndpointID m)) ` set (db_models db) \<subseteq> (\<lambda>e. (E_SiteID e, E_ID e)) ` set (db_endpoints db)"

definition access_refs_ok :: "site_db \<Rightarrow> bool" where
  "access_refs_ok db \<longleftrightarrow>
     (\<lambda>a. (MA_SiteID a, MA_CredentialID a)) ` set (db_access db) \<subseteq> (\<lambda>c. (CR_SiteID c, CR_ID c)) ` set (db_credentials db) \<and>
     (\<lambda>a. (MA_SiteID a, MA_SiteModelID a)) ` set (db_access db) \<subseteq> (\<lambda>m. (SM_SiteID m, SM_ID m)) ` set (db_models db) \<and>
     unique_key (\<lambda>a. (MA_CredentialID a, MA_SiteModelID a)) (db_access db)"

definition target_refs_ok :: "site_db \<Rightarrow> bool" where
  "target_refs_ok db \<longleftrightarrow>
     RT_PublishedModelID ` set (db_targets db) \<subseteq> PM_ID ` set (db_published db) \<and>
     (\<lambda>t. (RT_SiteID t, RT_EndpointID t, RT_SiteModelID t)) ` set (db_targets db)
       \<subseteq> (\<lambda>m. (SM_SiteID m, SM_EndpointID m, SM_ID m)) ` set (db_models db)"

definition override_refs_ok :: "site_db \<Rightarrow> bool" where
  "override_refs_ok db \<longleftrightarrow>
     OV_ProfileID ` set (db_overrides db) \<subseteq> RP_ID ` set (db_profiles db) \<and>
     (\<lambda>ov. (OV_ModelID ov, OV_TargetID ov)) ` set (db_overrides db)
       \<subseteq> (\<lambda>t. (RT_PublishedModelID t, RT_ID t)) ` set (db_targets db) \<and>
     unique_key (\<lambda>ov. (OV_ProfileID ov, OV_ModelID ov, OV_TargetID ov)) (db_overrides db) \<and>
     unique_key (\<lambda>ov. (OV_ProfileID ov, OV_ModelID ov, OV_Position ov)) (db_overrides db)"

definition routes_ok :: "site_db \<Rightarrow> bool" where
  "routes_ok db \<longleftrightarrow>
     (\<lambda>t. (RT_EndpointID t, True)) ` set (db_targets db) \<subseteq> (\<lambda>e. (E_ID e, endpoint_eligible e)) ` set (db_endpoints db) \<and>
     unique_key (\<lambda>t. (RT_PublishedModelID t, RT_SiteID t)) (db_targets db) \<and>
     unique_key (\<lambda>t. (RT_PublishedModelID t, RT_Position t)) (db_targets db)"

definition site_wf :: "site_db \<Rightarrow> bool" where
  "site_wf db \<longleftrightarrow> keys_ok db \<and> site_refs_ok db \<and> model_refs_ok db \<and> access_refs_ok db \<and> target_refs_ok db \<and>
     override_refs_ok db \<and> routes_ok db"

lemmas site_wf_defs = keys_ok_def site_refs_ok_def model_refs_ok_def access_refs_ok_def target_refs_ok_def
  override_refs_ok_def routes_ok_def

lemma empty_site_db_wf: "site_wf empty_site_db"
  by (simp add: site_wf_def site_wf_defs empty_site_db_def ids_ok_def unique_key_def)

lemma image_subsetD: "f ` A \<subseteq> g ` B \<Longrightarrow> x \<in> A \<Longrightarrow> \<exists>y\<in>B. g y = f x"
  by (metis image_iff image_subset_iff)

lemma target_endpoint:
  assumes "site_wf db" and "t \<in> set (db_targets db)"
  shows "\<exists>e\<in>set (db_endpoints db). E_ID e = RT_EndpointID t \<and> endpoint_eligible e"
proof -
  have "(\<lambda>t. (RT_EndpointID t, True)) ` set (db_targets db) \<subseteq> (\<lambda>e. (E_ID e, endpoint_eligible e)) ` set (db_endpoints db)"
    using assms(1) by (simp add: site_wf_def routes_ok_def)
  from image_subsetD [OF this assms(2)] show ?thesis by simp
qed

lemma target_model:
  assumes "site_wf db" and "t \<in> set (db_targets db)"
  shows "\<exists>m\<in>set (db_models db). SM_SiteID m = RT_SiteID t \<and> SM_EndpointID m = RT_EndpointID t \<and> SM_ID m = RT_SiteModelID t"
proof -
  have "(\<lambda>t. (RT_SiteID t, RT_EndpointID t, RT_SiteModelID t)) ` set (db_targets db)
      \<subseteq> (\<lambda>m. (SM_SiteID m, SM_EndpointID m, SM_ID m)) ` set (db_models db)"
    using assms(1) by (simp add: site_wf_def target_refs_ok_def)
  from image_subsetD [OF this assms(2)] show ?thesis by simp
qed

lemma access_model:
  assumes "site_wf db" and "a \<in> set (db_access db)"
  shows "\<exists>m\<in>set (db_models db). SM_SiteID m = MA_SiteID a \<and> SM_ID m = MA_SiteModelID a"
proof -
  have "(\<lambda>a. (MA_SiteID a, MA_SiteModelID a)) ` set (db_access db) \<subseteq> (\<lambda>m. (SM_SiteID m, SM_ID m)) ` set (db_models db)"
    using assms(1) by (simp add: site_wf_def access_refs_ok_def)
  from image_subsetD [OF this assms(2)] show ?thesis by simp
qed

subsection \<open>Deleting with cascades\<close>

lemma unique_key_sub: "unique_key k t \<Longrightarrow> unique_key k (filter P t)"
  by (rule unique_key_filter)

lemma cascade_targets_fields [simp]:
  "db_sites (cascade_targets gone db) = db_sites db" "db_endpoints (cascade_targets gone db) = db_endpoints db"
  "db_credentials (cascade_targets gone db) = db_credentials db" "db_models (cascade_targets gone db) = db_models db"
  "db_access (cascade_targets gone db) = db_access db" "db_published (cascade_targets gone db) = db_published db"
  "db_profiles (cascade_targets gone db) = db_profiles db"
  "db_targets (cascade_targets gone db) = filter (\<lambda>t. \<not> gone t) (db_targets db)"
  by (simp_all add: cascade_targets_def)

lemma cascade_targets_keys: "keys_ok db \<Longrightarrow> keys_ok (cascade_targets gone db)"
  by (simp add: keys_ok_def cascade_targets_def ids_ok_filter)

lemma cascade_targets_target_refs:
  assumes "\<forall>t\<in>set (db_targets db). \<not> gone t \<longrightarrow>
      RT_PublishedModelID t \<in> PM_ID ` set (db_published db) \<and>
      (RT_SiteID t, RT_EndpointID t, RT_SiteModelID t) \<in> (\<lambda>m. (SM_SiteID m, SM_EndpointID m, SM_ID m)) ` set (db_models db)"
  shows "target_refs_ok (cascade_targets gone db)"
  using assms by (auto simp: target_refs_ok_def)

lemma cascade_targets_override_refs:
  assumes "override_refs_ok db" shows "override_refs_ok (cascade_targets gone db)"
proof -
  have "(OV_ModelID ov, OV_TargetID ov) \<in> (\<lambda>t. (RT_PublishedModelID t, RT_ID t)) ` set (filter (\<lambda>t. \<not> gone t) (db_targets db))"
    if "ov \<in> set (db_overrides db)" "\<not> (\<exists>t\<in>set (db_targets db). gone t \<and> RT_ID t = OV_TargetID ov)" for ov
  proof -
    from assms that(1) obtain t where "t \<in> set (db_targets db)" "RT_PublishedModelID t = OV_ModelID ov" "RT_ID t = OV_TargetID ov"
      by (fastforce simp: override_refs_ok_def)
    with that(2) show ?thesis by force
  qed
  with assms show ?thesis
    by (auto simp: override_refs_ok_def cascade_targets_def unique_key_filter)
qed

lemma cascade_targets_routes:
  assumes "\<forall>t\<in>set (db_targets db). \<not> gone t \<longrightarrow> (RT_EndpointID t, True) \<in> (\<lambda>e. (E_ID e, endpoint_eligible e)) ` set (db_endpoints db)"
    and "unique_key (\<lambda>t. (RT_PublishedModelID t, RT_SiteID t)) (db_targets db)"
    and "unique_key (\<lambda>t. (RT_PublishedModelID t, RT_Position t)) (db_targets db)"
  shows "routes_ok (cascade_targets gone db)"
  using assms by (auto simp: routes_ok_def unique_key_filter)

lemma cascade_models_fields [simp]:
  "db_sites (cascade_models gone db) = db_sites db" "db_endpoints (cascade_models gone db) = db_endpoints db"
  "db_credentials (cascade_models gone db) = db_credentials db" "db_published (cascade_models gone db) = db_published db"
  "db_profiles (cascade_models gone db) = db_profiles db"
  "db_models (cascade_models gone db) = filter (\<lambda>m. \<not> gone m) (db_models db)"
  by (simp_all add: cascade_models_def)

lemma image_subset_filter:
  assumes "f ` set xs \<subseteq> g ` set ys" and "\<And>x y. \<lbrakk>x \<in> set xs; P x; y \<in> set ys; f x = g y\<rbrakk> \<Longrightarrow> Q y"
  shows "f ` set (filter P xs) \<subseteq> g ` set (filter Q ys)"
proof
  fix v assume "v \<in> f ` set (filter P xs)"
  then obtain x where x: "x \<in> set xs" "P x" "v = f x" by auto
  with assms(1) obtain y where "y \<in> set ys" "f x = g y" by blast
  with x assms(2) show "v \<in> g ` set (filter Q ys)" by auto
qed

lemma cascade_models_wf_parts:
  assumes "keys_ok db" and "access_refs_ok db" and "target_refs_ok db" and "override_refs_ok db" and "routes_ok db"
  shows "keys_ok (cascade_models gone db)" "access_refs_ok (cascade_models gone db)"
    "target_refs_ok (cascade_models gone db)" "override_refs_ok (cascade_models gone db)" "routes_ok (cascade_models gone db)"
proof -
  define mid where "mid = db\<lparr>db_models := filter (\<lambda>m. \<not> gone m) (db_models db),
    db_access := filter (\<lambda>a. \<not> (\<exists>m\<in>set (db_models db). gone m \<and> SM_ID m = MA_SiteModelID a)) (db_access db)\<rparr>"
  have c: "cascade_models gone db =
      cascade_targets (\<lambda>t. \<exists>m\<in>set (db_models db). gone m \<and> SM_ID m = RT_SiteModelID t) mid"
    by (simp add: cascade_models_def mid_def)
  have f: "db_models mid = filter (\<lambda>m. \<not> gone m) (db_models db)" "db_targets mid = db_targets db"
    "db_published mid = db_published db" "db_endpoints mid = db_endpoints db"
    by (simp_all add: mid_def)
  show "keys_ok (cascade_models gone db)"
    unfolding c by (rule cascade_targets_keys) (use assms(1) in \<open>simp add: mid_def keys_ok_def ids_ok_filter\<close>)
  have "(\<lambda>a. (MA_SiteID a, MA_SiteModelID a)) ` set (db_access mid) \<subseteq> (\<lambda>m. (SM_SiteID m, SM_ID m)) ` set (db_models mid)"
    unfolding mid_def by (simp del: set_filter, rule image_subset_filter) (use assms(2) in \<open>auto simp: access_refs_ok_def\<close>)
  with assms(2) show "access_refs_ok (cascade_models gone db)"
    unfolding c by (auto simp: access_refs_ok_def mid_def unique_key_filter)
  have "(RT_SiteID t, RT_EndpointID t, RT_SiteModelID t) \<in> (\<lambda>m. (SM_SiteID m, SM_EndpointID m, SM_ID m)) ` set (db_models mid)"
    if "t \<in> set (db_targets db)" "\<not> (\<exists>m\<in>set (db_models db). gone m \<and> SM_ID m = RT_SiteModelID t)" for t
  proof -
    from assms(3) that(1) obtain m where "m \<in> set (db_models db)" "SM_SiteID m = RT_SiteID t"
      "SM_EndpointID m = RT_EndpointID t" "SM_ID m = RT_SiteModelID t"
      by (fastforce simp: target_refs_ok_def)
    with that(2) show ?thesis by (force simp: f)
  qed
  with assms(3) show "target_refs_ok (cascade_models gone db)"
    unfolding c by (intro cascade_targets_target_refs) (auto simp: f target_refs_ok_def)
  show "override_refs_ok (cascade_models gone db)"
    unfolding c by (rule cascade_targets_override_refs) (use assms(4) in \<open>simp add: mid_def override_refs_ok_def\<close>)
  show "routes_ok (cascade_models gone db)"
    unfolding c by (rule cascade_targets_routes) (use assms(5) in \<open>auto simp: f routes_ok_def\<close>)
qed

lemma cascade_credentials_wf: "site_wf db \<Longrightarrow> site_wf (cascade_credentials gone db)"
proof -
  assume wf: "site_wf db"
  have "(\<lambda>a. (MA_SiteID a, MA_CredentialID a)) ` set (filter (\<lambda>a. \<not> (\<exists>c\<in>set (db_credentials db). gone c \<and> CR_ID c = MA_CredentialID a)) (db_access db))
     \<subseteq> (\<lambda>c. (CR_SiteID c, CR_ID c)) ` set (filter (\<lambda>c. \<not> gone c) (db_credentials db))"
    by (rule image_subset_filter) (use wf in \<open>auto simp: site_wf_def access_refs_ok_def\<close>)
  with wf show ?thesis
    by (auto simp: site_wf_def site_wf_defs cascade_credentials_def ids_ok_filter unique_key_filter)
qed

lemma cascade_models_wf:
  assumes "site_wf db" shows "site_wf (cascade_models gone db)"
proof -
  from assms have "model_refs_ok (cascade_models gone db)" "site_refs_ok (cascade_models gone db)"
    by (auto simp: site_wf_def model_refs_ok_def site_refs_ok_def)
  with assms cascade_models_wf_parts [of db gone] show ?thesis by (simp add: site_wf_def)
qed

lemma cascade_endpoints_fields [simp]:
  "db_sites (cascade_endpoints gone db) = db_sites db" "db_endpoints (cascade_endpoints gone db) = filter (\<lambda>e. \<not> gone e) (db_endpoints db)"
  "db_credentials (cascade_endpoints gone db) = db_credentials db" "db_published (cascade_endpoints gone db) = db_published db"
  "db_profiles (cascade_endpoints gone db) = db_profiles db"
  by (simp_all add: cascade_endpoints_def)

lemma cascade_endpoints_as_models:
  assumes "target_refs_ok db"
  shows "cascade_endpoints gone db =
    (cascade_models (\<lambda>m. \<exists>e\<in>set (db_endpoints db). gone e \<and> E_ID e = SM_EndpointID m) db)
      \<lparr>db_endpoints := filter (\<lambda>e. \<not> gone e) (db_endpoints db)\<rparr>"
proof -
  let ?G = "\<lambda>m. \<exists>e\<in>set (db_endpoints db). gone e \<and> E_ID e = SM_EndpointID m"
  let ?M = "(cascade_models ?G db)\<lparr>db_endpoints := filter (\<lambda>e. \<not> gone e) (db_endpoints db)\<rparr>"
  have commute: "cascade_models ?G (db\<lparr>db_endpoints := filter (\<lambda>e. \<not> gone e) (db_endpoints db)\<rparr>) = ?M"
    by (simp add: cascade_models_def cascade_targets_def)
  have none: "\<not> (\<exists>e\<in>set (db_endpoints db). gone e \<and> E_ID e = RT_EndpointID t)" if t: "t \<in> set (db_targets ?M)" for t
  proof
    assume g: "\<exists>e\<in>set (db_endpoints db). gone e \<and> E_ID e = RT_EndpointID t"
    from t have t': "t \<in> set (db_targets db)"
      and keep: "\<forall>m\<in>set (db_models db). ?G m \<longrightarrow> SM_ID m \<noteq> RT_SiteModelID t"
      by (auto simp: cascade_models_def)
    from assms t' obtain m where "m \<in> set (db_models db)" "SM_EndpointID m = RT_EndpointID t" "SM_ID m = RT_SiteModelID t"
      by (fastforce simp: target_refs_ok_def)
    with g keep show False by auto
  qed
  have "cascade_targets (\<lambda>t. \<exists>e\<in>set (db_endpoints db). gone e \<and> E_ID e = RT_EndpointID t) ?M = ?M"
  proof -
    have "filter (\<lambda>t. \<not> (\<exists>e\<in>set (db_endpoints db). gone e \<and> E_ID e = RT_EndpointID t)) (db_targets ?M) = db_targets ?M"
      using none by (simp only: filter_id_conv) blast
    moreover have "filter (\<lambda>ov. \<not> (\<exists>t\<in>set (db_targets ?M).
        (\<exists>e\<in>set (db_endpoints db). gone e \<and> E_ID e = RT_EndpointID t) \<and> RT_ID t = OV_TargetID ov)) (db_overrides ?M) = db_overrides ?M"
      using none by (simp only: filter_id_conv) blast
    ultimately show ?thesis unfolding cascade_targets_def by simp
  qed
  then show ?thesis unfolding cascade_endpoints_def commute .
qed

lemma cascade_endpoints_wf:
  assumes wf: "site_wf db" shows "site_wf (cascade_endpoints gone db)"
proof -
  let ?G = "\<lambda>m. \<exists>e\<in>set (db_endpoints db). gone e \<and> E_ID e = SM_EndpointID m"
  define mid where "mid = cascade_models ?G db"
  have m: "site_wf mid" unfolding mid_def by (rule cascade_models_wf [OF wf])
  have es: "db_endpoints mid = db_endpoints db" and ms: "db_models mid = filter (\<lambda>m. \<not> ?G m) (db_models db)"
    by (simp_all add: mid_def)
  have "(\<lambda>m. (SM_SiteID m, SM_EndpointID m)) ` set (db_models mid)
      \<subseteq> (\<lambda>e. (E_SiteID e, E_ID e)) ` set (filter (\<lambda>e. \<not> gone e) (db_endpoints db))"
    unfolding ms by (rule image_subset_filter) (use wf in \<open>auto simp: site_wf_def model_refs_ok_def\<close>)
  moreover have "(\<lambda>t. (RT_EndpointID t, True)) ` set (db_targets mid)
      \<subseteq> (\<lambda>e. (E_ID e, endpoint_eligible e)) ` set (filter (\<lambda>e. \<not> gone e) (db_endpoints db))"
  proof
    fix v assume "v \<in> (\<lambda>t. (RT_EndpointID t, True)) ` set (db_targets mid)"
    then obtain t where t: "t \<in> set (db_targets mid)" "v = (RT_EndpointID t, True)" by auto
    from target_model [OF m t(1)] obtain x where x: "x \<in> set (db_models mid)" "SM_EndpointID x = RT_EndpointID t"
      by blast
    from target_endpoint [OF m t(1)]
    obtain e where e: "e \<in> set (db_endpoints db)" "E_ID e = RT_EndpointID t" "endpoint_eligible e"
      unfolding es by blast
    with x ms have "\<not> gone e" by auto
    with e t(2) show "v \<in> (\<lambda>e. (E_ID e, endpoint_eligible e)) ` set (filter (\<lambda>e. \<not> gone e) (db_endpoints db))" by force
  qed
  moreover have "E_SiteID ` set (filter (\<lambda>e. \<not> gone e) (db_endpoints db)) \<subseteq> S_ID ` set (db_sites mid)"
    using m by (auto simp: site_wf_def site_refs_ok_def es)
  ultimately have "site_wf (mid\<lparr>db_endpoints := filter (\<lambda>e. \<not> gone e) (db_endpoints db)\<rparr>)"
    using m by (simp add: site_wf_def site_wf_defs es ids_ok_filter del: set_filter)
  then show ?thesis
    using cascade_endpoints_as_models [of db gone] wf by (simp add: site_wf_def mid_def)
qed

lemma cascade_targets_wf: "site_wf db \<Longrightarrow> site_wf (cascade_targets gone db)"
proof -
  assume wf: "site_wf db"
  have "target_refs_ok (cascade_targets gone db)"
    by (rule cascade_targets_target_refs) (use wf in \<open>auto simp: site_wf_def target_refs_ok_def\<close>)
  moreover have "routes_ok (cascade_targets gone db)"
    by (rule cascade_targets_routes) (use wf in \<open>auto simp: site_wf_def routes_ok_def\<close>)
  moreover have "site_refs_ok (cascade_targets gone db)" "model_refs_ok (cascade_targets gone db)" "access_refs_ok (cascade_targets gone db)"
    using wf by (simp_all add: site_wf_def site_refs_ok_def model_refs_ok_def access_refs_ok_def)
  ultimately show ?thesis
    using wf cascade_targets_keys cascade_targets_override_refs by (simp add: site_wf_def)
qed

lemma cascade_site_wf:
  assumes wf: "site_wf db"
  shows "site_wf (cascade_site site (db\<lparr>db_sites := filter (\<lambda>s. S_ID s \<noteq> site) (db_sites db)\<rparr>))"
proof -
  let ?t = "filter (\<lambda>s. S_ID s \<noteq> site) (db_sites db)"
  define all where "all = cascade_site site db"
  have "site_wf (cascade_site site db)"
    unfolding cascade_site_def by (intro cascade_targets_wf cascade_endpoints_wf cascade_credentials_wf wf)
  then have w: "site_wf all" by (simp add: all_def)
  have s: "db_sites all = db_sites db"
    and e: "db_endpoints all = filter (\<lambda>e. E_SiteID e \<noteq> site) (db_endpoints db)"
    and c: "db_credentials all = filter (\<lambda>c. CR_SiteID c \<noteq> site) (db_credentials db)"
    by (simp_all add: all_def cascade_site_def cascade_credentials_def)
  have "cascade_site site (db\<lparr>db_sites := ?t\<rparr>) = all\<lparr>db_sites := ?t\<rparr>"
    by (simp add: all_def cascade_site_def cascade_targets_def cascade_endpoints_def cascade_models_def cascade_credentials_def)
  moreover have "site_wf (all\<lparr>db_sites := ?t\<rparr>)"
  proof -
    have "E_SiteID ` set (db_endpoints all) \<subseteq> S_ID ` set ?t" "CR_SiteID ` set (db_credentials all) \<subseteq> S_ID ` set ?t"
      unfolding e c by (rule image_subset_filter; use wf in \<open>auto simp: site_wf_def site_refs_ok_def\<close>)+
    with w show ?thesis
      by (auto simp: site_wf_def site_wf_defs s ids_ok_filter)
  qed
  ultimately show ?thesis by simp
qed

lemma cascade_published_wf:
  assumes wf: "site_wf db" shows "site_wf (cascade_published model db)"
proof -
  define mid where "mid = cascade_targets (\<lambda>t. RT_PublishedModelID t = model) db"
  have m: "site_wf mid" unfolding mid_def by (rule cascade_targets_wf [OF wf])
  have "RT_PublishedModelID ` set (db_targets mid) \<subseteq> PM_ID ` set (filter (\<lambda>m. PM_ID m \<noteq> model) (db_published mid))"
    using m by (auto simp: mid_def site_wf_def target_refs_ok_def)
  moreover have "(\<lambda>ov. (OV_ModelID ov, OV_TargetID ov)) ` set (filter (\<lambda>ov. OV_ModelID ov \<noteq> model) (db_overrides mid))
      \<subseteq> (\<lambda>t. (RT_PublishedModelID t, RT_ID t)) ` set (db_targets mid)"
    "OV_ProfileID ` set (filter (\<lambda>ov. OV_ModelID ov \<noteq> model) (db_overrides mid)) \<subseteq> RP_ID ` set (db_profiles mid)"
    using m by (auto simp: site_wf_def override_refs_ok_def)
  ultimately have "site_wf (mid\<lparr>db_published := filter (\<lambda>m. PM_ID m \<noteq> model) (db_published mid),
      db_overrides := filter (\<lambda>ov. OV_ModelID ov \<noteq> model) (db_overrides mid)\<rparr>)"
    using m by (simp add: site_wf_def site_wf_defs ids_ok_filter unique_key_filter del: set_filter)
  then show ?thesis by (simp add: cascade_published_def mid_def Let_def)
qed

subsection \<open>Updates that keep the keys\<close>

text \<open>Writing new rows with the same keys into one table keeps the invariant.\<close>

lemma keep_sites: "site_wf db \<Longrightarrow> (\<And>r. S_ID (f r) = S_ID r) \<Longrightarrow> site_wf (db\<lparr>db_sites := fst (sql_update P f (db_sites db))\<rparr>)"
  by (simp add: site_wf_def site_wf_defs table_simps)

lemma keep_published:
  "site_wf db \<Longrightarrow> (\<And>r. PM_ID (f r) = PM_ID r) \<Longrightarrow> site_wf (db\<lparr>db_published := fst (sql_update P f (db_published db))\<rparr>)"
  by (simp add: site_wf_def site_wf_defs table_simps)

lemma keep_profiles:
  "site_wf db \<Longrightarrow> (\<And>r. RP_ID (f r) = RP_ID r) \<Longrightarrow> site_wf (db\<lparr>db_profiles := fst (sql_update P f (db_profiles db))\<rparr>)"
  by (simp add: site_wf_def site_wf_defs table_simps)

lemma keep_credentials:
  "site_wf db \<Longrightarrow> (\<And>r. CR_ID (f r) = CR_ID r) \<Longrightarrow> (\<And>r. CR_SiteID (f r) = CR_SiteID r) \<Longrightarrow>
    site_wf (db\<lparr>db_credentials := fst (sql_update P f (db_credentials db))\<rparr>)"
  by (simp add: site_wf_def site_wf_defs table_simps)

lemma keep_models:
  "site_wf db \<Longrightarrow> (\<And>r. SM_ID (f r) = SM_ID r) \<Longrightarrow> (\<And>r. SM_SiteID (f r) = SM_SiteID r) \<Longrightarrow>
    (\<And>r. SM_EndpointID (f r) = SM_EndpointID r) \<Longrightarrow> site_wf (db\<lparr>db_models := fst (sql_update P f (db_models db))\<rparr>)"
  by (simp add: site_wf_def site_wf_defs table_simps)

lemma keep_access:
  "site_wf db \<Longrightarrow> (\<And>r. MA_SiteID (f r) = MA_SiteID r) \<Longrightarrow> (\<And>r. MA_CredentialID (f r) = MA_CredentialID r) \<Longrightarrow>
    (\<And>r. MA_SiteModelID (f r) = MA_SiteModelID r) \<Longrightarrow> site_wf (db\<lparr>db_access := fst (sql_update P f (db_access db))\<rparr>)"
  by (simp add: site_wf_def site_wf_defs table_simps)

lemma keep_endpoints:
  "site_wf db \<Longrightarrow> (\<And>r. E_ID (f r) = E_ID r) \<Longrightarrow> (\<And>r. E_SiteID (f r) = E_SiteID r) \<Longrightarrow>
    (\<And>r. endpoint_eligible (f r) = endpoint_eligible r) \<Longrightarrow> site_wf (db\<lparr>db_endpoints := fst (sql_update P f (db_endpoints db))\<rparr>)"
  by (simp add: site_wf_def site_wf_defs table_simps)

lemma bump_site_revision_wf: "site_wf db \<Longrightarrow> bump_site_revision_tx site expected now db = Inr db' \<Longrightarrow> site_wf db'"
  by (auto simp: bump_site_revision_tx_def dest!: update_revisioned_InrD intro!: keep_sites)

lemma bump_published_revision_wf:
  "site_wf db \<Longrightarrow> bump_published_model_revision_tx model expected now db = Inr db' \<Longrightarrow> site_wf db'"
  by (auto simp: bump_published_model_revision_tx_def dest!: update_revisioned_InrD intro!: keep_published)

lemma bump_profile_revision_wf:
  "site_wf db \<Longrightarrow> bump_routing_profile_revision_tx profile expected now db = Inr db' \<Longrightarrow> site_wf db'"
  by (auto simp: bump_routing_profile_revision_tx_def dest!: update_revisioned_InrD intro!: keep_profiles)

lemma bump_published_where_wf: "site_wf db \<Longrightarrow> site_wf (bump_published_where P now db)"
  unfolding bump_published_where_def by (rule keep_published) simp_all

lemmas bumps_wf = bump_published_where_wf [of db "\<lambda>t. RT_SiteID t = x" for db x, folded bump_published_models_for_site_tx_def]
  bump_published_where_wf [of db "\<lambda>t. RT_EndpointID t = x" for db x, folded bump_published_models_for_endpoint_tx_def]
  bump_published_where_wf [of db "\<lambda>t. RT_SiteModelID t = x" for db x, folded bump_published_models_for_site_model_tx_def]

lemma bump_published_fields [simp]:
  "db_sites (bump_published_where P now db) = db_sites db" "db_endpoints (bump_published_where P now db) = db_endpoints db"
  "db_credentials (bump_published_where P now db) = db_credentials db" "db_models (bump_published_where P now db) = db_models db"
  "db_access (bump_published_where P now db) = db_access db" "db_targets (bump_published_where P now db) = db_targets db"
  "db_overrides (bump_published_where P now db) = db_overrides db" "db_profiles (bump_published_where P now db) = db_profiles db"
  by (simp_all add: bump_published_where_def)

lemmas bump_defs = bump_published_models_for_site_tx_def bump_published_models_for_endpoint_tx_def
  bump_published_models_for_site_model_tx_def

subsection \<open>Reordering\<close>

text \<open>
  What a successful reordering loop did: the listed rows belong to the parent and got their
  positions, every other row is as it was, and the keys are the same.
\<close>

lemma reorder_loop_keys:
  assumes "\<And>p r. k (put p r) = k r"
  shows "reorder_loop key mine put n seen ids t = Inr t' \<Longrightarrow> map k t' = map k t"
proof (induction ids arbitrary: n seen t)
  case Nil
  then show ?case by simp
next
  case (Cons i ids)
  then have "map k t' = map k (fst (sql_update (\<lambda>r. key r = i \<and> mine r) (put n) t))"
    by (auto simp: sql_update_def Let_def split: if_splits)
  then show ?case by (simp add: update_keys [of k, OF assms])
qed

text \<open>The rows after the loop, one by one: \<open>placed\<close> is the effect of the loop on a row.\<close>

fun placed :: "('r \<Rightarrow> int) \<Rightarrow> ('r \<Rightarrow> bool) \<Rightarrow> (int \<Rightarrow> 'r \<Rightarrow> 'r) \<Rightarrow> int \<Rightarrow> int list \<Rightarrow> 'r \<Rightarrow> 'r" where
  "placed key mine put n [] r = r"
| "placed key mine put n (i # ids) r = placed key mine put (n + 1) ids (if key r = i \<and> mine r then put n r else r)"

lemma reorder_loop_result:
  assumes "\<And>p r. key (put p r) = key r" and "\<And>p r. mine (put p r) = mine r"
  shows "reorder_loop key mine put n seen ids t = Inr t' \<Longrightarrow>
    t' = map (placed key mine put n ids) t \<and> distinct ids \<and> set ids \<inter> set seen = {} \<and>
    (\<forall>i\<in>set ids. \<exists>r\<in>set t. key r = i \<and> mine r)"
proof (induction ids arbitrary: n seen t)
  case Nil
  then show ?case by (simp add: map_idI)
next
  case (Cons i ids)
  let ?u = "map (\<lambda>r. if key r = i \<and> mine r then put n r else r) t"
  from Cons.prems have new: "i \<notin> set seen" and one: "length (filter (\<lambda>r. key r = i \<and> mine r) t) = 1"
    and rest: "reorder_loop key mine put (n + 1) (i # seen) ids ?u = Inr t'"
    by (auto simp: sql_update_def Let_def split: if_splits)
  from Cons.IH [OF rest] have ih: "t' = map (placed key mine put (n + 1) ids) ?u" "distinct ids"
    "set ids \<inter> set (i # seen) = {}" "\<forall>j\<in>set ids. \<exists>r\<in>set ?u. key r = j \<and> mine r" by blast+
  have "\<exists>r\<in>set t. key r = i \<and> mine r"
    using one by (metis (mono_tags, lifting) filter_False length_0_conv zero_neq_one)
  moreover have "\<forall>j\<in>set ids. \<exists>r\<in>set t. key r = j \<and> mine r"
    using ih(4) assms by (fastforce split: if_splits)
  ultimately show ?case using ih new by (auto simp: comp_def)
qed

lemma placed_other: "key r \<notin> set ids \<or> \<not> mine r \<Longrightarrow> placed key mine put n ids r = r"
  by (induction ids arbitrary: n) auto

lemma placed_nth:
  assumes "\<And>p r. key (put p r) = key r" and "\<And>p r. mine (put p r) = mine r"
    and "distinct ids" and "i < length ids" and "key r = ids ! i" and "mine r"
  shows "placed key mine put n ids r = put (n + int i) r"
  using assms(3-6)
proof (induction ids arbitrary: n i r)
  case Nil
  then show ?case by simp
next
  case (Cons j ids)
  show ?case
  proof (cases i)
    case 0
    with Cons.prems have "key r = j" "key (put n r) \<notin> set ids" by (simp_all add: assms(1))
    with 0 Cons.prems show ?thesis by (simp add: placed_other)
  next
    case (Suc i')
    with Cons.prems have "key r \<noteq> j" by (metis distinct.simps(2) length_Cons not_less_eq nth_Cons_Suc nth_mem)
    with Suc Cons.prems Cons.IH [of i' r "n + 1"] show ?thesis by (simp add: add.assoc)
  qed
qed

text \<open>With unique IDs the loop covers every row of the parent, so the parent's rows get the positions 0, 1, 2, ... in the order of the list.\<close>

lemma reorder_rows_ok:
  assumes "unique_key key t" and "\<And>p r. key (put p r) = key r" and "\<And>p r. mine (put p r) = mine r"
    and "reorder_rows key mine put ids t = Inr t'"
  shows "t' = map (placed key mine put 0 ids) t \<and> distinct ids \<and> set ids = key ` {r \<in> set t. mine r}"
proof -
  from assms(4) have len: "length (filter mine t) = length ids" and loop: "reorder_loop key mine put 0 [] ids t = Inr t'"
    by (auto simp: reorder_rows_def split: if_splits)
  from reorder_loop_result [of key put mine, OF assms(2,3) loop]
  have r: "t' = map (placed key mine put 0 ids) t" "distinct ids" "\<forall>i\<in>set ids. \<exists>r\<in>set t. key r = i \<and> mine r" by blast+
  have sub: "set ids \<subseteq> key ` {r \<in> set t. mine r}" using r(3) by fastforce
  have "card (key ` {r \<in> set t. mine r}) \<le> length (filter mine t)"
    by (metis card_length length_map list.set_map set_filter)
  also have "\<dots> = card (set ids)" using len r(2) by (simp add: distinct_card)
  finally have "set ids = key ` {r \<in> set t. mine r}"
    using sub by (intro card_seteq) auto
  with r show ?thesis by blast
qed

lemma unique_key_by:
  assumes "unique_key key t" and "\<And>a b. \<lbrakk>a \<in> set t; b \<in> set t; k a = k b\<rbrakk> \<Longrightarrow> key a = key b"
  shows "unique_key k t"
proof -
  from assms(1) have "distinct t" "inj_on key (set t)" by (simp_all add: unique_key_def distinct_map)
  moreover from this(2) have "inj_on k (set t)" using assms(2) by (meson inj_on_def)
  ultimately show ?thesis by (simp add: unique_key_def distinct_map)
qed

lemma map_key_cong:
  assumes "map k xs = map k ys" and "\<And>a b. k a = k b \<Longrightarrow> f a = f b" shows "map f xs = map f ys"
  using assms(1)
proof (induction xs arbitrary: ys)
  case Nil
  then show ?case by simp
next
  case (Cons x xs)
  then obtain y ys' where y: "ys = y # ys'" "k x = k y" "map k xs = map k ys'"
    by (cases ys) auto
  from y(1) Cons.IH [OF y(3)] assms(2) [OF y(2)] show ?case by simp
qed

definition target_key :: "target_row \<Rightarrow> int \<times> int \<times> int \<times> int \<times> int" where
  "target_key t = (RT_ID t, RT_PublishedModelID t, RT_SiteID t, RT_EndpointID t, RT_SiteModelID t)"

text \<open>New target rows with the same keys and distinct positions keep the invariant.\<close>

lemma keep_targets:
  assumes wf: "site_wf db" and m: "map target_key ts = map target_key (db_targets db)"
    and p: "unique_key (\<lambda>t. (RT_PublishedModelID t, RT_Position t)) ts"
  shows "site_wf (db\<lparr>db_targets := ts\<rparr>)"
proof -
  note c = map_key_cong [OF m]
  have i: "f ` set ts = f ` set (db_targets db)" if "\<And>a b. target_key a = target_key b \<Longrightarrow> f a = f b" for f :: "target_row \<Rightarrow> 'k"
    using c [of f, OF that] by (metis list.set_map)
  have i1: "RT_ID ` set ts = RT_ID ` set (db_targets db)"
    "RT_PublishedModelID ` set ts = RT_PublishedModelID ` set (db_targets db)" by (rule i, simp add: target_key_def)+
  have i2: "(\<lambda>t. (RT_SiteID t, RT_EndpointID t, RT_SiteModelID t)) ` set ts = (\<lambda>t. (RT_SiteID t, RT_EndpointID t, RT_SiteModelID t)) ` set (db_targets db)"
    by (rule i, simp add: target_key_def)
  have i3: "(\<lambda>t. (RT_PublishedModelID t, RT_ID t)) ` set ts = (\<lambda>t. (RT_PublishedModelID t, RT_ID t)) ` set (db_targets db)"
    by (rule i, simp add: target_key_def)
  have i4: "(\<lambda>t. (RT_EndpointID t, True)) ` set ts = (\<lambda>t. (RT_EndpointID t, True)) ` set (db_targets db)"
    by (rule i, simp add: target_key_def)
  have u: "unique_key RT_ID ts = unique_key RT_ID (db_targets db)"
    "unique_key (\<lambda>t. (RT_PublishedModelID t, RT_SiteID t)) ts = unique_key (\<lambda>t. (RT_PublishedModelID t, RT_SiteID t)) (db_targets db)"
    unfolding unique_key_def by (rule arg_cong [of _ _ distinct], rule c, simp add: target_key_def)+
  have "ids_ok RT_ID (seq_targets db) ts" using wf by (simp add: site_wf_def keys_ok_def ids_ok_def u i1 del: ball_simps)
  then show ?thesis using wf p by (simp add: site_wf_def site_wf_defs i1 i2 i3 i4 u)
qed

lemma unique_key_D: "unique_key k t \<Longrightarrow> a \<in> set t \<Longrightarrow> b \<in> set t \<Longrightarrow> k a = k b \<Longrightarrow> a = b"
  by (auto simp: unique_key_def distinct_map inj_on_def)

lemma placed_keeps:
  assumes "\<And>p r. k (put p r) = k r" shows "k (placed key mine put n ids r) = k r"
  using assms by (induction ids arbitrary: n r) (simp_all split: if_splits)

lemma reorder_targets_wf:
  assumes wf: "site_wf db"
    and r: "reorder_rows RT_ID (\<lambda>t. RT_PublishedModelID t = model)
      (\<lambda>p t. t\<lparr>RT_Position := p, RT_Revision := RT_Revision t + 1, RT_UpdatedAt := clock\<rparr>) ids (db_targets db) = Inr ts"
  shows "site_wf (db\<lparr>db_targets := ts\<rparr>)"
proof -
  let ?put = "\<lambda>p t. t\<lparr>RT_Position := p, RT_Revision := RT_Revision t + 1, RT_UpdatedAt := clock\<rparr>"
  let ?mine = "\<lambda>t. RT_PublishedModelID t = model"
  let ?pl = "placed RT_ID ?mine ?put 0 ids"
  have u: "unique_key RT_ID (db_targets db)" and up: "unique_key (\<lambda>t. (RT_PublishedModelID t, RT_Position t)) (db_targets db)"
    using wf by (auto simp: site_wf_def keys_ok_def ids_ok_def routes_ok_def)
  from reorder_rows_ok [OF u _ _ r]
  have ts: "ts = map ?pl (db_targets db)" and d: "distinct ids" and ids: "set ids = RT_ID ` {t \<in> set (db_targets db). ?mine t}"
    by simp_all
  have k: "RT_ID (?pl t) = RT_ID t" "RT_PublishedModelID (?pl t) = RT_PublishedModelID t" "RT_SiteID (?pl t) = RT_SiteID t"
    "RT_EndpointID (?pl t) = RT_EndpointID t" "RT_SiteModelID (?pl t) = RT_SiteModelID t" for t
    by (rule placed_keeps, simp)+
  have pos: "\<exists>i<length ids. RT_ID t = ids ! i \<and> RT_Position (?pl t) = int i" if t: "t \<in> set (db_targets db)" "?mine t" for t
  proof -
    from t ids have "RT_ID t \<in> set ids" by blast
    then obtain i where i: "i < length ids" "ids ! i = RT_ID t" by (auto simp: in_set_conv_nth)
    with placed_nth [of RT_ID ?put ?mine ids i t 0] d t(2) show ?thesis by auto
  qed
  have "unique_key (\<lambda>t. (RT_PublishedModelID (?pl t), RT_Position (?pl t))) (db_targets db)"
  proof (rule unique_key_by [OF u])
    fix a b assume ab: "a \<in> set (db_targets db)" "b \<in> set (db_targets db)"
      and eq: "(RT_PublishedModelID (?pl a), RT_Position (?pl a)) = (RT_PublishedModelID (?pl b), RT_Position (?pl b))"
    show "RT_ID a = RT_ID b"
    proof (cases "?mine a")
      case True
      with eq have "?mine b" by (simp add: k)
      with pos [OF ab(1) True] pos [OF ab(2)] eq show ?thesis by auto
    next
      case False
      with eq have nb: "\<not> ?mine b" by (simp add: k)
      have "?pl a = a" "?pl b = b" by (rule placed_other; use False nb in simp)+
      with eq unique_key_D [OF up ab] show ?thesis by simp
    qed
  qed
  then have "unique_key (\<lambda>t. (RT_PublishedModelID t, RT_Position t)) ts"
    by (simp add: ts unique_key_def comp_def)
  moreover have "map target_key ts = map target_key (db_targets db)"
    by (simp add: ts target_key_def k)
  ultimately show ?thesis by (intro keep_targets [OF wf])
qed

end
