(* ===== verification/SiteInvariant.thy ===== *)
theory SiteInvariant
  imports SiteLaws
begin

text \<open>
  Every operation of the site domain keeps \<open>site_wf\<close>, so it holds in every state the operations
  reach from the empty database.
\<close>

subsection \<open>New rows\<close>

lemma add_site:
  "site_wf db \<Longrightarrow> S_ID r = seq_sites db + 1 \<Longrightarrow>
    site_wf (db\<lparr>seq_sites := seq_sites db + 1, db_sites := db_sites db @ [r]\<rparr>)"
  by (auto simp: site_wf_def site_wf_defs ids_ok_append)

lemma add_published:
  "site_wf db \<Longrightarrow> PM_ID r = seq_published db + 1 \<Longrightarrow>
    site_wf (db\<lparr>seq_published := seq_published db + 1, db_published := db_published db @ [r]\<rparr>)"
  by (auto simp: site_wf_def site_wf_defs ids_ok_append)

lemma add_profile:
  "site_wf db \<Longrightarrow> RP_ID r = seq_profiles db + 1 \<Longrightarrow>
    site_wf (db\<lparr>seq_profiles := seq_profiles db + 1, db_profiles := db_profiles db @ [r]\<rparr>)"
  by (auto simp: site_wf_def site_wf_defs ids_ok_append)

lemma add_endpoint:
  "site_wf db \<Longrightarrow> E_ID r = seq_endpoints db + 1 \<Longrightarrow> E_SiteID r \<in> S_ID ` set (db_sites db) \<Longrightarrow>
    site_wf (db\<lparr>seq_endpoints := seq_endpoints db + 1, db_endpoints := db_endpoints db @ [r]\<rparr>)"
  by (simp add: site_wf_def site_wf_defs ids_ok_append subset_insertI2)

lemma add_credential:
  "site_wf db \<Longrightarrow> CR_ID r = seq_credentials db + 1 \<Longrightarrow> CR_SiteID r \<in> S_ID ` set (db_sites db) \<Longrightarrow>
    site_wf (db\<lparr>seq_credentials := seq_credentials db + 1, db_credentials := db_credentials db @ [r]\<rparr>)"
  by (simp add: site_wf_def site_wf_defs ids_ok_append subset_insertI2)

lemma add_model:
  "site_wf db \<Longrightarrow> SM_ID r = seq_models db + 1 \<Longrightarrow>
    (SM_SiteID r, SM_EndpointID r) \<in> (\<lambda>e. (E_SiteID e, E_ID e)) ` set (db_endpoints db) \<Longrightarrow>
    site_wf (db\<lparr>seq_models := seq_models db + 1, db_models := db_models db @ [r]\<rparr>)"
  by (simp add: site_wf_def site_wf_defs ids_ok_append subset_insertI2)

lemma add_access:
  "site_wf db \<Longrightarrow> (MA_SiteID r, MA_CredentialID r) \<in> (\<lambda>c. (CR_SiteID c, CR_ID c)) ` set (db_credentials db) \<Longrightarrow>
    (MA_SiteID r, MA_SiteModelID r) \<in> (\<lambda>m. (SM_SiteID m, SM_ID m)) ` set (db_models db) \<Longrightarrow>
    (MA_CredentialID r, MA_SiteModelID r) \<notin> (\<lambda>a. (MA_CredentialID a, MA_SiteModelID a)) ` set (db_access db) \<Longrightarrow>
    site_wf (db\<lparr>db_access := db_access db @ [r]\<rparr>)"
  by (simp add: site_wf_def site_wf_defs unique_key_def)

text \<open>\<open>COALESCE(MAX(position)+1,0)\<close> is above every position.\<close>

lemma fold_max_ge: "(m::int) \<le> fold (\<lambda>x a. max (pos x) a) xs m \<and> (\<forall>x\<in>set xs. pos x \<le> fold (\<lambda>x a. max (pos x) a) xs m)"
proof (induction xs arbitrary: m)
  case Nil
  then show ?case by simp
next
  case (Cons x xs)
  from Cons [of "max (pos x) m"] show ?case by auto
qed

lemma next_position_above: "r \<in> set rows \<Longrightarrow> pos r < next_position pos rows"
  by (cases rows) (use fold_max_ge [of "pos (hd rows)" pos "tl rows"] in \<open>auto simp: next_position_def\<close>)

lemma next_position_nonneg:
  assumes "\<forall>r\<in>set rows. 0 \<le> pos r" shows "0 \<le> next_position pos rows"
proof (cases rows)
  case Nil
  then show ?thesis by (simp add: next_position_def)
next
  case (Cons r rs)
  with next_position_above [of r rows pos] assms show ?thesis by auto
qed

lemma add_target:
  assumes wf: "site_wf db" and r: "RT_ID r = seq_targets db + 1" "RT_PublishedModelID r \<in> PM_ID ` set (db_published db)"
    and m: "m \<in> set (db_models db)" "SM_SiteID m = RT_SiteID r" "SM_EndpointID m = RT_EndpointID r" "SM_ID m = RT_SiteModelID r"
    and e: "e \<in> set (db_endpoints db)" "E_ID e = RT_EndpointID r" "endpoint_eligible e"
    and s: "\<forall>t\<in>set (db_targets db). \<not> (RT_PublishedModelID t = RT_PublishedModelID r \<and> RT_SiteID t = RT_SiteID r)"
    and p: "RT_Position r = next_position RT_Position (filter (\<lambda>t. RT_PublishedModelID t = RT_PublishedModelID r) (db_targets db))"
  shows "site_wf (db\<lparr>seq_targets := seq_targets db + 1, db_targets := db_targets db @ [r]\<rparr>)"
proof -
  have "(RT_SiteID r, RT_EndpointID r, RT_SiteModelID r) \<in> (\<lambda>m. (SM_SiteID m, SM_EndpointID m, SM_ID m)) ` set (db_models db)"
    using m by force
  moreover have "(RT_EndpointID r, True) \<in> (\<lambda>e. (E_ID e, endpoint_eligible e)) ` set (db_endpoints db)"
    using e by force
  moreover have "(RT_PublishedModelID r, RT_SiteID r) \<notin> (\<lambda>t. (RT_PublishedModelID t, RT_SiteID t)) ` set (db_targets db)"
    using s by force
  moreover have "(RT_PublishedModelID r, RT_Position r) \<notin> (\<lambda>t. (RT_PublishedModelID t, RT_Position t)) ` set (db_targets db)"
  proof
    assume "(RT_PublishedModelID r, RT_Position r) \<in> (\<lambda>t. (RT_PublishedModelID t, RT_Position t)) ` set (db_targets db)"
    then obtain t where "t \<in> set (filter (\<lambda>t. RT_PublishedModelID t = RT_PublishedModelID r) (db_targets db))"
      "RT_Position t = RT_Position r" by auto
    with next_position_above [of t _ RT_Position] p show False by fastforce
  qed
  ultimately show ?thesis
    using wf r by (simp add: site_wf_def site_wf_defs ids_ok_append subset_insertI2)
      (simp add: unique_key_def)
qed

subsection \<open>Every operation keeps the invariant\<close>

lemma row_by_image: "row_by key k t = Some r \<Longrightarrow> k \<in> key ` set t"
  by (auto dest: row_by_SomeD)

lemma create_site_wf: "site_wf db \<Longrightarrow> create_site clock w db = Inr (i, db') \<Longrightarrow> site_wf db'"
  by (auto simp: create_site_def Let_def split: if_splits intro!: add_site)

lemma update_site_wf: "site_wf db \<Longrightarrow> update_site clock site expected w db = Inr db' \<Longrightarrow> site_wf db'"
  by (auto simp: update_site_def Let_def dest!: update_constrained_InrD intro!: keep_sites bumps_wf)

lemma delete_site_wf: "site_wf db \<Longrightarrow> delete_site clock site expected db = Inr db' \<Longrightarrow> site_wf db'"
proof -
  assume wf: "site_wf db" and d: "delete_site clock site expected db = Inr db'"
  let ?b = "bump_published_models_for_site_tx site clock db"
  have b: "site_wf ?b" by (rule bumps_wf [OF wf])
  then have u: "unique_key S_ID (db_sites ?b)" by (simp add: site_wf_def keys_ok_def ids_ok_def)
  from d obtain t where "delete_revisioned S_ID S_Revision site expected (db_sites ?b) = Inr t"
    and db': "db' = cascade_site site (?b\<lparr>db_sites := t\<rparr>)"
    by (auto simp: delete_site_def Let_def)
  from delete_revisioned_ok [OF u this(1)] have "t = filter (\<lambda>r. S_ID r \<noteq> site) (db_sites ?b)" by blast
  with db' cascade_site_wf [OF b, of site] show "site_wf db'" by simp
qed

lemma create_endpoint_wf:
  "site_wf db \<Longrightarrow> create_inference_endpoint compact_json clock site expected w db = Inr (i, db') \<Longrightarrow> site_wf db'"
  by (auto simp: create_inference_endpoint_def Let_def row_by_None split: if_splits prod.splits
      elim!: bump_site_revision_wf [rotated] intro!: add_endpoint)

lemma delete_endpoint_wf:
  "site_wf db \<Longrightarrow> delete_inference_endpoint clock endpoint expected db = Inr db' \<Longrightarrow> site_wf db'"
  by (auto simp: delete_inference_endpoint_def Let_def split: option.splits
      elim!: bump_site_revision_wf [rotated] intro!: cascade_endpoints_wf bumps_wf)

lemma create_credential_wf:
  "site_wf db \<Longrightarrow> create_inference_credential clock site expected w db = Inr (i, db') \<Longrightarrow> site_wf db'"
  by (auto simp: create_inference_credential_def Let_def row_by_None split: if_splits
      elim!: bump_site_revision_wf [rotated] intro!: add_credential)

lemma update_credential_wf:
  "site_wf db \<Longrightarrow> update_inference_credential clock credential expected w db = Inr db' \<Longrightarrow> site_wf db'"
  by (auto simp: update_inference_credential_def Let_def split: if_splits option.splits dest!: update_constrained_InrD
      elim!: bump_site_revision_wf [rotated] intro!: keep_credentials)

lemma update_credential_runtime_wf:
  "site_wf db \<Longrightarrow> update_inference_credential_runtime redact clock credential w db = Inr db' \<Longrightarrow> site_wf db'"
  by (auto simp: update_inference_credential_runtime_def Let_def split: if_splits dest!: update_revisioned_InrD
      intro!: keep_credentials)

lemma delete_credential_wf:
  "site_wf db \<Longrightarrow> delete_inference_credential clock credential expected db = Inr db' \<Longrightarrow> site_wf db'"
  by (auto simp: delete_inference_credential_def split: option.splits
      elim!: bump_site_revision_wf [rotated] intro!: cascade_credentials_wf)

lemma keep_endpoints_eligible:
  assumes wf: "site_wf db" and k: "\<And>r. E_ID (f r) = E_ID r" "\<And>r. E_SiteID (f r) = E_SiteID r"
    and e: "\<And>r. \<lbrakk>r \<in> set (db_endpoints db); P r; endpoint_eligible r; \<not> endpoint_eligible (f r)\<rbrakk>
      \<Longrightarrow> \<forall>t\<in>set (db_targets db). RT_EndpointID t \<noteq> E_ID r"
  shows "site_wf (db\<lparr>db_endpoints := fst (sql_update P f (db_endpoints db))\<rparr>)"
proof -
  have "(RT_EndpointID t, True) \<in> (\<lambda>e. (E_ID e, endpoint_eligible e)) ` set (fst (sql_update P f (db_endpoints db)))"
    if t: "t \<in> set (db_targets db)" for t
  proof -
    from target_endpoint [OF wf t] obtain r where r: "r \<in> set (db_endpoints db)" "E_ID r = RT_EndpointID t" "endpoint_eligible r"
      by blast
    with e [of r] t have "P r \<Longrightarrow> endpoint_eligible (f r)" by auto
    with r(3) have "endpoint_eligible (if P r then f r else r)" by simp
    moreover have "E_ID (if P r then f r else r) = RT_EndpointID t" using r(2) k by simp
    moreover have "(if P r then f r else r) \<in> set (fst (sql_update P f (db_endpoints db)))"
      using r(1) by (simp only: set_update) (rule imageI)
    ultimately show ?thesis by (intro image_eqI [of _ _ "if P r then f r else r"]) simp_all
  qed
  then have "(\<lambda>t. (RT_EndpointID t, True)) ` set (db_targets db)
      \<subseteq> (\<lambda>e. (E_ID e, endpoint_eligible e)) ` set (fst (sql_update P f (db_endpoints db)))"
    by (simp add: image_subset_iff)
  with wf k show ?thesis by (simp add: site_wf_def site_wf_defs table_simps)
qed

lemma update_endpoint_wf:
  assumes wf: "site_wf db" and u: "update_inference_endpoint compact_json clock endpoint expected input db = Inr db'"
  shows "site_wf db'"
proof -
  let ?b = "bump_published_models_for_endpoint_tx endpoint clock db"
  have wfb: "site_wf ?b" by (rule bumps_wf [OF wf])
  have un: "unique_key E_ID (db_endpoints db)" using wf by (simp add: site_wf_def keys_ok_def ids_ok_def)
  have same: "db_endpoints ?b = db_endpoints db" "db_targets ?b = db_targets db" by (simp_all add: bump_defs)
  from u obtain w headers where norm: "normalize_endpoint_write compact_json input = Inr (w, headers)"
    unfolding update_inference_endpoint_def by (cases "normalize_endpoint_write compact_json input") auto
  from u norm obtain current where cur: "row_by E_ID endpoint (db_endpoints db) = Some current"
    unfolding update_inference_endpoint_def by (cases "row_by E_ID endpoint (db_endpoints db)") auto
  from u norm cur have guard: "\<not> (endpoint_eligible current \<and> \<not> RouteEligible (capabilities_for (EW_WireProtocol w)) \<and>
        0 < length (filter (\<lambda>t. RT_EndpointID t = endpoint) (db_targets db)))"
    unfolding update_inference_endpoint_def endpoint_eligible_def by (auto split: if_splits)
  with u norm cur obtain t where upd: "update_constrained E_ID E_Revision endpoint expected (endpoint_columns clock w headers)
        (\<lambda>e. endpoint_free (E_SiteID e) (EW_BaseURL w) (EW_WireProtocol w) endpoint ?b) (db_endpoints ?b) = Inr t"
    and last: "bump_site_revision_tx (E_SiteID current) 0 clock (?b\<lparr>db_endpoints := t\<rparr>) = Inr db'"
    unfolding update_inference_endpoint_def endpoint_eligible_def Let_def by (auto split: if_splits)
  have t: "t = fst (sql_update (\<lambda>r. E_ID r = endpoint \<and> revision_matches expected (E_Revision r))
      (endpoint_columns clock w headers) (db_endpoints ?b))"
    using upd by (rule update_constrained_InrD)
  have "site_wf (?b\<lparr>db_endpoints := t\<rparr>)"
    unfolding t
  proof (rule keep_endpoints_eligible [OF wfb])
    fix r assume r: "r \<in> set (db_endpoints ?b)" "E_ID r = endpoint \<and> revision_matches expected (E_Revision r)" "endpoint_eligible r"
      and n: "\<not> endpoint_eligible (endpoint_columns clock w headers r)"
    from row_by_unique [OF un cur] r same have "r = current" by simp
    with guard r n have "length (filter (\<lambda>t. RT_EndpointID t = endpoint) (db_targets db)) = 0"
      by (simp add: endpoint_eligible_def endpoint_columns_def)
    with r(2) show "\<forall>t\<in>set (db_targets ?b). RT_EndpointID t \<noteq> E_ID r"
      by (simp add: same filter_empty_conv)
  qed (simp_all add: endpoint_columns_def)
  from bump_site_revision_wf [OF this last] show ?thesis .
qed

text \<open>Reordering endpoints or credentials touches positions and revisions only.\<close>

lemma reorder_endpoints_wf:
  assumes wf: "site_wf db" and r: "reorder_inference_endpoints clock site expected ids db = Inr db'"
  shows "site_wf db'"
proof -
  let ?put = "\<lambda>p e. e\<lparr>E_Position := p, E_Revision := E_Revision e + 1, E_UpdatedAt := clock\<rparr>"
  from r obtain db1 t where b: "bump_site_revision_tx site expected clock db = Inr db1"
    and l: "reorder_rows E_ID (\<lambda>e. E_SiteID e = site) ?put ids (db_endpoints db1) = Inr t" and db': "db' = db1\<lparr>db_endpoints := t\<rparr>"
    by (auto simp: reorder_inference_endpoints_def)
  have w1: "site_wf db1" by (rule bump_site_revision_wf [OF wf b])
  then have u: "unique_key E_ID (db_endpoints db1)" by (simp add: site_wf_def keys_ok_def ids_ok_def)
  from reorder_rows_ok [OF u _ _ l] have t: "t = map (placed E_ID (\<lambda>e. E_SiteID e = site) ?put 0 ids) (db_endpoints db1)"
    by simp
  let ?g = "placed E_ID (\<lambda>e. E_SiteID e = site) ?put 0 ids"
  have "t = fst (sql_update (\<lambda>_. True) ?g (db_endpoints db1))" by (simp add: t sql_update_def)
  moreover have "site_wf (db1\<lparr>db_endpoints := fst (sql_update (\<lambda>_. True) ?g (db_endpoints db1))\<rparr>)"
    by (rule keep_endpoints [OF w1]; rule placed_keeps; simp add: endpoint_eligible_def)
  ultimately show ?thesis unfolding db' by (simp only:)
qed

lemma reorder_credentials_wf:
  assumes wf: "site_wf db" and r: "reorder_inference_credentials clock site expected ids db = Inr db'"
  shows "site_wf db'"
proof -
  let ?put = "\<lambda>p c. c\<lparr>CR_Position := p, CR_Revision := CR_Revision c + 1, CR_UpdatedAt := clock\<rparr>"
  from r obtain db1 t where b: "bump_site_revision_tx site expected clock db = Inr db1"
    and l: "reorder_rows CR_ID (\<lambda>c. CR_SiteID c = site) ?put ids (db_credentials db1) = Inr t" and db': "db' = db1\<lparr>db_credentials := t\<rparr>"
    by (auto simp: reorder_inference_credentials_def)
  have w1: "site_wf db1" by (rule bump_site_revision_wf [OF wf b])
  then have u: "unique_key CR_ID (db_credentials db1)" by (simp add: site_wf_def keys_ok_def ids_ok_def)
  from reorder_rows_ok [OF u _ _ l] have t: "t = map (placed CR_ID (\<lambda>c. CR_SiteID c = site) ?put 0 ids) (db_credentials db1)"
    by simp
  let ?g = "placed CR_ID (\<lambda>c. CR_SiteID c = site) ?put 0 ids"
  have "t = fst (sql_update (\<lambda>_. True) ?g (db_credentials db1))" by (simp add: t sql_update_def)
  moreover have "site_wf (db1\<lparr>db_credentials := fst (sql_update (\<lambda>_. True) ?g (db_credentials db1))\<rparr>)"
    by (rule keep_credentials [OF w1]; rule placed_keeps; simp)
  ultimately show ?thesis unfolding db' by (simp only:)
qed

lemma insert_site_model_wf: "site_wf db \<Longrightarrow> insert_site_model clock w db = Inr (i, db') \<Longrightarrow> site_wf db'"
proof -
  assume wf: "site_wf db" and i: "insert_site_model clock w db = Inr (i, db')"
  then have e: "endpoint_of_site (MW_SiteID w) (MW_EndpointID w) db"
    and db': "db' = db\<lparr>seq_models := seq_models db + 1, db_models := db_models db @ [new_site_model (seq_models db + 1) clock w]\<rparr>"
    by (auto simp: insert_site_model_def Let_def split: if_splits)
  from e have "(MW_SiteID w, MW_EndpointID w) \<in> (\<lambda>e. (E_SiteID e, E_ID e)) ` set (db_endpoints db)"
    by (force simp: endpoint_of_site_def list_ex_iff)
  then show "site_wf db'" unfolding db' by (intro add_model [OF wf]) (simp_all add: new_site_model_def)
qed

lemma create_site_model_wf: "site_wf db \<Longrightarrow> create_site_model clock w db = Inr (i, db') \<Longrightarrow> site_wf db'"
  by (auto simp: create_site_model_def dest: insert_site_model_wf)

lemma upsert_site_model_wf: "site_wf db \<Longrightarrow> upsert_site_model clock w db = Inr (i, db') \<Longrightarrow> site_wf db'"
  by (auto simp: upsert_site_model_def Let_def split: option.splits if_splits dest: insert_site_model_wf
      intro!: keep_models bumps_wf)

lemma update_site_model_wf:
  assumes wf: "site_wf db" and u: "update_site_model clock model expected input db = Inr db'"
  shows "site_wf db'"
proof -
  let ?b = "bump_published_models_for_site_model_tx model clock db"
  have wfb: "site_wf ?b" by (rule bumps_wf [OF wf])
  have un: "unique_key SM_ID (db_models ?b)" using wfb by (simp add: site_wf_def keys_ok_def ids_ok_def)
  from u obtain w where "normalize_site_model_write input = Inr w"
    unfolding update_site_model_def by (cases "normalize_site_model_write input") auto
  with u obtain t where upd: "update_constrained SM_ID SM_Revision model expected (site_model_columns clock w)
        (site_model_update_ok w ?b) (db_models ?b) = Inr t" and db': "db' = ?b\<lparr>db_models := t\<rparr>"
    unfolding update_site_model_def Let_def by auto
  from update_constrained_ok [OF un upd] obtain m where m: "row_by SM_ID model (db_models ?b) = Some m"
    and ok: "site_model_update_ok w ?b m" by blast
  have mem: "m \<in> set (db_models ?b)" "SM_ID m = model" using row_by_SomeD [OF m] by simp_all
  define P where "P r \<longleftrightarrow> SM_ID r = model \<and> revision_matches expected (SM_Revision r)" for r :: site_model_row
  define g where "g r = (if P r then site_model_columns clock w r else r)" for r :: site_model_row
  have t: "t = map g (db_models ?b)"
    using update_constrained_InrD [OF upd] by (simp add: sql_update_def g_def P_def)
  have only: "r = m" if "r \<in> set (db_models ?b)" "P r" for r
    using row_by_unique [OF un m that(1)] that(2) by (simp add: P_def)
  have gid: "SM_ID (g r) = SM_ID r" for r by (simp add: g_def site_model_columns_def)
  have "ids_ok SM_ID (seq_models ?b) t"
  proof -
    have "map SM_ID t = map SM_ID (db_models ?b)" by (simp add: t gid)
    then have "SM_ID ` set t = SM_ID ` set (db_models ?b)" by (metis list.set_map)
    with \<open>map SM_ID t = map SM_ID (db_models ?b)\<close> wfb show ?thesis
      by (simp add: ids_ok_def unique_key_def site_wf_def keys_ok_def del: ball_simps)
  qed
  moreover have "(\<lambda>m. (SM_SiteID m, SM_EndpointID m)) ` set t \<subseteq> (\<lambda>e. (E_SiteID e, E_ID e)) ` set (db_endpoints ?b)"
  proof -
    have "(SM_SiteID (g r), SM_EndpointID (g r)) \<in> (\<lambda>e. (E_SiteID e, E_ID e)) ` set (db_endpoints ?b)"
      if r: "r \<in> set (db_models ?b)" for r
    proof (cases "P r")
      case True
      with ok show ?thesis
        by (force simp: g_def site_model_columns_def site_model_update_ok_def endpoint_of_site_def list_ex_iff)
    next
      case False
      with wfb r show ?thesis by (auto simp: g_def site_wf_def model_refs_ok_def)
    qed
    then show ?thesis by (auto simp: t)
  qed
  moreover have "(\<lambda>a. (MA_SiteID a, MA_SiteModelID a)) ` set (db_access ?b) \<subseteq> (\<lambda>m. (SM_SiteID m, SM_ID m)) ` set t"
  proof -
    have "(MA_SiteID a, MA_SiteModelID a) \<in> (\<lambda>m. (SM_SiteID m, SM_ID m)) ` set t" if a: "a \<in> set (db_access ?b)" for a
    proof -
      from access_model [OF wfb a] obtain r where r: "r \<in> set (db_models ?b)" "SM_SiteID r = MA_SiteID a" "SM_ID r = MA_SiteModelID a"
        by blast
      have "SM_SiteID (g r) = SM_SiteID r"
        using only [OF r(1)] ok a r(3) by (auto simp: g_def site_model_columns_def site_model_update_ok_def list_all_iff)
      with r gid show ?thesis by (intro image_eqI [of _ _ "g r"]) (auto simp: t)
    qed
    then show ?thesis by auto
  qed
  moreover have "(\<lambda>t. (RT_SiteID t, RT_EndpointID t, RT_SiteModelID t)) ` set (db_targets ?b)
      \<subseteq> (\<lambda>m. (SM_SiteID m, SM_EndpointID m, SM_ID m)) ` set t"
  proof -
    have "(RT_SiteID x, RT_EndpointID x, RT_SiteModelID x) \<in> (\<lambda>m. (SM_SiteID m, SM_EndpointID m, SM_ID m)) ` set t"
      if x: "x \<in> set (db_targets ?b)" for x
    proof -
      from target_model [OF wfb x] obtain r where r: "r \<in> set (db_models ?b)" "SM_SiteID r = RT_SiteID x"
        "SM_EndpointID r = RT_EndpointID x" "SM_ID r = RT_SiteModelID x" by blast
      have "SM_SiteID (g r) = SM_SiteID r \<and> SM_EndpointID (g r) = SM_EndpointID r"
        using only [OF r(1)] ok x r(4) by (auto simp: g_def site_model_columns_def site_model_update_ok_def list_all_iff)
      with r gid show ?thesis by (intro image_eqI [of _ _ "g r"]) (auto simp: t)
    qed
    then show ?thesis by auto
  qed
  ultimately show ?thesis using wfb unfolding db' by (simp add: site_wf_def site_wf_defs)
qed

lemma delete_site_model_wf: "site_wf db \<Longrightarrow> delete_site_model clock model expected db = Inr db' \<Longrightarrow> site_wf db'"
  by (auto simp: delete_site_model_def Let_def intro!: cascade_models_wf bumps_wf)

lemma find_none_image:
  "find (\<lambda>a. f a = x \<and> g a = y) xs = None \<Longrightarrow> (x, y) \<notin> (\<lambda>a. (f a, g a)) ` set xs"
  by (auto simp: find_None_iff)

lemma upsert_access_wf: "site_wf db \<Longrightarrow> upsert_credential_model_access clock w db = Inr db' \<Longrightarrow> site_wf db'"
proof -
  assume wf: "site_wf db" and u: "upsert_credential_model_access clock w db = Inr db'"
  let ?find = "find (\<lambda>a. MA_CredentialID a = AW_CredentialID w \<and> MA_SiteModelID a = AW_SiteModelID w) (db_access db)"
  show "site_wf db'"
  proof (cases ?find)
    case (Some old)
    with u obtain P f where "db' = db\<lparr>db_access := fst (sql_update P f (db_access db))\<rparr>"
      and "\<And>a. MA_SiteID (f a) = MA_SiteID a" "\<And>a. MA_CredentialID (f a) = MA_CredentialID a"
        "\<And>a. MA_SiteModelID (f a) = MA_SiteModelID a"
      unfolding upsert_credential_model_access_def Let_def by (auto split: if_splits)
    then show ?thesis using keep_access [OF wf] by simp
  next
    case None
    note new = find_none_image [OF None]
    from u None obtain r where "db' = db\<lparr>db_access := db_access db @ [r]\<rparr>"
      and "MA_SiteID r = AW_SiteID w" "MA_CredentialID r = AW_CredentialID w" "MA_SiteModelID r = AW_SiteModelID w"
      and "list_ex (\<lambda>c. CR_SiteID c = AW_SiteID w \<and> CR_ID c = AW_CredentialID w) (db_credentials db)"
        "list_ex (\<lambda>m. SM_SiteID m = AW_SiteID w \<and> SM_ID m = AW_SiteModelID w) (db_models db)"
      unfolding upsert_credential_model_access_def Let_def by (auto split: if_splits)
    note r = this
    from r(5) have "(MA_SiteID r, MA_CredentialID r) \<in> (\<lambda>c. (CR_SiteID c, CR_ID c)) ` set (db_credentials db)"
      by (force simp: list_ex_iff r(2,3))
    moreover from r(6) have "(MA_SiteID r, MA_SiteModelID r) \<in> (\<lambda>m. (SM_SiteID m, SM_ID m)) ` set (db_models db)"
      by (force simp: list_ex_iff r(2,4))
    moreover have "(MA_CredentialID r, MA_SiteModelID r) \<notin> (\<lambda>a. (MA_CredentialID a, MA_SiteModelID a)) ` set (db_access db)"
      unfolding r(3,4) by (rule new)
    ultimately show ?thesis unfolding r(1) by (rule add_access [OF wf])
  qed
qed

lemma drop_access: "site_wf db \<Longrightarrow> site_wf (db\<lparr>db_access := filter P (db_access db)\<rparr>)"
proof -
  assume wf: "site_wf db"
  have sub: "f ` set (filter P (db_access db)) \<subseteq> X" if "f ` set (db_access db) \<subseteq> X" for f :: "access_row \<Rightarrow> 'k" and X
    using that by auto
  have "access_refs_ok (db\<lparr>db_access := filter P (db_access db)\<rparr>)"
    using wf by (simp add: site_wf_def access_refs_ok_def sub unique_key_filter del: set_filter)
  with wf show ?thesis
    by (simp add: site_wf_def keys_ok_def site_refs_ok_def model_refs_ok_def target_refs_ok_def override_refs_ok_def routes_ok_def)
qed

lemma delete_access_wf: "site_wf db \<Longrightarrow> delete_credential_model_access credential model db = Inr db' \<Longrightarrow> site_wf db'"
  by (auto simp: delete_credential_model_access_def sql_delete_def split: if_splits intro!: drop_access)

lemma create_published_wf: "site_wf db \<Longrightarrow> create_published_model clock w db = Inr (i, db') \<Longrightarrow> site_wf db'"
  by (auto simp: create_published_model_def Let_def published_columns_def split: if_splits intro!: add_published)

lemma update_published_wf: "site_wf db \<Longrightarrow> update_published_model clock model expected w db = Inr db' \<Longrightarrow> site_wf db'"
  by (auto simp: update_published_model_def published_columns_def split: option.splits dest!: update_constrained_InrD
      intro!: keep_published)

lemma delete_published_wf: "site_wf db \<Longrightarrow> delete_published_model model expected db = Inr db' \<Longrightarrow> site_wf db'"
  by (auto simp: delete_published_model_def intro!: cascade_published_wf)

lemma validate_target_InrD:
  assumes "validate_route_site_target_tx w db = Inr ()"
  shows "\<exists>e m. e \<in> set (db_endpoints db) \<and> E_ID e = TW_EndpointID w \<and> E_SiteID e = TW_SiteID w \<and> endpoint_eligible e \<and>
    m \<in> set (db_models db) \<and> SM_ID m = TW_SiteModelID w \<and> SM_SiteID m = TW_SiteID w \<and> SM_EndpointID m = TW_EndpointID w"
proof -
  obtain e where "find (\<lambda>e. E_ID e = TW_EndpointID w \<and> E_SiteID e = TW_SiteID w) (db_endpoints db) = Some e"
    using assms by (auto simp: validate_route_site_target_tx_def split: option.splits)
  moreover from this have "e \<in> set (db_endpoints db)" "E_ID e = TW_EndpointID w" "E_SiteID e = TW_SiteID w"
    by (auto simp: find_Some_iff)
  ultimately show ?thesis
    using assms by (auto simp: validate_route_site_target_tx_def endpoint_eligible_def list_ex_iff split: if_splits)
qed

lemma bump_published_InrD:
  assumes "bump_published_model_revision_tx model expected now db = Inr db1"
  shows "\<exists>t. db1 = db\<lparr>db_published := t\<rparr> \<and> map PM_ID t = map PM_ID (db_published db)"
proof -
  from assms obtain t where "update_revisioned PM_ID PM_Revision model expected
      (\<lambda>m. m\<lparr>PM_Revision := PM_Revision m + 1, PM_UpdatedAt := now\<rparr>) (db_published db) = Inr t"
    and "db1 = db\<lparr>db_published := t\<rparr>" by (auto simp: bump_published_model_revision_tx_def)
  moreover from this(1) have "map PM_ID t = map PM_ID (db_published db)"
    by (auto dest!: update_revisioned_InrD simp: update_keys)
  ultimately show ?thesis by blast
qed

lemma bump_published_exists:
  assumes "site_wf db" and "bump_published_model_revision_tx model expected now db = Inr db1"
  shows "\<exists>m. row_by PM_ID model (db_published db) = Some m \<and> revision_matches expected (PM_Revision m)"
proof -
  have "unique_key PM_ID (db_published db)" using assms(1) by (simp add: site_wf_def keys_ok_def ids_ok_def)
  from update_revisioned_cases [OF this] assms(2) show ?thesis
    unfolding bump_published_model_revision_tx_def by (auto split: option.splits if_splits)
qed

lemma create_target_wf:
  assumes wf: "site_wf db" and c: "create_route_site_target clock model expected w db = Inr (i, db')"
  shows "site_wf db'"
proof -
  from c have v: "validate_route_site_target_tx w db = Inr ()"
    by (auto simp: create_route_site_target_def split: if_splits)
  with c obtain db1 where b: "bump_published_model_revision_tx model expected clock db = Inr db1"
    and free: "route_site_free model (TW_SiteID w) 0 db1"
    and db': "db' = db1\<lparr>seq_targets := seq_targets db1 + 1, db_targets := db_targets db1 @
              [\<lparr>RT_ID = seq_targets db1 + 1, RT_PublishedModelID = model, RT_SiteID = TW_SiteID w, RT_EndpointID = TW_EndpointID w,
                RT_SiteModelID = TW_SiteModelID w,
                RT_Position = next_position RT_Position (filter (\<lambda>t. RT_PublishedModelID t = model) (db_targets db1)),
                RT_Enabled = TW_Enabled w, RT_Revision = 1, RT_CreatedAt = clock, RT_UpdatedAt = clock\<rparr>]\<rparr>"
    unfolding create_route_site_target_def Let_def by (auto split: if_splits)
  have w1: "site_wf db1" by (rule bump_published_revision_wf [OF wf b])
  from bump_published_InrD [OF b] obtain t where t: "db1 = db\<lparr>db_published := t\<rparr>" "map PM_ID t = map PM_ID (db_published db)" by blast
  from bump_published_exists [OF wf b] have "model \<in> PM_ID ` set (db_published db)" by (auto dest: row_by_SomeD)
  moreover from t(2) have "PM_ID ` set t = PM_ID ` set (db_published db)" by (metis list.set_map)
  ultimately have m: "model \<in> PM_ID ` set (db_published db1)" by (simp add: t(1))
  from validate_target_InrD [OF v] obtain e x where e: "e \<in> set (db_endpoints db1)" "E_ID e = TW_EndpointID w" "endpoint_eligible e"
    and x: "x \<in> set (db_models db1)" "SM_ID x = TW_SiteModelID w" "SM_SiteID x = TW_SiteID w" "SM_EndpointID x = TW_EndpointID w"
    by (auto simp: t(1))
  have pos: "0 < RT_ID r" if "r \<in> set (db_targets db1)" for r
    using w1 that by (auto simp: site_wf_def keys_ok_def ids_ok_def)
  have "\<forall>r\<in>set (db_targets db1). \<not> (RT_PublishedModelID r = model \<and> RT_SiteID r = TW_SiteID w)"
    using free pos by (fastforce simp: route_site_free_def list_all_iff)
  then show ?thesis unfolding db' using m e x by (intro add_target [OF w1]) simp_all
qed

lemma update_target_wf:
  assumes wf: "site_wf db" and c: "update_route_site_target clock target expected expected_published w db = Inr db'"
  shows "site_wf db'"
proof -
  from c obtain current where cur: "row_by RT_ID target (db_targets db) = Some current"
    by (auto simp: update_route_site_target_def split: if_splits option.splits)
  with c have v: "validate_route_site_target_tx w db = Inr ()"
    by (auto simp: update_route_site_target_def split: if_splits)
  with c cur obtain db1 ts where b: "bump_published_model_revision_tx (RT_PublishedModelID current) expected_published clock db = Inr db1"
    and upd: "update_constrained RT_ID RT_Revision target expected (target_columns clock w)
        (\<lambda>t. route_site_free (RT_PublishedModelID t) (TW_SiteID w) target db1) (db_targets db1) = Inr ts"
    and db': "db' = db1\<lparr>db_targets := ts\<rparr>"
    unfolding update_route_site_target_def by (auto split: if_splits)
  have w1: "site_wf db1" by (rule bump_published_revision_wf [OF wf b])
  from bump_published_InrD [OF b] obtain pt where pt: "db1 = db\<lparr>db_published := pt\<rparr>" by blast
  have un: "unique_key RT_ID (db_targets db1)" using w1 by (simp add: site_wf_def keys_ok_def ids_ok_def)
  have cur1: "row_by RT_ID target (db_targets db1) = Some current" using cur pt by simp
  from update_constrained_ok [OF un upd] cur1 have free: "route_site_free (RT_PublishedModelID current) (TW_SiteID w) target db1" by simp
  from validate_target_InrD [OF v] obtain e x where e: "e \<in> set (db_endpoints db1)" "E_ID e = TW_EndpointID w" "endpoint_eligible e"
    and x: "x \<in> set (db_models db1)" "SM_ID x = TW_SiteModelID w" "SM_SiteID x = TW_SiteID w" "SM_EndpointID x = TW_EndpointID w"
    by (auto simp: pt)
  define P where "P r \<longleftrightarrow> RT_ID r = target \<and> revision_matches expected (RT_Revision r)" for r :: target_row
  define g where "g r = (if P r then target_columns clock w r else r)" for r :: target_row
  have ts: "ts = map g (db_targets db1)" using update_constrained_InrD [OF upd] by (simp add: sql_update_def g_def P_def)
  have only: "r = current" if "r \<in> set (db_targets db1)" "P r" for r
    using row_by_unique [OF un cur1 that(1)] that(2) by (simp add: P_def)
  have g: "RT_ID (g r) = RT_ID r" "RT_PublishedModelID (g r) = RT_PublishedModelID r" "RT_Position (g r) = RT_Position r" for r
    by (simp_all add: g_def target_columns_def)
  have maps: "map f ts = map f (db_targets db1)" if "\<And>r. f (g r) = f r" for f :: "target_row \<Rightarrow> 'k"
    using that by (simp add: ts)
  have "ids_ok RT_ID (seq_targets db1) ts"
    using w1 maps [of RT_ID] g by (simp add: site_wf_def keys_ok_def ids_ok_def unique_key_def del: ball_simps) (metis list.set_map)
  moreover have "RT_PublishedModelID ` set ts = RT_PublishedModelID ` set (db_targets db1)"
    using maps [of RT_PublishedModelID] g by (metis list.set_map)
  moreover have "(\<lambda>t. (RT_PublishedModelID t, RT_ID t)) ` set ts = (\<lambda>t. (RT_PublishedModelID t, RT_ID t)) ` set (db_targets db1)"
    using maps [of "\<lambda>t. (RT_PublishedModelID t, RT_ID t)"] g by (metis (no_types, lifting) list.set_map)
  moreover have "unique_key (\<lambda>t. (RT_PublishedModelID t, RT_Position t)) ts"
    using w1 maps [of "\<lambda>t. (RT_PublishedModelID t, RT_Position t)"] g by (simp add: unique_key_def site_wf_def routes_ok_def)
  moreover have "(\<lambda>t. (RT_SiteID t, RT_EndpointID t, RT_SiteModelID t)) ` set ts
      \<subseteq> (\<lambda>m. (SM_SiteID m, SM_EndpointID m, SM_ID m)) ` set (db_models db1)"
  proof -
    have "(RT_SiteID (g r), RT_EndpointID (g r), RT_SiteModelID (g r)) \<in> (\<lambda>m. (SM_SiteID m, SM_EndpointID m, SM_ID m)) ` set (db_models db1)"
      if r: "r \<in> set (db_targets db1)" for r
    proof (cases "P r")
      case True
      with x show ?thesis by (intro image_eqI [of _ _ x]) (simp_all add: g_def target_columns_def)
    next
      case False
      with target_model [OF w1 r] show ?thesis by (force simp: g_def)
    qed
    then show ?thesis by (auto simp: ts)
  qed
  moreover have "(\<lambda>t. (RT_EndpointID t, True)) ` set ts \<subseteq> (\<lambda>e. (E_ID e, endpoint_eligible e)) ` set (db_endpoints db1)"
  proof -
    have "(RT_EndpointID (g r), True) \<in> (\<lambda>e. (E_ID e, endpoint_eligible e)) ` set (db_endpoints db1)"
      if r: "r \<in> set (db_targets db1)" for r
    proof (cases "P r")
      case True
      with e show ?thesis by (intro image_eqI [of _ _ e]) (simp_all add: g_def target_columns_def)
    next
      case False
      with target_endpoint [OF w1 r] show ?thesis by (force simp: g_def)
    qed
    then show ?thesis by (auto simp: ts)
  qed
  moreover have "unique_key (\<lambda>t. (RT_PublishedModelID t, RT_SiteID t)) ts"
  proof -
    have us: "unique_key (\<lambda>t. (RT_PublishedModelID t, RT_SiteID t)) (db_targets db1)" using w1 by (simp add: site_wf_def routes_ok_def)
    have taken: "False" if "r \<in> set (db_targets db1)" "\<not> P r" "P a" "a \<in> set (db_targets db1)"
      "RT_PublishedModelID r = RT_PublishedModelID a" "RT_SiteID r = TW_SiteID w" for r a
    proof -
      from that only have "a = current" by blast
      with that(5,6,1) free have "RT_ID r = target" by (auto simp: route_site_free_def list_all_iff)
      with row_by_unique [OF un cur1 that(1)] have "r = current" .
      with \<open>a = current\<close> that(2,3) show False by simp
    qed
    have "unique_key (\<lambda>t. (RT_PublishedModelID (g t), RT_SiteID (g t))) (db_targets db1)"
    proof (rule unique_key_by [OF un])
      fix a c assume ac: "a \<in> set (db_targets db1)" "c \<in> set (db_targets db1)"
        "(RT_PublishedModelID (g a), RT_SiteID (g a)) = (RT_PublishedModelID (g c), RT_SiteID (g c))"
      show "RT_ID a = RT_ID c"
      proof (cases "P a"; cases "P c")
        assume "P a" "P c" then show ?thesis by (simp add: P_def)
      next
        assume "P a" "\<not> P c" with ac taken [of c a] show ?thesis by (simp add: g_def target_columns_def)
      next
        assume "\<not> P a" "P c" with ac taken [of a c] show ?thesis by (simp add: g_def target_columns_def)
      next
        assume "\<not> P a" "\<not> P c" with ac unique_key_D [OF us ac(1,2)] show ?thesis by (simp add: g_def)
      qed
    qed
    then show ?thesis by (simp add: ts unique_key_def comp_def)
  qed
  ultimately show ?thesis using w1 unfolding db' by (simp add: site_wf_def site_wf_defs)
qed

lemma delete_target_wf:
  "site_wf db \<Longrightarrow> delete_route_site_target clock target expected expected_published db = Inr db' \<Longrightarrow> site_wf db'"
  by (auto simp: delete_route_site_target_def split: option.splits intro: cascade_targets_wf bump_published_revision_wf)

lemma reorder_route_targets_wf:
  "site_wf db \<Longrightarrow> reorder_route_site_targets clock model expected ids db = Inr db' \<Longrightarrow> site_wf db'"
  by (auto simp: reorder_route_site_targets_def intro: reorder_targets_wf bump_published_revision_wf)

lemma create_profile_wf: "site_wf db \<Longrightarrow> create_routing_profile clock name db = Inr (i, db') \<Longrightarrow> site_wf db'"
  by (auto simp: create_routing_profile_def Let_def split: if_splits intro!: add_profile)

lemma update_profile_wf: "site_wf db \<Longrightarrow> update_routing_profile clock profile expected name db = Inr db' \<Longrightarrow> site_wf db'"
  by (auto simp: update_routing_profile_def dest!: update_constrained_InrD intro!: keep_profiles)

lemma drop_overrides: "site_wf db \<Longrightarrow> site_wf (db\<lparr>db_overrides := filter P (db_overrides db)\<rparr>)"
proof -
  assume wf: "site_wf db"
  have sub: "f ` set (filter P (db_overrides db)) \<subseteq> X" if "f ` set (db_overrides db) \<subseteq> X" for f :: "override_row \<Rightarrow> 'k" and X
    using that by auto
  have "override_refs_ok (db\<lparr>db_overrides := filter P (db_overrides db)\<rparr>)"
    using wf by (simp add: site_wf_def override_refs_ok_def sub unique_key_filter del: set_filter)
  with wf show ?thesis
    by (simp add: site_wf_def keys_ok_def site_refs_ok_def model_refs_ok_def target_refs_ok_def access_refs_ok_def routes_ok_def)
qed

lemma delete_profile_wf: "site_wf db \<Longrightarrow> delete_routing_profile profile expected db = Inr db' \<Longrightarrow> site_wf db'"
proof -
  assume wf: "site_wf db" and d: "delete_routing_profile profile expected db = Inr db'"
  have un: "unique_key RP_ID (db_profiles db)" using wf by (simp add: site_wf_def keys_ok_def ids_ok_def)
  from d obtain t where "delete_revisioned RP_ID RP_Revision profile expected (db_profiles db) = Inr t"
    and db': "db' = db\<lparr>db_profiles := t, db_overrides := filter (\<lambda>ov. OV_ProfileID ov \<noteq> profile) (db_overrides db)\<rparr>"
    by (auto simp: delete_routing_profile_def)
  with delete_revisioned_ok [OF un] have t: "t = filter (\<lambda>r. RP_ID r \<noteq> profile) (db_profiles db)" by blast
  let ?m = "db\<lparr>db_overrides := filter (\<lambda>ov. OV_ProfileID ov \<noteq> profile) (db_overrides db)\<rparr>"
  have m: "site_wf ?m" by (rule drop_overrides [OF wf])
  have "OV_ProfileID ` set (db_overrides ?m) \<subseteq> RP_ID ` set t"
    using m by (auto simp: t site_wf_def override_refs_ok_def)
  moreover have "ids_ok RP_ID (seq_profiles db) t"
    unfolding t by (rule ids_ok_filter) (use wf in \<open>simp add: site_wf_def keys_ok_def\<close>)
  ultimately have "site_wf (?m\<lparr>db_profiles := t\<rparr>)"
    using m by (simp add: site_wf_def site_wf_defs)
  moreover have "?m\<lparr>db_profiles := t\<rparr> = db'" unfolding db' by simp
  ultimately show "site_wf db'" by (simp only:)
qed

lemma check_profile_targets_InrD:
  "check_profile_targets seen ts = Inr () \<Longrightarrow> distinct ts \<and> (\<forall>t\<in>set ts. 0 < t) \<and> set ts \<inter> set seen = {}"
  by (induction seen ts rule: check_profile_targets.induct) (auto split: if_splits)

lemma override_rows_nth:
  "override_rows profile model now n ts = map (\<lambda>i. \<lparr>OV_ProfileID = profile, OV_ModelID = model, OV_TargetID = ts ! i,
     OV_Position = n + int i, OV_CreatedAt = now, OV_UpdatedAt = now\<rparr>) [0..<length ts]"
proof (induction ts arbitrary: n)
  case Nil
  then show ?case by simp
next
  case (Cons t ts)
  show ?case unfolding override_rows.simps Cons list.size(4) add_Suc_right add_0_right
    by (subst upt_conv_Cons, simp) (simp add: map_Suc_upt [symmetric] add.assoc del: upt_Suc)
qed

lemma set_override_InrD:
  assumes wf: "site_wf db" and s: "set_routing_profile_model_targets clock profile model expected targets db = Inr db'"
  shows "\<exists>db1. bump_routing_profile_revision_tx profile expected clock db = Inr db1 \<and> site_wf db1 \<and>
    db' = (clear_overrides profile model db1)\<lparr>db_overrides := db_overrides (clear_overrides profile model db1) @
      override_rows profile model clock 0 targets\<rparr> \<and> targets \<noteq> [] \<and> distinct targets \<and>
    (\<exists>p. row_by RP_ID profile (db_profiles db1) = Some p) \<and> row_by PM_ID model (db_published db1) \<noteq> None \<and>
    (\<forall>i\<in>set targets. \<exists>t\<in>set (db_targets db1). RT_ID t = i \<and> RT_PublishedModelID t = model)"
proof -
  from s obtain db1 where ne: "targets \<noteq> []" and d: "check_profile_targets [] targets = Inr ()"
    and b: "bump_routing_profile_revision_tx profile expected clock db = Inr db1"
    and v: "validate_routing_profile_targets_tx model targets db1 = Inr ()"
    and db': "db' = (clear_overrides profile model db1)\<lparr>db_overrides := db_overrides (clear_overrides profile model db1) @
      override_rows profile model clock 0 targets\<rparr>"
    by (auto simp: set_routing_profile_model_targets_def Let_def split: if_splits)
  have w1: "site_wf db1" by (rule bump_profile_revision_wf [OF wf b])
  from check_profile_targets_InrD [OF d] have dist: "distinct targets" by blast
  have un: "unique_key RT_ID (db_targets db1)" "unique_key RP_ID (db_profiles db)"
    using w1 wf by (simp_all add: site_wf_def keys_ok_def ids_ok_def)
  from b obtain t where "update_revisioned RP_ID RP_Revision profile expected
      (\<lambda>p. p\<lparr>RP_Revision := RP_Revision p + 1, RP_UpdatedAt := clock\<rparr>) (db_profiles db) = Inr t" "db1 = db\<lparr>db_profiles := t\<rparr>"
    by (auto simp: bump_routing_profile_revision_tx_def)
  with update_revisioned_ok [OF un(2) _ this(1)] have p: "\<exists>p. row_by RP_ID profile (db_profiles db1) = Some p" by auto
  let ?hit = "filter (\<lambda>t. RT_PublishedModelID t = model \<and> RT_ID t \<in> set targets) (db_targets db1)"
  from v have m: "row_by PM_ID model (db_published db1) \<noteq> None" and len: "length ?hit = length targets"
    by (auto simp: validate_routing_profile_targets_tx_def split: if_splits)
  have "distinct (map RT_ID ?hit)" by (rule unique_key_filter [OF un(1), unfolded unique_key_def])
  then have "card (set (map RT_ID ?hit)) = length (map RT_ID ?hit)" by (rule distinct_card)
  then have "card (RT_ID ` set ?hit) = card (set targets)"
    using len distinct_card [OF dist] by (simp only: length_map set_map)
  moreover have "RT_ID ` set ?hit \<subseteq> set targets" by auto
  ultimately have "RT_ID ` set ?hit = set targets" by (intro card_subset_eq) auto
  have hits: "\<forall>i\<in>set targets. \<exists>t\<in>set (db_targets db1). RT_ID t = i \<and> RT_PublishedModelID t = model"
  proof
    fix i assume "i \<in> set targets"
    with \<open>RT_ID ` set ?hit = set targets\<close> have "i \<in> RT_ID ` set ?hit" by simp
    then show "\<exists>t\<in>set (db_targets db1). RT_ID t = i \<and> RT_PublishedModelID t = model" by auto
  qed
  from b w1 db' ne dist p m hits show ?thesis by (intro exI [of _ db1]) simp
qed

lemma set_override_wf:
  assumes wf: "site_wf db" and s: "set_routing_profile_model_targets clock profile model expected targets db = Inr db'"
  shows "site_wf db'"
proof -
  from set_override_InrD [OF assms] obtain db1 p where w1: "site_wf db1"
    and db': "db' = (clear_overrides profile model db1)\<lparr>db_overrides := db_overrides (clear_overrides profile model db1) @
      override_rows profile model clock 0 targets\<rparr>" and dist: "distinct targets"
    and p: "row_by RP_ID profile (db_profiles db1) = Some p"
    and hit: "\<forall>i\<in>set targets. \<exists>t\<in>set (db_targets db1). RT_ID t = i \<and> RT_PublishedModelID t = model" by blast
  define old where "old = filter (\<lambda>ov. \<not> (OV_ProfileID ov = profile \<and> OV_ModelID ov = model)) (db_overrides db1)"
  define new where "new = override_rows profile model clock 0 targets"
  define base where "base = db1\<lparr>db_overrides := old\<rparr>"
  have base: "site_wf base" unfolding base_def old_def by (rule drop_overrides [OF w1])
  have db'': "db' = base\<lparr>db_overrides := db_overrides base @ new\<rparr>"
    by (simp add: db' base_def old_def new_def clear_overrides_def)
  have new_set: "ov \<in> set new \<Longrightarrow> OV_ProfileID ov = profile \<and> OV_ModelID ov = model \<and> OV_TargetID ov \<in> set targets" for ov
    by (auto simp: new_def override_rows_nth)
  have apart: "\<not> (OV_ProfileID ov = profile \<and> OV_ModelID ov = model)" if "ov \<in> set (db_overrides base)" for ov
    using that by (simp add: base_def old_def)
  have sub1: "OV_ProfileID ` set (db_overrides base @ new) \<subseteq> RP_ID ` set (db_profiles base)"
    using base row_by_image [OF p] new_set by (auto simp: site_wf_def override_refs_ok_def base_def)
  have sub2: "(\<lambda>ov. (OV_ModelID ov, OV_TargetID ov)) ` set (db_overrides base @ new)
      \<subseteq> (\<lambda>t. (RT_PublishedModelID t, RT_ID t)) ` set (db_targets base)"
  proof -
    have "(OV_ModelID ov, OV_TargetID ov) \<in> (\<lambda>t. (RT_PublishedModelID t, RT_ID t)) ` set (db_targets base)" if "ov \<in> set new" for ov
    proof -
      from new_set [OF that] hit obtain t where "t \<in> set (db_targets db1)" "RT_ID t = OV_TargetID ov" "RT_PublishedModelID t = OV_ModelID ov" by auto
      then show ?thesis by (intro image_eqI [of _ _ t]) (simp_all add: base_def)
    qed
    with base show ?thesis by (auto simp: site_wf_def override_refs_ok_def)
  qed
  have join: "unique_key k (db_overrides base @ new)"
    if "unique_key k (db_overrides base)" "unique_key k new" "\<And>a b. k a = k b \<Longrightarrow> OV_ProfileID a = OV_ProfileID b \<and> OV_ModelID a = OV_ModelID b"
    for k :: "override_row \<Rightarrow> 'k"
  proof -
    have "k a \<noteq> k b" if "a \<in> set (db_overrides base)" "b \<in> set new" for a b
      using \<open>\<And>a b. k a = k b \<Longrightarrow> OV_ProfileID a = OV_ProfileID b \<and> OV_ModelID a = OV_ModelID b\<close> [of a b] apart [OF that(1)] new_set [OF that(2)]
      by auto
    with that(1,2) show ?thesis by (auto simp: unique_key_def)
  qed
  have new_unique: "unique_key (\<lambda>ov. (OV_ProfileID ov, OV_ModelID ov, OV_TargetID ov)) new"
    "unique_key (\<lambda>ov. (OV_ProfileID ov, OV_ModelID ov, OV_Position ov)) new"
    using dist by (simp_all add: unique_key_def new_def override_rows_nth comp_def distinct_map inj_on_def nth_eq_iff_index_eq)
  have "unique_key (\<lambda>ov. (OV_ProfileID ov, OV_ModelID ov, OV_TargetID ov)) (db_overrides base @ new)"
    "unique_key (\<lambda>ov. (OV_ProfileID ov, OV_ModelID ov, OV_Position ov)) (db_overrides base @ new)"
    using base by (intro join new_unique; simp add: site_wf_def override_refs_ok_def)+
  with sub1 sub2 show ?thesis
    using base unfolding db'' by (simp add: site_wf_def site_wf_defs del: set_append)
qed

lemma clear_override_wf: "site_wf db \<Longrightarrow> clear_routing_profile_model_targets clock profile model expected db = Inr db' \<Longrightarrow> site_wf db'"
  by (auto simp: clear_routing_profile_model_targets_def clear_overrides_def split: if_splits
      intro!: drop_overrides elim!: bump_profile_revision_wf [rotated])

subsection \<open>The step relation\<close>

text \<open>One rule per operation that writes. The arguments of an operation are arbitrary.\<close>

inductive site_step :: "site_db \<Rightarrow> site_db \<Rightarrow> bool" where
  "create_site clock w db = Inr (i, db') \<Longrightarrow> site_step db db'"
| "update_site clock site expected w db = Inr db' \<Longrightarrow> site_step db db'"
| "delete_site clock site expected db = Inr db' \<Longrightarrow> site_step db db'"
| "create_inference_endpoint compact_json clock site expected ew db = Inr (i, db') \<Longrightarrow> site_step db db'"
| "update_inference_endpoint compact_json clock endpoint expected ew db = Inr db' \<Longrightarrow> site_step db db'"
| "delete_inference_endpoint clock endpoint expected db = Inr db' \<Longrightarrow> site_step db db'"
| "reorder_inference_endpoints clock site expected ids db = Inr db' \<Longrightarrow> site_step db db'"
| "create_inference_credential clock site expected cw db = Inr (i, db') \<Longrightarrow> site_step db db'"
| "update_inference_credential clock credential expected cu db = Inr db' \<Longrightarrow> site_step db db'"
| "update_inference_credential_runtime redact clock credential cx db = Inr db' \<Longrightarrow> site_step db db'"
| "delete_inference_credential clock credential expected db = Inr db' \<Longrightarrow> site_step db db'"
| "reorder_inference_credentials clock site expected ids db = Inr db' \<Longrightarrow> site_step db db'"
| "create_site_model clock mw db = Inr (i, db') \<Longrightarrow> site_step db db'"
| "upsert_site_model clock mw db = Inr (i, db') \<Longrightarrow> site_step db db'"
| "update_site_model clock model expected mw db = Inr db' \<Longrightarrow> site_step db db'"
| "delete_site_model clock model expected db = Inr db' \<Longrightarrow> site_step db db'"
| "upsert_credential_model_access clock aw db = Inr db' \<Longrightarrow> site_step db db'"
| "delete_credential_model_access credential model db = Inr db' \<Longrightarrow> site_step db db'"
| "create_published_model clock pw db = Inr (i, db') \<Longrightarrow> site_step db db'"
| "update_published_model clock model expected pw db = Inr db' \<Longrightarrow> site_step db db'"
| "delete_published_model model expected db = Inr db' \<Longrightarrow> site_step db db'"
| "create_route_site_target clock model expected tw db = Inr (i, db') \<Longrightarrow> site_step db db'"
| "update_route_site_target clock target expected expected_published tw db = Inr db' \<Longrightarrow> site_step db db'"
| "delete_route_site_target clock target expected expected_published db = Inr db' \<Longrightarrow> site_step db db'"
| "reorder_route_site_targets clock model expected ids db = Inr db' \<Longrightarrow> site_step db db'"
| "create_routing_profile clock name db = Inr (i, db') \<Longrightarrow> site_step db db'"
| "update_routing_profile clock profile expected name db = Inr db' \<Longrightarrow> site_step db db'"
| "delete_routing_profile profile expected db = Inr db' \<Longrightarrow> site_step db db'"
| "set_routing_profile_model_targets clock profile model expected ids db = Inr db' \<Longrightarrow> site_step db db'"
| "clear_routing_profile_model_targets clock profile model expected db = Inr db' \<Longrightarrow> site_step db db'"

definition site_reachable :: "site_db \<Rightarrow> bool" where
  "site_reachable = site_step\<^sup>*\<^sup>* empty_site_db"

lemmas operations_wf = create_site_wf update_site_wf delete_site_wf create_endpoint_wf update_endpoint_wf delete_endpoint_wf
  reorder_endpoints_wf create_credential_wf update_credential_wf update_credential_runtime_wf delete_credential_wf
  reorder_credentials_wf create_site_model_wf upsert_site_model_wf update_site_model_wf delete_site_model_wf
  upsert_access_wf delete_access_wf create_published_wf update_published_wf delete_published_wf create_target_wf
  update_target_wf delete_target_wf reorder_route_targets_wf create_profile_wf update_profile_wf delete_profile_wf
  set_override_wf clear_override_wf

lemma site_step_wf: "site_step db db' \<Longrightarrow> site_wf db \<Longrightarrow> site_wf db'"
  by (induction rule: site_step.induct) (erule (1) operations_wf)+

lemma site_reachable_invariant:
  assumes "site_reachable db" and "P empty_site_db" and "\<And>a b. site_step a b \<Longrightarrow> site_wf a \<Longrightarrow> P a \<Longrightarrow> P b"
  shows "site_wf db \<and> P db"
  using assms(1) unfolding site_reachable_def
  by (induction rule: rtranclp_induct) (use assms empty_site_db_wf site_step_wf in auto)

end
