(* ===== verification/SiteRows.thy ===== *)
theory SiteRows
  imports SiteInvariant
begin

text \<open>
  What the rows of the site domain look like in every reachable state: the \<open>CHECK\<close> constraints of
  the schema and the normal forms the writers produce. No write of the store is therefore refused by
  a \<open>CHECK\<close>, which is why the model has no such branch.
\<close>

definition published_policy_ok :: "published_row \<Rightarrow> bool" where
  "published_policy_ok m \<longleftrightarrow>
     30 \<le> PM_MonitorIntervalSeconds m \<and> PM_MonitorIntervalSeconds m \<le> 86400 \<and>
     1 \<le> PM_CooldownSeconds m \<and> PM_CooldownSeconds m \<le> 86400 \<and>
     2 \<le> PM_FailureThreshold m \<and> PM_FailureThreshold m \<le> 10 \<and>
     1 \<le> PM_FailureWindowSeconds m \<and> PM_FailureWindowSeconds m \<le> 86400 \<and>
     1 \<le> PM_FirstOutputTimeoutSeconds m \<and> PM_FirstOutputTimeoutSeconds m \<le> 600 \<and>
     1 \<le> PM_StreamIdleTimeoutSeconds m \<and> PM_StreamIdleTimeoutSeconds m \<le> 3600 \<and>
     1 \<le> PM_RequestDeadlineSeconds m \<and> PM_RequestDeadlineSeconds m \<le> 3600 \<and>
     1 \<le> PM_MaxAttempts m \<and> PM_MaxAttempts m \<le> 20"

definition site_row_ok :: "site_row \<Rightarrow> bool" where
  "site_row_ok s \<longleftrightarrow> S_Name s \<noteq> [] \<and> 1 \<le> S_Revision s"

definition endpoint_row_ok :: "endpoint_row \<Rightarrow> bool" where
  "endpoint_row_ok e \<longleftrightarrow> E_Name e \<noteq> [] \<and> E_BaseURL e \<noteq> [] \<and>
     normalize_protocol (E_WireProtocol e) = Some (E_WireProtocol e) \<and> E_CompatibilityProfile e \<noteq> [] \<and>
     E_AuthScheme e \<noteq> [] \<and> 0 \<le> E_Position e \<and> 1 \<le> E_Revision e"

definition credential_row_ok :: "credential_row \<Rightarrow> bool" where
  "credential_row_ok c \<longleftrightarrow> CR_Name c \<noteq> [] \<and> CR_SecretCipher c \<noteq> [] \<and>
     valid_credential_runtime_state (CR_RuntimeState c) \<and> 0 \<le> CR_Position c \<and> 1 \<le> CR_Revision c"

definition site_model_row_ok :: "site_model_row \<Rightarrow> bool" where
  "site_model_row_ok m \<longleftrightarrow> SM_ModelName m \<noteq> [] \<and> 0 \<le> SM_MissingCount m \<and> 1 \<le> SM_Revision m"

definition access_row_ok :: "access_row \<Rightarrow> bool" where
  "access_row_ok a \<longleftrightarrow> valid_model_availability (MA_Availability a) \<and> 0 \<le> MA_MissingCount a \<and> 1 \<le> MA_Revision a"

definition published_row_ok :: "published_row \<Rightarrow> bool" where
  "published_row_ok m \<longleftrightarrow> PM_PublicName m \<noteq> [] \<and> 1 \<le> PM_Revision m \<and> published_policy_ok m"

definition target_row_ok :: "target_row \<Rightarrow> bool" where
  "target_row_ok t \<longleftrightarrow> 0 \<le> RT_Position t \<and> 1 \<le> RT_Revision t"

definition profile_row_ok :: "profile_row \<Rightarrow> bool" where
  "profile_row_ok p \<longleftrightarrow> RP_Name p \<noteq> [] \<and> length (RP_Name p) \<le> 120 \<and> \<not> equal_fold (RP_Name p) ''Default route'' \<and> 1 \<le> RP_Revision p"

definition rows_ok :: "site_db \<Rightarrow> bool" where
  "rows_ok db \<longleftrightarrow> (\<forall>r\<in>set (db_sites db). site_row_ok r) \<and> (\<forall>r\<in>set (db_endpoints db). endpoint_row_ok r) \<and>
     (\<forall>r\<in>set (db_credentials db). credential_row_ok r) \<and> (\<forall>r\<in>set (db_models db). site_model_row_ok r) \<and>
     (\<forall>r\<in>set (db_access db). access_row_ok r) \<and> (\<forall>r\<in>set (db_published db). published_row_ok r) \<and>
     (\<forall>r\<in>set (db_targets db). target_row_ok r) \<and> (\<forall>r\<in>set (db_profiles db). profile_row_ok r) \<and>
     (\<forall>r\<in>set (db_overrides db). 0 \<le> OV_Position r)"

lemma rows_update: "(\<And>r. P r \<Longrightarrow> P (f r)) \<Longrightarrow> \<forall>r\<in>set t. P r \<Longrightarrow> \<forall>r\<in>set (fst (sql_update Q f t)). P r"
  by (auto simp: sql_update_def)

lemma rows_okD:
  assumes "rows_ok db"
  shows "\<forall>r\<in>set (db_sites db). site_row_ok r" "\<forall>r\<in>set (db_endpoints db). endpoint_row_ok r"
    "\<forall>r\<in>set (db_credentials db). credential_row_ok r" "\<forall>r\<in>set (db_models db). site_model_row_ok r"
    "\<forall>r\<in>set (db_access db). access_row_ok r" "\<forall>r\<in>set (db_published db). published_row_ok r"
    "\<forall>r\<in>set (db_targets db). target_row_ok r" "\<forall>r\<in>set (db_profiles db). profile_row_ok r"
    "\<forall>r\<in>set (db_overrides db). 0 \<le> OV_Position r"
  using assms by (simp_all add: rows_ok_def)

text \<open>Deletions only take rows away.\<close>

definition subtables :: "site_db \<Rightarrow> site_db \<Rightarrow> bool" where
  "subtables a b \<longleftrightarrow> set (db_sites a) \<subseteq> set (db_sites b) \<and> set (db_endpoints a) \<subseteq> set (db_endpoints b) \<and>
     set (db_credentials a) \<subseteq> set (db_credentials b) \<and> set (db_models a) \<subseteq> set (db_models b) \<and>
     set (db_access a) \<subseteq> set (db_access b) \<and> set (db_published a) \<subseteq> set (db_published b) \<and>
     set (db_targets a) \<subseteq> set (db_targets b) \<and> set (db_profiles a) \<subseteq> set (db_profiles b) \<and>
     set (db_overrides a) \<subseteq> set (db_overrides b)"

lemma subtables_rows: "subtables a b \<Longrightarrow> rows_ok b \<Longrightarrow> rows_ok a"
  unfolding subtables_def rows_ok_def by (intro conjI; (elim conjE)?; blast)

lemma subtables_trans: "subtables a b \<Longrightarrow> subtables b c \<Longrightarrow> subtables a c"
  unfolding subtables_def by (intro conjI; (elim conjE)?; blast)

lemma cascades_sub:
  "subtables (cascade_targets gt db) db" "subtables (cascade_models gm db) db" "subtables (cascade_credentials gc db) db"
  by (auto simp: subtables_def cascade_targets_def cascade_models_def cascade_credentials_def)

lemma cascade_endpoints_sub: "subtables (cascade_endpoints ge db) db"
proof -
  have "subtables (db\<lparr>db_endpoints := filter (\<lambda>e. \<not> ge e) (db_endpoints db)\<rparr>) db" by (auto simp: subtables_def)
  then show ?thesis unfolding cascade_endpoints_def by (meson cascades_sub subtables_trans)
qed

lemma cascade_site_sub: "subtables (cascade_site site db) db"
  unfolding cascade_site_def by (meson cascades_sub cascade_endpoints_sub subtables_trans)

lemma cascade_published_sub: "subtables (cascade_published model db) db"
  by (auto simp: cascade_published_def subtables_def cascade_targets_def Let_def)

lemmas cascade_rows = cascades_sub [THEN subtables_rows] cascade_endpoints_sub [THEN subtables_rows]
  cascade_site_sub [THEN subtables_rows] cascade_published_sub [THEN subtables_rows]

text \<open>A row added, rows updated: only the rows of the table that is written matter.\<close>

lemma rows_add:
  "rows_ok db \<Longrightarrow> site_row_ok rsites \<Longrightarrow> rows_ok (db\<lparr>seq_sites := n, db_sites := db_sites db @ [rsites]\<rparr>)"
  "rows_ok db \<Longrightarrow> endpoint_row_ok rendpoints \<Longrightarrow> rows_ok (db\<lparr>seq_endpoints := n, db_endpoints := db_endpoints db @ [rendpoints]\<rparr>)"
  "rows_ok db \<Longrightarrow> credential_row_ok rcredentials \<Longrightarrow> rows_ok (db\<lparr>seq_credentials := n, db_credentials := db_credentials db @ [rcredentials]\<rparr>)"
  "rows_ok db \<Longrightarrow> site_model_row_ok rmodels \<Longrightarrow> rows_ok (db\<lparr>seq_models := n, db_models := db_models db @ [rmodels]\<rparr>)"
  "rows_ok db \<Longrightarrow> access_row_ok raccess \<Longrightarrow> rows_ok (db\<lparr>db_access := db_access db @ [raccess]\<rparr>)"
  "rows_ok db \<Longrightarrow> published_row_ok rpublished \<Longrightarrow> rows_ok (db\<lparr>seq_published := n, db_published := db_published db @ [rpublished]\<rparr>)"
  "rows_ok db \<Longrightarrow> target_row_ok rtargets \<Longrightarrow> rows_ok (db\<lparr>seq_targets := n, db_targets := db_targets db @ [rtargets]\<rparr>)"
  "rows_ok db \<Longrightarrow> profile_row_ok rprofiles \<Longrightarrow> rows_ok (db\<lparr>seq_profiles := n, db_profiles := db_profiles db @ [rprofiles]\<rparr>)"
  by (simp_all add: rows_ok_def)

lemma rows_upd:
  "rows_ok db \<Longrightarrow> rows_ok db1 \<Longrightarrow> (\<And>r. site_row_ok r \<Longrightarrow> site_row_ok (fsites r)) \<Longrightarrow> rows_ok (db1\<lparr>db_sites := fst (sql_update Qsites fsites (db_sites db))\<rparr>)"
  "rows_ok db \<Longrightarrow> rows_ok db1 \<Longrightarrow> (\<And>r. endpoint_row_ok r \<Longrightarrow> endpoint_row_ok (fendpoints r)) \<Longrightarrow> rows_ok (db1\<lparr>db_endpoints := fst (sql_update Qendpoints fendpoints (db_endpoints db))\<rparr>)"
  "rows_ok db \<Longrightarrow> rows_ok db1 \<Longrightarrow> (\<And>r. credential_row_ok r \<Longrightarrow> credential_row_ok (fcredentials r)) \<Longrightarrow> rows_ok (db1\<lparr>db_credentials := fst (sql_update Qcredentials fcredentials (db_credentials db))\<rparr>)"
  "rows_ok db \<Longrightarrow> rows_ok db1 \<Longrightarrow> (\<And>r. site_model_row_ok r \<Longrightarrow> site_model_row_ok (fmodels r)) \<Longrightarrow> rows_ok (db1\<lparr>db_models := fst (sql_update Qmodels fmodels (db_models db))\<rparr>)"
  "rows_ok db \<Longrightarrow> rows_ok db1 \<Longrightarrow> (\<And>r. access_row_ok r \<Longrightarrow> access_row_ok (faccess r)) \<Longrightarrow> rows_ok (db1\<lparr>db_access := fst (sql_update Qaccess faccess (db_access db))\<rparr>)"
  "rows_ok db \<Longrightarrow> rows_ok db1 \<Longrightarrow> (\<And>r. published_row_ok r \<Longrightarrow> published_row_ok (fpublished r)) \<Longrightarrow> rows_ok (db1\<lparr>db_published := fst (sql_update Qpublished fpublished (db_published db))\<rparr>)"
  "rows_ok db \<Longrightarrow> rows_ok db1 \<Longrightarrow> (\<And>r. target_row_ok r \<Longrightarrow> target_row_ok (ftargets r)) \<Longrightarrow> rows_ok (db1\<lparr>db_targets := fst (sql_update Qtargets ftargets (db_targets db))\<rparr>)"
  "rows_ok db \<Longrightarrow> rows_ok db1 \<Longrightarrow> (\<And>r. profile_row_ok r \<Longrightarrow> profile_row_ok (fprofiles r)) \<Longrightarrow> rows_ok (db1\<lparr>db_profiles := fst (sql_update Qprofiles fprofiles (db_profiles db))\<rparr>)"
  by (auto simp: rows_ok_def sql_update_def)

lemma rows_fil:
  "rows_ok db \<Longrightarrow> rows_ok db1 \<Longrightarrow> rows_ok (db1\<lparr>db_sites := filter Qsites (db_sites db)\<rparr>)"
  "rows_ok db \<Longrightarrow> rows_ok db1 \<Longrightarrow> rows_ok (db1\<lparr>db_endpoints := filter Qendpoints (db_endpoints db)\<rparr>)"
  "rows_ok db \<Longrightarrow> rows_ok db1 \<Longrightarrow> rows_ok (db1\<lparr>db_credentials := filter Qcredentials (db_credentials db)\<rparr>)"
  "rows_ok db \<Longrightarrow> rows_ok db1 \<Longrightarrow> rows_ok (db1\<lparr>db_models := filter Qmodels (db_models db)\<rparr>)"
  "rows_ok db \<Longrightarrow> rows_ok db1 \<Longrightarrow> rows_ok (db1\<lparr>db_access := filter Qaccess (db_access db)\<rparr>)"
  "rows_ok db \<Longrightarrow> rows_ok db1 \<Longrightarrow> rows_ok (db1\<lparr>db_published := filter Qpublished (db_published db)\<rparr>)"
  "rows_ok db \<Longrightarrow> rows_ok db1 \<Longrightarrow> rows_ok (db1\<lparr>db_targets := filter Qtargets (db_targets db)\<rparr>)"
  "rows_ok db \<Longrightarrow> rows_ok db1 \<Longrightarrow> rows_ok (db1\<lparr>db_profiles := filter Qprofiles (db_profiles db)\<rparr>)"
  "rows_ok db \<Longrightarrow> rows_ok db1 \<Longrightarrow> rows_ok (db1\<lparr>db_overrides := filter Qoverrides (db_overrides db)\<rparr>)"
  by (simp_all add: rows_ok_def)

lemma bump_rows:
  assumes "rows_ok db"
  shows "bump_site_revision_tx site expected now db = Inr db1 \<Longrightarrow> rows_ok db1"
    "bump_published_model_revision_tx model expected now db = Inr db1 \<Longrightarrow> rows_ok db1"
    "bump_routing_profile_revision_tx profile expected now db = Inr db1 \<Longrightarrow> rows_ok db1"
    "rows_ok (bump_published_where P now db)"
  unfolding bump_site_revision_tx_def bump_published_model_revision_tx_def bump_routing_profile_revision_tx_def bump_published_where_def
  using assms
  by (auto dest!: update_revisioned_InrD intro!: rows_upd
      simp: site_row_ok_def published_row_ok_def published_policy_ok_def profile_row_ok_def)

lemmas bump_rowsE = bump_rows(1) [rotated] bump_rows(2) [rotated] bump_rows(3) [rotated]

lemma placed_pres:
  "(\<And>p r. \<lbrakk>(0::int) \<le> p; P r\<rbrakk> \<Longrightarrow> P (put p r)) \<Longrightarrow> P r \<Longrightarrow> 0 \<le> n \<Longrightarrow> P (placed key mine put n ids r)"
  by (induction ids arbitrary: n r) auto

lemma reorder_rows_pres:
  assumes "reorder_rows key mine put ids t = Inr t'" and "\<And>p r. key (put p r) = key r" and "\<And>p r. mine (put p r) = mine r"
    and "\<And>p r. \<lbrakk>0 \<le> p; P r\<rbrakk> \<Longrightarrow> P (put p r)" and "\<forall>r\<in>set t. P r"
  shows "\<forall>r\<in>set t'. P r"
proof -
  from assms(1) have "reorder_loop key mine put 0 [] ids t = Inr t'" by (auto simp: reorder_rows_def split: if_splits)
  from reorder_loop_result [of key put mine, OF assms(2,3) this] have t': "t' = map (placed key mine put 0 ids) t" by blast
  have "P (placed key mine put 0 ids r)" if "r \<in> set t" for r
    by (rule placed_pres [of P put]) (use assms(4,5) that in auto)
  then show ?thesis by (simp add: t')
qed

lemma normalize_endpoint_write_InrD:
  assumes "normalize_endpoint_write compact_json w0 = Inr (w, headers)"
  shows "EW_Name w \<noteq> [] \<and> EW_BaseURL w \<noteq> [] \<and> normalize_protocol (EW_WireProtocol w) = Some (EW_WireProtocol w) \<and>
    EW_CompatibilityProfile w \<noteq> [] \<and> EW_AuthScheme w \<noteq> []"
proof -
  from assms obtain p where p: "normalize_protocol (EW_WireProtocol w0) = Some p"
    by (cases "normalize_protocol (EW_WireProtocol w0)") (auto simp: normalize_endpoint_write_def)
  have "default_auth_scheme p \<noteq> []" by (auto simp: default_auth_scheme_def split: option.splits)
  with assms p normalize_protocol_canonical [OF p] show ?thesis
    by (auto simp: normalize_endpoint_write_def Let_def split: if_splits)
qed

lemma next_position_rows:
  "\<forall>r\<in>set t. P r \<Longrightarrow> (\<And>r. P r \<Longrightarrow> 0 \<le> pos r) \<Longrightarrow> 0 \<le> next_position pos (filter Q t)"
  by (intro next_position_nonneg) auto

lemma create_site_rows: "rows_ok db \<Longrightarrow> create_site clock w db = Inr (i, db') \<Longrightarrow> rows_ok db'"
  by (auto simp: create_site_def normalize_site_write_def Let_def site_row_ok_def split: if_splits intro!: rows_add)

lemma update_site_rows: "rows_ok db \<Longrightarrow> update_site clock site expected w db = Inr db' \<Longrightarrow> rows_ok db'"
  by (auto simp: update_site_def normalize_site_write_def Let_def site_row_ok_def bump_defs split: if_splits
      dest!: update_constrained_InrD intro!: rows_upd bump_rows(4))

lemma delete_site_rows: "rows_ok db \<Longrightarrow> delete_site clock site expected db = Inr db' \<Longrightarrow> rows_ok db'"
  by (auto simp: delete_site_def delete_revisioned_def sql_delete_def bump_defs Let_def split: sum.splits
      intro!: cascade_rows rows_fil bump_rows(4))

lemma create_endpoint_rows:
  assumes "rows_ok db" and "create_inference_endpoint compact_json clock site expected w db = Inr (i, db')"
  shows "rows_ok db'"
proof -
  from assms(2) obtain v headers where n: "normalize_endpoint_write compact_json w = Inr (v, headers)"
    unfolding create_inference_endpoint_def by (cases "normalize_endpoint_write compact_json w") auto
  have "0 \<le> next_position E_Position (filter Q (db_endpoints db))" for Q
    by (rule next_position_rows [OF rows_okD(2) [OF assms(1)]]) (simp add: endpoint_row_ok_def)
  with assms n normalize_endpoint_write_InrD [OF n] show ?thesis
    unfolding create_inference_endpoint_def
    by (auto simp: Let_def endpoint_row_ok_def split: if_splits elim!: bump_rowsE intro!: rows_add)
qed

lemma update_endpoint_rows:
  assumes "rows_ok db" and "update_inference_endpoint compact_json clock endpoint expected w db = Inr db'"
  shows "rows_ok db'"
proof -
  from assms(2) obtain v headers where n: "normalize_endpoint_write compact_json w = Inr (v, headers)"
    unfolding update_inference_endpoint_def by (cases "normalize_endpoint_write compact_json w") auto
  have "endpoint_row_ok (endpoint_columns clock v headers e)" if "endpoint_row_ok e" for e
    using that normalize_endpoint_write_InrD [OF n] by (simp add: endpoint_row_ok_def endpoint_columns_def)
  with assms n show ?thesis
    unfolding update_inference_endpoint_def
    by (auto simp: Let_def bump_defs split: if_splits option.splits
        dest!: update_constrained_InrD elim!: bump_rowsE intro!: rows_upd bump_rows(4))
qed

lemma delete_endpoint_rows: "rows_ok db \<Longrightarrow> delete_inference_endpoint clock endpoint expected db = Inr db' \<Longrightarrow> rows_ok db'"
  by (auto simp: delete_inference_endpoint_def bump_defs Let_def split: option.splits
      elim!: bump_rowsE intro!: cascade_rows bump_rows(4))

text \<open>A reordered table, when the row predicate allows any position that is not negative.\<close>

lemma reorder_endpoints_rows:
  assumes "rows_ok db" and "reorder_inference_endpoints clock site expected ids db = Inr db'"
  shows "rows_ok db'"
proof -
  from assms(2) obtain a t where a: "bump_site_revision_tx site expected clock db = Inr a"
    and r: "reorder_rows E_ID (\<lambda>e. E_SiteID e = site)
      (\<lambda>p e. e\<lparr>E_Position := p, E_Revision := E_Revision e + 1, E_UpdatedAt := clock\<rparr>) ids (db_endpoints a) = Inr t"
    and db': "db' = a\<lparr>db_endpoints := t\<rparr>" by (auto simp: reorder_inference_endpoints_def)
  have ok: "rows_ok a" by (rule bump_rows(1) [OF assms(1) a])
  have "\<forall>r\<in>set t. endpoint_row_ok r"
    by (rule reorder_rows_pres [OF r]) (use rows_okD(2) [OF ok] in \<open>auto simp: endpoint_row_ok_def\<close>)
  with ok show ?thesis by (simp add: db' rows_ok_def)
qed

lemma reorder_credentials_rows:
  assumes "rows_ok db" and "reorder_inference_credentials clock site expected ids db = Inr db'"
  shows "rows_ok db'"
proof -
  from assms(2) obtain a t where a: "bump_site_revision_tx site expected clock db = Inr a"
    and r: "reorder_rows CR_ID (\<lambda>c. CR_SiteID c = site)
      (\<lambda>p c. c\<lparr>CR_Position := p, CR_Revision := CR_Revision c + 1, CR_UpdatedAt := clock\<rparr>) ids (db_credentials a) = Inr t"
    and db': "db' = a\<lparr>db_credentials := t\<rparr>" by (auto simp: reorder_inference_credentials_def)
  have ok: "rows_ok a" by (rule bump_rows(1) [OF assms(1) a])
  have "\<forall>r\<in>set t. credential_row_ok r"
    by (rule reorder_rows_pres [OF r]) (use rows_okD(3) [OF ok] in \<open>auto simp: credential_row_ok_def\<close>)
  with ok show ?thesis by (simp add: db' rows_ok_def)
qed

lemma reorder_targets_rows:
  assumes "rows_ok db" and "reorder_route_site_targets clock model expected ids db = Inr db'"
  shows "rows_ok db'"
proof -
  from assms(2) obtain a t where a: "bump_published_model_revision_tx model expected clock db = Inr a"
    and r: "reorder_rows RT_ID (\<lambda>t. RT_PublishedModelID t = model)
      (\<lambda>p t. t\<lparr>RT_Position := p, RT_Revision := RT_Revision t + 1, RT_UpdatedAt := clock\<rparr>) ids (db_targets a) = Inr t"
    and db': "db' = a\<lparr>db_targets := t\<rparr>" by (auto simp: reorder_route_site_targets_def)
  have ok: "rows_ok a" by (rule bump_rows(2) [OF assms(1) a])
  have "\<forall>r\<in>set t. target_row_ok r"
    by (rule reorder_rows_pres [OF r]) (use rows_okD(7) [OF ok] in \<open>auto simp: target_row_ok_def\<close>)
  with ok show ?thesis by (simp add: db' rows_ok_def)
qed

lemma create_credential_rows:
  assumes "rows_ok db" and "create_inference_credential clock site expected w db = Inr (i, db')"
  shows "rows_ok db'"
proof -
  have "0 \<le> next_position CR_Position (filter Q (db_credentials db))" for Q
    by (rule next_position_rows [OF rows_okD(3) [OF assms(1)]]) (simp add: credential_row_ok_def)
  with assms show ?thesis
    unfolding create_inference_credential_def
    by (auto simp: Let_def credential_row_ok_def valid_credential_runtime_state_def split: if_splits
        elim!: bump_rowsE intro!: rows_add)
qed

lemma update_credential_rows: "rows_ok db \<Longrightarrow> update_inference_credential clock credential expected w db = Inr db' \<Longrightarrow> rows_ok db'"
  by (auto simp: update_inference_credential_def Let_def credential_row_ok_def valid_credential_runtime_state_def
      split: if_splits option.splits dest!: update_constrained_InrD elim!: bump_rowsE intro!: rows_upd)

lemma update_credential_runtime_rows:
  "rows_ok db \<Longrightarrow> update_inference_credential_runtime redact clock credential w db = Inr db' \<Longrightarrow> rows_ok db'"
  by (auto simp: update_inference_credential_runtime_def Let_def credential_row_ok_def split: if_splits
      dest!: update_revisioned_InrD intro!: rows_upd)

lemma delete_credential_rows: "rows_ok db \<Longrightarrow> delete_inference_credential clock credential expected db = Inr db' \<Longrightarrow> rows_ok db'"
  by (auto simp: delete_inference_credential_def split: option.splits elim!: bump_rowsE intro!: cascade_rows)

lemma normalize_site_model_InrD:
  "normalize_site_model_write w0 = Inr w \<Longrightarrow> MW_ModelName w \<noteq> [] \<and> 0 \<le> MW_MissingCount w"
  by (auto simp: normalize_site_model_write_def Let_def split: if_splits)

lemma insert_site_model_rows:
  "rows_ok db \<Longrightarrow> MW_ModelName w \<noteq> [] \<Longrightarrow> 0 \<le> MW_MissingCount w \<Longrightarrow> insert_site_model clock w db = Inr (i, db') \<Longrightarrow> rows_ok db'"
  by (auto simp: insert_site_model_def new_site_model_def site_model_row_ok_def Let_def split: if_splits intro!: rows_add)

lemma create_site_model_rows: "rows_ok db \<Longrightarrow> create_site_model clock w db = Inr (i, db') \<Longrightarrow> rows_ok db'"
  by (auto simp: create_site_model_def dest!: normalize_site_model_InrD intro: insert_site_model_rows)

lemma upsert_site_model_rows: "rows_ok db \<Longrightarrow> upsert_site_model clock w db = Inr (i, db') \<Longrightarrow> rows_ok db'"
  by (auto simp: upsert_site_model_def Let_def bump_defs site_model_row_ok_def split: option.splits if_splits
      dest!: normalize_site_model_InrD elim: insert_site_model_rows [rotated 3] intro!: rows_upd bump_rows(4))

lemma update_site_model_rows: "rows_ok db \<Longrightarrow> update_site_model clock model expected w db = Inr db' \<Longrightarrow> rows_ok db'"
  by (auto simp: update_site_model_def Let_def bump_defs site_model_row_ok_def site_model_columns_def
      dest!: normalize_site_model_InrD update_constrained_InrD intro!: rows_upd bump_rows(4))

lemma delete_site_model_rows: "rows_ok db \<Longrightarrow> delete_site_model clock model expected db = Inr db' \<Longrightarrow> rows_ok db'"
  by (auto simp: delete_site_model_def Let_def bump_defs intro!: cascade_rows bump_rows(4))

lemma upsert_access_rows: "rows_ok db \<Longrightarrow> upsert_credential_model_access clock w db = Inr db' \<Longrightarrow> rows_ok db'"
  by (auto simp: upsert_credential_model_access_def Let_def access_row_ok_def split: if_splits option.splits
      intro!: rows_add rows_upd)

lemma delete_access_rows: "rows_ok db \<Longrightarrow> delete_credential_model_access credential model db = Inr db' \<Longrightarrow> rows_ok db'"
  by (auto simp: delete_credential_model_access_def sql_delete_def split: if_splits intro!: rows_fil)

text \<open>The writers of published models clamp every setting into its range.\<close>

lemma published_columns_ok:
  "normalize_published_model_write w0 = Inr w \<Longrightarrow> PM_PublicName (published_columns w m) \<noteq> [] \<and> published_policy_ok (published_columns w m)"
  by (auto simp: normalize_published_model_write_def published_columns_def published_policy_ok_def clamp_range Let_def split: if_splits)

lemma published_columns_row:
  "normalize_published_model_write w0 = Inr w \<Longrightarrow> 1 \<le> PM_Revision m \<Longrightarrow> published_row_ok (published_columns w m)"
  "normalize_published_model_write w0 = Inr w \<Longrightarrow> 1 \<le> PM_Revision m \<Longrightarrow>
    published_row_ok ((published_columns w m)\<lparr>PM_Revision := PM_Revision m + 1, PM_UpdatedAt := clock\<rparr>)"
  using published_columns_ok [of w0 w m]
  by (auto simp: published_row_ok_def published_policy_ok_def published_columns_def)

lemma create_published_rows: "rows_ok db \<Longrightarrow> create_published_model clock w db = Inr (i, db') \<Longrightarrow> rows_ok db'"
  by (auto simp: create_published_model_def Let_def split: if_splits intro!: rows_add elim!: published_columns_row(1))

lemma update_published_rows: "rows_ok db \<Longrightarrow> update_published_model clock model expected w db = Inr db' \<Longrightarrow> rows_ok db'"
  by (auto simp: update_published_model_def split: option.splits dest!: update_constrained_InrD
      intro!: rows_upd elim!: published_columns_row(2) simp: published_row_ok_def)

lemma delete_published_rows: "rows_ok db \<Longrightarrow> delete_published_model model expected db = Inr db' \<Longrightarrow> rows_ok db'"
  by (auto simp: delete_published_model_def intro!: cascade_rows)

lemma create_target_rows:
  assumes "rows_ok db" and "create_route_site_target clock model expected w db = Inr (i, db')"
  shows "rows_ok db'"
proof -
  from assms(2) obtain a where a: "bump_published_model_revision_tx model expected clock db = Inr a"
    by (auto simp: create_route_site_target_def split: if_splits)
  have ok: "rows_ok a" by (rule bump_rows(2) [OF assms(1) a])
  have "0 \<le> next_position RT_Position (filter Q (db_targets a))" for Q
    by (rule next_position_rows [OF rows_okD(7) [OF ok]]) (simp add: target_row_ok_def)
  with assms(2) a ok show ?thesis
    by (auto simp: create_route_site_target_def Let_def target_row_ok_def split: if_splits intro!: rows_add)
qed

lemma update_target_rows: "rows_ok db \<Longrightarrow> update_route_site_target clock target expected expected_published w db = Inr db' \<Longrightarrow> rows_ok db'"
  by (auto simp: update_route_site_target_def target_columns_def target_row_ok_def split: if_splits option.splits
      dest!: update_constrained_InrD dest: bump_rows(2) intro!: rows_upd)

lemma delete_target_rows: "rows_ok db \<Longrightarrow> delete_route_site_target clock target expected expected_published db = Inr db' \<Longrightarrow> rows_ok db'"
  by (auto simp: delete_route_site_target_def split: option.splits dest: bump_rows(2) intro!: cascade_rows)

lemma normalize_profile_name_InrD:
  "normalize_routing_profile_name name0 = Inr name \<Longrightarrow> name \<noteq> [] \<and> length name \<le> 120 \<and> \<not> equal_fold name ''Default route''"
  by (auto simp: normalize_routing_profile_name_def Let_def split: if_splits)

lemma create_profile_rows: "rows_ok db \<Longrightarrow> create_routing_profile clock name db = Inr (i, db') \<Longrightarrow> rows_ok db'"
  by (auto simp: create_routing_profile_def Let_def profile_row_ok_def split: if_splits
      dest!: normalize_profile_name_InrD intro!: rows_add)

lemma update_profile_rows: "rows_ok db \<Longrightarrow> update_routing_profile clock profile expected name db = Inr db' \<Longrightarrow> rows_ok db'"
  by (auto simp: update_routing_profile_def profile_row_ok_def
      dest!: normalize_profile_name_InrD update_constrained_InrD intro!: rows_upd)

lemma delete_profile_rows: "rows_ok db \<Longrightarrow> delete_routing_profile profile expected db = Inr db' \<Longrightarrow> rows_ok db'"
  by (auto simp: delete_routing_profile_def delete_revisioned_def sql_delete_def Let_def split: sum.splits
      simp: rows_ok_def)

lemma set_override_rows: "rows_ok db \<Longrightarrow> set_routing_profile_model_targets clock profile model expected ids db = Inr db' \<Longrightarrow> rows_ok db'"
proof -
  assume ok: "rows_ok db" and s: "set_routing_profile_model_targets clock profile model expected ids db = Inr db'"
  then obtain a where a: "bump_routing_profile_revision_tx profile expected clock db = Inr a"
    and db': "db' = (clear_overrides profile model a)\<lparr>db_overrides := db_overrides (clear_overrides profile model a) @ override_rows profile model clock 0 ids\<rparr>"
    by (auto simp: set_routing_profile_model_targets_def Let_def split: if_splits)
  from bump_rows(3) [OF ok a] show "rows_ok db'"
    by (auto simp: db' rows_ok_def clear_overrides_def override_rows_nth)
qed

lemma clear_override_rows: "rows_ok db \<Longrightarrow> clear_routing_profile_model_targets clock profile model expected db = Inr db' \<Longrightarrow> rows_ok db'"
  by (auto simp: clear_routing_profile_model_targets_def clear_overrides_def split: if_splits dest: bump_rows(3) intro!: rows_fil)

lemmas operations_rows = create_site_rows update_site_rows delete_site_rows create_endpoint_rows update_endpoint_rows
  delete_endpoint_rows reorder_endpoints_rows create_credential_rows update_credential_rows update_credential_runtime_rows
  delete_credential_rows reorder_credentials_rows create_site_model_rows upsert_site_model_rows update_site_model_rows
  delete_site_model_rows upsert_access_rows delete_access_rows create_published_rows update_published_rows
  delete_published_rows create_target_rows update_target_rows delete_target_rows reorder_targets_rows create_profile_rows
  update_profile_rows delete_profile_rows set_override_rows clear_override_rows

lemma site_step_rows: "site_step db db' \<Longrightarrow> rows_ok db \<Longrightarrow> rows_ok db'"
  by (induction rule: site_step.induct) (erule (1) operations_rows)+

lemma empty_rows: "rows_ok empty_site_db"
  by (simp add: rows_ok_def empty_site_db_def)

end
