(* ===== verification/SiteProps.thy ===== *)
theory SiteProps
  imports SiteRows
begin

text \<open>
  The properties of the site domain, over the states its operations reach.
\<close>

subsection \<open>A concrete run\<close>

text \<open>Two sites with an endpoint, a key and a model each, one published model routed over both, and a profile.\<close>

definition example_endpoint :: "string \<Rightarrow> endpoint_write" where
  "example_endpoint url = \<lparr>EW_Name = ''api'', EW_BaseURL = url, EW_WireProtocol = ''OpenAI'', EW_CompatibilityProfile = [],
     EW_AuthScheme = [], EW_CustomHeaders = [], EW_Enabled = True\<rparr>"

definition example_model :: "int \<Rightarrow> int \<Rightarrow> site_model_write" where
  "example_model site endpoint = \<lparr>MW_SiteID = site, MW_EndpointID = endpoint, MW_ModelName = ''m'', MW_DisplayName = [],
     MW_Enabled = True, MW_Stale = False, MW_MissingCount = 0, MW_LastSeenAt = None\<rparr>"

definition example_published :: published_write where
  "example_published = \<lparr>PW_PublicName = ''gpt'', PW_DisplayName = [], PW_OfficialPriceSKU = [], PW_Enabled = True,
     PW_MonitorEnabled = False, PW_MonitorIntervalSeconds = 0, PW_CooldownSeconds = 0, PW_FailureThreshold = 1,
     PW_FailureWindowSeconds = 0, PW_FirstOutputTimeoutSeconds = 0, PW_StreamIdleTimeoutSeconds = 0,
     PW_RequestDeadlineSeconds = 0, PW_MaxAttempts = 50\<rparr>"

definition example_target :: "int \<Rightarrow> target_write" where
  "example_target n = \<lparr>TW_SiteID = n, TW_EndpointID = n, TW_SiteModelID = n, TW_Enabled = True\<rparr>"

text \<open>A run of operations that create rows: each returns an ID, which is dropped.\<close>

fun run_site :: "(site_db \<Rightarrow> (store_error, int \<times> site_db) result) list \<Rightarrow> site_db \<Rightarrow> (store_error, site_db) result" where
  "run_site [] db = Inr db"
| "run_site (f # fs) db = and_then (f db) (\<lambda>(_, db'). run_site fs db')"

definition example_setup :: "(site_db \<Rightarrow> (store_error, int \<times> site_db) result) list" where
  "example_setup =
    [create_site 1 \<lparr>SW_Name = '' a '', SW_DashboardURL = [], SW_Enabled = True\<rparr>,
     create_site 1 \<lparr>SW_Name = ''b'', SW_DashboardURL = [], SW_Enabled = True\<rparr>,
     create_inference_endpoint Some 1 1 1 (example_endpoint ''https://a/''),
     create_inference_endpoint Some 1 2 1 (example_endpoint ''https://b''),
     create_inference_credential 1 1 0 \<lparr>CW_Name = ''k'', CW_SecretCipher = ''x'', CW_Enabled = True\<rparr>,
     create_inference_credential 1 2 0 \<lparr>CW_Name = ''k'', CW_SecretCipher = ''y'', CW_Enabled = True\<rparr>,
     create_site_model 1 (example_model 1 1),
     create_site_model 1 (example_model 2 2),
     create_published_model 1 example_published,
     create_route_site_target 1 1 1 (example_target 1),
     create_route_site_target 1 1 2 (example_target 2),
     create_routing_profile 1 ''night'']"

definition example_site_db :: site_db where
  "example_site_db = projr (run_site example_setup empty_site_db)"

lemma run_site_reachable:
  "run_site fs db = Inr db' \<Longrightarrow> site_reachable db \<Longrightarrow>
    (\<And>f a i b. f \<in> set fs \<Longrightarrow> f a = Inr (i, b) \<Longrightarrow> site_step a b) \<Longrightarrow> site_reachable db'"
proof (induction fs arbitrary: db)
  case Nil
  then show ?case by simp
next
  case (Cons f fs)
  then obtain i mid where f: "f db = Inr (i, mid)" and rest: "run_site fs mid = Inr db'" by auto
  have "site_step db mid" by (rule Cons.prems(3) [of f db i mid]) (use f in simp_all)
  with Cons.prems(2) have "site_reachable mid" unfolding site_reachable_def by (rule rtranclp.rtrancl_into_rtrancl)
  with rest Cons show ?case by (metis list.set_intros(2))
qed

lemma example_run: "run_site example_setup empty_site_db = Inr example_site_db"
  by (simp add: example_site_db_def) code_simp

lemma example_reachable: "site_reachable example_site_db"
proof (rule run_site_reachable [OF example_run])
  show "site_reachable empty_site_db" by (simp add: site_reachable_def)
  show "site_step a b" if "f \<in> set example_setup" "f a = Inr (i, b)" for f a i b
    using that unfolding example_setup_def by (auto intro: site_step.intros)
qed

subsection \<open>Integrity\<close>

text \<open>
  \<^bold>\<open>C26.\<close> Whatever operations the store runs, in whatever order, its references stay intact: IDs are
  unique and never above their counter, every endpoint, key, site model, access row, route target
  and override refers to rows that are there and belong to the same site (for targets: to the same
  site and endpoint), every route target has an endpoint that can serve the gateway, a published
  model has one target per site and no two targets at one position, and a profile only overrides a
  model with targets of that model.
\<close>

theorem site_store_integrity: "site_reachable db \<Longrightarrow> site_wf db"
  using site_reachable_invariant [of db "\<lambda>_. True"] by simp

theorem site_store_integrity_witness: "site_wf example_site_db \<and> length (db_targets example_site_db) = 2"
  using site_store_integrity [OF example_reachable] by (rule conjI) (simp add: example_site_db_def, code_simp)

text \<open>
  \<^bold>\<open>C27.\<close> Every stored row has the form its table promises: names are not empty, protocols are in
  normal form, key states and availabilities are among the known ones, positions and counters are not
  negative, revisions start at 1, and every setting of a published model lies in its range (two to ten
  failures, at most twenty attempts, timeouts between a second and an hour, ...), so no \<open>CHECK\<close> of the
  schema can refuse a write.
\<close>

theorem stored_rows_well_formed: "site_reachable db \<Longrightarrow> rows_ok db"
  using site_reachable_invariant [of db rows_ok] empty_rows site_step_rows by simp

theorem stored_rows_well_formed_witness:
  "rows_ok example_site_db \<and> map PM_FailureThreshold (db_published example_site_db) = [2] \<and>
   map PM_MaxAttempts (db_published example_site_db) = [20]"
  using stored_rows_well_formed [OF example_reachable]
  by (intro conjI) (simp_all add: example_site_db_def, code_simp+)

subsection \<open>Resolving a route\<close>

lemma map_filter_eq: "List.map_filter f xs = map (\<lambda>x. the (f x)) (filter (\<lambda>x. f x \<noteq> None) xs)"
  by (induction xs) (auto simp: List.map_filter_def)

lemma resolve_target_Some:
  "resolve_target db t = Some r \<Longrightarrow> RS_Target r = t \<and> joined t db = Some (RS_Site r, RS_Endpoint r, RS_Model r) \<and>
     RT_Enabled t \<and> S_Enabled (RS_Site r) \<and> E_Enabled (RS_Endpoint r) \<and> SM_Enabled (RS_Model r)"
  by (auto simp: resolve_target_def split: option.splits prod.splits if_splits)

lemma joined_wf:
  assumes wf: "site_wf db" and t: "t \<in> set (db_targets db)"
  shows "\<exists>s e m. joined t db = Some (s, e, m) \<and> S_ID s = RT_SiteID t \<and> E_ID e = RT_EndpointID t \<and> E_SiteID e = RT_SiteID t \<and>
    SM_ID m = RT_SiteModelID t \<and> SM_SiteID m = RT_SiteID t \<and> SM_EndpointID m = RT_EndpointID t \<and> endpoint_eligible e"
proof -
  have u: "unique_key S_ID (db_sites db)" "unique_key E_ID (db_endpoints db)" "unique_key SM_ID (db_models db)"
    using wf by (simp_all add: site_wf_def keys_ok_def ids_ok_def)
  from target_model [OF wf t] obtain m where m: "m \<in> set (db_models db)" "SM_SiteID m = RT_SiteID t"
    "SM_EndpointID m = RT_EndpointID t" "SM_ID m = RT_SiteModelID t" by blast
  have "(\<lambda>m. (SM_SiteID m, SM_EndpointID m)) ` set (db_models db) \<subseteq> (\<lambda>e. (E_SiteID e, E_ID e)) ` set (db_endpoints db)"
    using wf by (simp add: site_wf_def model_refs_ok_def)
  from image_subsetD [OF this m(1)] m obtain e where e: "e \<in> set (db_endpoints db)" "E_SiteID e = RT_SiteID t" "E_ID e = RT_EndpointID t"
    by auto
  from target_endpoint [OF wf t] obtain e' where "e' \<in> set (db_endpoints db)" "E_ID e' = RT_EndpointID t" "endpoint_eligible e'" by blast
  with unique_key_D [OF u(2) e(1)] e(3) have el: "endpoint_eligible e" by auto
  have "E_SiteID ` set (db_endpoints db) \<subseteq> S_ID ` set (db_sites db)" using wf by (simp add: site_wf_def site_refs_ok_def)
  from image_subsetD [OF this e(1)] e(2) obtain s where s: "s \<in> set (db_sites db)" "S_ID s = RT_SiteID t" by auto
  have "row_by S_ID (RT_SiteID t) (db_sites db) = Some s" "row_by E_ID (RT_EndpointID t) (db_endpoints db) = Some e"
    "row_by SM_ID (RT_SiteModelID t) (db_models db) = Some m"
    using s e m by (simp_all add: row_by_eq_Some u)
  with s e m el show ?thesis by (simp add: joined_def)
qed

lemma position_before_weak: "strict_weak (position_before pos key)"
  unfolding strict_weak_def position_before_def by auto

text \<open>When no two rows share a position, the tie-break on the ID does not matter.\<close>

lemma by_position:
  assumes "inj_on pos (set xs)"
  shows "slice_stable (position_before pos key) xs = sort_key pos xs"
proof (rule sort_key_inj_key_eq [symmetric])
  show "mset xs = mset (slice_stable (position_before pos key) xs)" by simp
  show "inj_on pos (set xs)" by (rule assms)
  have "sorted_wrt (\<lambda>a b. \<not> position_before pos key b a) (slice_stable (position_before pos key) xs)"
    by (rule slice_stable_sorted [OF position_before_weak])
  then have "sorted_wrt (\<lambda>a b. pos a \<le> pos b) (slice_stable (position_before pos key) xs)"
    by (rule sorted_wrt_mono_rel [rotated]) (auto simp: position_before_def)
  then show "sorted (map pos (slice_stable (position_before pos key) xs))" by (simp add: sorted_wrt_map)
qed

text \<open>
  The order a route should have: the targets of the model by position, or, when the profile overrides
  the model, the rows the override names, by the override's positions.
\<close>

definition target_named :: "site_db \<Rightarrow> int \<Rightarrow> target_row" where
  "target_named db i = the (row_by RT_ID i (db_targets db))"

definition route_order :: "int option \<Rightarrow> int \<Rightarrow> site_db \<Rightarrow> target_row list" where
  "route_order profile model db =
     (case applied_profile profile model db of
        None \<Rightarrow> sort_key RT_Position (filter (\<lambda>t. RT_PublishedModelID t = model) (db_targets db))
      | Some p \<Rightarrow> map (\<lambda>ov. target_named db (OV_TargetID ov))
          (sort_key OV_Position (filter (\<lambda>ov. OV_ProfileID ov = RP_ID p \<and> OV_ModelID ov = model) (db_overrides db))))"

lemma default_targets_order:
  "site_wf db \<Longrightarrow> default_targets model db = sort_key RT_Position (filter (\<lambda>t. RT_PublishedModelID t = model) (db_targets db))"
  unfolding default_targets_def
  by (rule by_position, rule inj_onI)
    (auto simp: site_wf_def routes_ok_def dest: unique_key_D)

lemma override_row:
  assumes wf: "site_wf db" and ov: "ov \<in> set (db_overrides db)"
  shows "target_named db (OV_TargetID ov) \<in> set (db_targets db) \<and> RT_ID (target_named db (OV_TargetID ov)) = OV_TargetID ov \<and>
    RT_PublishedModelID (target_named db (OV_TargetID ov)) = OV_ModelID ov \<and>
    filter (\<lambda>t. RT_ID t = OV_TargetID ov) (db_targets db) = [target_named db (OV_TargetID ov)]"
proof -
  have u: "unique_key RT_ID (db_targets db)" using wf by (simp add: site_wf_def keys_ok_def ids_ok_def)
  have "(\<lambda>ov. (OV_ModelID ov, OV_TargetID ov)) ` set (db_overrides db) \<subseteq> (\<lambda>t. (RT_PublishedModelID t, RT_ID t)) ` set (db_targets db)"
    using wf by (simp add: site_wf_def override_refs_ok_def)
  from image_subsetD [OF this ov] obtain t where t: "t \<in> set (db_targets db)" "RT_PublishedModelID t = OV_ModelID ov" "RT_ID t = OV_TargetID ov"
    by auto
  then have "row_by RT_ID (OV_TargetID ov) (db_targets db) = Some t" by (simp add: row_by_eq_Some [OF u])
  moreover from this have "filter (\<lambda>t. RT_ID t = OV_TargetID ov) (db_targets db) = [t]" by (rule filter_unique_key [OF u])
  ultimately show ?thesis using t by (simp add: target_named_def)
qed

lemma override_targets_order:
  assumes wf: "site_wf db"
  shows "override_targets profile model db = map (\<lambda>ov. target_named db (OV_TargetID ov))
    (sort_key OV_Position (filter (\<lambda>ov. OV_ProfileID ov = profile \<and> OV_ModelID ov = model) (db_overrides db)))"
proof -
  let ?ovs = "filter (\<lambda>ov. OV_ProfileID ov = profile \<and> OV_ModelID ov = model) (db_overrides db)"
  let ?h = "\<lambda>ov. (ov, target_named db (OV_TargetID ov))"
  let ?lt = "position_before (\<lambda>p. OV_Position (fst p)) (\<lambda>p. RT_ID (snd p)) :: override_row \<times> target_row \<Rightarrow> _"
  have inj: "inj_on OV_Position (set ?ovs)"
  proof (rule inj_onI)
    fix a b assume ab: "a \<in> set ?ovs" "b \<in> set ?ovs" "OV_Position a = OV_Position b"
    have u: "unique_key (\<lambda>ov. (OV_ProfileID ov, OV_ModelID ov, OV_Position ov)) (db_overrides db)"
      using wf by (simp add: site_wf_def override_refs_ok_def)
    show "a = b" by (rule unique_key_D [OF u]) (use ab in auto)
  qed
  have row: "map (Pair ov) (filter (\<lambda>t. RT_ID t = OV_TargetID ov) (db_targets db)) = [?h ov]" if "ov \<in> set ?ovs" for ov
  proof -
    have "ov \<in> set (db_overrides db)" using that by simp
    then show ?thesis using override_row [OF wf] by simp
  qed
  have "map (\<lambda>ov. map (Pair ov) (filter (\<lambda>t. RT_ID t = OV_TargetID ov) (db_targets db))) ?ovs = map (\<lambda>ov. [?h ov]) ?ovs"
    by (rule map_cong [OF refl row])
  then have pairs: "concat (map (\<lambda>ov. map (Pair ov) (filter (\<lambda>t. RT_ID t = OV_TargetID ov) (db_targets db))) ?ovs) = map ?h ?ovs"
    by (simp only: concat_map_singleton)
  have lt: "(\<lambda>a b. OV_Position (fst a) < OV_Position (fst b) \<or> OV_Position (fst a) = OV_Position (fst b) \<and> RT_ID (snd a) < RT_ID (snd b)) = ?lt"
    by (simp add: position_before_def fun_eq_iff)
  have "slice_stable ?lt (map ?h ?ovs) = sort_key (\<lambda>p. OV_Position (fst p)) (map ?h ?ovs)"
    by (rule by_position) (use inj in \<open>auto simp: inj_on_def\<close>)
  also have "\<dots> = map ?h (sort_key OV_Position ?ovs)"
  proof (rule sort_key_inj_key_eq)
    show "mset (map ?h ?ovs) = mset (map ?h (sort_key OV_Position ?ovs))" by simp
    show "inj_on (\<lambda>p. OV_Position (fst p)) (set (map ?h ?ovs))" using inj by (auto simp: inj_on_def)
    show "sorted (map (\<lambda>p. OV_Position (fst p)) (map ?h (sort_key OV_Position ?ovs)))" by (simp add: comp_def)
  qed
  finally show ?thesis unfolding override_targets_def pairs lt by (simp add: comp_def)
qed

lemma candidate_targets:
  assumes wf: "site_wf db" and t: "t \<in> set (route_order profile model db)"
  shows "t \<in> set (db_targets db) \<and> RT_PublishedModelID t = model"
  using t override_row [OF wf] by (auto simp: route_order_def split: option.splits)

text \<open>Which targets a request can use.\<close>

definition target_usable :: "site_db \<Rightarrow> target_row \<Rightarrow> bool" where
  "target_usable db t \<longleftrightarrow> RT_Enabled t \<and>
     (\<exists>s\<in>set (db_sites db). S_ID s = RT_SiteID t \<and> S_Enabled s) \<and>
     (\<exists>e\<in>set (db_endpoints db). E_ID e = RT_EndpointID t \<and> E_Enabled e) \<and>
     (\<exists>m\<in>set (db_models db). SM_ID m = RT_SiteModelID t \<and> SM_Enabled m)"

text \<open>An eligible endpoint in normal form passes the protocol filter of the query.\<close>

lemma eligible_routable:
  "endpoint_row_ok e \<Longrightarrow> endpoint_eligible e \<Longrightarrow> routable_protocol (E_WireProtocol e)"
proof -
  assume ok: "endpoint_row_ok e" and el: "endpoint_eligible e"
  then have n: "normalize_protocol (E_WireProtocol e) = Some (E_WireProtocol e)" by (simp add: endpoint_row_ok_def)
  from el n have "E_WireProtocol e = ''openai'' \<or> E_WireProtocol e = ''compatible''"
    by (auto simp: endpoint_eligible_def capabilities_for_def split: if_splits)
  moreover have "routable_protocol ''openai''" "routable_protocol ''compatible''" by code_simp+
  ultimately show ?thesis by auto
qed

lemma resolve_target_iff:
  assumes wf: "site_wf db" and ok: "rows_ok db" and t: "t \<in> set (db_targets db)"
  shows "resolve_target db t \<noteq> None \<longleftrightarrow> target_usable db t"
proof -
  from joined_wf [OF wf t] obtain s e m where j: "joined t db = Some (s, e, m)" and ids: "S_ID s = RT_SiteID t" "E_ID e = RT_EndpointID t"
    "SM_ID m = RT_SiteModelID t" and el: "endpoint_eligible e" by blast
  have u: "unique_key S_ID (db_sites db)" "unique_key E_ID (db_endpoints db)" "unique_key SM_ID (db_models db)"
    using wf by (simp_all add: site_wf_def keys_ok_def ids_ok_def)
  from j have mem: "s \<in> set (db_sites db)" "e \<in> set (db_endpoints db)" "m \<in> set (db_models db)"
    by (auto simp: joined_def split: option.splits dest: row_by_SomeD)
  have "routable_protocol (E_WireProtocol e)" using eligible_routable el rows_okD(2) [OF ok] mem(2) by blast
  then have "resolve_target db t \<noteq> None \<longleftrightarrow> RT_Enabled t \<and> S_Enabled s \<and> E_Enabled e \<and> SM_Enabled m"
    by (simp add: resolve_target_def j)
  also have "\<dots> \<longleftrightarrow> target_usable db t"
    unfolding target_usable_def using ids mem unique_key_D [OF u(1)] unique_key_D [OF u(2)] unique_key_D [OF u(3)] by metis
  finally show ?thesis .
qed

lemma concat_pick:
  "distinct (map key us) \<Longrightarrow> t \<in> set us \<Longrightarrow>
    map snd (filter (\<lambda>(i, c). i = key t) (concat (map (\<lambda>u. map (Pair (key u)) (g u)) us))) = g t"
proof (induction us)
  case Nil
  then show ?case by simp
next
  case (Cons u us)
  have pick: "filter (\<lambda>(i, c). i = k) (map (Pair k) xs) = map (Pair k) xs" for k xs
    by (induction xs) auto
  have skip: "k \<noteq> k' \<Longrightarrow> filter (\<lambda>(i, c). i = k) (map (Pair k') xs) = []" for k k' xs
    by (induction xs) auto
  show ?case
  proof (cases "t = u")
    case True
    have "key u \<notin> key ` set us" using Cons.prems(1) by simp
    then have "\<forall>y\<in>set us. key y \<noteq> key u" by (metis imageI)
    then have "filter (\<lambda>(i, c). i = key u) (concat (map (\<lambda>u. map (Pair (key u)) (g u)) us)) = []"
      by (auto simp: filter_empty_conv)
    with True show ?thesis by (simp add: pick comp_def)
  next
    case False
    with Cons.prems have t: "t \<in> set us" by simp
    from Cons.prems(1) have "key u \<notin> key ` set us" by simp
    with t have "t \<in> set us" "key t \<noteq> key u" by (blast, metis imageI)
    with Cons.IH Cons.prems(1) show ?thesis by (simp add: skip)
  qed
qed

text \<open>The keys a target may use: those of its site that are routable and not known to lack the model.\<close>

lemma credentials_of_target:
  assumes wf: "site_wf db" and t: "t \<in> set (db_targets db)" "RT_PublishedModelID t = model"
  shows "map snd (filter (\<lambda>(i, c). i = RT_ID t) (credential_rows model now db)) =
    slice_stable (position_before CR_Position CR_ID)
      (filter (\<lambda>c. CR_SiteID c = RT_SiteID t \<and> credential_routable now c \<and>
         availability_of (CR_ID c) (RT_SiteModelID t) db \<noteq> ''unsupported'') (db_credentials db))"
proof -
  have "distinct (map RT_ID (db_targets db))"
    using wf by (simp add: site_wf_def keys_ok_def ids_ok_def unique_key_def)
  then have "distinct (map RT_ID (filter (\<lambda>t. RT_PublishedModelID t = model) (db_targets db)))"
    using unique_key_filter [of RT_ID] by (simp add: unique_key_def)
  then have "distinct (map RT_ID (default_targets model db))"
    unfolding default_targets_def by (metis mset_map mset_slice_stable mset_eq_imp_distinct_iff)
  moreover have "t \<in> set (default_targets model db)" using t by (simp add: default_targets_def)
  ultimately show ?thesis unfolding credential_rows_def by (rule concat_pick)
qed

lemma route_order_distinct: "site_wf db \<Longrightarrow> distinct (route_order profile model db)"
proof -
  assume wf: "site_wf db"
  have ut: "unique_key RT_ID (db_targets db)"
    and uo: "unique_key (\<lambda>ov. (OV_ProfileID ov, OV_ModelID ov, OV_TargetID ov)) (db_overrides db)"
    using wf by (simp_all add: site_wf_def keys_ok_def ids_ok_def override_refs_ok_def)
  have "distinct (db_targets db)" "distinct (db_overrides db)" using ut uo by (simp_all add: unique_key_def distinct_map)
  moreover have "inj_on (\<lambda>ov. target_named db (OV_TargetID ov))
      (set (filter (\<lambda>ov. OV_ProfileID ov = p \<and> OV_ModelID ov = model) (db_overrides db)))" for p
  proof (rule inj_onI)
    fix a b assume ab: "a \<in> set (filter (\<lambda>ov. OV_ProfileID ov = p \<and> OV_ModelID ov = model) (db_overrides db))"
      "b \<in> set (filter (\<lambda>ov. OV_ProfileID ov = p \<and> OV_ModelID ov = model) (db_overrides db))"
      "target_named db (OV_TargetID a) = target_named db (OV_TargetID b)"
    then have "a \<in> set (db_overrides db)" "b \<in> set (db_overrides db)" by auto
    with override_row [OF wf, of a] override_row [OF wf, of b] ab(3) have "OV_TargetID a = OV_TargetID b" by metis
    show "a = b" by (rule unique_key_D [OF uo]) (use ab \<open>OV_TargetID a = OV_TargetID b\<close> in auto)
  qed
  ultimately show ?thesis by (auto simp: route_order_def distinct_map split: option.splits)
qed

text \<open>
  \<^bold>\<open>C28.\<close> In every reachable state a route resolves to exactly what the administrator ordered: the
  targets of the published model by position, or of the profile's override by the override's positions,
  without those that are off or whose site, endpoint or model is off, each with its own site's data and
  with exactly the keys of that site that are routable now and not known to lack the model, in key
  order. No other filter interferes (the protocol filter of the query never drops a target), no site
  appears twice, and the profile is named only when it has an override for this model.
\<close>

theorem resolve_exact:
  assumes reach: "site_reachable db"
    and r: "resolve_published_model_for_profile name now profile db = Inr r"
  shows "RM_Model r \<in> set (db_published db) \<and> PM_PublicName (RM_Model r) = trim_space name \<and> PM_Enabled (RM_Model r) \<and>
    map RS_Target (RM_Targets r) = filter (target_usable db) (route_order profile (PM_ID (RM_Model r)) db) \<and>
    distinct (map (\<lambda>x. RT_SiteID (RS_Target x)) (RM_Targets r)) \<and>
    RM_RoutingProfileID r = map_option RP_ID (applied_profile profile (PM_ID (RM_Model r)) db) \<and>
    (\<forall>x. x \<in> set (RM_Targets r) \<longrightarrow>
       S_ID (RS_Site x) = RT_SiteID (RS_Target x) \<and> E_ID (RS_Endpoint x) = RT_EndpointID (RS_Target x) \<and>
       E_SiteID (RS_Endpoint x) = RT_SiteID (RS_Target x) \<and> SM_EndpointID (RS_Model x) = RT_EndpointID (RS_Target x) \<and>
       set (RS_Credentials x) = {c \<in> set (db_credentials db). CR_SiteID c = RT_SiteID (RS_Target x) \<and>
         credential_routable now c \<and> availability_of (CR_ID c) (RT_SiteModelID (RS_Target x)) db \<noteq> ''unsupported''} \<and>
       sorted_wrt (\<lambda>a b. \<not> position_before CR_Position CR_ID b a) (RS_Credentials x))"
proof -
  have wf: "site_wf db" and ok: "rows_ok db"
    using site_reachable_invariant [OF reach, of rows_ok] empty_rows site_step_rows by auto
  from r obtain model where m: "row_by PM_PublicName (trim_space name) (db_published db) = Some model" and en: "PM_Enabled model"
    by (auto simp: resolve_published_model_for_profile_def split: option.splits if_splits)
  define order where "order = route_order profile (PM_ID model) db"
  let ?pairs = "credential_rows (PM_ID model) now db"
  have order: "(case applied_profile profile (PM_ID model) db of
      Some row \<Rightarrow> override_targets (RP_ID row) (PM_ID model) db | None \<Rightarrow> default_targets (PM_ID model) db) = order"
    by (simp add: order_def route_order_def override_targets_order [OF wf] default_targets_order [OF wf] split: option.splits)
  have res: "RM_Model r = model" "RM_Targets r = map (attach_credentials ?pairs) (List.map_filter (resolve_target db) order)"
    "RM_RoutingProfileID r = map_option RP_ID (applied_profile profile (PM_ID model) db)"
    using r m en order
    by (auto simp: resolve_published_model_for_profile_def Let_def split: option.splits)
  have cand: "t \<in> set (db_targets db)" "RT_PublishedModelID t = PM_ID model" if "t \<in> set order" for t
    using candidate_targets [OF wf] that unfolding order_def by auto
  have usable: "resolve_target db t \<noteq> None \<longleftrightarrow> target_usable db t" if "t \<in> set order" for t
    by (rule resolve_target_iff [OF wf ok cand(1) [OF that]])
  have tgt: "RS_Target (attach_credentials ?pairs (the (resolve_target db t))) = t" if "resolve_target db t \<noteq> None" for t
    using that resolve_target_Some by (auto simp: attach_credentials_def)
  have targets: "map RS_Target (RM_Targets r) = filter (target_usable db) order"
  proof -
    have "map RS_Target (RM_Targets r) = map (\<lambda>t. RS_Target (attach_credentials ?pairs (the (resolve_target db t))))
        (filter (\<lambda>t. resolve_target db t \<noteq> None) order)"
      by (simp only: res(2) map_filter_eq map_map comp_def)
    also have "\<dots> = map (\<lambda>t. t) (filter (\<lambda>t. resolve_target db t \<noteq> None) order)"
      by (rule map_cong [OF refl]) (use tgt in simp)
    also have "\<dots> = filter (target_usable db) order"
      using usable by (simp cong: filter_cong)
    finally show ?thesis .
  qed
  have once: "distinct (map (\<lambda>x. RT_SiteID (RS_Target x)) (RM_Targets r))"
  proof -
    have us: "unique_key (\<lambda>t. (RT_PublishedModelID t, RT_SiteID t)) (db_targets db)"
      using wf by (simp add: site_wf_def routes_ok_def)
    have "inj_on RT_SiteID (set order)"
      by (rule inj_onI, rule unique_key_D [OF us]) (use cand in auto)
    moreover have "distinct order" unfolding order_def by (rule route_order_distinct [OF wf])
    ultimately have "distinct (map RT_SiteID (filter (target_usable db) order))"
      by (simp add: distinct_map inj_on_def)
    moreover have "map (\<lambda>x. RT_SiteID (RS_Target x)) (RM_Targets r) = map RT_SiteID (map RS_Target (RM_Targets r))" by simp
    ultimately show ?thesis by (simp only: targets)
  qed
  have each: "S_ID (RS_Site x) = RT_SiteID (RS_Target x) \<and> E_ID (RS_Endpoint x) = RT_EndpointID (RS_Target x) \<and>
       E_SiteID (RS_Endpoint x) = RT_SiteID (RS_Target x) \<and> SM_EndpointID (RS_Model x) = RT_EndpointID (RS_Target x) \<and>
       RS_Credentials x = slice_stable (position_before CR_Position CR_ID)
         (filter (\<lambda>c. CR_SiteID c = RT_SiteID (RS_Target x) \<and> credential_routable now c \<and>
            availability_of (CR_ID c) (RT_SiteModelID (RS_Target x)) db \<noteq> ''unsupported'') (db_credentials db))"
    if "x \<in> set (RM_Targets r)" for x
  proof -
    from that obtain t y where t: "t \<in> set order" and y: "resolve_target db t = Some y" and x: "x = attach_credentials ?pairs y"
      unfolding res(2) map_filter_eq by auto
    from resolve_target_Some [OF y] have y': "RS_Target y = t" "joined t db = Some (RS_Site y, RS_Endpoint y, RS_Model y)" by blast+
    with joined_wf [OF wf cand(1) [OF t]] have "S_ID (RS_Site y) = RT_SiteID t \<and> E_ID (RS_Endpoint y) = RT_EndpointID t \<and>
       E_SiteID (RS_Endpoint y) = RT_SiteID t \<and> SM_EndpointID (RS_Model y) = RT_EndpointID t" by auto
    with y' credentials_of_target [OF wf cand [OF t], of now] show ?thesis
      by (simp add: x attach_credentials_def)
  qed
  have model: "model \<in> set (db_published db)" "PM_PublicName model = trim_space name" using row_by_SomeD [OF m] by auto
  show ?thesis
    unfolding res(1)
  proof (intro conjI)
    show "\<forall>x. x \<in> set (RM_Targets r) \<longrightarrow>
       S_ID (RS_Site x) = RT_SiteID (RS_Target x) \<and> E_ID (RS_Endpoint x) = RT_EndpointID (RS_Target x) \<and>
       E_SiteID (RS_Endpoint x) = RT_SiteID (RS_Target x) \<and> SM_EndpointID (RS_Model x) = RT_EndpointID (RS_Target x) \<and>
       set (RS_Credentials x) = {c \<in> set (db_credentials db). CR_SiteID c = RT_SiteID (RS_Target x) \<and>
         credential_routable now c \<and> availability_of (CR_ID c) (RT_SiteModelID (RS_Target x)) db \<noteq> ''unsupported''} \<and>
       sorted_wrt (\<lambda>a b. \<not> position_before CR_Position CR_ID b a) (RS_Credentials x)"
    proof (intro allI impI)
      fix x assume "x \<in> set (RM_Targets r)"
      note e = each [OF this]
      then have "RS_Credentials x = slice_stable (position_before CR_Position CR_ID)
         (filter (\<lambda>c. CR_SiteID c = RT_SiteID (RS_Target x) \<and> credential_routable now c \<and>
            availability_of (CR_ID c) (RT_SiteModelID (RS_Target x)) db \<noteq> ''unsupported'') (db_credentials db))" by blast
      then have "set (RS_Credentials x) = {c \<in> set (db_credentials db). CR_SiteID c = RT_SiteID (RS_Target x) \<and>
         credential_routable now c \<and> availability_of (CR_ID c) (RT_SiteModelID (RS_Target x)) db \<noteq> ''unsupported''}"
        "sorted_wrt (\<lambda>a b. \<not> position_before CR_Position CR_ID b a) (RS_Credentials x)"
        by (simp_all add: slice_stable_sorted [OF position_before_weak])
      with e show "S_ID (RS_Site x) = RT_SiteID (RS_Target x) \<and> E_ID (RS_Endpoint x) = RT_EndpointID (RS_Target x) \<and>
       E_SiteID (RS_Endpoint x) = RT_SiteID (RS_Target x) \<and> SM_EndpointID (RS_Model x) = RT_EndpointID (RS_Target x) \<and>
       set (RS_Credentials x) = {c \<in> set (db_credentials db). CR_SiteID c = RT_SiteID (RS_Target x) \<and>
         credential_routable now c \<and> availability_of (CR_ID c) (RT_SiteModelID (RS_Target x)) db \<noteq> ''unsupported''} \<and>
       sorted_wrt (\<lambda>a b. \<not> position_before CR_Position CR_ID b a) (RS_Credentials x)" by blast
    qed
  qed (use model en targets once res(3) order_def in simp_all)
qed

theorem resolve_exact_witness:
  "(case resolve_published_model_for_profile '' gpt '' 5 (Some 1) example_site_db of
      Inl _ \<Rightarrow> False
    | Inr r \<Rightarrow> map (\<lambda>x. (RT_ID (RS_Target x), map CR_ID (RS_Credentials x))) (RM_Targets r) = [(1, [1]), (2, [2])] \<and>
        map RS_Target (RM_Targets r) = filter (target_usable example_site_db) (route_order (Some 1) (PM_ID (RM_Model r)) example_site_db))"
proof -
  have run: "(case resolve_published_model_for_profile '' gpt '' 5 (Some 1) example_site_db of
      Inl _ \<Rightarrow> False
    | Inr r \<Rightarrow> map (\<lambda>x. (RT_ID (RS_Target x), map CR_ID (RS_Credentials x))) (RM_Targets r) = [(1, [1]), (2, [2])])"
    unfolding example_site_db_def by code_simp
  then obtain r where r: "resolve_published_model_for_profile '' gpt '' 5 (Some 1) example_site_db = Inr r"
    by (cases "resolve_published_model_for_profile '' gpt '' 5 (Some 1) example_site_db") simp_all
  show ?thesis using run resolve_exact [OF example_reachable r] unfolding r by simp
qed

subsection \<open>Reordering and overriding\<close>

lemma filter_map_id: "(\<And>x. Q (g x) = Q x) \<Longrightarrow> (\<And>x. Q x \<Longrightarrow> g x = x) \<Longrightarrow> filter Q (map g xs) = filter Q xs"
  by (induction xs) auto

lemma distinct_map_key: "map f xs = ys \<Longrightarrow> distinct ys \<Longrightarrow> distinct xs"
  by (auto simp: distinct_map)

text \<open>
  \<^bold>\<open>C29.\<close> A successful reordering puts the targets of the model into exactly the order of the list of
  IDs, which is a permutation of them; the targets of other models are untouched, and the model's
  revision goes up by one.
\<close>

theorem reorder_exact:
  assumes reach: "site_reachable db" and r: "reorder_route_site_targets clock model expected ids db = Inr db'"
  shows "map RT_ID (default_targets model db') = ids \<and> set ids = RT_ID ` set (default_targets model db) \<and>
    (\<forall>other. other \<noteq> model \<longrightarrow> default_targets other db' = default_targets other db) \<and>
    (\<exists>m m'. get_published_model model db = Some m \<and> get_published_model model db' = Some m' \<and>
      (expected \<le> 0 \<or> PM_Revision m = expected) \<and> PM_Revision m' = PM_Revision m + 1)"
proof -
  have wf: "site_wf db" using site_reachable_invariant [OF reach, of "\<lambda>_. True"] by simp
  have up: "unique_key PM_ID (db_published db)" using wf by (simp add: site_wf_def keys_ok_def ids_ok_def)
  let ?put = "\<lambda>p t. t\<lparr>RT_Position := p, RT_Revision := RT_Revision t + 1, RT_UpdatedAt := clock\<rparr>"
  let ?mine = "\<lambda>t. RT_PublishedModelID t = model"
  let ?pl = "placed RT_ID ?mine ?put 0 ids"
  from r obtain db1 ts where b: "bump_published_model_revision_tx model expected clock db = Inr db1"
    and l: "reorder_rows RT_ID ?mine ?put ids (db_targets db1) = Inr ts" and db': "db' = db1\<lparr>db_targets := ts\<rparr>"
    by (auto simp: reorder_route_site_targets_def)
  from b obtain t where "update_revisioned PM_ID PM_Revision model expected
      (\<lambda>m. m\<lparr>PM_Revision := PM_Revision m + 1, PM_UpdatedAt := clock\<rparr>) (db_published db) = Inr t" and db1: "db1 = db\<lparr>db_published := t\<rparr>"
    by (auto simp: bump_published_model_revision_tx_def)
  from update_revisioned_ok [OF up _ this(1)] have rev: "\<exists>m m'. get_published_model model db = Some m \<and> get_published_model model db' = Some m' \<and>
      (expected \<le> 0 \<or> PM_Revision m = expected) \<and> PM_Revision m' = PM_Revision m + 1"
    by (fastforce simp: db' db1 get_published_model_def revision_matches_def)
  have w1: "site_wf db1" by (rule bump_published_revision_wf [OF wf b])
  have w': "site_wf db'" by (rule reorder_route_targets_wf [OF wf r])
  have tdb: "db_targets db1 = db_targets db" by (simp add: db1)
  have u: "unique_key RT_ID (db_targets db)" using wf by (simp add: site_wf_def keys_ok_def ids_ok_def)
  from reorder_rows_ok [OF u _ _ l [unfolded tdb]]
  have ts: "ts = map ?pl (db_targets db)" and d: "distinct ids" and ids: "set ids = RT_ID ` {t \<in> set (db_targets db). ?mine t}"
    by simp_all
  have k: "RT_ID (?pl t) = RT_ID t" "RT_PublishedModelID (?pl t) = RT_PublishedModelID t" for t by (rule placed_keeps, simp)+
  have pos: "\<exists>i<length ids. RT_ID t = ids ! i \<and> RT_Position (?pl t) = int i" if t: "t \<in> set (db_targets db)" "?mine t" for t
  proof -
    from t ids have "RT_ID t \<in> set ids" by blast
    then obtain i where i: "i < length ids" "ids ! i = RT_ID t" by (auto simp: in_set_conv_nth)
    with placed_nth [of RT_ID ?put ?mine ids i t 0] d t(2) show ?thesis by auto
  qed
  let ?rows = "filter ?mine (db_targets db')"
  have rows: "?rows = map ?pl (filter ?mine (db_targets db))" by (simp add: db' ts filter_map comp_def k)
  define tn where "tn i = target_named db i" for i
  have tn: "tn i \<in> set (db_targets db)" "?mine (tn i)" "RT_ID (tn i) = i" if "i \<in> set ids" for i
  proof -
    from that ids obtain x where x: "x \<in> set (db_targets db)" "?mine x" "RT_ID x = i" by auto
    then have "row_by RT_ID i (db_targets db) = Some x" by (simp add: row_by_eq_Some [OF u])
    with x show "tn i \<in> set (db_targets db)" "?mine (tn i)" "RT_ID (tn i) = i" by (simp_all add: tn_def target_named_def)
  qed
  let ?ys = "map (\<lambda>i. ?pl (tn i)) ids"
  have ids_ys: "map RT_ID ?ys = ids" by (simp add: k comp_def tn cong: map_cong)
  have pos_ys: "RT_Position (?pl (tn (ids ! j))) = int j" if "j < length ids" for j
  proof -
    have "ids ! j \<in> set ids" using that by simp
    from pos [OF tn(1,2) [OF this]] tn(3) [OF this] d that show ?thesis by (auto simp: nth_eq_iff_index_eq)
  qed
  have dy: "distinct ?ys" by (rule distinct_map_key [OF ids_ys d])
  have dr: "distinct ?rows" using wf w' by (simp add: site_wf_def keys_ok_def ids_ok_def unique_key_def distinct_map)
  have "set ?rows = set ?ys"
  proof
    show "set ?ys \<subseteq> set ?rows" using tn unfolding rows by auto
    show "set ?rows \<subseteq> set ?ys"
    proof
      fix y assume "y \<in> set ?rows"
      then obtain x where x: "x \<in> set (db_targets db)" "?mine x" "y = ?pl x" unfolding rows by auto
      then have i: "RT_ID x \<in> set ids" using ids by auto
      from unique_key_D [OF u x(1) tn(1) [OF i]] tn(3) [OF i] have "x = tn (RT_ID x)" by simp
      then have "y = ?pl (tn (RT_ID x))" using x(3) by metis
      then show "y \<in> set ?ys" unfolding set_map by (rule image_eqI [OF _ i])
    qed
  qed
  then have ms: "mset ?rows = mset ?ys" using dr dy by (simp only: set_eq_iff_mset_eq_distinct)
  have "unique_key (\<lambda>t. (RT_PublishedModelID t, RT_Position t)) (db_targets db')" using w' by (simp add: site_wf_def routes_ok_def)
  then have inj: "inj_on RT_Position (set ?rows)" by (intro inj_onI) (auto dest: unique_key_D)
  have "sorted (map RT_Position ?ys)"
  proof -
    have "map RT_Position ?ys = map int [0..<length ids]"
      by (rule nth_equalityI) (simp_all add: pos_ys)
    then show ?thesis by (simp add: sorted_wrt_map)
  qed
  from sort_key_inj_key_eq [OF ms inj this] have dt: "default_targets model db' = ?ys"
    unfolding default_targets_order [OF w'] .
  have other: "default_targets other db' = default_targets other db" if "other \<noteq> model" for other
  proof -
    have "?pl t = t" if "RT_PublishedModelID t = other" for t
      by (rule placed_other) (use that \<open>other \<noteq> model\<close> in simp)
    then have "filter (\<lambda>t. RT_PublishedModelID t = other) (map ?pl (db_targets db)) = filter (\<lambda>t. RT_PublishedModelID t = other) (db_targets db)"
      by (intro filter_map_id) (simp_all add: k)
    then show ?thesis by (simp add: default_targets_def db' ts)
  qed
  have "set ids = RT_ID ` set (default_targets model db)" by (simp add: default_targets_def ids)
  with dt ids_ys other rev show ?thesis by auto
qed

theorem reorder_exact_witness:
  "(case reorder_route_site_targets 7 1 3 [2, 1] example_site_db of
      Inl _ \<Rightarrow> False
    | Inr db' \<Rightarrow> map RT_ID (default_targets 1 example_site_db) = [1, 2] \<and> map RT_ID (default_targets 1 db') = [2, 1])"
proof -
  have run: "is_ok (reorder_route_site_targets 7 1 3 [2, 1] example_site_db)" "map RT_ID (default_targets 1 example_site_db) = [1, 2]"
    unfolding example_site_db_def by code_simp+
  then obtain db' where r: "reorder_route_site_targets 7 1 3 [2, 1] example_site_db = Inr db'" by (auto simp: is_ok_iff)
  show ?thesis using run reorder_exact [OF example_reachable r] unfolding r by simp
qed

lemma map_filter_ids:
  "(\<And>i. i \<in> set is \<Longrightarrow> \<exists>v. f (g i) = Some v \<and> h v = i) \<Longrightarrow> map h (List.map_filter f (map g is)) = is"
proof (induction "is")
  case Nil
  then show ?case by (simp add: List.map_filter_def)
next
  case (Cons i "is")
  from Cons.prems [of i] obtain v where "f (g i) = Some v" "h v = i" by auto
  with Cons.IH Cons.prems show ?case by (simp add: List.map_filter_def)
qed

text \<open>
  \<^bold>\<open>C30.\<close> What is set as a profile's override is what is read back: the effective route of the model is
  the given targets in the given order and no longer inherited; clearing the override brings the
  default order back. Overrides of other models and profiles stay as they were.
\<close>

theorem override_roundtrip:
  assumes reach: "site_reachable db"
    and s: "set_routing_profile_model_targets clock profile model expected ids db = Inr db'"
  shows "(\<exists>route. get_routing_profile_model_route profile model db' = Inr route \<and> \<not> PR_InheritsDefault route \<and>
      map (\<lambda>v. RT_ID (RV_Target v)) (PR_Targets route) = ids \<and>
      (\<exists>db''. clear_routing_profile_model_targets clock profile model (PR_ProfileRevision route) db' = Inr db'' \<and>
        override_targets profile model db'' = [] \<and> default_targets model db'' = default_targets model db)) \<and>
    (\<forall>p m. (p, m) \<noteq> (profile, model) \<longrightarrow> override_targets p m db' = override_targets p m db)"
proof -
  have wf: "site_wf db" using site_reachable_invariant [OF reach, of "\<lambda>_. True"] by simp
  have w': "site_wf db'" by (rule set_override_wf [OF wf s])
  from set_override_InrD [OF wf s] obtain db1 p where b: "bump_routing_profile_revision_tx profile expected clock db = Inr db1"
    and w1: "site_wf db1" and db': "db' = (clear_overrides profile model db1)\<lparr>db_overrides := db_overrides (clear_overrides profile model db1) @
      override_rows profile model clock 0 ids\<rparr>" and ne: "ids \<noteq> []" and d: "distinct ids"
    and p: "row_by RP_ID profile (db_profiles db1) = Some p" and m: "row_by PM_ID model (db_published db1) \<noteq> None"
    and hit: "\<forall>i\<in>set ids. \<exists>t\<in>set (db_targets db1). RT_ID t = i \<and> RT_PublishedModelID t = model" by blast
  from b obtain pt where db1: "db1 = db\<lparr>db_profiles := pt\<rparr>" by (auto simp: bump_routing_profile_revision_tx_def)
  let ?new = "override_rows profile model clock 0 ids"
  have ovs: "db_overrides db' = filter (\<lambda>ov. \<not> (OV_ProfileID ov = profile \<and> OV_ModelID ov = model)) (db_overrides db) @ ?new"
    by (simp add: db' db1 clear_overrides_def)
  have same: "db_targets db' = db_targets db" "db_profiles db' = db_profiles db1" "db_published db' = db_published db1"
    by (simp_all add: db' db1 clear_overrides_def)
  have new_all: "OV_ProfileID ov = profile \<and> OV_ModelID ov = model" if "ov \<in> set ?new" for ov
    using that by (auto simp: override_rows_nth)
  have mine: "filter (\<lambda>ov. OV_ProfileID ov = profile \<and> OV_ModelID ov = model) (db_overrides db') = ?new"
    unfolding ovs using new_all by (simp add: filter_empty_conv filter_id_conv)
  have sorted: "sort_key OV_Position ?new = ?new"
    by (rule sort_key_id_if_sorted) (simp add: override_rows_nth comp_def sorted_wrt_map)
  have order: "override_targets profile model db' = map (\<lambda>i. target_named db' i) ids"
    unfolding override_targets_order [OF w'] mine sorted
    by (simp add: override_rows_nth comp_def) (rule nth_equalityI, simp_all)
  have tn: "target_named db' i \<in> set (db_targets db')" "RT_ID (target_named db' i) = i" if "i \<in> set ids" for i
  proof -
    have u: "unique_key RT_ID (db_targets db')" using w' by (simp add: site_wf_def keys_ok_def ids_ok_def)
    from hit that same(1) db1 obtain t where t: "t \<in> set (db_targets db')" "RT_ID t = i" by auto
    then have "row_by RT_ID i (db_targets db') = Some t" by (simp add: row_by_eq_Some [OF u])
    with t show "target_named db' i \<in> set (db_targets db')" "RT_ID (target_named db' i) = i" by (simp_all add: target_named_def)
  qed
  have view: "\<exists>v. route_view db' (target_named db' i) = Some v \<and> RT_ID (RV_Target v) = i" if "i \<in> set ids" for i
    using joined_wf [OF w' tn(1) [OF that]] tn(2) [OF that] by (auto simp: route_view_def)
  have views: "map (\<lambda>v. RT_ID (RV_Target v)) (List.map_filter (route_view db') (override_targets profile model db')) = ids"
    unfolding order using view by (intro map_filter_ids) simp
  define route where "route = \<lparr>PR_RoutingProfileID = profile, PR_PublishedModelID = model, PR_ProfileRevision = RP_Revision p,
    PR_InheritsDefault = False, PR_Targets = List.map_filter (route_view db') (override_targets profile model db')\<rparr>"
  have some: "List.map_filter (route_view db') (override_targets profile model db') \<noteq> []"
    using views ne by (metis list.map_disc_iff)
  have get: "get_routing_profile_model_route profile model db' = Inr route"
    using p m some by (simp add: get_routing_profile_model_route_def same route_def Let_def)
  have up: "unique_key RP_ID (db_profiles db')" using w' by (simp add: site_wf_def keys_ok_def ids_ok_def)
  have "\<exists>t. update_revisioned RP_ID RP_Revision profile (RP_Revision p)
      (\<lambda>p. p\<lparr>RP_Revision := RP_Revision p + 1, RP_UpdatedAt := clock\<rparr>) (db_profiles db') = Inr t"
    using p by (simp add: same update_revisioned_cases [OF up [unfolded same]] revision_matches_def)
  then obtain t where t: "update_revisioned RP_ID RP_Revision profile (RP_Revision p)
      (\<lambda>p. p\<lparr>RP_Revision := RP_Revision p + 1, RP_UpdatedAt := clock\<rparr>) (db_profiles db') = Inr t" by blast
  let ?gone = "clear_overrides profile model (db'\<lparr>db_profiles := t\<rparr>)"
  have clear: "clear_routing_profile_model_targets clock profile model (PR_ProfileRevision route) db' = Inr ?gone"
    using t m by (simp add: clear_routing_profile_model_targets_def bump_routing_profile_revision_tx_def route_def same)
  have "filter (\<lambda>ov. OV_ProfileID ov = profile \<and> OV_ModelID ov = model) (db_overrides ?gone) = []"
    by (simp add: clear_overrides_def filter_empty_conv)
  then have none: "override_targets profile model ?gone = []"
    unfolding override_targets_def by (simp only: list.map concat.simps slice_stable.simps)
  have default: "default_targets model ?gone = default_targets model db"
    by (simp add: default_targets_def clear_overrides_def same)
  have others: "override_targets q k db' = override_targets q k db" if "(q, k) \<noteq> (profile, model)" for q k
  proof -
    have "filter (\<lambda>ov. OV_ProfileID ov = q \<and> OV_ModelID ov = k) (db_overrides db') =
        filter (\<lambda>ov. OV_ProfileID ov = q \<and> OV_ModelID ov = k) (db_overrides db)"
      using that new_all by (auto simp: ovs filter_empty_conv intro!: filter_cong)
    then show ?thesis unfolding override_targets_def same(1) by (simp only:)
  qed
  show ?thesis
  proof (intro conjI allI impI)
    show "\<exists>route. get_routing_profile_model_route profile model db' = Inr route \<and> \<not> PR_InheritsDefault route \<and>
      map (\<lambda>v. RT_ID (RV_Target v)) (PR_Targets route) = ids \<and>
      (\<exists>db''. clear_routing_profile_model_targets clock profile model (PR_ProfileRevision route) db' = Inr db'' \<and>
        override_targets profile model db'' = [] \<and> default_targets model db'' = default_targets model db)"
      using get clear none default views by (intro exI [of _ route] conjI exI [of _ ?gone]) (simp_all add: route_def)
  qed (rule others)
qed

theorem override_roundtrip_witness:
  "(case set_routing_profile_model_targets 7 1 1 1 [2, 1] example_site_db of
      Inl _ \<Rightarrow> False
    | Inr db' \<Rightarrow> (\<exists>route. get_routing_profile_model_route 1 1 db' = Inr route \<and>
        map (\<lambda>v. RT_ID (RV_Target v)) (PR_Targets route) = [2, 1]))"
proof -
  have run: "is_ok (set_routing_profile_model_targets 7 1 1 1 [2, 1] example_site_db)"
    unfolding example_site_db_def by code_simp
  then obtain db' where r: "set_routing_profile_model_targets 7 1 1 1 [2, 1] example_site_db = Inr db'" by (auto simp: is_ok_iff)
  show ?thesis using override_roundtrip [OF example_reachable r] unfolding r by auto
qed

end
