(* ===== verification/SiteVersions.thy ===== *)
theory SiteVersions
  imports SiteProps
begin

text \<open>
  Optimistic editing. A site, a published model and a routing profile carry a revision, and an edit
  names the revision it was made on. \<open>versioned\<close> is what that relies on: IDs are not used again and
  no step lets a revision go back. Its client lemma, that an edit made on an old revision is refused
  for ever, is proved once and interpreted for the three tables.
\<close>

locale versioned =
  fixes ok :: "'s \<Rightarrow> bool"
    and step :: "'s \<Rightarrow> 's \<Rightarrow> bool"
    and revision :: "'s \<Rightarrow> int \<Rightarrow> int option"
    and counter :: "'s \<Rightarrow> int"
  assumes ok_step: "ok a \<Longrightarrow> step a b \<Longrightarrow> ok b"
    and counter_step: "ok a \<Longrightarrow> step a b \<Longrightarrow> counter a \<le> counter b"
    and revision_step: "ok a \<Longrightarrow> step a b \<Longrightarrow> revision b k = Some v \<Longrightarrow> k \<le> counter a \<Longrightarrow> \<exists>u. revision a k = Some u \<and> u \<le> v"
begin

text \<open>Once a revision has been left behind, it does not come back.\<close>

lemma left_behind:
  assumes "step\<^sup>*\<^sup>* a b" and "ok a" and "k \<le> counter a" and "\<And>u. revision a k = Some u \<Longrightarrow> v < u"
  shows "revision b k \<noteq> Some v"
proof -
  have "ok b \<and> k \<le> counter b \<and> (\<forall>u. revision b k = Some u \<longrightarrow> v < u)"
    using assms(1)
  proof (induction rule: rtranclp_induct)
    case base
    with assms show ?case by blast
  next
    case (step b c)
    then have ok: "ok b" and k: "k \<le> counter b" and r: "\<And>u. revision b k = Some u \<Longrightarrow> v < u" by blast+
    from counter_step [OF ok step.hyps(2)] k have "k \<le> counter c" by linarith
    moreover have "v < w" if "revision c k = Some w" for w
      using revision_step [OF ok step.hyps(2) that k] r by fastforce
    ultimately show ?case using ok_step [OF ok step.hyps(2)] by blast
  qed
  then show ?thesis by auto
qed

end

subsection \<open>Revisions only grow\<close>

definition rows_grow :: "('r \<Rightarrow> int) \<Rightarrow> ('r \<Rightarrow> int) \<Rightarrow> int \<Rightarrow> int \<Rightarrow> 'r list \<Rightarrow> 'r list \<Rightarrow> bool" where
  "rows_grow key rv sq sq' t t' \<longleftrightarrow> sq \<le> sq' \<and>
     (\<forall>r'\<in>set t'. sq < key r' \<or> (\<exists>r\<in>set t. key r = key r' \<and> rv r \<le> rv r'))"

lemma rows_grow_refl [simp]: "rows_grow key rv sq sq t t"
  by (auto simp: rows_grow_def)

lemma rows_grow_update:
  assumes g: "rows_grow key rv sq sq' t t'" and f: "\<And>r. key (f r) = key r" "\<And>r. rv r \<le> rv (f r)"
  shows "rows_grow key rv sq sq' t (fst (sql_update P f t'))"
proof -
  have "sq < key r' \<or> (\<exists>r\<in>set t. key r = key r' \<and> rv r \<le> rv r')" if r': "r' \<in> set (fst (sql_update P f t'))" for r'
  proof -
    from r' obtain x where x: "x \<in> set t'" "key x = key r'" "rv x \<le> rv r'"
      using f by (auto simp: sql_update_def split: if_splits)
    with g show ?thesis by (fastforce simp: rows_grow_def)
  qed
  with g show ?thesis by (simp add: rows_grow_def)
qed

lemma rows_grow_filter: "rows_grow key rv sq sq' t t' \<Longrightarrow> rows_grow key rv sq sq' t (filter P t')"
  by (simp add: rows_grow_def)

lemma rows_grow_append: "rows_grow key rv sq sq' t t' \<Longrightarrow> key r = sq' + 1 \<Longrightarrow> rows_grow key rv sq (sq' + 1) t (t' @ [r])"
  by (auto simp: rows_grow_def)

definition revisions_grow :: "site_db \<Rightarrow> site_db \<Rightarrow> bool" where
  "revisions_grow a b \<longleftrightarrow>
     rows_grow S_ID S_Revision (seq_sites a) (seq_sites b) (db_sites a) (db_sites b) \<and>
     rows_grow PM_ID PM_Revision (seq_published a) (seq_published b) (db_published a) (db_published b) \<and>
     rows_grow RP_ID RP_Revision (seq_profiles a) (seq_profiles b) (db_profiles a) (db_profiles b)"

lemma revisions_grow_refl [simp]: "revisions_grow a a"
  by (simp add: revisions_grow_def)

lemma revisions_grow_other [simp]:
  "revisions_grow a (db_endpoints_update u1 b) = revisions_grow a b" "revisions_grow a (db_credentials_update u2 b) = revisions_grow a b"
  "revisions_grow a (db_models_update u3 b) = revisions_grow a b" "revisions_grow a (db_access_update u4 b) = revisions_grow a b"
  "revisions_grow a (db_targets_update u5 b) = revisions_grow a b" "revisions_grow a (db_overrides_update u6 b) = revisions_grow a b"
  "revisions_grow a (seq_endpoints_update f b) = revisions_grow a b" "revisions_grow a (seq_credentials_update f b) = revisions_grow a b"
  "revisions_grow a (seq_models_update f b) = revisions_grow a b" "revisions_grow a (seq_targets_update f b) = revisions_grow a b"
  by (simp_all add: revisions_grow_def)

lemma revisions_grow_cascade [simp]:
  "revisions_grow a (cascade_targets gt b) = revisions_grow a b" "revisions_grow a (cascade_models gm b) = revisions_grow a b"
  "revisions_grow a (cascade_endpoints ge b) = revisions_grow a b" "revisions_grow a (cascade_credentials gc b) = revisions_grow a b"
  "revisions_grow a (cascade_site site b) = revisions_grow a b"
  by (simp_all add: cascade_targets_def cascade_models_def cascade_endpoints_def cascade_credentials_def cascade_site_def)

lemma grow_update:
  "revisions_grow a b \<Longrightarrow> (\<And>r. S_ID (f r) = S_ID r) \<Longrightarrow> (\<And>r. S_Revision r \<le> S_Revision (f r)) \<Longrightarrow>
    revisions_grow a (b\<lparr>db_sites := fst (sql_update P f (db_sites b))\<rparr>)"
  "revisions_grow a b \<Longrightarrow> (\<And>r. PM_ID (g r) = PM_ID r) \<Longrightarrow> (\<And>r. PM_Revision r \<le> PM_Revision (g r)) \<Longrightarrow>
    revisions_grow a (b\<lparr>db_published := fst (sql_update Q g (db_published b))\<rparr>)"
  "revisions_grow a b \<Longrightarrow> (\<And>r. RP_ID (h r) = RP_ID r) \<Longrightarrow> (\<And>r. RP_Revision r \<le> RP_Revision (h r)) \<Longrightarrow>
    revisions_grow a (b\<lparr>db_profiles := fst (sql_update R h (db_profiles b))\<rparr>)"
  by (simp_all add: revisions_grow_def rows_grow_update)

lemma grow_bump_where: "revisions_grow a b \<Longrightarrow> revisions_grow a (bump_published_where P now b)"
  unfolding bump_published_where_def by (rule grow_update(2)) simp_all

lemma grow_bumps:
  "bump_site_revision_tx site expected now b = Inr c \<Longrightarrow> revisions_grow a b \<Longrightarrow> revisions_grow a c"
  "bump_published_model_revision_tx model expected now b = Inr c \<Longrightarrow> revisions_grow a b \<Longrightarrow> revisions_grow a c"
  "bump_routing_profile_revision_tx profile expected now b = Inr c \<Longrightarrow> revisions_grow a b \<Longrightarrow> revisions_grow a c"
  by (auto simp: bump_site_revision_tx_def bump_published_model_revision_tx_def bump_routing_profile_revision_tx_def
      dest!: update_revisioned_InrD intro!: grow_update)

lemma delete_revisioned_sub: "delete_revisioned key rv row_id expected t = Inr t' \<Longrightarrow> \<exists>P. t' = filter P t"
  by (auto simp: delete_revisioned_def sql_delete_def Let_def split: sum.splits)

lemma grow_deletes:
  "revisions_grow a b \<Longrightarrow> delete_revisioned S_ID S_Revision i e (db_sites b) = Inr t1 \<Longrightarrow> revisions_grow a (b\<lparr>db_sites := t1\<rparr>)"
  "revisions_grow a b \<Longrightarrow> delete_revisioned RP_ID RP_Revision i e (db_profiles b) = Inr t2 \<Longrightarrow> revisions_grow a (b\<lparr>db_profiles := t2\<rparr>)"
  "revisions_grow a b \<Longrightarrow> revisions_grow a (cascade_published model b)"
  by (auto simp: revisions_grow_def cascade_published_def cascade_targets_def Let_def dest!: delete_revisioned_sub intro!: rows_grow_filter)

lemma grow_create:
  "create_site clock sw db = Inr (i, db') \<Longrightarrow> revisions_grow db db'"
  "create_published_model clock pw db = Inr (i, db') \<Longrightarrow> revisions_grow db db'"
  "create_routing_profile clock name db = Inr (i, db') \<Longrightarrow> revisions_grow db db'"
  by (auto simp: create_site_def create_published_model_def create_routing_profile_def revisions_grow_def published_columns_def Let_def
      split: if_splits intro!: rows_grow_append)

lemma grow_sites:
  "update_site clock site expected w db = Inr db' \<Longrightarrow> revisions_grow db db'"
  "delete_site clock site expected db = Inr db' \<Longrightarrow> revisions_grow db db'"
  by (auto simp: update_site_def delete_site_def bump_defs Let_def simp del: bump_published_fields
      dest!: update_constrained_InrD elim!: grow_deletes(1) [rotated] intro!: grow_update(1) grow_bump_where)

lemma grow_update_endpoint:
  assumes "update_inference_endpoint compact_json clock endpoint expected ew db = Inr db'"
  shows "revisions_grow db db'"
proof -
  from assms obtain w h where n: "normalize_endpoint_write compact_json ew = Inr (w, h)"
    unfolding update_inference_endpoint_def by (cases "normalize_endpoint_write compact_json ew") auto
  from assms n obtain current where "row_by E_ID endpoint (db_endpoints db) = Some current"
    unfolding update_inference_endpoint_def by (cases "row_by E_ID endpoint (db_endpoints db)") auto
  with assms n show ?thesis
    by (auto simp: update_inference_endpoint_def bump_defs Let_def split: if_splits intro!: grow_bump_where elim!: grow_bumps)
qed

lemma grow_upsert_model:
  assumes "upsert_site_model clock mw db = Inr (i, db')"
  shows "revisions_grow db db'"
proof -
  from assms obtain w where n: "normalize_site_model_write mw = Inr w"
    unfolding upsert_site_model_def by (cases "normalize_site_model_write mw") auto
  show ?thesis
    using assms n
    by (cases "model_named (MW_EndpointID w) (MW_ModelName w) db")
      (auto simp: upsert_site_model_def insert_site_model_def bump_defs Let_def split: if_splits intro!: grow_bump_where)
qed

lemma grow_endpoints:
  "create_inference_endpoint compact_json clock site expected ew db = Inr (i, db') \<Longrightarrow> revisions_grow db db'"
  "delete_inference_endpoint clock endpoint expected db = Inr db' \<Longrightarrow> revisions_grow db db'"
  "reorder_inference_endpoints clock site expected ids db = Inr db' \<Longrightarrow> revisions_grow db db'"
  by (auto simp: create_inference_endpoint_def delete_inference_endpoint_def
      reorder_inference_endpoints_def bump_defs Let_def split: if_splits prod.splits option.splits
      intro!: grow_bump_where elim!: grow_bumps)

lemma grow_credentials:
  "create_inference_credential clock site expected cw db = Inr (i, db') \<Longrightarrow> revisions_grow db db'"
  "update_inference_credential clock credential expected cu db = Inr db' \<Longrightarrow> revisions_grow db db'"
  "update_inference_credential_runtime redact clock credential cx db = Inr db' \<Longrightarrow> revisions_grow db db'"
  "delete_inference_credential clock credential expected db = Inr db' \<Longrightarrow> revisions_grow db db'"
  "reorder_inference_credentials clock site expected ids db = Inr db' \<Longrightarrow> revisions_grow db db'"
  by (auto simp: create_inference_credential_def update_inference_credential_def update_inference_credential_runtime_def
      delete_inference_credential_def reorder_inference_credentials_def Let_def split: if_splits option.splits elim!: grow_bumps)

lemma grow_models:
  "create_site_model clock mw db = Inr (i, db') \<Longrightarrow> revisions_grow db db'"
  "update_site_model clock model expected mw db = Inr db' \<Longrightarrow> revisions_grow db db'"
  "delete_site_model clock model expected db = Inr db' \<Longrightarrow> revisions_grow db db'"
  "upsert_credential_model_access clock aw db = Inr db' \<Longrightarrow> revisions_grow db db'"
  "delete_credential_model_access credential model db = Inr db' \<Longrightarrow> revisions_grow db db'"
  by (auto simp: create_site_model_def insert_site_model_def update_site_model_def delete_site_model_def
      upsert_credential_model_access_def delete_credential_model_access_def bump_defs Let_def split: if_splits option.splits prod.splits
      intro!: grow_bump_where)

lemma grow_published:
  "update_published_model clock model expected pw db = Inr db' \<Longrightarrow> revisions_grow db db'"
  "delete_published_model model expected db = Inr db' \<Longrightarrow> revisions_grow db db'"
  "create_route_site_target clock model expected tw db = Inr (i, db') \<Longrightarrow> revisions_grow db db'"
  "update_route_site_target clock target expected expected_published tw db = Inr db' \<Longrightarrow> revisions_grow db db'"
  "delete_route_site_target clock target expected expected_published db = Inr db' \<Longrightarrow> revisions_grow db db'"
  "reorder_route_site_targets clock model expected ids db = Inr db' \<Longrightarrow> revisions_grow db db'"
  by (auto simp: update_published_model_def delete_published_model_def create_route_site_target_def update_route_site_target_def
      delete_route_site_target_def reorder_route_site_targets_def published_columns_def Let_def split: if_splits option.splits
      dest!: update_constrained_InrD intro!: grow_update(2) grow_deletes(3) elim!: grow_bumps)

lemma grow_profiles:
  "update_routing_profile clock profile expected name db = Inr db' \<Longrightarrow> revisions_grow db db'"
  "delete_routing_profile profile expected db = Inr db' \<Longrightarrow> revisions_grow db db'"
  "set_routing_profile_model_targets clock profile model expected ids db = Inr db' \<Longrightarrow> revisions_grow db db'"
  "clear_routing_profile_model_targets clock profile model expected db = Inr db' \<Longrightarrow> revisions_grow db db'"
  by (auto simp: update_routing_profile_def delete_routing_profile_def set_routing_profile_model_targets_def
      clear_routing_profile_model_targets_def clear_overrides_def Let_def split: if_splits
      dest!: update_constrained_InrD intro!: grow_update(3) elim!: grow_bumps grow_deletes(2) [rotated])

lemma site_step_grows: "site_step a b \<Longrightarrow> revisions_grow a b"
  by (induction rule: site_step.induct)
    (erule grow_create grow_sites grow_update_endpoint grow_upsert_model grow_endpoints grow_credentials grow_models grow_published grow_profiles)+

text \<open>The revision of a row, by its ID.\<close>

definition revision_of :: "('r \<Rightarrow> int) \<Rightarrow> ('r \<Rightarrow> int) \<Rightarrow> 'r list \<Rightarrow> int \<Rightarrow> int option" where
  "revision_of key rv t k = map_option rv (row_by key k t)"

lemma grown_revision:
  assumes "unique_key key t" and "rows_grow key rv sq sq' t t'" and "revision_of key rv t' k = Some v" and "k \<le> sq"
  shows "\<exists>u. revision_of key rv t k = Some u \<and> u \<le> v"
proof -
  from assms(3) obtain r' where r': "r' \<in> set t'" "key r' = k" "rv r' = v"
    by (auto simp: revision_of_def dest: row_by_SomeD)
  with assms(2,4) obtain r where "r \<in> set t" "key r = k" "rv r \<le> v" by (fastforce simp: rows_grow_def)
  then show ?thesis by (auto simp: revision_of_def row_by_eq_Some [OF assms(1), THEN iffD2])
qed

lemma step_revisions:
  assumes "site_wf a" and "site_step a b"
  shows "seq_sites a \<le> seq_sites b" "seq_published a \<le> seq_published b" "seq_profiles a \<le> seq_profiles b"
    "revision_of S_ID S_Revision (db_sites b) k = Some v \<Longrightarrow> k \<le> seq_sites a \<Longrightarrow> \<exists>u. revision_of S_ID S_Revision (db_sites a) k = Some u \<and> u \<le> v"
    "revision_of PM_ID PM_Revision (db_published b) k = Some v \<Longrightarrow> k \<le> seq_published a \<Longrightarrow> \<exists>u. revision_of PM_ID PM_Revision (db_published a) k = Some u \<and> u \<le> v"
    "revision_of RP_ID RP_Revision (db_profiles b) k = Some v \<Longrightarrow> k \<le> seq_profiles a \<Longrightarrow> \<exists>u. revision_of RP_ID RP_Revision (db_profiles a) k = Some u \<and> u \<le> v"
proof -
  have u: "unique_key S_ID (db_sites a)" "unique_key PM_ID (db_published a)" "unique_key RP_ID (db_profiles a)"
    using assms(1) by (simp_all add: site_wf_def keys_ok_def ids_ok_def)
  note g = site_step_grows [OF assms(2), unfolded revisions_grow_def]
  show "seq_sites a \<le> seq_sites b" "seq_published a \<le> seq_published b" "seq_profiles a \<le> seq_profiles b"
    using g by (simp_all add: rows_grow_def)
  show "revision_of S_ID S_Revision (db_sites b) k = Some v \<Longrightarrow> k \<le> seq_sites a \<Longrightarrow> \<exists>u. revision_of S_ID S_Revision (db_sites a) k = Some u \<and> u \<le> v"
    using g grown_revision [OF u(1)] by blast
  show "revision_of PM_ID PM_Revision (db_published b) k = Some v \<Longrightarrow> k \<le> seq_published a \<Longrightarrow> \<exists>u. revision_of PM_ID PM_Revision (db_published a) k = Some u \<and> u \<le> v"
    using g grown_revision [OF u(2)] by blast
  show "revision_of RP_ID RP_Revision (db_profiles b) k = Some v \<Longrightarrow> k \<le> seq_profiles a \<Longrightarrow> \<exists>u. revision_of RP_ID RP_Revision (db_profiles a) k = Some u \<and> u \<le> v"
    using g grown_revision [OF u(3)] by blast
qed

interpretation site_versions: versioned site_wf site_step "\<lambda>db. revision_of S_ID S_Revision (db_sites db)" seq_sites
  by unfold_locales (blast intro: site_step_wf step_revisions)+

interpretation published_versions: versioned site_wf site_step "\<lambda>db. revision_of PM_ID PM_Revision (db_published db)" seq_published
  by unfold_locales (blast intro: site_step_wf step_revisions)+

interpretation profile_versions: versioned site_wf site_step "\<lambda>db. revision_of RP_ID RP_Revision (db_profiles db)" seq_profiles
  by unfold_locales (blast intro: site_step_wf step_revisions)+

subsection \<open>Edits made on a revision\<close>

datatype versioned_kind = VSite | VPublished | VProfile

text \<open>\<open>versioned_edit kind k v a b\<close>: an edit of object \<open>k\<close>, made on its revision \<open>v\<close>, took \<open>a\<close> to \<open>b\<close>.\<close>

inductive versioned_edit :: "versioned_kind \<Rightarrow> int \<Rightarrow> int \<Rightarrow> site_db \<Rightarrow> site_db \<Rightarrow> bool" where
  "update_site clock k v w a = Inr b \<Longrightarrow> versioned_edit VSite k v a b"
| "delete_site clock k v a = Inr b \<Longrightarrow> versioned_edit VSite k v a b"
| "create_inference_endpoint compact_json clock k v ew a = Inr (i, b) \<Longrightarrow> versioned_edit VSite k v a b"
| "reorder_inference_endpoints clock k v ids a = Inr b \<Longrightarrow> versioned_edit VSite k v a b"
| "create_inference_credential clock k v cw a = Inr (i, b) \<Longrightarrow> versioned_edit VSite k v a b"
| "reorder_inference_credentials clock k v ids a = Inr b \<Longrightarrow> versioned_edit VSite k v a b"
| "update_published_model clock k v pw a = Inr b \<Longrightarrow> versioned_edit VPublished k v a b"
| "delete_published_model k v a = Inr b \<Longrightarrow> versioned_edit VPublished k v a b"
| "create_route_site_target clock k v tw a = Inr (i, b) \<Longrightarrow> versioned_edit VPublished k v a b"
| "update_route_site_target clock target expected v tw a = Inr b \<Longrightarrow> row_by RT_ID target (db_targets a) = Some t \<Longrightarrow>
     RT_PublishedModelID t = k \<Longrightarrow> versioned_edit VPublished k v a b"
| "delete_route_site_target clock target expected v a = Inr b \<Longrightarrow> row_by RT_ID target (db_targets a) = Some t \<Longrightarrow>
     RT_PublishedModelID t = k \<Longrightarrow> versioned_edit VPublished k v a b"
| "reorder_route_site_targets clock k v ids a = Inr b \<Longrightarrow> versioned_edit VPublished k v a b"
| "update_routing_profile clock k v name a = Inr b \<Longrightarrow> versioned_edit VProfile k v a b"
| "delete_routing_profile k v a = Inr b \<Longrightarrow> versioned_edit VProfile k v a b"
| "set_routing_profile_model_targets clock k model v ids a = Inr b \<Longrightarrow> versioned_edit VProfile k v a b"
| "clear_routing_profile_model_targets clock k model v a = Inr b \<Longrightarrow> versioned_edit VProfile k v a b"

fun current_revision :: "versioned_kind \<Rightarrow> site_db \<Rightarrow> int \<Rightarrow> int option" where
  "current_revision VSite db = revision_of S_ID S_Revision (db_sites db)"
| "current_revision VPublished db = revision_of PM_ID PM_Revision (db_published db)"
| "current_revision VProfile db = revision_of RP_ID RP_Revision (db_profiles db)"

fun id_counter :: "versioned_kind \<Rightarrow> site_db \<Rightarrow> int" where
  "id_counter VSite db = seq_sites db"
| "id_counter VPublished db = seq_published db"
| "id_counter VProfile db = seq_profiles db"

text \<open>The guarded statement: it succeeds on the named revision only, and leaves it behind.\<close>

lemma guarded_update:
  assumes "unique_key key t" and "update_revisioned key rv k v f t = Inr t'" and "0 < v"
    and "\<And>r. key (f r) = key r" and "\<And>r. rv r < rv (f r)"
  shows "revision_of key rv t k = Some v \<and> (\<forall>u. revision_of key rv t' k = Some u \<longrightarrow> v < u)"
  using update_revisioned_ok [OF assms(1) assms(4) assms(2)] assms(3) assms(5)
  by (auto simp: revision_of_def revision_matches_def)

lemma guarded_constrained:
  assumes "unique_key key t" and "update_constrained key rv k v f P t = Inr t'" and "0 < v"
    and "\<And>r. key (f r) = key r" and "\<And>r. rv r < rv (f r)"
  shows "revision_of key rv t k = Some v \<and> (\<forall>u. revision_of key rv t' k = Some u \<longrightarrow> v < u)"
proof -
  have "update_revisioned key rv k v f t = Inr t'"
    using assms(2) by (auto simp: update_constrained_def split: option.splits if_splits)
  with assms guarded_update show ?thesis by blast
qed

lemma guarded_delete:
  assumes "unique_key key t" and "delete_revisioned key rv k v t = Inr t'" and "0 < v"
  shows "revision_of key rv t k = Some v \<and> revision_of key rv (filter (\<lambda>r. key r \<noteq> k) t) k = None"
  using delete_revisioned_ok [OF assms(1,2)] assms(3)
  by (auto simp: revision_of_def revision_matches_def row_by_None)

lemma guarded_bumps:
  assumes "site_wf db" and "0 < v"
  shows "bump_site_revision_tx k v now db = Inr db1 \<Longrightarrow>
      current_revision VSite db k = Some v \<and> (\<forall>u. current_revision VSite db1 k = Some u \<longrightarrow> v < u)"
    "bump_published_model_revision_tx k v now db = Inr db1 \<Longrightarrow>
      current_revision VPublished db k = Some v \<and> (\<forall>u. current_revision VPublished db1 k = Some u \<longrightarrow> v < u)"
    "bump_routing_profile_revision_tx k v now db = Inr db1 \<Longrightarrow>
      current_revision VProfile db k = Some v \<and> (\<forall>u. current_revision VProfile db1 k = Some u \<longrightarrow> v < u)"
proof -
  have u: "unique_key S_ID (db_sites db)" "unique_key PM_ID (db_published db)" "unique_key RP_ID (db_profiles db)"
    using assms(1) by (simp_all add: site_wf_def keys_ok_def ids_ok_def)
  show "bump_site_revision_tx k v now db = Inr db1 \<Longrightarrow>
      current_revision VSite db k = Some v \<and> (\<forall>u. current_revision VSite db1 k = Some u \<longrightarrow> v < u)"
    using guarded_update [OF u(1) _ assms(2)] by (auto simp: bump_site_revision_tx_def)
  show "bump_published_model_revision_tx k v now db = Inr db1 \<Longrightarrow>
      current_revision VPublished db k = Some v \<and> (\<forall>u. current_revision VPublished db1 k = Some u \<longrightarrow> v < u)"
    using guarded_update [OF u(2) _ assms(2)] by (auto simp: bump_published_model_revision_tx_def)
  show "bump_routing_profile_revision_tx k v now db = Inr db1 \<Longrightarrow>
      current_revision VProfile db k = Some v \<and> (\<forall>u. current_revision VProfile db1 k = Some u \<longrightarrow> v < u)"
    using guarded_update [OF u(3) _ assms(2)] by (auto simp: bump_routing_profile_revision_tx_def)
qed

definition moved_on :: "versioned_kind \<Rightarrow> int \<Rightarrow> int \<Rightarrow> site_db \<Rightarrow> site_db \<Rightarrow> bool" where
  "moved_on kind k v a b \<longleftrightarrow> current_revision kind a k = Some v \<and> (\<forall>u. current_revision kind b k = Some u \<longrightarrow> v < u)"

lemma moved_sites:
  assumes wf: "site_wf a" and v: "0 < v"
  shows "update_site clock k v w a = Inr b \<Longrightarrow> moved_on VSite k v a b"
    "delete_site clock k v a = Inr b \<Longrightarrow> moved_on VSite k v a b"
    "create_inference_endpoint compact_json clock k v ew a = Inr (i, b) \<Longrightarrow> moved_on VSite k v a b"
    "reorder_inference_endpoints clock k v ids a = Inr b \<Longrightarrow> moved_on VSite k v a b"
    "create_inference_credential clock k v cw a = Inr (i, b) \<Longrightarrow> moved_on VSite k v a b"
    "reorder_inference_credentials clock k v ids a = Inr b \<Longrightarrow> moved_on VSite k v a b"
proof -
  have u: "unique_key S_ID (db_sites a)" using wf by (simp add: site_wf_def keys_ok_def ids_ok_def)
  show "update_site clock k v w a = Inr b \<Longrightarrow> moved_on VSite k v a b"
    using guarded_constrained [OF u _ v] by (auto simp: update_site_def moved_on_def bump_defs Let_def)
  show "moved_on VSite k v a b" if d: "delete_site clock k v a = Inr b"
  proof -
    from d obtain t where t: "delete_revisioned S_ID S_Revision k v (db_sites a) = Inr t"
      and b: "db_sites b = t"
      by (auto simp: delete_site_def bump_defs Let_def cascade_site_def cascade_credentials_def)
    from delete_revisioned_ok [OF u t] have "t = filter (\<lambda>r. S_ID r \<noteq> k) (db_sites a)" by blast
    with guarded_delete [OF u t v] b show ?thesis by (simp add: moved_on_def)
  qed
  have g: "bump_site_revision_tx k v clock db1 = Inr b \<Longrightarrow> db_sites db1 = db_sites a \<Longrightarrow> moved_on VSite k v a b" for db1
    using guarded_update [OF u _ v] by (auto simp: bump_site_revision_tx_def moved_on_def)
  show "create_inference_endpoint compact_json clock k v ew a = Inr (i, b) \<Longrightarrow> moved_on VSite k v a b"
    "create_inference_credential clock k v cw a = Inr (i, b) \<Longrightarrow> moved_on VSite k v a b"
    by (auto simp: create_inference_endpoint_def create_inference_credential_def Let_def split: if_splits prod.splits elim!: g)
  show "reorder_inference_endpoints clock k v ids a = Inr b \<Longrightarrow> moved_on VSite k v a b"
    "reorder_inference_credentials clock k v ids a = Inr b \<Longrightarrow> moved_on VSite k v a b"
    using guarded_bumps(1) [OF wf v]
    by (auto simp: reorder_inference_endpoints_def reorder_inference_credentials_def moved_on_def)
qed

lemma moved_published:
  assumes wf: "site_wf a" and v: "0 < v"
  shows "update_published_model clock k v pw a = Inr b \<Longrightarrow> moved_on VPublished k v a b"
    "delete_published_model k v a = Inr b \<Longrightarrow> moved_on VPublished k v a b"
    "create_route_site_target clock k v tw a = Inr (i, b) \<Longrightarrow> moved_on VPublished k v a b"
    "update_route_site_target clock target expected v tw a = Inr b \<Longrightarrow> row_by RT_ID target (db_targets a) = Some t \<Longrightarrow>
       RT_PublishedModelID t = k \<Longrightarrow> moved_on VPublished k v a b"
    "delete_route_site_target clock target expected v a = Inr b \<Longrightarrow> row_by RT_ID target (db_targets a) = Some t \<Longrightarrow>
       RT_PublishedModelID t = k \<Longrightarrow> moved_on VPublished k v a b"
    "reorder_route_site_targets clock k v ids a = Inr b \<Longrightarrow> moved_on VPublished k v a b"
proof -
  have u: "unique_key PM_ID (db_published a)" using wf by (simp add: site_wf_def keys_ok_def ids_ok_def)
  note g = guarded_bumps(2) [OF wf v]
  show "update_published_model clock k v pw a = Inr b \<Longrightarrow> moved_on VPublished k v a b"
    using guarded_constrained [OF u _ v]
    by (fastforce simp: update_published_model_def moved_on_def published_columns_def split: option.splits)
  show "delete_published_model k v a = Inr b \<Longrightarrow> moved_on VPublished k v a b"
    using guarded_delete [OF u _ v]
    by (auto simp: delete_published_model_def moved_on_def cascade_published_def Let_def)
  show "create_route_site_target clock k v tw a = Inr (i, b) \<Longrightarrow> moved_on VPublished k v a b"
    using g by (auto simp: create_route_site_target_def moved_on_def Let_def split: if_splits)
  show "update_route_site_target clock target expected v tw a = Inr b \<Longrightarrow> row_by RT_ID target (db_targets a) = Some t \<Longrightarrow>
       RT_PublishedModelID t = k \<Longrightarrow> moved_on VPublished k v a b"
    using g by (auto simp: update_route_site_target_def moved_on_def split: if_splits)
  show "delete_route_site_target clock target expected v a = Inr b \<Longrightarrow> row_by RT_ID target (db_targets a) = Some t \<Longrightarrow>
       RT_PublishedModelID t = k \<Longrightarrow> moved_on VPublished k v a b"
    using g by (auto simp: delete_route_site_target_def moved_on_def)
  show "reorder_route_site_targets clock k v ids a = Inr b \<Longrightarrow> moved_on VPublished k v a b"
    using g by (auto simp: reorder_route_site_targets_def moved_on_def)
qed

lemma moved_profiles:
  assumes wf: "site_wf a" and v: "0 < v"
  shows "update_routing_profile clock k v name a = Inr b \<Longrightarrow> moved_on VProfile k v a b"
    "delete_routing_profile k v a = Inr b \<Longrightarrow> moved_on VProfile k v a b"
    "set_routing_profile_model_targets clock k model v ids a = Inr b \<Longrightarrow> moved_on VProfile k v a b"
    "clear_routing_profile_model_targets clock k model v a = Inr b \<Longrightarrow> moved_on VProfile k v a b"
proof -
  have u: "unique_key RP_ID (db_profiles a)" using wf by (simp add: site_wf_def keys_ok_def ids_ok_def)
  note g = guarded_bumps(3) [OF wf v]
  show "update_routing_profile clock k v name a = Inr b \<Longrightarrow> moved_on VProfile k v a b"
    using guarded_constrained [OF u _ v] by (auto simp: update_routing_profile_def moved_on_def)
  show "moved_on VProfile k v a b" if d: "delete_routing_profile k v a = Inr b"
  proof -
    from d obtain t where t: "delete_revisioned RP_ID RP_Revision k v (db_profiles a) = Inr t" and b: "db_profiles b = t"
      by (auto simp: delete_routing_profile_def)
    from delete_revisioned_ok [OF u t] have "t = filter (\<lambda>r. RP_ID r \<noteq> k) (db_profiles a)" by blast
    with guarded_delete [OF u t v] b show ?thesis by (simp add: moved_on_def)
  qed
  show "set_routing_profile_model_targets clock k model v ids a = Inr b \<Longrightarrow> moved_on VProfile k v a b"
    using g by (auto simp: set_routing_profile_model_targets_def clear_overrides_def moved_on_def Let_def split: if_splits)
  show "clear_routing_profile_model_targets clock k model v a = Inr b \<Longrightarrow> moved_on VProfile k v a b"
    using g by (auto simp: clear_routing_profile_model_targets_def clear_overrides_def moved_on_def split: if_splits)
qed

lemma edit_moves_on: "versioned_edit kind k v a b \<Longrightarrow> site_wf a \<Longrightarrow> 0 < v \<Longrightarrow> moved_on kind k v a b"
  by (induction rule: versioned_edit.induct) (blast intro: moved_sites moved_published moved_profiles)+

lemma versioned_edit_step: "versioned_edit kind k v a b \<Longrightarrow> site_step a b"
  by (induction rule: versioned_edit.induct) (erule site_step.intros)+

lemma revision_known: "site_wf a \<Longrightarrow> current_revision kind a k = Some v \<Longrightarrow> k \<le> id_counter kind a"
  by (cases kind) (auto simp: revision_of_def site_wf_def keys_ok_def ids_ok_def dest!: row_by_SomeD)

lemma revision_gone:
  assumes "site_step\<^sup>*\<^sup>* b c" and "site_wf b" and "k \<le> id_counter kind b" and "\<And>u. current_revision kind b k = Some u \<Longrightarrow> v < u"
  shows "current_revision kind c k \<noteq> Some v"
proof (cases kind)
  case VSite
  with assms site_versions.left_behind [OF assms(1,2), of k v] show ?thesis by simp
next
  case VPublished
  with assms published_versions.left_behind [OF assms(1,2), of k v] show ?thesis by simp
next
  case VProfile
  with assms profile_versions.left_behind [OF assms(1,2), of k v] show ?thesis by simp
qed

text \<open>
  \<^bold>\<open>C31.\<close> No edit is lost: of two edits of the same site, published model or routing profile that were
  made on the same revision, at most one succeeds, whatever the store does in between (other edits,
  discovery, deletions, new rows). A stale edit is never applied, not even to a row that was created
  after the one it was made on had been deleted.
\<close>

theorem no_lost_update:
  assumes "site_reachable a" and "0 < v" and "versioned_edit kind k v a b" and "site_step\<^sup>*\<^sup>* b c"
  shows "\<not> versioned_edit kind k v c d"
proof
  assume second: "versioned_edit kind k v c d"
  have wa: "site_wf a" using site_reachable_invariant [OF assms(1), of "\<lambda>_. True"] by simp
  have wb: "site_wf b" by (rule site_step_wf [OF versioned_edit_step [OF assms(3)] wa])
  have wc: "site_wf c" using assms(4) by (induction rule: rtranclp_induct) (use wb site_step_wf in auto)
  have m: "current_revision kind a k = Some v" "\<And>u. current_revision kind b k = Some u \<Longrightarrow> v < u"
    using edit_moves_on [OF assms(3) wa assms(2)] by (auto simp: moved_on_def)
  have "id_counter kind a \<le> id_counter kind b"
    using step_revisions(1-3) [OF wa versioned_edit_step [OF assms(3)]] by (cases kind) simp_all
  with revision_known [OF wa m(1)] have "k \<le> id_counter kind b" by linarith
  from revision_gone [OF assms(4) wb this m(2)] edit_moves_on [OF second wc assms(2)] show False
    by (simp add: moved_on_def)
qed



theorem no_lost_update_witness:
  "(case reorder_route_site_targets 7 1 3 [2, 1] example_site_db of
      Inl _ \<Rightarrow> False
    | Inr b \<Rightarrow> \<not> is_ok (reorder_route_site_targets 8 1 3 [1, 2] b))"
proof -
  have run: "is_ok (reorder_route_site_targets 7 1 3 [2, 1] example_site_db)"
    unfolding example_site_db_def by code_simp
  then obtain b where b: "reorder_route_site_targets 7 1 3 [2, 1] example_site_db = Inr b" by (auto simp: is_ok_iff)
  then have first: "versioned_edit VPublished 1 3 example_site_db b" by (rule versioned_edit.intros)
  have "\<not> versioned_edit VPublished 1 3 b d" for d
    by (rule no_lost_update [OF example_reachable _ first]) simp_all
  then show ?thesis unfolding b by (auto simp: is_ok_iff intro: versioned_edit.intros)
qed

end
