(* ===== verification/Stream.thy ===== *)
theory Stream
  imports Accounting Health "HOL-Library.Sublist"
begin

text \<open>
  The streaming and validating half of \<open>gateway/gateway.go\<close>: what counts as model output in a
  server-sent event, the checks on a complete response, and \<open>proxyDelayedStreamControlled\<close>, which
  holds an upstream's stream back until it has produced output and then passes it on.

  The decodings of \<open>encoding/json\<close> are the fields of the parameter \<open>json_codec\<close> (\<open>None\<close> is an
  error); a \<open>json.RawMessage\<close> is its bytes. The clock and the outcome of every write to the client
  are read from \<open>stream_env\<close>, indexed by the number of the line.
\<close>

subsection \<open>Decodings of encoding/json\<close>

record chat_message =
  CM_Content :: string
  CM_ReasoningContent :: string
  CM_Refusal :: string
  CM_ToolCalls :: "string list"
  CM_FunctionCall :: string

record chat_choice =
  CC_Message :: "chat_message option"
  CC_Text :: string

record chat_payload =
  CP_Error :: string
  CP_Choices :: "chat_choice list"

record responses_payload =
  RP_Error :: string
  RP_Status :: string
  RP_OutputText :: string
  RP_Output :: "string list"

record json_codec =
  JC_Object :: "string \<Rightarrow> (string \<times> json) list option"
  JC_String :: "string \<Rightarrow> string option"
  JC_Items :: "string \<Rightarrow> string list option"
  JC_RawObject :: "string \<Rightarrow> (string \<times> string) list option"
  JC_Chat :: "string \<Rightarrow> chat_payload option"
  JC_Responses :: "string \<Rightarrow> responses_payload option"
  JC_Usage :: "string \<Rightarrow> usage_envelope option"

subsection \<open>Checks on a complete response\<close>

definition non_null_json :: "string \<Rightarrow> bool" where
  "non_null_json raw = (let trimmed = trim_space raw in trimmed \<noteq> [] \<and> trimmed \<noteq> ''null'')"

definition semantic_json_value :: "json_codec \<Rightarrow> string \<Rightarrow> bool" where
  "semantic_json_value jc raw =
     (let trimmed = trim_space raw in
      if trimmed = [] \<or> trimmed = ''null'' then False
      else case JC_String jc trimmed of
        Some s \<Rightarrow> trim_space s \<noteq> []
      | None \<Rightarrow> (case JC_Items jc trimmed of Some items \<Rightarrow> items \<noteq> [] | None \<Rightarrow> False))"

definition non_empty_json_object :: "json_codec \<Rightarrow> string \<Rightarrow> bool" where
  "non_empty_json_object jc raw = (case JC_RawObject jc raw of Some m \<Rightarrow> m \<noteq> [] | None \<Rightarrow> False)"

definition semantic_choice :: "json_codec \<Rightarrow> chat_choice \<Rightarrow> bool" where
  "semantic_choice jc choice \<longleftrightarrow>
     semantic_json_value jc (CC_Text choice) \<or>
     (case CC_Message choice of None \<Rightarrow> False
      | Some m \<Rightarrow> semantic_json_value jc (CM_Content m) \<or> semantic_json_value jc (CM_ReasoningContent m) \<or>
          semantic_json_value jc (CM_Refusal m) \<or> CM_ToolCalls m \<noteq> [] \<or> non_empty_json_object jc (CM_FunctionCall m))"

text \<open>\<open>None\<close> is no error.\<close>

definition validate_chat_completion_response :: "json_codec \<Rightarrow> string \<Rightarrow> string option" where
  "validate_chat_completion_response jc body =
     (if trim_space body = [] then Some ''upstream returned an empty chat completion''
      else case JC_Chat jc body of
        None \<Rightarrow> Some ''upstream returned a non-JSON chat completion''
      | Some payload \<Rightarrow>
          if non_null_json (CP_Error payload)
          then Some ''upstream returned an error envelope with a success status''
          else if CP_Choices payload = [] then Some ''upstream chat completion did not contain choices''
          else if list_ex (semantic_choice jc) (CP_Choices payload) then None
          else Some ''upstream chat completion contained no semantic model output'')"

definition validate_responses_response :: "json_codec \<Rightarrow> string \<Rightarrow> string option" where
  "validate_responses_response jc body =
     (if trim_space body = [] then Some ''upstream returned an empty response''
      else case JC_Responses jc body of
        None \<Rightarrow> Some ''upstream returned a non-JSON response''
      | Some payload \<Rightarrow>
          if non_null_json (RP_Error payload)
          then Some ''upstream returned an error envelope with a success status''
          else if to_lower (trim_space (RP_Status payload)) \<in> set [''failed'', ''cancelled'', ''canceled'']
          then Some (''upstream response ended with status '' @ RP_Status payload)
          else if trim_space (RP_OutputText payload) \<noteq> [] \<or> RP_Output payload \<noteq> [] then None
          else Some ''upstream response did not contain semantic output'')"

subsection \<open>Server-sent events\<close>

definition trim_prefix :: "string \<Rightarrow> string \<Rightarrow> string" where
  "trim_prefix s p = (if has_prefix s p then drop (length p) s else s)"

definition sse_data :: "string \<Rightarrow> string option" where
  "sse_data line =
     (let trimmed = trim_space line in
      if \<not> has_prefix trimmed ''data:'' then None
      else let raw = trim_space (trim_prefix trimmed ''data:'') in
        if raw = [] \<or> raw = ''[DONE]'' then None else Some raw)"

abbreviation as_items :: "json option \<Rightarrow> json list" where
  "as_items v \<equiv> (case v of Some (JArray xs) \<Rightarrow> xs | _ \<Rightarrow> [])"

text \<open>A failed assertion to a map leaves the nil map, in which every lookup fails.\<close>

abbreviation as_map :: "json option \<Rightarrow> (string \<times> json) list" where
  "as_map v \<equiv> (case as_object v of Some m \<Rightarrow> m | None \<Rightarrow> [])"

definition semantic_delta_choice :: "json \<Rightarrow> bool" where
  "semantic_delta_choice raw_choice =
     (let delta = as_map (map_of (as_map (Some raw_choice)) ''delta'') in
      list_ex (\<lambda>k. as_string (map_of delta k) \<noteq> []) [''content'', ''reasoning_content'', ''refusal''] \<or>
      as_items (map_of delta ''tool_calls'') \<noteq> [] \<or> as_map (map_of delta ''function_call'') \<noteq> [])"

definition semantic_payload :: "(string \<times> json) list \<Rightarrow> bool" where
  "semantic_payload payload \<longleftrightarrow>
     as_string (map_of payload ''delta'') \<noteq> [] \<or> as_string (map_of payload ''output_text'') \<noteq> [] \<or>
     list_ex semantic_delta_choice (as_items (map_of payload ''choices'')) \<or>
     list_ex (\<lambda>k. as_string (map_of (as_map (map_of payload ''delta'')) k) \<noteq> []) [''text'', ''partial_json'']"

definition semantic_sse_line :: "json_codec \<Rightarrow> string \<Rightarrow> bool" where
  "semantic_sse_line jc line =
     (let trimmed = trim_space line in
      if trimmed = [] \<or> has_prefix trimmed '':'' \<or> trimmed = ''data: [DONE]'' then False
      else if \<not> has_prefix trimmed ''data:'' then False
      else let raw = trim_space (trim_prefix trimmed ''data:'') in
        if raw = [] then False
        else case JC_Object jc raw of None \<Rightarrow> False | Some payload \<Rightarrow> semantic_payload payload)"

subsection \<open>The response to the client\<close>

text \<open>\<open>Add\<close> of a header value: canonical keys, so appending to the values of the key.\<close>

fun header_add :: "http_header \<Rightarrow> string \<Rightarrow> string \<Rightarrow> http_header" where
  "header_add [] k v = [(k, [v])]"
| "header_add ((k', vs) # h) k v = (if k' = k then (k', vs @ [v]) # h else (k', vs) # header_add h k v)"

definition hop_by_hop :: "string list" where
  "hop_by_hop = [''connection'', ''keep-alive'', ''proxy-authenticate'', ''proxy-authorization'', ''te'', ''trailer'',
     ''transfer-encoding'', ''upgrade'', ''set-cookie'', ''content-length'']"

definition copy_response_headers :: "http_header \<Rightarrow> http_header \<Rightarrow> http_header" where
  "copy_response_headers dst src =
     fold (\<lambda>(key, vs) h. if to_lower key \<in> set hop_by_hop then h else fold (\<lambda>v h'. header_add h' key v) vs h) src dst"

text \<open>What the client has got: the status line and headers once sent, and the bytes of the body.\<close>

record client_response =
  W_Head :: "(int \<times> http_header) option"
  W_Body :: string

definition no_response :: client_response where
  "no_response = \<lparr>W_Head = None, W_Body = []\<rparr>"

subsection \<open>The stream\<close>

datatype read_end = Read_EOF | Read_Failed string

datatype read_error = Buffer_full | Ended read_end

text \<open>
  \<open>ReadSlice('\n')\<close> of a \<open>bufio.Reader\<close> of 64 KiB over the bytes the upstream sends before it
  ends: the slice, the error, and the bytes left. A body that reports its end with its last bytes
  is read as one that reports it after them.
\<close>

definition read_buffer :: int where
  "read_buffer = 65536"

definition keepalive_limit :: int where
  "keepalive_limit = 262144"

definition read_slice :: "string \<Rightarrow> read_end \<Rightarrow> string \<times> read_error option \<times> string" where
  "read_slice input upstream_end =
     (let line = takeWhile (\<lambda>c. c \<noteq> CHR 0x0A) input; rest = dropWhile (\<lambda>c. c \<noteq> CHR 0x0A) input in
      if rest \<noteq> [] \<and> int (length line) < read_buffer then (line @ [CHR 0x0A], None, tl rest)
      else if int (length line) \<ge> read_buffer then (take (nat read_buffer) input, Some Buffer_full, drop (nat read_buffer) input)
      else (input, Some (Ended upstream_end), []))"

datatype stream_error =
    Line_too_long | Too_much_keepalive | Ended_before_output | Stream_read_error string | Downstream_write_error

datatype watch_call = Watch_semantic_output | Watch_activity

record line_env =
  LE_ElapsedMS :: int
  LE_WriteOK :: bool

type_synonym stream_env = "nat \<Rightarrow> line_env"

record proxy_state =
  PX_Buffered :: string
  PX_Committed :: bool
  PX_FirstToken :: "int option"
  PX_Model :: string
  PX_Usage :: token_usage
  PX_Client :: client_response
  PX_Watch :: "watch_call list"

definition proxy_start :: "client_response \<Rightarrow> proxy_state" where
  "proxy_start w = \<lparr>PX_Buffered = [], PX_Committed = False, PX_FirstToken = None, PX_Model = [], PX_Usage = no_usage,
     PX_Client = w, PX_Watch = []\<rparr>"

definition observe_line :: "json_codec \<Rightarrow> string \<Rightarrow> proxy_state \<Rightarrow> proxy_state" where
  "observe_line jc line st =
     (case sse_data line of
        None \<Rightarrow> st
      | Some raw \<Rightarrow>
          let (model, candidate) = parse_usage (JC_Usage jc) raw [] in
          st\<lparr>PX_Model := (if model \<noteq> [] then model else PX_Model st),
             PX_Usage := (if usage_complete candidate then candidate else PX_Usage st)\<rparr>)"

text \<open>The body of the loop for a line that is not empty; \<open>Inl\<close> returns.\<close>

definition proxy_line ::
  "json_codec \<Rightarrow> int \<Rightarrow> http_header \<Rightarrow> line_env \<Rightarrow> string \<Rightarrow> proxy_state \<Rightarrow> (proxy_state \<times> stream_error) + proxy_state" where
  "proxy_line jc status headers le line st0 =
     (let st1 = observe_line jc line st0;
          st2 = (if PX_Committed st1 then st1 else st1\<lparr>PX_Buffered := PX_Buffered st1 @ line\<rparr>) in
      if \<not> PX_Committed st2 \<and> int (length (PX_Buffered st2)) > keepalive_limit
      then Inl (st2\<lparr>PX_FirstToken := None\<rparr>, Too_much_keepalive)
      else if \<not> PX_Committed st2 \<and> semantic_sse_line jc line
      then let w = PX_Client st2;
               w1 = w\<lparr>W_Head := Some (status, copy_response_headers [] headers)\<rparr>;
               st3 = st2\<lparr>PX_Watch := PX_Watch st2 @ [Watch_semantic_output], PX_FirstToken := Some (LE_ElapsedMS le),
                         PX_Client := w1, PX_Committed := True\<rparr>
           in if \<not> LE_WriteOK le then Inl (st3, Downstream_write_error)
              else Inr (st3\<lparr>PX_Client := w1\<lparr>W_Body := W_Body w1 @ PX_Buffered st2\<rparr>\<rparr>)
      else if PX_Committed st2
      then if \<not> LE_WriteOK le then Inl (st2, Downstream_write_error)
           else Inr (st2\<lparr>PX_Client := (PX_Client st2)\<lparr>W_Body := W_Body (PX_Client st2) @ line\<rparr>\<rparr>)
      else Inr st2)"

lemma split_at_newline:
  "dropWhile (\<lambda>c. c \<noteq> CHR 0x0A) input \<noteq> [] \<Longrightarrow>
     takeWhile (\<lambda>c. c \<noteq> CHR 0x0A) input @ CHR 0x0A # tl (dropWhile (\<lambda>c. c \<noteq> CHR 0x0A) input) = input"
  by (induction input) auto

lemma read_slice_parts:
  assumes "read_slice input e = (line, err, rest)"
  shows "line @ rest = input" and "err = None \<Longrightarrow> line \<noteq> []" and "err = Some (Ended e') \<Longrightarrow> rest = [] \<and> e' = e"
  using assms split_at_newline [of input]
  by (auto simp: read_slice_def Let_def split: if_splits)

text \<open>\<open>n\<close> counts the lines read; \<open>None\<close> is the nil error.\<close>

function proxy_loop ::
  "json_codec \<Rightarrow> int \<Rightarrow> http_header \<Rightarrow> stream_env \<Rightarrow> read_end \<Rightarrow> nat \<Rightarrow> string \<Rightarrow> proxy_state
    \<Rightarrow> proxy_state \<times> stream_error option" where
  "proxy_loop jc status headers env upstream_end n input st0 =
     (case read_slice input upstream_end of (line, err, rest) \<Rightarrow>
        let st = (if line \<noteq> [] \<and> PX_Committed st0 then st0\<lparr>PX_Watch := PX_Watch st0 @ [Watch_activity]\<rparr> else st0) in
        if err = Some Buffer_full then (st, Some Line_too_long)
        else case (if line = [] then Inr st else proxy_line jc status headers (env n) line st) of
          Inl (st', e) \<Rightarrow> (st', Some e)
        | Inr st' \<Rightarrow>
            (case err of
               None \<Rightarrow> proxy_loop jc status headers env upstream_end (Suc n) rest st'
             | Some (Ended Read_EOF) \<Rightarrow> (st', if PX_Committed st' then None else Some Ended_before_output)
             | Some (Ended (Read_Failed m)) \<Rightarrow> (st', Some (Stream_read_error m))
             | Some Buffer_full \<Rightarrow> (st', Some Line_too_long)))"
  by pat_completeness auto

lemma read_slice_shorter: "read_slice input e = (line, None, rest) \<Longrightarrow> length rest < length input"
  using read_slice_parts [of input e line None rest] by (cases line) auto

termination proxy_loop
  by (relation "measure (\<lambda>(jc, status, headers, env, e, n, input, st). length input)")
    (auto dest: read_slice_shorter [OF sym])

declare proxy_loop.simps [simp del]

definition proxy_delayed_stream_controlled ::
  "json_codec \<Rightarrow> int \<Rightarrow> http_header \<Rightarrow> stream_env \<Rightarrow> read_end \<Rightarrow> string \<Rightarrow> client_response
    \<Rightarrow> proxy_state \<times> stream_error option" where
  "proxy_delayed_stream_controlled jc status headers env upstream_end input w =
     proxy_loop jc status headers env upstream_end 0 input (proxy_start w)"

subsection \<open>What the client gets\<close>

text \<open>Nothing sent yet; or the upstream's status and headers, and these bytes.\<close>

definition held_back :: "client_response \<Rightarrow> proxy_state \<Rightarrow> bool" where
  "held_back w st \<longleftrightarrow> \<not> PX_Committed st \<and> PX_Client st = w \<and> PX_FirstToken st = None"

definition passed_on :: "int \<Rightarrow> http_header \<Rightarrow> client_response \<Rightarrow> string \<Rightarrow> proxy_state \<Rightarrow> bool" where
  "passed_on status headers w sent st \<longleftrightarrow> PX_Committed st \<and> PX_FirstToken st \<noteq> None \<and>
     PX_Client st = \<lparr>W_Head = Some (status, copy_response_headers [] headers), W_Body = W_Body w @ sent\<rparr>"

definition proxy_inv :: "int \<Rightarrow> http_header \<Rightarrow> client_response \<Rightarrow> string \<Rightarrow> proxy_state \<Rightarrow> bool" where
  "proxy_inv status headers w consumed st \<longleftrightarrow>
     held_back w st \<and> PX_Buffered st = consumed \<and> int (length consumed) \<le> keepalive_limit
     \<or> passed_on status headers w consumed st"

lemma observe_line_keeps [simp]:
  "PX_Buffered (observe_line jc line st) = PX_Buffered st" "PX_Committed (observe_line jc line st) = PX_Committed st"
  "PX_FirstToken (observe_line jc line st) = PX_FirstToken st" "PX_Client (observe_line jc line st) = PX_Client st"
  "PX_Watch (observe_line jc line st) = PX_Watch st"
  by (simp_all add: observe_line_def split: option.splits prod.splits)

lemma proxy_line_Inr:
  assumes "proxy_inv status headers w consumed st" and "proxy_line jc status headers le line st = Inr st'"
  shows "proxy_inv status headers w (consumed @ line) st' \<and>
    (PX_Committed st' \<longrightarrow> PX_Committed st \<or> semantic_sse_line jc line)"
  using assms by (auto simp: proxy_line_def Let_def proxy_inv_def held_back_def passed_on_def split: if_splits)

lemma proxy_line_Inl:
  assumes "proxy_inv status headers w consumed st" and "proxy_line jc status headers le line st = Inl (st', e)"
  shows "(e = Too_much_keepalive \<and> held_back w st' \<or>
     e = Downstream_write_error \<and> \<not> LE_WriteOK le \<and>
       (passed_on status headers w [] st' \<or> passed_on status headers w consumed st')) \<and>
    (PX_Committed st' \<longrightarrow> PX_Committed st \<or> semantic_sse_line jc line)"
  using assms by (auto simp: proxy_line_def Let_def proxy_inv_def held_back_def passed_on_def split: if_splits)

text \<open>How the proxy ends, for each error it can return.\<close>

definition stream_ended ::
  "int \<Rightarrow> http_header \<Rightarrow> client_response \<Rightarrow> read_end \<Rightarrow> string \<Rightarrow> proxy_state \<Rightarrow> stream_error option \<Rightarrow> bool" where
  "stream_ended status headers w upstream_end whole st err =
     (case err of
        None \<Rightarrow> upstream_end = Read_EOF \<and> passed_on status headers w whole st
      | Some Ended_before_output \<Rightarrow> upstream_end = Read_EOF \<and> held_back w st
      | Some Too_much_keepalive \<Rightarrow> held_back w st
      | Some (Stream_read_error m) \<Rightarrow>
          upstream_end = Read_Failed m \<and> (held_back w st \<or> passed_on status headers w whole st)
      | Some _ \<Rightarrow> held_back w st \<or> (\<exists>sent. prefix sent whole \<and> passed_on status headers w sent st))"

lemma stream_cut:
  assumes "held_back w st \<or> passed_on status headers w sent st" and "prefix sent whole"
  shows "stream_ended status headers w upstream_end whole st (Some Line_too_long)"
    and "stream_ended status headers w upstream_end whole st (Some Downstream_write_error)"
  using assms by (auto simp: stream_ended_def)

lemma proxy_inv_watch [simp]:
  "proxy_inv status headers w consumed (st\<lparr>PX_Watch := v\<rparr>) = proxy_inv status headers w consumed st"
  by (simp add: proxy_inv_def held_back_def passed_on_def)

lemma proxy_inv_cases: "proxy_inv status headers w consumed st \<Longrightarrow>
   held_back w st \<or> passed_on status headers w consumed st"
  by (auto simp: proxy_inv_def)

lemma committed_cases:
  "held_back w st \<Longrightarrow> \<not> PX_Committed st" "passed_on status headers w sent st \<Longrightarrow> PX_Committed st"
  by (simp_all add: held_back_def passed_on_def)

lemma proxy_loop_ends:
  assumes "proxy_inv status headers w consumed st0"
    and "proxy_loop jc status headers env upstream_end n input st0 = (st, err)"
  shows "stream_ended status headers w upstream_end (consumed @ input) st err"
  using assms
proof (induction jc status headers env upstream_end n input st0 arbitrary: consumed rule: proxy_loop.induct)
  case (1 jc status headers env upstream_end n input st0)
  obtain line e rest where slice: "read_slice input upstream_end = (line, e, rest)"
    by (cases "read_slice input upstream_end") auto
  note parts = read_slice_parts [OF slice]
  define st1 where "st1 = (if line \<noteq> [] \<and> PX_Committed st0 then st0\<lparr>PX_Watch := PX_Watch st0 @ [Watch_activity]\<rparr> else st0)"
  have inv1: "proxy_inv status headers w consumed st1"
    using "1.prems"(1) by (simp add: st1_def)
  have whole: "consumed @ line @ rest = consumed @ input"
    using parts(1) by simp
  note step = "1.prems"(2) [unfolded proxy_loop.simps [of jc status headers env upstream_end n input st0] slice prod.case Let_def
      st1_def [symmetric]]
  show ?case
  proof (cases "e = Some Buffer_full")
    case True
    then have "st = st1" "err = Some Line_too_long"
      using step by simp_all
    then show ?thesis
      using stream_cut [OF proxy_inv_cases [OF inv1]] by simp
  next
    case False
    define out where "out = (if line = [] then Inr st1 else proxy_line jc status headers (env n) line st1)"
    note step = step [folded out_def]
    show ?thesis
    proof (cases out)
      case (Inl p)
      then obtain st2 e2 where p: "out = Inl (st2, e2)" by (cases p) auto
      then have "proxy_line jc status headers (env n) line st1 = Inl (st2, e2)" by (simp add: out_def split: if_splits)
      note ends = proxy_line_Inl [OF inv1 this]
      have "st = st2" "err = Some e2"
        using p step False by simp_all
      with ends show ?thesis
        using stream_cut(2) [of w st2 status headers "[]" "consumed @ input"]
          stream_cut(2) [of w st2 status headers consumed "consumed @ input"]
        by (auto simp: stream_ended_def [of _ _ _ _ _ _ "Some Too_much_keepalive"])
    next
      case (Inr st2)
      have inv2: "proxy_inv status headers w (consumed @ line) st2"
        using proxy_line_Inr [OF inv1] Inr inv1 by (auto simp: out_def split: if_splits)
      show ?thesis
      proof (cases e)
        case None
        then have "proxy_loop jc status headers env upstream_end (Suc n) rest st2 = (st, err)"
          using step Inr by simp
        from "1.IH" [OF slice [symmetric] refl st1_def False Inr [unfolded out_def] None inv2 this]
        show ?thesis by (simp add: whole)
      next
        case (Some r)
        then obtain e' where e': "r = Ended e'" using False by (cases r) auto
        then show ?thesis
          using step Inr Some parts(3) [of e'] proxy_inv_cases [OF inv2] committed_cases parts(1)
          by (cases e') (auto simp: stream_ended_def)
      qed
    qed
  qed
qed

text \<open>The slices the proxy may read, one after another.\<close>

function stream_slices :: "string \<Rightarrow> string list" where
  "stream_slices input =
     (case read_slice input Read_EOF of (line, None, rest) \<Rightarrow> line # stream_slices rest | (line, Some _, _) \<Rightarrow> [line])"
  by pat_completeness auto

termination stream_slices
  by (relation "measure length") (auto dest: read_slice_shorter [OF sym])

declare stream_slices.simps [simp del]

lemma read_slice_end:
  "read_slice input e = (line, None, rest) \<Longrightarrow> read_slice input e' = (line, None, rest)"
  "read_slice input e = (line, Some (Ended x), rest) \<Longrightarrow> read_slice input e' = (line, Some (Ended e'), rest)"
  by (auto simp: read_slice_def Let_def split: if_splits)

lemma proxy_line_commits:
  assumes "proxy_line jc status headers le line st = Inr st'"
  shows "PX_Committed st' \<longleftrightarrow> PX_Committed st \<or> semantic_sse_line jc line"
  using assms by (auto simp: proxy_line_def Let_def split: if_splits)

lemma semantic_nonempty: "\<not> semantic_sse_line jc []"
proof -
  have "trim_space [] = []"
    using trim_space_length [of "[]"] by simp
  then show ?thesis by (simp add: semantic_sse_line_def)
qed

lemma proxy_loop_semantic:
  assumes "proxy_loop jc status headers env upstream_end n input st0 = (st, err)"
  shows "(PX_Committed st \<longrightarrow> PX_Committed st0 \<or> list_ex (semantic_sse_line jc) (stream_slices input)) \<and>
    (err = Some Ended_before_output \<longrightarrow> \<not> PX_Committed st0 \<and> \<not> list_ex (semantic_sse_line jc) (stream_slices input))"
  using assms
proof (induction jc status headers env upstream_end n input st0 rule: proxy_loop.induct)
  case (1 jc status headers env upstream_end n input st0)
  obtain line e rest where slice: "read_slice input upstream_end = (line, e, rest)"
    by (cases "read_slice input upstream_end") auto
  define st1 where "st1 = (if line \<noteq> [] \<and> PX_Committed st0 then st0\<lparr>PX_Watch := PX_Watch st0 @ [Watch_activity]\<rparr> else st0)"
  have same: "PX_Committed st1 = PX_Committed st0"
    by (simp add: st1_def)
  define out where "out = (if line = [] then Inr st1 else proxy_line jc status headers (env n) line st1)"
  note step = "1.prems" [unfolded proxy_loop.simps [of jc status headers env upstream_end n input st0] slice prod.case Let_def
      st1_def [symmetric], folded out_def]
  have slices: "stream_slices input = (case e of None \<Rightarrow> line # stream_slices rest | Some _ \<Rightarrow> [line])" if nb: "e \<noteq> Some Buffer_full"
  proof (cases e)
    case None
    then show ?thesis
      using read_slice_end(1) [of input upstream_end line rest Read_EOF] slice by (simp add: stream_slices.simps [of input])
  next
    case (Some r)
    then obtain x where "e = Some (Ended x)" using nb by (cases r) auto
    then show ?thesis
      using read_slice_end(2) [of input upstream_end line x rest Read_EOF] slice
      by (simp add: stream_slices.simps [of input])
  qed
  have out_line: "out = Inr st2 \<Longrightarrow> PX_Committed st2 \<longleftrightarrow> PX_Committed st0 \<or> semantic_sse_line jc line" for st2
    using proxy_line_commits same semantic_nonempty by (auto simp: out_def split: if_splits)
  have out_err: "out = Inl (st2, x) \<Longrightarrow> x \<noteq> Ended_before_output \<and>
      (PX_Committed st2 \<longrightarrow> PX_Committed st0 \<or> semantic_sse_line jc line)" for st2 x
    using same by (auto simp: out_def proxy_line_def Let_def split: if_splits)
  show ?case
  proof (cases "e = Some Buffer_full")
    case True
    then show ?thesis using step same by auto
  next
    case False
    note slices = slices [OF False]
    have member: "semantic_sse_line jc line \<Longrightarrow> list_ex (semantic_sse_line jc) (stream_slices input)"
      by (simp add: slices split: option.splits)
    show ?thesis
    proof (cases out)
      case (Inl p)
      then show ?thesis
        using step False out_err [of "fst p" "snd p"] member by (cases p) auto
    next
      case (Inr st2)
      show ?thesis
      proof (cases e)
        case None
        then have "proxy_loop jc status headers env upstream_end (Suc n) rest st2 = (st, err)"
          using step Inr by simp
        from "1.IH" [OF slice [symmetric] refl st1_def False Inr [unfolded out_def] None this]
        show ?thesis using out_line [OF Inr] None by (auto simp: slices)
      next
        case (Some r)
        then obtain e' where "r = Ended e'" using False by (cases r) auto
        then show ?thesis
          using step Inr Some out_line [OF Inr] by (cases e') (auto simp: slices split: if_splits)
      qed
    qed
  qed
qed

text \<open>
  \<^bold>\<open>C9.\<close> A stream reaches the client verbatim or not at all. Whatever the upstream sends, however
  it ends and whichever writes fail: until a line with model output arrives the client gets neither
  a status nor a byte, so another key or site can still be tried; from then on it has the upstream's status and
  headers and a prefix of the bytes the upstream sent. When the proxy reports success the
  upstream had ended regularly and every byte was delivered; when it reports a broken upstream, what
  was committed holds every byte received before the break; and a stream that ends without
  model output is reported as such.
\<close>

theorem stream_delivered_verbatim:
  assumes "proxy_delayed_stream_controlled jc status headers env upstream_end input no_response = (st, err)"
  shows "(if PX_Committed st
          then W_Head (PX_Client st) = Some (status, copy_response_headers [] headers) \<and>
               prefix (W_Body (PX_Client st)) input \<and> PX_FirstToken st \<noteq> None \<and>
               list_ex (semantic_sse_line jc) (stream_slices input)
          else PX_Client st = no_response \<and> PX_FirstToken st = None)
    \<and> (case err of
         None \<Rightarrow> PX_Committed st \<and> W_Body (PX_Client st) = input \<and> upstream_end = Read_EOF
       | Some Ended_before_output \<Rightarrow>
           \<not> PX_Committed st \<and> upstream_end = Read_EOF \<and> \<not> list_ex (semantic_sse_line jc) (stream_slices input)
       | Some (Stream_read_error m) \<Rightarrow>
           upstream_end = Read_Failed m \<and> (\<not> PX_Committed st \<or> W_Body (PX_Client st) = input)
       | Some Too_much_keepalive \<Rightarrow> \<not> PX_Committed st
       | Some _ \<Rightarrow> True)"
proof -
  let ?w = no_response
  have start: "proxy_inv status headers ?w [] (proxy_start ?w)"
    by (simp add: proxy_inv_def held_back_def proxy_start_def keepalive_limit_def)
  note loop = assms [unfolded proxy_delayed_stream_controlled_def]
  have ends: "stream_ended status headers ?w upstream_end input st err"
    using proxy_loop_ends [OF start loop] by simp
  have semantic: "PX_Committed st \<Longrightarrow> list_ex (semantic_sse_line jc) (stream_slices input)"
    "err = Some Ended_before_output \<Longrightarrow> \<not> list_ex (semantic_sse_line jc) (stream_slices input)"
    using proxy_loop_semantic [OF loop] by (auto simp: proxy_start_def)
  have "held_back ?w st \<or> (\<exists>sent. prefix sent input \<and> passed_on status headers ?w sent st)"
    using ends by (auto simp: stream_ended_def split: option.splits stream_error.splits)
  then show ?thesis
    using ends semantic
    by (auto simp: held_back_def passed_on_def stream_ended_def no_response_def
        split: option.splits stream_error.splits)
qed

text \<open>A comment, a line with output, a line without, and a failing write at the end.\<close>

definition demo_codec :: json_codec where
  "demo_codec = \<lparr>JC_Object = (\<lambda>s. if s = ''x'' then Some [(''output_text'', JString ''hi'')] else None),
     JC_String = (\<lambda>_. None), JC_Items = (\<lambda>_. None), JC_RawObject = (\<lambda>_. None), JC_Chat = (\<lambda>_. None),
     JC_Responses = (\<lambda>_. None), JC_Usage = (\<lambda>_. None)\<rparr>"

definition demo_stream :: string where
  "demo_stream = '': keep'' @ [CHR 0x0A] @ ''data: x'' @ [CHR 0x0A] @ ''data: y''"

definition demo_run :: "nat list \<Rightarrow> read_end \<Rightarrow> proxy_state \<times> stream_error option" where
  "demo_run failing upstream_end =
     proxy_delayed_stream_controlled demo_codec 200 [(''Content-Type'', [''text/event-stream'']), (''Te'', [''x''])]
       (\<lambda>n. \<lparr>LE_ElapsedMS = 7, LE_WriteOK = n \<notin> set failing\<rparr>) upstream_end demo_stream no_response"

lemma demo_run_ends:
  "snd (demo_run [] Read_EOF) = None" "snd (demo_run [2] Read_EOF) = Some Downstream_write_error"
  "snd (demo_run [] (Read_Failed ''reset'')) = Some (Stream_read_error ''reset'')"
  "PX_Committed (fst (demo_run [2] Read_EOF))" "PX_Committed (fst (demo_run [] (Read_Failed ''reset'')))"
  by code_simp+

theorem stream_delivered_verbatim_witness:
  "W_Body (PX_Client (fst (demo_run [] Read_EOF))) = demo_stream \<and>
   W_Head (PX_Client (fst (demo_run [] Read_EOF))) = Some (200, [(''Content-Type'', [''text/event-stream''])]) \<and>
   prefix (W_Body (PX_Client (fst (demo_run [2] Read_EOF)))) demo_stream \<and>
   W_Body (PX_Client (fst (demo_run [] (Read_Failed ''reset'')))) = demo_stream"
proof -
  have runs: "proxy_delayed_stream_controlled demo_codec 200 [(''Content-Type'', [''text/event-stream'']), (''Te'', [''x''])]
       (\<lambda>n. \<lparr>LE_ElapsedMS = 7, LE_WriteOK = n \<notin> set failing\<rparr>) upstream_end demo_stream no_response
     = (fst (demo_run failing upstream_end), snd (demo_run failing upstream_end))" for failing upstream_end
    by (simp add: demo_run_def)
  have headers: "copy_response_headers [] [(''Content-Type'', [''text/event-stream'']), (''Te'', [''x''])]
      = [(''Content-Type'', [''text/event-stream''])]"
    by code_simp
  show ?thesis
    using stream_delivered_verbatim [OF runs [of "[]" Read_EOF]] stream_delivered_verbatim [OF runs [of "[2]" Read_EOF]]
      stream_delivered_verbatim [OF runs [of "[]" "Read_Failed ''reset''"]]
    by (simp add: demo_run_ends headers)
qed

end
