(* ===== verification/Watchdog.thy ===== *)
theory Watchdog
  imports Prelude
begin

text \<open>
  \<open>gateway/stream_watchdog.go\<close>: the timer that cancels a streaming attempt which gives no first
  output or falls idle. What a method does under the mutex is one step. A timer made by
  \<open>time.AfterFunc\<close> that goes off starts \<open>expire\<close> in a goroutine of its own, which takes the mutex later,
  and calls \<open>cancel\<close> later still, after it has released the mutex: these are three steps, with other
  methods possible between them, and \<open>Reset\<close> and \<open>Stop\<close> do not take back a run that has been started.
  The callers pass a \<open>cancel\<close> that is not \<open>nil\<close>. Instants and timeouts are in nanoseconds.
\<close>

definition stream_timeout_first_output :: string where
  "stream_timeout_first_output = ''first_output''"

definition stream_timeout_idle :: string where
  "stream_timeout_idle = ''stream_idle''"

lemmas timeout_phases = stream_timeout_first_output_def stream_timeout_idle_def

text \<open>
  \<open>WD_Timer\<close> is when the armed timer goes off, \<open>WD_Started\<close> the number of runs of \<open>expire\<close> that
  wait for the mutex, \<open>WD_Cancelling\<close> the number of those that have released it and are about to call
  \<open>cancel\<close>, \<open>WD_Cancelled\<close> how often \<open>cancel\<close> has been called.
\<close>

record stream_watchdog =
  WD_Timer :: "int option"
  WD_IdleTimeout :: int
  WD_Phase :: string
  WD_Fired :: string
  WD_Stopped :: bool
  WD_Started :: nat
  WD_Cancelling :: nat
  WD_Cancelled :: nat

definition new_stream_watchdog :: "int \<Rightarrow> int \<Rightarrow> int \<Rightarrow> stream_watchdog" where
  "new_stream_watchdog now first_output_timeout idle_timeout =
     \<lparr>WD_Timer = Some (now + first_output_timeout), WD_IdleTimeout = idle_timeout,
      WD_Phase = stream_timeout_first_output, WD_Fired = [], WD_Stopped = False, WD_Started = 0,
      WD_Cancelling = 0, WD_Cancelled = 0\<rparr>"

definition semantic_output :: "int \<Rightarrow> stream_watchdog \<Rightarrow> stream_watchdog" where
  "semantic_output now w =
     (if WD_Stopped w \<or> WD_Fired w \<noteq> [] then w
      else w\<lparr>WD_Phase := stream_timeout_idle, WD_Timer := Some (now + WD_IdleTimeout w)\<rparr>)"

definition stream_activity :: "int \<Rightarrow> stream_watchdog \<Rightarrow> stream_watchdog" where
  "stream_activity now w =
     (if WD_Stopped w \<or> WD_Fired w \<noteq> [] \<or> WD_Phase w \<noteq> stream_timeout_idle then w
      else w\<lparr>WD_Timer := Some (now + WD_IdleTimeout w)\<rparr>)"

definition stop_watchdog :: "stream_watchdog \<Rightarrow> stream_watchdog \<times> string" where
  "stop_watchdog w = (w\<lparr>WD_Stopped := True, WD_Timer := None\<rparr>, WD_Fired w)"

text \<open>\<open>expire\<close> up to the release of the mutex, and its call of \<open>cancel\<close> after that.\<close>

definition expire :: "stream_watchdog \<Rightarrow> stream_watchdog" where
  "expire w =
     (if WD_Stopped w \<or> WD_Fired w \<noteq> [] then w
      else w\<lparr>WD_Fired := WD_Phase w, WD_Cancelling := WD_Cancelling w + 1\<rparr>)"

definition expire_cancels :: "stream_watchdog \<Rightarrow> stream_watchdog" where
  "expire_cancels w = w\<lparr>WD_Cancelling := WD_Cancelling w - 1, WD_Cancelled := WD_Cancelled w + 1\<rparr>"

text \<open>The runtime: time passes, and an armed timer whose time has come starts a run of \<open>expire\<close>.\<close>

definition timer_goes_off :: "stream_watchdog \<Rightarrow> stream_watchdog" where
  "timer_goes_off w = w\<lparr>WD_Timer := None, WD_Started := WD_Started w + 1\<rparr>"

inductive watchdog_step :: "int \<times> stream_watchdog \<Rightarrow> int \<times> stream_watchdog \<Rightarrow> bool" where
  time_passes: "now \<le> later \<Longrightarrow> watchdog_step (now, w) (later, w)"
| goes_off: "WD_Timer w = Some due \<Longrightarrow> due \<le> now \<Longrightarrow> watchdog_step (now, w) (now, timer_goes_off w)"
| expires: "WD_Started w = Suc k \<Longrightarrow> watchdog_step (now, w) (now, (expire w)\<lparr>WD_Started := k\<rparr>)"
| cancels: "0 < WD_Cancelling w \<Longrightarrow> watchdog_step (now, w) (now, expire_cancels w)"
| first_output: "watchdog_step (now, w) (now, semantic_output now w)"
| more_output: "watchdog_step (now, w) (now, stream_activity now w)"
| stops: "watchdog_step (now, w) (now, fst (stop_watchdog w))"

inductive watchdog_run :: "int \<Rightarrow> int \<Rightarrow> int \<Rightarrow> int \<times> stream_watchdog \<Rightarrow> bool"
  for start first_timeout idle_timeout where
  run_start: "watchdog_run start first_timeout idle_timeout (start, new_stream_watchdog start first_timeout idle_timeout)"
| run_step: "watchdog_run start first_timeout idle_timeout s \<Longrightarrow> watchdog_step s s' \<Longrightarrow>
    watchdog_run start first_timeout idle_timeout s'"

inductive_cases watchdog_stepE: "watchdog_step (now, w) s'"

text \<open>
  What holds of every reachable watchdog: one call of \<open>cancel\<close>, made or due, when it has fired and none before; before output, a run of
  \<open>expire\<close> has been started only after the first-output timeout, and nothing goes off once it is stopped.
\<close>

definition watchdog_inv :: "int \<Rightarrow> int \<times> stream_watchdog \<Rightarrow> bool" where
  "watchdog_inv deadline = (\<lambda>(now, w).
     (WD_Phase w = stream_timeout_first_output \<or> WD_Phase w = stream_timeout_idle) \<and>
     (WD_Fired w = [] \<and> WD_Cancelled w + WD_Cancelling w = 0 \<or>
        WD_Fired w = WD_Phase w \<and> WD_Cancelled w + WD_Cancelling w = 1) \<and>
     (WD_Phase w = stream_timeout_first_output \<longrightarrow>
        (WD_Timer w = None \<or> WD_Timer w = Some deadline) \<and> (0 < WD_Started w \<or> WD_Fired w \<noteq> [] \<longrightarrow> deadline \<le> now)) \<and>
     (WD_Stopped w \<longrightarrow> WD_Timer w = None))"

lemmas watchdog_ops = semantic_output_def stream_activity_def stop_watchdog_def expire_def expire_cancels_def
  timer_goes_off_def

lemma watchdog_inv_step:
  assumes "watchdog_step s s'" and "watchdog_inv deadline s"
  shows "watchdog_inv deadline s'"
  using assms by (induction rule: watchdog_step.induct) (auto simp: watchdog_inv_def watchdog_ops timeout_phases)

lemma watchdog_inv_run:
  assumes "watchdog_run start first_timeout idle_timeout s"
  shows "watchdog_inv (start + first_timeout) s"
  using assms
  by (induction rule: watchdog_run.induct)
    (auto simp: watchdog_inv_step, simp add: watchdog_inv_def new_stream_watchdog_def timeout_phases)

lemma watchdog_step_final:
  assumes "watchdog_step s s'" and "WD_Stopped (snd s) \<or> WD_Fired (snd s) \<noteq> []"
  shows "(WD_Stopped (snd s) \<longrightarrow> WD_Stopped (snd s')) \<and> WD_Fired (snd s') = WD_Fired (snd s) \<and>
    WD_Cancelled (snd s') + WD_Cancelling (snd s') = WD_Cancelled (snd s) + WD_Cancelling (snd s) \<and>
    WD_Cancelled (snd s) \<le> WD_Cancelled (snd s')"
  using assms by (induction rule: watchdog_step.induct) (auto simp: watchdog_ops)

lemma watchdog_final:
  assumes "watchdog_step\<^sup>*\<^sup>* s s'" and "WD_Stopped (snd s) \<or> WD_Fired (snd s) \<noteq> []"
  shows "(WD_Stopped (snd s) \<longrightarrow> WD_Stopped (snd s')) \<and> WD_Fired (snd s') = WD_Fired (snd s) \<and>
    WD_Cancelled (snd s') + WD_Cancelling (snd s') = WD_Cancelled (snd s) + WD_Cancelling (snd s) \<and>
    WD_Cancelled (snd s) \<le> WD_Cancelled (snd s')"
  using assms
proof (induction rule: rtranclp_induct)
  case (step y z)
  then have "WD_Stopped (snd y) \<or> WD_Fired (snd y) \<noteq> []" by auto
  from watchdog_step_final [OF step.hyps(2) this] step show ?case by auto
qed simp

text \<open>
  \<^bold>\<open>C10.\<close> The watchdog over every interleaving of its methods, its timer and its goroutines. As long as no
  timeout has been decided nobody cancels the attempt, and a decided timeout is exactly one call of \<open>cancel\<close>,
  made already or still due from the goroutine that decided it. A first-output timeout is decided only after
  the first-output time is over. What \<open>stop\<close> reports is final: if it reports no timeout the attempt is never
  cancelled afterwards, and if it reports one the only call that may still follow is the one that is due.
\<close>

theorem watchdog_verdict:
  assumes "watchdog_run start first_timeout idle_timeout (now, w)"
    and "watchdog_step\<^sup>*\<^sup>* (now, fst (stop_watchdog w)) (later, w')"
  shows "WD_Cancelled w + WD_Cancelling w = (if WD_Fired w = [] then 0 else 1) \<and>
    WD_Fired w \<in> {[], stream_timeout_first_output, stream_timeout_idle} \<and>
    (WD_Fired w \<noteq> stream_timeout_first_output \<or> start + first_timeout \<le> now) \<and>
    WD_Fired w' = snd (stop_watchdog w) \<and>
    WD_Cancelled w' + WD_Cancelling w' = (if snd (stop_watchdog w) = [] then 0 else 1) \<and>
    WD_Cancelled w \<le> WD_Cancelled w'"
  using watchdog_inv_run [OF assms(1)] watchdog_final [OF assms(2)]
  by (auto simp: watchdog_inv_def stop_watchdog_def timeout_phases)

theorem watchdog_verdict_witness:
  "let w = (expire (timer_goes_off (new_stream_watchdog 5 30 60)))\<lparr>WD_Started := 0\<rparr>;
       w' = expire_cancels (fst (stop_watchdog w))
   in WD_Fired w = stream_timeout_first_output \<and> WD_Cancelled w = 0 \<and> WD_Cancelling w = 1 \<and>
      WD_Fired w' = stream_timeout_first_output \<and> WD_Cancelled w' = 1 \<and> WD_Cancelling w' = 0"
proof -
  let ?fresh = "new_stream_watchdog 5 30 60"
  let ?w = "(expire (timer_goes_off ?fresh))\<lparr>WD_Started := 0\<rparr>"
  have "watchdog_run 5 30 60 (40, ?fresh)"
    by (rule run_step [OF run_start time_passes]) simp
  then have started: "watchdog_run 5 30 60 (40, timer_goes_off ?fresh)"
    by (rule run_step) (rule goes_off [of _ 35]; simp add: new_stream_watchdog_def)
  have "watchdog_step (40, timer_goes_off ?fresh) (40, ?w)"
    by (rule expires) (simp add: watchdog_ops new_stream_watchdog_def)
  with started have run: "watchdog_run 5 30 60 (40, ?w)"
    by (rule run_step)
  have "watchdog_step\<^sup>*\<^sup>* (40, fst (stop_watchdog ?w)) (40, expire_cancels (fst (stop_watchdog ?w)))"
    by (rule r_into_rtranclp) (rule cancels, simp add: watchdog_ops new_stream_watchdog_def timeout_phases)
  from watchdog_verdict [OF run this] show ?thesis
    by (simp add: watchdog_ops new_stream_watchdog_def timeout_phases Let_def)
qed

text \<open>
  The timer goes off at 30 s; before its goroutine gets the mutex the first output is reported,
  which sets the phase and arms the idle timer; the run that was already under way then finds the idle
  phase and cancels the stream at 30 s, as idle, though it has only just produced output.
\<close>

theorem stale_expiry_cancels_live_stream:
  "\<exists>w. watchdog_run 0 30 60 (30, w) \<and> WD_Fired w = stream_timeout_idle \<and> WD_Cancelled w = 1 \<and>
     WD_Timer w = Some (30 + 60)"
proof -
  let ?w0 = "new_stream_watchdog 0 30 60"
  let ?w1 = "timer_goes_off ?w0"
  let ?w2 = "semantic_output 30 ?w1"
  let ?w3 = "(expire ?w2)\<lparr>WD_Started := 0\<rparr>"
  let ?w4 = "expire_cancels ?w3"
  have "watchdog_run 0 30 60 (30, ?w0)"
    by (rule run_step [OF run_start time_passes]) simp
  then have "watchdog_run 0 30 60 (30, ?w1)"
    by (rule run_step) (rule goes_off [of _ 30]; simp add: new_stream_watchdog_def)
  then have "watchdog_run 0 30 60 (30, ?w2)"
    by (rule run_step) (rule first_output)
  then have "watchdog_run 0 30 60 (30, ?w3)"
    by (rule run_step) (rule expires; simp add: watchdog_ops new_stream_watchdog_def)
  then have "watchdog_run 0 30 60 (30, ?w4)"
    by (rule run_step) (rule cancels, simp add: watchdog_ops new_stream_watchdog_def)
  then show ?thesis
    by (intro exI [of _ ?w4]) (simp add: watchdog_ops new_stream_watchdog_def timeout_phases)
qed

end
