(* ===== verification/Failover.thy ===== *)
theory Failover
  imports Stream Watchdog SiteHealth Profiles
begin

text \<open>
  The failover loop of \<open>gateway/v3.go\<close>: one request for a published model is tried on the targets
  of its route in order, each with its keys in order, until one answers, while the outcome of every
  attempt is put on the site's circuit, on the key, on the attempt log and finally on the account.

  The state is the part of the database the loop writes (\<open>gateway_db\<close>: keys and requests, circuits, sites
  and keys, attempts) and what the client has got. The outside world is an argument: \<open>request_env\<close>
  says, for every site and every attempt by its number, what the clock reads, what the upstream does,
  and whether the request's deadline is over or the client gone. A store call under a context
  that is over fails; otherwise it fails only as the store's own operations do.
\<close>

subsection \<open>Attempts\<close>

record attempt_row =
  AT_RequestID :: string
  AT_Index :: int
  AT_Generation :: string
  AT_TargetID :: "int option"
  AT_UpstreamID :: "int option"
  AT_RouteSiteTargetID :: "int option"
  AT_SiteID :: "int option"
  AT_EndpointID :: "int option"
  AT_CredentialID :: "int option"
  AT_SiteModelID :: "int option"
  AT_UpstreamName :: string
  AT_SiteName :: string
  AT_EndpointName :: string
  AT_CredentialName :: string
  AT_UpstreamModel :: string
  AT_Status :: string
  AT_HTTPStatus :: "int option"
  AT_SwitchReason :: string
  AT_ErrorClass :: string
  AT_ErrorMessage :: string
  AT_LatencyMS :: "int option"
  AT_FirstTokenMS :: "int option"
  AT_CreatedAt :: int

record gateway_db =
  G_Quota :: quota_db
  G_Health :: site_health_db
  G_Site :: site_db
  G_Attempts :: "attempt_row list"

text \<open>
  The foreign keys into the site tables; \<open>target_id\<close> and \<open>upstream_id\<close> point into the legacy
  tables, which are outside this state.
\<close>

definition refers :: "int option \<Rightarrow> ('r \<Rightarrow> int) \<Rightarrow> 'r list \<Rightarrow> bool" where
  "refers v key t = (case v of None \<Rightarrow> True | Some i \<Rightarrow> row_by key i t \<noteq> None)"

definition attempt_refs_ok :: "attempt_row \<Rightarrow> gateway_db \<Rightarrow> bool" where
  "attempt_refs_ok item db \<longleftrightarrow> row_by RL_ID (AT_RequestID item) (requests (G_Quota db)) \<noteq> None \<and>
     refers (AT_RouteSiteTargetID item) RT_ID (db_targets (G_Site db)) \<and> refers (AT_SiteID item) S_ID (db_sites (G_Site db)) \<and>
     refers (AT_EndpointID item) E_ID (db_endpoints (G_Site db)) \<and>
     refers (AT_CredentialID item) CR_ID (db_credentials (G_Site db)) \<and>
     refers (AT_SiteModelID item) SM_ID (db_models (G_Site db))"

definition add_request_attempt ::
  "(string \<Rightarrow> string) \<Rightarrow> attempt_row \<Rightarrow> gateway_db \<Rightarrow> (store_error, gateway_db) result" where
  "add_request_attempt redact item db =
     (let generation = with_default ''legacy'' (to_lower (trim_space (AT_Generation item))) in
      if generation \<noteq> ''legacy'' \<and> generation \<noteq> ''v3''
      then Inl (ErrText ''request attempt routing generation must be legacy or v3'')
      else if \<not> attempt_refs_ok item db \<or>
              list_ex (\<lambda>a. AT_RequestID a = AT_RequestID item \<and> AT_Index a = AT_Index item) (G_Attempts db)
      then Inl ErrConstraint
      else Inr (db\<lparr>G_Attempts := G_Attempts db @
             [item\<lparr>AT_Generation := generation, AT_ErrorMessage := redact (AT_ErrorMessage item)\<rparr>]\<rparr>))"

subsection \<open>The configuration and the outside world\<close>

text \<open>\<open>inferenceSurface\<close>; \<open>SF_BuildResolved\<close> gives the error of building the upstream request.\<close>

record inference_surface =
  SF_Name :: string
  SF_ParseMeta :: "string \<Rightarrow> (meta_error, chat_meta) result"
  SF_BuildResolved :: "resolved_target \<Rightarrow> credential_row \<Rightarrow> string \<Rightarrow> string option"
  SF_ValidateResponse :: "string \<Rightarrow> string option"

text \<open>
  The parts of a gateway: the price catalogue, and the library functions its code calls. \<open>GW_ErrorJSON\<close>
  encodes the message and code of \<open>writeOpenAIError\<close>.
\<close>

record gateway =
  GW_ParseRat :: "string \<Rightarrow> rat option"
  GW_ParseDate :: "string \<Rightarrow> int option"
  GW_Billing :: "catalog option"
  GW_EncodeQuote :: "quote \<Rightarrow> string"
  GW_Redact :: "string \<Rightarrow> string"
  GW_ParseHTTPTime :: "string \<Rightarrow> int option"
  GW_Codec :: json_codec
  GW_ErrorJSON :: "string \<Rightarrow> string \<Rightarrow> string"
  GW_AccountingErrorText :: "accounting_error \<Rightarrow> string"

text \<open>What \<open>upstream.Do\<close> returns: an error, or the status, headers, body and how the body ends.\<close>

datatype upstream_result =
    Do_failed string
  | Do_response (do_status: int) (do_headers: "http_header option") (do_body: string) (do_end: read_end)

text \<open>
  An attempt: is the deadline over before it; when it starts; what the upstream does; how the proxied
  lines fare; the phase the watchdog reports; is the client gone after it; when its outcome is recorded.
\<close>

record attempt_env =
  AE_DeadlineOver :: bool
  AE_StartedMS :: int
  AE_Do :: upstream_result
  AE_Lines :: stream_env
  AE_TimeoutPhase :: string
  AE_ClientGone :: bool
  AE_NowNS :: int
  AE_LatencyMS :: int

record site_env =
  SE_DeadlineOver :: bool
  SE_NowMS :: int
  SE_ClientGone :: bool
  SE_EndedMS :: int

record request_env =
  RE_ID :: string
  RE_PriceNow :: int
  RE_StartedMS :: int
  RE_Site :: "nat \<Rightarrow> site_env"
  RE_Attempt :: "nat \<Rightarrow> attempt_env"
  RE_Finish :: "int \<times> int"
  RE_DeferredFinish :: "int \<times> int"

abbreviation ns_to_ms :: "int \<Rightarrow> int" where
  "ns_to_ms t \<equiv> t div 1000000"

text \<open>The request as it comes to \<open>serveV3Inference\<close>.\<close>

record v3_request =
  V3_Key :: key_row
  V3_Meta :: chat_meta
  V3_Body :: string
  V3_Surface :: inference_surface
  V3_Route :: resolved_model

subsection \<open>Small functions of the loop\<close>

definition positive_or_default :: "int \<Rightarrow> int \<Rightarrow> int" where
  "positive_or_default value fallback = (if value > 0 then value else fallback)"

fun first_non_empty_string :: "string list \<Rightarrow> string" where
  "first_non_empty_string [] = []"
| "first_non_empty_string (v # vs) = (if trim_space v \<noteq> [] then trim_space v else first_non_empty_string vs)"

definition is_v3_credential_local :: "decision \<Rightarrow> bool" where
  "is_v3_credential_local d \<longleftrightarrow>
     (case Class d of ClassAuthInvalid \<Rightarrow> True | ClassPermissionDenied \<Rightarrow> True | ClassPaymentRequired \<Rightarrow> True
      | ClassRateLimited \<Rightarrow> True | _ \<Rightarrow> False)"

definition v3_credential_reason :: "decision \<Rightarrow> string" where
  "v3_credential_reason d =
     (case Class d of ClassAuthInvalid \<Rightarrow> ''credential_rejected'' | ClassPermissionDenied \<Rightarrow> ''credential_rejected''
      | ClassPaymentRequired \<Rightarrow> ''credential_exhausted'' | ClassRateLimited \<Rightarrow> ''credential_rate_limited''
      | _ \<Rightarrow> ''credential_failure'')"

definition v3_stream_timeout_message :: "string \<Rightarrow> string" where
  "v3_stream_timeout_message phase =
     (if phase = stream_timeout_idle then ''upstream stream exceeded the configured idle timeout''
      else ''upstream did not produce semantic output before the configured timeout'')"

definition v3_transport_error :: "string \<Rightarrow> string \<Rightarrow> string" where
  "v3_transport_error err phase = (if phase \<noteq> [] then v3_stream_timeout_message phase else err)"

definition v3_transport_reason :: "string \<Rightarrow> string" where
  "v3_transport_reason phase =
     (if phase = stream_timeout_first_output then ''site_first_output_timeout''
      else if phase = stream_timeout_idle then ''site_stream_idle_timeout''
      else ''site_transport_failure'')"

definition v3_stream_reason :: "string \<Rightarrow> string" where
  "v3_stream_reason phase = (if phase \<noteq> [] then v3_transport_reason phase else ''site_stream_interrupted'')"

definition compact_text :: "string \<Rightarrow> int \<Rightarrow> string" where
  "compact_text body mx =
     (let value = trim_space body in if int (length value) > mx then take (nat mx) value @ ''...'' else value)"

definition read_limit :: int where
  "read_limit = 16777216"

text \<open>\<open>readLimited(response.Body, 16<<20)\<close>, which stops reading at one byte over the limit\<close>

definition read_limited :: "string \<Rightarrow> read_end \<Rightarrow> (string, string) result" where
  "read_limited body upstream_end =
     (if int (length body) > read_limit then Inl ''upstream response exceeds 16777216 bytes''
      else case upstream_end of Read_EOF \<Rightarrow> Inr body | Read_Failed m \<Rightarrow> Inl m)"

text \<open>The text of the errors the proxy returns.\<close>

fun stream_error_text :: "stream_error \<Rightarrow> string" where
  "stream_error_text Line_too_long = ''upstream stream line exceeds 64 KiB''"
| "stream_error_text Too_much_keepalive = ''upstream stream produced too much keepalive data''"
| "stream_error_text Ended_before_output = ''upstream stream ended before semantic output''"
| "stream_error_text (Stream_read_error m) = m"
| "stream_error_text Downstream_write_error = ''downstream write failed''"

fun digits :: "nat \<Rightarrow> string" where
  "digits n = (if n < 10 then [char_of (48 + n)] else digits (n div 10) @ [char_of (48 + n mod 10)])"

text \<open>\<open>fmt.Sprintf("HTTP %d", status)\<close>\<close>

definition http_status_label :: "int \<Rightarrow> string" where
  "http_status_label status = ''HTTP '' @ (if status < 0 then ''-'' @ digits (nat (- status)) else digits (nat status))"

text \<open>An error that is only logged leaves the state as it was.\<close>

definition or_keep :: "'a \<Rightarrow> ('e, 'a) result \<Rightarrow> 'a" where
  "or_keep x r = (case r of Inl _ \<Rightarrow> x | Inr y \<Rightarrow> y)"

subsection \<open>The state of the loop\<close>

record v3_call =
  VC_Gateway :: gateway
  VC_Request :: v3_request
  VC_Env :: request_env
  VC_Account :: request_accounting

record v3_state =
  V_DB :: gateway_db
  V_Client :: client_response
  V_Attempts :: nat
  V_Sites :: nat
  V_LastStatus :: int
  V_LastBody :: string
  V_LastError :: string
  V_BuildFailures :: nat
  V_Pending :: finish_params
  V_Finalized :: bool

text \<open>\<open>continue\<close> of the inner and of the outer loop, \<open>break routeLoop\<close>, \<open>return\<close>.\<close>

datatype v3_control = Next_credential | Next_site | Break_loop | Returned

definition write_response :: "int \<Rightarrow> http_header \<Rightarrow> string \<Rightarrow> client_response \<Rightarrow> client_response" where
  "write_response status headers body w =
     w\<lparr>W_Head := (case W_Head w of None \<Rightarrow> Some (status, headers) | Some h \<Rightarrow> Some h), W_Body := W_Body w @ body\<rparr>"

definition write_openai_error :: "gateway \<Rightarrow> int \<Rightarrow> string \<Rightarrow> string \<Rightarrow> client_response \<Rightarrow> client_response" where
  "write_openai_error gw status message code w =
     write_response status [(''Content-Type'', [''application/json; charset=utf-8''])] (GW_ErrorJSON gw message code) w"

definition finish_of :: "string \<Rightarrow> string \<Rightarrow> int \<Rightarrow> int option \<Rightarrow> token_usage \<Rightarrow> string \<Rightarrow> bool \<Rightarrow> finish_params" where
  "finish_of model status http first_token tokens message charge =
     \<lparr>FP_model = model, FP_status = status, FP_http_status = http, FP_first_token = first_token, FP_tokens = tokens,
      FP_message = message, FP_charge = charge\<rparr>"

text \<open>\<open>g.finish\<close> on the keys and requests; the two clock readings are the duration and the end.\<close>

definition v3_finish :: "v3_call \<Rightarrow> int \<times> int \<Rightarrow> finish_params \<Rightarrow> gateway_db \<Rightarrow> (finish_error, gateway_db) result" where
  "v3_finish c clock params db =
     (let gw = VC_Gateway c in
      case gateway_finish (GW_ParseRat gw) (GW_EncodeQuote gw) (GW_Redact gw) (RE_ID (VC_Env c)) (fst clock) (snd clock)
             (VC_Account c) params (G_Quota db) of
        Inl e \<Rightarrow> Inl e | Inr q \<Rightarrow> Inr (db\<lparr>G_Quota := q\<rparr>))"

text \<open>\<open>finalize\<close>: the first component tells that it returned no error.\<close>

definition v3_finalize :: "v3_call \<Rightarrow> finish_params \<Rightarrow> v3_state \<Rightarrow> bool \<times> v3_state" where
  "v3_finalize c params st0 =
     (let st = st0\<lparr>V_Pending := params\<rparr> in
      case v3_finish c (RE_Finish (VC_Env c)) params (V_DB st) of
        Inl _ \<Rightarrow> (False, st) | Inr db \<Rightarrow> (True, st\<lparr>V_DB := db, V_Finalized := True\<rparr>))"

definition v3_deferred :: "v3_call \<Rightarrow> v3_state \<Rightarrow> v3_state" where
  "v3_deferred c st =
     (if V_Finalized st then st
      else st\<lparr>V_DB := or_keep (V_DB st) (v3_finish c (RE_DeferredFinish (VC_Env c)) (V_Pending st) (V_DB st))\<rparr>)"

subsection \<open>Recording outcomes\<close>

definition add_v3_attempt ::
  "v3_call \<Rightarrow> nat \<Rightarrow> resolved_target \<Rightarrow> credential_row \<Rightarrow> string \<Rightarrow> int \<Rightarrow> string \<Rightarrow> string \<Rightarrow> string \<Rightarrow> int option
    \<Rightarrow> gateway_db \<Rightarrow> gateway_db" where
  "add_v3_attempt c k target credential status http_status reason class_name message first_token db =
     (let ae = RE_Attempt (VC_Env c) k in
      or_keep db (add_request_attempt (GW_Redact (VC_Gateway c))
        \<lparr>AT_RequestID = RE_ID (VC_Env c), AT_Index = int k, AT_Generation = ''v3'', AT_TargetID = None,
         AT_UpstreamID = None, AT_RouteSiteTargetID = Some (RT_ID (RS_Target target)),
         AT_SiteID = Some (RT_SiteID (RS_Target target)), AT_EndpointID = Some (RT_EndpointID (RS_Target target)),
         AT_CredentialID = Some (CR_ID credential), AT_SiteModelID = Some (RT_SiteModelID (RS_Target target)),
         AT_UpstreamName = [], AT_SiteName = S_Name (RS_Site target), AT_EndpointName = E_Name (RS_Endpoint target),
         AT_CredentialName = CR_Name credential, AT_UpstreamModel = SM_ModelName (RS_Model target), AT_Status = status,
         AT_HTTPStatus = (if http_status > 0 then Some http_status else None), AT_SwitchReason = reason,
         AT_ErrorClass = class_name, AT_ErrorMessage = message, AT_LatencyMS = Some (AE_LatencyMS ae),
         AT_FirstTokenMS = first_token, AT_CreatedAt = AE_StartedMS ae\<rparr> db))"

text \<open>\<open>RecordRouteSiteTargetFailure\<close> under the client's context, with the request as the incident.\<close>

definition v3_site_failure ::
  "v3_call \<Rightarrow> bool \<Rightarrow> int \<Rightarrow> resolved_target \<Rightarrow> decision \<Rightarrow> string \<Rightarrow> int \<Rightarrow> gateway_db \<Rightarrow> gateway_db" where
  "v3_site_failure c client_gone now target d message retry_after db =
     (if client_gone then db
      else db\<lparr>G_Health := or_keep (G_Health db)
        (record_route_site_target_failure (GW_Redact (VC_Gateway c)) now (RT_ID (RS_Target target)) d
           (RE_ID (VC_Env c)) message now retry_after (G_Health db))\<rparr>)"

definition record_v3_success :: "v3_call \<Rightarrow> int \<Rightarrow> resolved_target \<Rightarrow> credential_row \<Rightarrow> gateway_db \<Rightarrow> gateway_db" where
  "record_v3_success c now target credential db0 =
     (let redact = GW_Redact (VC_Gateway c);
          db = db0\<lparr>G_Health := or_keep (G_Health db0)
                 (record_route_site_target_success redact now (RT_ID (RS_Target target)) now (G_Health db0))\<rparr>
      in if CR_RuntimeState credential \<noteq> ''active''
         then db\<lparr>G_Site := or_keep (G_Site db)
                (update_inference_credential_runtime redact now (CR_ID credential)
                   \<lparr>CX_RuntimeState = ''active'', CX_CooldownUntil = None, CX_LastTestAt = Some now,
                    CX_LastTestStatus = ''success'', CX_LastErrorMessage = []\<rparr> (G_Site db))\<rparr>
         else db)"

text \<open>The state a failure puts a key in, and until when (\<open>None\<close>: the failure is not the key's).\<close>

definition credential_failure_state :: "decision \<Rightarrow> int \<Rightarrow> (string \<times> int option) option" where
  "credential_failure_state d now_ns =
     (case Class d of
        ClassAuthInvalid \<Rightarrow> Some (''invalid'', None)
      | ClassPermissionDenied \<Rightarrow> Some (''invalid'', None)
      | ClassPaymentRequired \<Rightarrow> Some (''exhausted'', None)
      | ClassRateLimited \<Rightarrow>
          Some (''rate_limited'', Some (ns_to_ms (now_ns + (if RetryAfter d < minute then minute else RetryAfter d))))
      | _ \<Rightarrow> None)"

definition record_v3_credential_failure ::
  "v3_call \<Rightarrow> int \<Rightarrow> credential_row \<Rightarrow> decision \<Rightarrow> int \<Rightarrow> string \<Rightarrow> gateway_db \<Rightarrow> gateway_db" where
  "record_v3_credential_failure c now_ns credential d status message db =
     (case credential_failure_state d now_ns of
        None \<Rightarrow> db
      | Some (state, cooldown_until) \<Rightarrow>
          db\<lparr>G_Site := or_keep (G_Site db)
            (update_inference_credential_runtime (GW_Redact (VC_Gateway c)) (ns_to_ms now_ns) (CR_ID credential)
               \<lparr>CX_RuntimeState = state, CX_CooldownUntil = cooldown_until, CX_LastTestAt = Some (ns_to_ms now_ns),
                CX_LastTestStatus = http_status_label status, CX_LastErrorMessage = message\<rparr> (G_Site db))\<rparr>)"

subsection \<open>One attempt\<close>

definition v3_set_last :: "int \<Rightarrow> string \<Rightarrow> string \<Rightarrow> v3_state \<Rightarrow> v3_state" where
  "v3_set_last status body message st = st\<lparr>V_LastStatus := status, V_LastBody := body, V_LastError := message\<rparr>"

definition downstream_cancelled :: string where
  "downstream_cancelled = ''downstream request cancelled''"

text \<open>The client has gone: the attempt is logged and nobody is blamed.\<close>

definition v3_cancelled ::
  "v3_call \<Rightarrow> nat \<Rightarrow> resolved_target \<Rightarrow> credential_row \<Rightarrow> int \<Rightarrow> int option \<Rightarrow> v3_state \<Rightarrow> v3_state" where
  "v3_cancelled c k target credential status first_token st =
     st\<lparr>V_LastError := downstream_cancelled,
        V_DB := add_v3_attempt c k target credential ''failed'' status ''downstream_cancelled'' ''client_cancelled''
                  downstream_cancelled first_token (V_DB st)\<rparr>"

text \<open>What \<open>watchdog.stop()\<close> reports; the watchdog of a request that does not stream is nil.\<close>

definition watchdog_phase :: "v3_call \<Rightarrow> attempt_env \<Rightarrow> string" where
  "watchdog_phase c ae = (if M_stream (V3_Meta (VC_Request c)) then AE_TimeoutPhase ae else [])"

text \<open>\<open>upstream.Do\<close> has failed.\<close>

definition v3_transport_failed ::
  "v3_call \<Rightarrow> nat \<Rightarrow> resolved_target \<Rightarrow> credential_row \<Rightarrow> string \<Rightarrow> v3_state \<Rightarrow> v3_control \<times> v3_state" where
  "v3_transport_failed c k target credential err st0 =
     (let ae = RE_Attempt (VC_Env c) k in
      if AE_ClientGone ae then (Break_loop, v3_cancelled c k target credential 0 None st0)
      else let st = v3_set_last 504 [] (v3_transport_error err (watchdog_phase c ae)) st0;
               d = classify (GW_ParseHTTPTime (VC_Gateway c)) (AE_NowNS ae) 0 [] True False None;
               db1 = add_v3_attempt c k target credential ''failed'' 0 (v3_transport_reason (watchdog_phase c ae))
                       (class_string (Class d)) (V_LastError st) None (V_DB st);
               db2 = v3_site_failure c (AE_ClientGone ae) (ns_to_ms (AE_NowNS ae)) target d (V_LastError st) 0 db1
           in (Next_site, st\<lparr>V_DB := db2\<rparr>))"

abbreviation model_or_source :: "string \<Rightarrow> resolved_target \<Rightarrow> string" where
  "model_or_source model target \<equiv> (if model = [] then SM_ModelName (RS_Model target) else model)"

abbreviation header_entries :: "http_header option \<Rightarrow> http_header" where
  "header_entries h \<equiv> (case h of None \<Rightarrow> [] | Some h' \<Rightarrow> h')"

text \<open>A streamed answer, once the proxy has returned \<open>px\<close> and its error \<open>err0\<close>.\<close>

definition v3_stream_done ::
  "v3_call \<Rightarrow> nat \<Rightarrow> resolved_target \<Rightarrow> credential_row \<Rightarrow> int \<Rightarrow> http_header option \<Rightarrow> proxy_state
    \<Rightarrow> stream_error option \<Rightarrow> v3_state \<Rightarrow> v3_control \<times> v3_state" where
  "v3_stream_done c k target credential status headers px err0 st0 =
     (let ae = RE_Attempt (VC_Env c) k; phase = AE_TimeoutPhase ae; now = ns_to_ms (AE_NowNS ae);
          st = st0\<lparr>V_Client := PX_Client px\<rparr>; first_token = PX_FirstToken px;
          err = (if phase \<noteq> [] then Some (v3_stream_timeout_message phase) else map_option stream_error_text err0);
          write_failed = (phase = [] \<and> err0 = Some Downstream_write_error);
          model = model_or_source (PX_Model px) target;
          committed_finish = (\<lambda>message. finish_of model ''failed'' status first_token (PX_Usage px) message True)
      in case err of
        None \<Rightarrow>
          let db1 = record_v3_success c now target credential (V_DB st);
              db2 = add_v3_attempt c k target credential ''success'' status [] [] [] first_token db1
          in (Returned, snd (v3_finalize c (finish_of model ''success'' status first_token (PX_Usage px) [] True)
                (st\<lparr>V_DB := db2\<rparr>)))
      | Some message \<Rightarrow>
          if AE_ClientGone ae \<or> write_failed
          then let st1 = v3_cancelled c k target credential status first_token st
               in if PX_Committed px then (Returned, snd (v3_finalize c (committed_finish downstream_cancelled) st1))
                  else (Break_loop, st1)
          else let d = classify (GW_ParseHTTPTime (VC_Gateway c)) (AE_NowNS ae) status [] True (PX_Committed px) headers;
                   st1 = v3_set_last 502 [] message st;
                   db1 = add_v3_attempt c k target credential ''failed'' status (v3_stream_reason phase)
                           (class_string (Class d)) message first_token (V_DB st1);
                   st2 = st1\<lparr>V_DB := v3_site_failure c (AE_ClientGone ae) now target d message (RetryAfter d) db1\<rparr>
               in if PX_Committed px then (Returned, snd (v3_finalize c (committed_finish message) st2))
                  else (Next_site, st2))"

text \<open>A complete answer: a body that was read, or the error of reading it.\<close>

definition v3_answer_failed ::
  "v3_call \<Rightarrow> nat \<Rightarrow> resolved_target \<Rightarrow> credential_row \<Rightarrow> int \<Rightarrow> http_header option \<Rightarrow> string \<Rightarrow> v3_state
    \<Rightarrow> v3_control \<times> v3_state" where
  "v3_answer_failed c k target credential status headers read_error st0 =
     (let ae = RE_Attempt (VC_Env c) k in
      if AE_ClientGone ae then (Break_loop, v3_cancelled c k target credential status None st0)
      else let st = v3_set_last 502 [] read_error st0;
               d = classify (GW_ParseHTTPTime (VC_Gateway c)) (AE_NowNS ae) status [] True False headers;
               db1 = add_v3_attempt c k target credential ''failed'' status ''site_read_failure''
                       (class_string (Class d)) read_error None (V_DB st);
               db2 = v3_site_failure c (AE_ClientGone ae) (ns_to_ms (AE_NowNS ae)) target d read_error (RetryAfter d) db1
           in (Next_site, st\<lparr>V_DB := db2\<rparr>))"

definition internal_accounting_error :: "v3_call \<Rightarrow> client_response \<Rightarrow> client_response" where
  "internal_accounting_error c w =
     write_openai_error (VC_Gateway c) 500 ''cannot persist request accounting'' ''internal_error'' w"

text \<open>Both returns that pass the upstream's answer on: settle first, then write.\<close>

definition v3_pass_on ::
  "v3_call \<Rightarrow> finish_params \<Rightarrow> int \<Rightarrow> http_header option \<Rightarrow> string \<Rightarrow> v3_state \<Rightarrow> v3_control \<times> v3_state" where
  "v3_pass_on c params status headers body st0 =
     (case v3_finalize c params st0 of
        (False, st) \<Rightarrow> (Returned, st\<lparr>V_Client := internal_accounting_error c (V_Client st)\<rparr>)
      | (True, st) \<Rightarrow>
          (Returned, st\<lparr>V_Client := write_response status (copy_response_headers [] (header_entries headers)) body (V_Client st)\<rparr>))"

definition v3_answer_read ::
  "v3_call \<Rightarrow> nat \<Rightarrow> resolved_target \<Rightarrow> credential_row \<Rightarrow> int \<Rightarrow> http_header option \<Rightarrow> string \<Rightarrow> v3_state
    \<Rightarrow> v3_control \<times> v3_state" where
  "v3_answer_read c k target credential status headers body st0 =
     (let ae = RE_Attempt (VC_Env c) k; now = ns_to_ms (AE_NowNS ae); gw = VC_Gateway c;
          d0 = classify (GW_ParseHTTPTime gw) (AE_NowNS ae) status body False False headers;
          semantic_failure = (if Class d0 = ClassNone
             then SF_ValidateResponse (V3_Surface (VC_Request c)) body else None);
          d = (if semantic_failure \<noteq> None then classify_invalid_success body else d0)
      in if Class d = ClassNone
         then let (model, tokens) = parse_usage (JC_Usage (GW_Codec gw)) body (SM_ModelName (RS_Model target));
                  db1 = record_v3_success c now target credential (V_DB st0);
                  db2 = add_v3_attempt c k target credential ''success'' status [] [] [] None db1
              in v3_pass_on c (finish_of model ''success'' status None tokens [] True) status headers body (st0\<lparr>V_DB := db2\<rparr>)
         else let st = (case semantic_failure of
                    Some m \<Rightarrow> if m \<noteq> [] then v3_set_last 502 [] m st0 else v3_set_last status body (compact_text body 500) st0
                  | None \<Rightarrow> v3_set_last status body (compact_text body 500) st0)
              in if is_v3_credential_local d
                 then let db1 = record_v3_credential_failure c (AE_NowNS ae) credential d status (V_LastError st) (V_DB st)
                      in (Next_credential, st\<lparr>V_DB := add_v3_attempt c k target credential ''failed'' status
                            (v3_credential_reason d) (class_string (Class d)) (V_LastError st) None db1\<rparr>)
                 else let db1 = add_v3_attempt c k target credential ''failed'' status ''site_upstream_response''
                            (class_string (Class d)) (V_LastError st) None (V_DB st);
                          db2 = (if PenalizeTarget d \<or> UnsupportedModel d
                                 then v3_site_failure c (AE_ClientGone ae) now target d (V_LastError st) (RetryAfter d) db1
                                 else db1)
                      in if Failover d then (Next_site, st\<lparr>V_DB := db2\<rparr>)
                         else v3_pass_on c (finish_of (SM_ModelName (RS_Model target)) ''failed'' status None no_usage
                                (V_LastError st) False) status headers body (st\<lparr>V_DB := db2\<rparr>))"

definition v3_attempt ::
  "v3_call \<Rightarrow> resolved_target \<Rightarrow> credential_row \<Rightarrow> v3_state \<Rightarrow> v3_control \<times> v3_state" where
  "v3_attempt c target credential st0 =
     (let k = V_Attempts st0; ae = RE_Attempt (VC_Env c) k; rq = VC_Request c in
      if AE_DeadlineOver ae
      then (Break_loop,
            st0\<lparr>V_LastError := ''request deadline exceeded before another upstream could be attempted''\<rparr>)
      else let st = st0\<lparr>V_Attempts := Suc k\<rparr> in
        case SF_BuildResolved (V3_Surface rq) target credential (V3_Body rq) of
          Some err \<Rightarrow>
            let st1 = v3_set_last 502 [] err (st\<lparr>V_BuildFailures := V_BuildFailures st + 1\<rparr>)
            in (Next_credential, st1\<lparr>V_DB := add_v3_attempt c k target credential ''failed'' 0
                  ''credential_or_endpoint_config'' (class_string ClassTargetMisconfigured) err None (V_DB st1)\<rparr>)
        | None \<Rightarrow>
            (case AE_Do ae of
               Do_failed err \<Rightarrow> v3_transport_failed c k target credential err st
             | Do_response status headers body upstream_end \<Rightarrow>
                 if M_stream (V3_Meta rq) \<and> status \<ge> 200 \<and> status < 300
                 then let (px, err) = proxy_delayed_stream_controlled (GW_Codec (VC_Gateway c)) status
                                        (header_entries headers) (AE_Lines ae) upstream_end body (V_Client st)
                      in v3_stream_done c k target credential status headers px err st
                 else (case read_limited body upstream_end of
                         Inl e \<Rightarrow> v3_answer_failed c k target credential status headers e st
                       | Inr b \<Rightarrow> v3_answer_read c k target credential status headers b st)))"

subsection \<open>The loops\<close>

fun v3_credentials ::
  "v3_call \<Rightarrow> resolved_target \<Rightarrow> credential_row list \<Rightarrow> v3_state \<Rightarrow> v3_control \<times> v3_state" where
  "v3_credentials c target [] st = (Next_credential, st)"
| "v3_credentials c target (credential # rest) st =
     (case v3_attempt c target credential st of
        (Next_credential, st') \<Rightarrow> v3_credentials c target rest st'
      | result \<Rightarrow> result)"

definition route_model :: "v3_call \<Rightarrow> published_row" where
  "route_model c = RM_Model (V3_Route (VC_Request c))"

text \<open>The lease of a permit: the request's deadline and five seconds.\<close>

definition v3_lease :: "v3_call \<Rightarrow> int" where
  "v3_lease c = positive_or_default (PM_RequestDeadlineSeconds (route_model c)) 120 * second + 5 * second"

definition v3_permit :: "v3_call \<Rightarrow> nat \<Rightarrow> resolved_target \<Rightarrow> gateway_db \<Rightarrow> (store_error, bool \<times> gateway_db) result" where
  "v3_permit c n target db =
     (let se = RE_Site (VC_Env c) n in
      if SE_DeadlineOver se then Inl (ErrText ''context deadline exceeded'')
      else and_then (acquire_route_site_target_permit (RT_ID (RS_Target target)) (SE_NowMS se) (v3_lease c) False (G_Health db))
             (\<lambda>(allowed, h). Inr (allowed, db\<lparr>G_Health := h\<rparr>)))"

text \<open>The penalty of a site none of whose keys gave a request that could be sent.\<close>

definition v3_misconfigured :: "v3_call \<Rightarrow> nat \<Rightarrow> resolved_target \<Rightarrow> v3_state \<Rightarrow> v3_state" where
  "v3_misconfigured c n target st =
     (if V_BuildFailures st = length (RS_Credentials target) \<and> V_BuildFailures st > 0
      then let se = RE_Site (VC_Env c) n;
               d = (decision_of ClassTargetMisconfigured)\<lparr>Failover := True, PenalizeTarget := True\<rparr>
           in st\<lparr>V_DB := v3_site_failure c (SE_ClientGone se) (SE_EndedMS se) target d (V_LastError st) 0 (V_DB st)\<rparr>
      else st)"

text \<open>\<open>n\<close> is the place of the target in the route.\<close>

definition v3_site :: "v3_call \<Rightarrow> nat \<Rightarrow> resolved_target \<Rightarrow> v3_state \<Rightarrow> v3_control \<times> v3_state" where
  "v3_site c n target st =
     (if RS_Credentials target = []
      then (Next_site, st\<lparr>V_LastError := ''site '' @ S_Name (RS_Site target) @ '' has no eligible API key''\<rparr>)
      else case v3_permit c n target (V_DB st) of
        Inl _ \<Rightarrow> (Break_loop, st\<lparr>V_LastStatus := 500, V_LastError := ''cannot persist site health state''\<rparr>)
      | Inr (allowed, db) \<Rightarrow>
          if \<not> allowed then (Next_site, st\<lparr>V_DB := db\<rparr>)
          else case v3_credentials c target (RS_Credentials target)
                 (st\<lparr>V_DB := db, V_Sites := V_Sites st + 1, V_BuildFailures := 0\<rparr>) of
            (Next_credential, st') \<Rightarrow> (Next_site, v3_misconfigured c n target st')
          | result \<Rightarrow> result)"

fun v3_sites :: "v3_call \<Rightarrow> nat \<Rightarrow> nat \<Rightarrow> resolved_target list \<Rightarrow> v3_state \<Rightarrow> v3_control \<times> v3_state" where
  "v3_sites c max_sites n [] st = (Break_loop, st)"
| "v3_sites c max_sites n (target # rest) st =
     (if V_Sites st \<ge> max_sites then (Break_loop, st)
      else case v3_site c n target st of
        (Next_site, st') \<Rightarrow> v3_sites c max_sites (Suc n) rest st'
      | result \<Rightarrow> result)"

definition max_site_attempts :: "v3_call \<Rightarrow> nat" where
  "max_site_attempts c =
     (let limit = positive_or_default (PM_MaxAttempts (route_model c)) 3; targets = RM_Targets (V3_Route (VC_Request c))
      in if limit > int (length targets) then length targets else nat limit)"

text \<open>What follows the loop: the request is settled without a charge, and the last error answered.\<close>

definition v3_exhausted :: "v3_call \<Rightarrow> v3_state \<Rightarrow> v3_state" where
  "v3_exhausted c st0 =
     (case v3_finalize c (finish_of [] ''failed'' (V_LastStatus st0) None no_usage (V_LastError st0) False) st0 of
        (False, st) \<Rightarrow> st\<lparr>V_Client := internal_accounting_error c (V_Client st)\<rparr>
      | (True, st) \<Rightarrow>
          if V_LastBody st \<noteq> []
          then st\<lparr>V_Client := write_response (V_LastStatus st) [(''Content-Type'', [''application/json''])] (V_LastBody st)
                                (V_Client st)\<rparr>
          else st\<lparr>V_Client := write_openai_error (VC_Gateway c) (V_LastStatus st) (V_LastError st) ''upstream_unavailable''
                                (V_Client st)\<rparr>)"

definition v3_initial :: "gateway_db \<Rightarrow> v3_state" where
  "v3_initial db = \<lparr>V_DB = db, V_Client = no_response, V_Attempts = 0, V_Sites = 0, V_LastStatus = 503, V_LastBody = [],
     V_LastError = ''no eligible upstream site'', V_BuildFailures = 0,
     V_Pending = finish_of [] ''failed'' 503 None no_usage ''request ended before completion'' False,
     V_Finalized = False\<rparr>"

text \<open>From the reservation to the return, the deferred finish included.\<close>

definition v3_run :: "v3_call \<Rightarrow> gateway_db \<Rightarrow> v3_state" where
  "v3_run c db =
     v3_deferred c
       (case v3_sites c (max_site_attempts c) 0 (RM_Targets (V3_Route (VC_Request c))) (v3_initial db) of
          (Returned, st) \<Rightarrow> st
        | (_, st) \<Rightarrow> v3_exhausted c st)"

definition v3_request_start :: "request_env \<Rightarrow> v3_request \<Rightarrow> request_start" where
  "v3_request_start env rq =
     (let route = V3_Route rq; meta = V3_Meta rq in
      \<lparr>RS_ID = RE_ID env, RS_RoutingGeneration = ''v3'', RS_Surface = SF_Name (V3_Surface rq),
       RS_DownstreamKeyID = DK_ID (V3_Key rq), RS_RouteID = 0, RS_RouteRevision = 0,
       RS_PublishedModelID = PM_ID (RM_Model route), RS_PublishedModelRevision = PM_Revision (RM_Model route),
       RS_RoutingProfileID = (case RM_RoutingProfileID route of None \<Rightarrow> 0 | Some p \<Rightarrow> p),
       RS_RoutingProfileName = RM_RoutingProfileName route, RS_RequestedModel = M_model meta,
       RS_ReasoningEffort = M_reasoning_effort meta, RS_ThinkingBudget = M_thinking_budget meta,
       RS_Stream = M_stream meta, RS_StartedAt = RE_StartedMS env\<rparr>)"

definition serve_v3_inference ::
  "gateway \<Rightarrow> request_env \<Rightarrow> v3_request \<Rightarrow> gateway_db \<Rightarrow> client_response \<times> gateway_db" where
  "serve_v3_inference gw env rq db =
     (let price_model = first_non_empty_string
            [PM_OfficialPriceSKU (RM_Model (V3_Route rq)), PM_PublicName (RM_Model (V3_Route rq))]
      in case prepare_accounting_for_model (GW_ParseRat gw) (GW_ParseDate gw) (GW_Billing gw) (RE_PriceNow env) (V3_Key rq)
                (V3_Meta rq) (V3_Body rq) price_model of
           Inl e \<Rightarrow>
             (if is_pricing_unavailable e \<and> DK_Quota (V3_Key rq) \<noteq> None
              then write_openai_error gw 400 ''this model does not have a confirmed official price for metered keys''
                     ''model_not_metered'' no_response
              else write_openai_error gw 400 (GW_AccountingErrorText gw e) ''invalid_request_error'' no_response, db)
         | Inr account \<Rightarrow>
             (case start_request_with_reservation (v3_request_start env rq) (RA_reserved account)
                     (DK_Quota (V3_Key rq) \<noteq> None) (G_Quota db) of
                Inl ErrQuotaExceeded \<Rightarrow>
                  (write_openai_error gw 429 ''API key quota is insufficient for this request'' ''insufficient_quota'' no_response, db)
              | Inl _ \<Rightarrow> (write_openai_error gw 500 ''cannot persist request accounting'' ''internal_error'' no_response, db)
              | Inr q \<Rightarrow>
                  (let st = v3_run \<lparr>VC_Gateway = gw, VC_Request = rq, VC_Env = env, VC_Account = account\<rparr> (db\<lparr>G_Quota := q\<rparr>)
                   in (V_Client st, V_DB st))))"

end
