(* ===== verification/FailoverLaws.thy ===== *)
theory FailoverLaws
  imports Failover QuotaInvariant SiteProps
begin

text \<open>
  What the failover loop keeps: nothing but the finish of a request touches the keys and their
  ledger, a request is finished at most once, the client is written to only on the way out, and the attempts
  follow the route. The lemmas go from the attempt to the credentials of a site to the sites of a route.
\<close>

subsection \<open>What recording leaves alone\<close>

lemma or_keep_simps [simp]: "or_keep x (Inl e) = x" "or_keep x (Inr y) = y"
  by (simp_all add: or_keep_def)

lemma add_request_attempt_cases:
  assumes "add_request_attempt redact item db = Inr db'"
  shows "\<exists>g. db' = db\<lparr>G_Attempts := G_Attempts db @ [item\<lparr>AT_Generation := g, AT_ErrorMessage := redact (AT_ErrorMessage item)\<rparr>]\<rparr>"
  using assms by (auto simp: add_request_attempt_def Let_def split: if_splits)

lemma or_keep_attempt:
  assumes "\<And>g m. P (item\<lparr>AT_Generation := g, AT_ErrorMessage := m\<rparr>)"
  shows "\<exists>rows. or_keep db (add_request_attempt redact item db) = db\<lparr>G_Attempts := G_Attempts db @ rows\<rparr> \<and>
     (rows = [] \<or> (\<exists>a. rows = [a] \<and> P a))"
proof (cases "add_request_attempt redact item db")
  case (Inl e)
  then show ?thesis by (auto intro: exI [of _ "[]"])
next
  case (Inr db')
  with add_request_attempt_cases [OF Inr] assms show ?thesis by auto
qed

text \<open>The row an attempt leaves, if any: whose it is and how it went.\<close>

definition attempt_of :: "v3_call \<Rightarrow> nat \<Rightarrow> resolved_target \<Rightarrow> credential_row \<Rightarrow> string \<Rightarrow> attempt_row \<Rightarrow> bool" where
  "attempt_of c k target credential status a \<longleftrightarrow> AT_RequestID a = RE_ID (VC_Env c) \<and> AT_Index a = int k \<and>
     AT_RouteSiteTargetID a = Some (RT_ID (RS_Target target)) \<and> AT_CredentialID a = Some (CR_ID credential) \<and>
     AT_Status a = status"

lemma add_v3_attempt_rows:
  "\<exists>rows. add_v3_attempt c k target credential status http reason cls message first_token db =
     db\<lparr>G_Attempts := G_Attempts db @ rows\<rparr> \<and> (rows = [] \<or> (\<exists>a. rows = [a] \<and> attempt_of c k target credential status a))"
  unfolding add_v3_attempt_def Let_def
  by (rule or_keep_attempt) (simp add: attempt_of_def)

lemma add_v3_attempt_frame [simp]:
  "G_Quota (add_v3_attempt c k target credential status http reason cls message first_token db) = G_Quota db"
  "G_Health (add_v3_attempt c k target credential status http reason cls message first_token db) = G_Health db"
  "G_Site (add_v3_attempt c k target credential status http reason cls message first_token db) = G_Site db"
  using add_v3_attempt_rows [of c k target credential status http reason cls message first_token db] by auto

lemma v3_site_failure_frame [simp]:
  "G_Quota (v3_site_failure c gone now target d message retry db) = G_Quota db"
  "G_Site (v3_site_failure c gone now target d message retry db) = G_Site db"
  "G_Attempts (v3_site_failure c gone now target d message retry db) = G_Attempts db"
  by (simp_all add: v3_site_failure_def)

lemma record_v3_success_frame [simp]:
  "G_Quota (record_v3_success c now target credential db) = G_Quota db"
  "G_Attempts (record_v3_success c now target credential db) = G_Attempts db"
  by (simp_all add: record_v3_success_def Let_def)

lemma record_v3_credential_failure_frame [simp]:
  "G_Quota (record_v3_credential_failure c now credential d status message db) = G_Quota db"
  "G_Health (record_v3_credential_failure c now credential d status message db) = G_Health db"
  "G_Attempts (record_v3_credential_failure c now credential d status message db) = G_Attempts db"
  by (simp_all add: record_v3_credential_failure_def split: option.splits)

lemma v3_set_last_frame [simp]:
  "V_DB (v3_set_last s b m st) = V_DB st" "V_Client (v3_set_last s b m st) = V_Client st"
  "V_Attempts (v3_set_last s b m st) = V_Attempts st" "V_Sites (v3_set_last s b m st) = V_Sites st"
  "V_Pending (v3_set_last s b m st) = V_Pending st" "V_Finalized (v3_set_last s b m st) = V_Finalized st"
  "V_LastError (v3_set_last s b m st) = m"
  by (simp_all add: v3_set_last_def)

lemma v3_cancelled_frame [simp]:
  "G_Quota (V_DB (v3_cancelled c k target credential status first_token st)) = G_Quota (V_DB st)"
  "V_Client (v3_cancelled c k target credential status first_token st) = V_Client st"
  "V_Attempts (v3_cancelled c k target credential status first_token st) = V_Attempts st"
  "V_Sites (v3_cancelled c k target credential status first_token st) = V_Sites st"
  "V_Pending (v3_cancelled c k target credential status first_token st) = V_Pending st"
  "V_Finalized (v3_cancelled c k target credential status first_token st) = V_Finalized st"
  by (simp_all add: v3_cancelled_def)

lemma write_response_head [simp]:
  "W_Head (write_response status headers body w) = (case W_Head w of None \<Rightarrow> Some (status, headers) | Some h \<Rightarrow> Some h)"
  by (simp add: write_response_def)

subsection \<open>Settled once, answered once\<close>

abbreviation finish_quota :: "v3_call \<Rightarrow> int \<times> int \<Rightarrow> finish_params \<Rightarrow> quota_db \<Rightarrow> (finish_error, quota_db) result" where
  "finish_quota c clock params q \<equiv>
     gateway_finish (GW_ParseRat (VC_Gateway c)) (GW_EncodeQuote (VC_Gateway c)) (GW_Redact (VC_Gateway c))
       (RE_ID (VC_Env c)) (fst clock) (snd clock) (VC_Account c) params q"

definition answered_ok :: "client_response \<Rightarrow> bool" where
  "answered_ok w \<longleftrightarrow> (case W_Head w of None \<Rightarrow> False | Some (status, _) \<Rightarrow> 200 \<le> status \<and> status < 300)"

definition untouched :: "quota_db \<Rightarrow> v3_state \<Rightarrow> bool" where
  "untouched q st \<longleftrightarrow> G_Quota (V_DB st) = q \<and> \<not> V_Finalized st \<and> V_Client st = no_response \<and> FP_status (V_Pending st) = ''failed''
     \<and> \<not> FP_charge (V_Pending st)"

text \<open>
  The request was finished with \<open>V_Pending\<close>, or that failed; the client has got a head; and what it pays for
  is a success.
\<close>

definition settled :: "v3_call \<Rightarrow> quota_db \<Rightarrow> v3_state \<Rightarrow> bool" where
  "settled c q st \<longleftrightarrow>
     (if V_Finalized st then finish_quota c (RE_Finish (VC_Env c)) (V_Pending st) q = Inr (G_Quota (V_DB st))
      else G_Quota (V_DB st) = q \<and> \<not> is_ok (finish_quota c (RE_Finish (VC_Env c)) (V_Pending st) q)) \<and>
     FP_status (V_Pending st) \<in> {''success'', ''failed''} \<and> W_Head (V_Client st) \<noteq> None \<and>
     (FP_charge (V_Pending st) \<and> V_Finalized st \<longrightarrow> answered_ok (V_Client st))"

lemma v3_finalize_frame [simp]:
  "V_Client (snd (v3_finalize c params st)) = V_Client st"
  "V_Pending (snd (v3_finalize c params st)) = params"
  by (auto simp: v3_finalize_def Let_def split: sum.splits)

lemma v3_finalize_settles:
  assumes "untouched q st0" and "v3_finalize c params st0 = (ok, st)"
  shows "V_Finalized st = ok \<and> V_Pending st = params \<and> V_Client st = V_Client st0 \<and>
    (if ok then finish_quota c (RE_Finish (VC_Env c)) params q = Inr (G_Quota (V_DB st))
     else G_Quota (V_DB st) = q \<and> \<not> is_ok (finish_quota c (RE_Finish (VC_Env c)) params q))"
  using assms by (auto simp: v3_finalize_def v3_finish_def untouched_def Let_def split: sum.splits)
lemma proxy_client:
  assumes "proxy_delayed_stream_controlled jc status headers env upstream_end input no_response = (px, err)"
  shows "if PX_Committed px then \<exists>h. W_Head (PX_Client px) = Some (status, h) else PX_Client px = no_response"
    and "err = None \<Longrightarrow> PX_Committed px"
proof -
  have start: "proxy_inv status headers no_response [] (proxy_start no_response)"
    by (simp add: proxy_inv_def held_back_def proxy_start_def keepalive_limit_def)
  note ends = proxy_loop_ends [OF start assms [unfolded proxy_delayed_stream_controlled_def]]
  then show "if PX_Committed px then \<exists>h. W_Head (PX_Client px) = Some (status, h) else PX_Client px = no_response"
    by (auto simp: stream_ended_def held_back_def passed_on_def split: option.splits stream_error.splits)
  show "err = None \<Longrightarrow> PX_Committed px"
    using ends by (auto simp: stream_ended_def passed_on_def)
qed

lemma v3_pass_on_settles:
  assumes "untouched q st0" and "v3_pass_on c params status headers body st0 = (control, st)"
    and "FP_status params \<in> {''success'', ''failed''}" and "FP_charge params \<Longrightarrow> 200 \<le> status \<and> status < 300"
  shows "control = Returned \<and> settled c q st"
  using assms(2-4) v3_finalize_settles [OF assms(1), of c params] assms(1)
  by (cases "v3_finalize c params st0")
    (auto simp: v3_pass_on_def settled_def untouched_def no_response_def answered_ok_def internal_accounting_error_def
      write_openai_error_def split: bool.splits)

lemma v3_transport_settles:
  assumes "untouched q st0" and "v3_transport_failed c k target credential err st0 = (control, st)"
  shows "control \<noteq> Returned \<and> untouched q st"
  using assms by (auto simp: v3_transport_failed_def untouched_def Let_def split: if_splits)

lemma v3_answer_failed_settles:
  assumes "untouched q st0" and "v3_answer_failed c k target credential status headers e st0 = (control, st)"
  shows "control \<noteq> Returned \<and> untouched q st"
  using assms by (auto simp: v3_answer_failed_def untouched_def Let_def split: if_splits)

lemma untouched_update:
  assumes "untouched q st" and "G_Quota (V_DB st') = G_Quota (V_DB st)" and "V_Client st' = V_Client st"
    and "V_Pending st' = V_Pending st" and "V_Finalized st' = V_Finalized st"
  shows "untouched q st'"
  using assms by (simp add: untouched_def)

lemma classify_none: "Class (classify p now status body False False headers) = ClassNone \<longleftrightarrow> 200 \<le> status \<and> status < 300"
  by (auto simp: classify_def)

lemma classify_invalid_not_none [simp]: "Class (classify_invalid_success body) \<noteq> ClassNone"
  by (simp add: classify_invalid_success_def)

lemma v3_answer_read_settles:
  assumes u: "untouched q st0" and run: "v3_answer_read c k target credential status headers body st0 = (control, st)"
  shows "if control = Returned then settled c q st else untouched q st"
proof -
  define d0 where "d0 = classify (GW_ParseHTTPTime (VC_Gateway c)) (AE_NowNS (RE_Attempt (VC_Env c) k)) status body False False headers"
  define sf where "sf = (if Class d0 = ClassNone then SF_ValidateResponse (V3_Surface (VC_Request c)) body else None)"
  define d where "d = (if sf \<noteq> None then classify_invalid_success body else d0)"
  define st1 where "st1 = (case sf of
      Some m \<Rightarrow> if m \<noteq> [] then v3_set_last 502 [] m st0 else v3_set_last status body (compact_text body 500) st0
    | None \<Rightarrow> v3_set_last status body (compact_text body 500) st0)"
  note run = run [unfolded v3_answer_read_def Let_def, folded d0_def, folded sf_def, folded d_def, folded st1_def]
  have st1: "V_DB st1 = V_DB st0" "V_Client st1 = V_Client st0" "V_Pending st1 = V_Pending st0" "V_Finalized st1 = V_Finalized st0"
    by (auto simp: st1_def split: option.splits)
  show ?thesis
  proof (cases "Class d = ClassNone")
    case True
    then have ok: "200 \<le> status \<and> status < 300"
      by (auto simp: d_def d0_def classify_none split: if_splits)
    obtain model tokens where usage: "parse_usage (JC_Usage (GW_Codec (VC_Gateway c))) body (SM_ModelName (RS_Model target)) = (model, tokens)"
      by (cases "parse_usage (JC_Usage (GW_Codec (VC_Gateway c))) body (SM_ModelName (RS_Model target))") auto
    let ?now = "ns_to_ms (AE_NowNS (RE_Attempt (VC_Env c) k))"
    let ?db = "add_v3_attempt c k target credential ''success'' status [] [] [] None (record_v3_success c ?now target credential (V_DB st0))"
    have "v3_pass_on c (finish_of model ''success'' status None tokens [] True) status headers body (st0\<lparr>V_DB := ?db\<rparr>) = (control, st)"
      using run True usage by simp
    moreover have "untouched q (st0\<lparr>V_DB := ?db\<rparr>)"
      by (rule untouched_update [OF u]) simp_all
    ultimately show ?thesis
      using v3_pass_on_settles [of q] ok by (simp add: finish_of_def)
  next
    case False
    let ?now = "ns_to_ms (AE_NowNS (RE_Attempt (VC_Env c) k))"
    let ?db1 = "add_v3_attempt c k target credential ''failed'' status ''site_upstream_response'' (class_string (Class d)) (V_LastError st1) None (V_DB st1)"
    define db2 where "db2 = (if PenalizeTarget d \<or> UnsupportedModel d
        then v3_site_failure c (AE_ClientGone (RE_Attempt (VC_Env c) k)) ?now target d (V_LastError st1) (RetryAfter d) ?db1 else ?db1)"
    have quota: "G_Quota db2 = G_Quota (V_DB st0)" by (simp add: db2_def st1)
    have u2: "untouched q (st1\<lparr>V_DB := db2\<rparr>)"
      by (rule untouched_update [OF u]) (simp_all add: quota st1)
    note run = run [folded db2_def]
    show ?thesis
    proof (cases "is_v3_credential_local d \<or> Failover d")
      case True
      then have "control \<noteq> Returned \<and> untouched q st"
        using run False u2 untouched_update [OF u, of st] by (auto simp: st1 split: if_splits)
      then show ?thesis by simp
    next
      case other: False
      then have "v3_pass_on c (finish_of (SM_ModelName (RS_Model target)) ''failed'' status None no_usage (V_LastError st1) False)
          status headers body (st1\<lparr>V_DB := db2\<rparr>) = (control, st)"
        using run False by simp
      from v3_pass_on_settles [OF u2 this] show ?thesis by (simp add: finish_of_def)
    qed
  qed
qed

lemma v3_stream_done_settles:
  assumes u: "untouched q st0"
    and px: "if PX_Committed px then \<exists>h. W_Head (PX_Client px) = Some (status, h) else PX_Client px = no_response"
    and fin: "err0 = None \<Longrightarrow> PX_Committed px" and status: "200 \<le> status" "status < 300"
    and run: "v3_stream_done c k target credential status headers px err0 st0 = (control, st)"
  shows "if control = Returned then settled c q st else untouched q st"
proof -
  have finish: "settled c q (snd (v3_finalize c p st1))"
    if com: "PX_Committed px" and q: "G_Quota (V_DB st1) = q" "\<not> V_Finalized st1" and w: "V_Client st1 = PX_Client px"
      and p: "FP_status p \<in> {''success'', ''failed''}" for p st1
  proof -
    obtain h where h: "W_Head (PX_Client px) = Some (status, h)" using px com by auto
    obtain ok st2 where fin: "v3_finalize c p st1 = (ok, st2)" by (cases "v3_finalize c p st1") auto
    have "V_Client st2 = PX_Client px" "V_Pending st2 = p"
      using v3_finalize_frame [of c p st1] fin w by simp_all
    moreover have "V_Finalized st2 = ok \<and> (if ok then finish_quota c (RE_Finish (VC_Env c)) p q = Inr (G_Quota (V_DB st2))
        else G_Quota (V_DB st2) = q \<and> \<not> is_ok (finish_quota c (RE_Finish (VC_Env c)) p q))"
      using fin q by (auto simp: v3_finalize_def v3_finish_def Let_def split: sum.splits)
    ultimately show ?thesis
      using fin h p status by (auto simp: settled_def answered_ok_def)
  qed
  have u': "\<not> V_Finalized st0" "G_Quota (V_DB st0) = q" "FP_status (V_Pending st0) = ''failed''" "\<not> FP_charge (V_Pending st0)"
    using u by (simp_all add: untouched_def)
  have same: "\<not> PX_Committed px \<Longrightarrow> untouched q (st0\<lparr>V_Client := PX_Client px\<rparr>)"
    using px u by (simp add: untouched_def)
  define ae where "ae = RE_Attempt (VC_Env c) k"
  define err where "err = (if AE_TimeoutPhase ae \<noteq> [] then Some (v3_stream_timeout_message (AE_TimeoutPhase ae))
      else map_option stream_error_text err0)"
  note run = run [unfolded v3_stream_done_def Let_def, folded ae_def, folded err_def]
  show ?thesis
  proof (cases err)
    case None
    then have "PX_Committed px" using fin by (auto simp: err_def split: if_splits)
    define p where "p = finish_of (model_or_source (PX_Model px) target) ''success'' status (PX_FirstToken px) (PX_Usage px) [] True"
    define db where "db = add_v3_attempt c k target credential ''success'' status [] [] [] (PX_FirstToken px)
        (record_v3_success c (ns_to_ms (AE_NowNS ae)) target credential (V_DB (st0\<lparr>V_Client := PX_Client px\<rparr>)))"
    have "control = Returned" and st: "st = snd (v3_finalize c p (st0\<lparr>V_Client := PX_Client px, V_DB := db\<rparr>))"
      using run None by (simp_all add: p_def db_def)
    moreover have "settled c q st"
      unfolding st using \<open>PX_Committed px\<close> by (rule finish) (simp_all add: u' db_def p_def finish_of_def)
    ultimately show ?thesis by simp
  next
    case (Some message)
    note run = run [unfolded Some option.case]
    define write_failed where "write_failed \<longleftrightarrow> AE_TimeoutPhase ae = [] \<and> err0 = Some Downstream_write_error"
    define p where "p = (\<lambda>m. finish_of (model_or_source (PX_Model px) target) ''failed'' status (PX_FirstToken px) (PX_Usage px) m True)"
    note run = run [folded write_failed_def]
    show ?thesis
    proof (cases "PX_Committed px")
      case True
      have "\<exists>m st1. control = Returned \<and> st = snd (v3_finalize c (p m) st1) \<and> G_Quota (V_DB st1) = q \<and> \<not> V_Finalized st1 \<and>
          V_Client st1 = PX_Client px"
      proof (cases "AE_ClientGone ae \<or> write_failed")
        case gone: True
        then show ?thesis
          using run True u' by (intro exI [of _ downstream_cancelled]
            exI [of _ "v3_cancelled c k target credential status (PX_FirstToken px) (st0\<lparr>V_Client := PX_Client px\<rparr>)"]) (auto simp: p_def)
      next
        case False
        then show ?thesis
          using run True u' unfolding p_def by (intro exI [of _ message]) fastforce
      qed
      then obtain m st1 where st1: "control = Returned" "st = snd (v3_finalize c (p m) st1)" "G_Quota (V_DB st1) = q"
        "\<not> V_Finalized st1" "V_Client st1 = PX_Client px" by blast
      have "settled c q st"
        unfolding st1(2) by (rule finish [OF True st1(3-5)]) (simp add: p_def finish_of_def)
      with st1(1) show ?thesis by simp
    next
      case False
      then show ?thesis
        using run untouched_update [OF same [OF False], of st] by (auto split: if_splits)
    qed
  qed
qed

lemma v3_attempt_settles:
  assumes u: "untouched q st0" and run: "v3_attempt c target credential st0 = (control, st)"
  shows "if control = Returned then settled c q st else untouched q st"
proof -
  define k where "k = V_Attempts st0"
  define ae where "ae = RE_Attempt (VC_Env c) k"
  let ?st = "st0\<lparr>V_Attempts := Suc k\<rparr>"
  have u1: "untouched q ?st" by (rule untouched_update [OF u]) simp_all
  note run = run [unfolded v3_attempt_def Let_def, folded k_def, folded ae_def]
  consider "AE_DeadlineOver ae"
    | err where "\<not> AE_DeadlineOver ae" "SF_BuildResolved (V3_Surface (VC_Request c)) target credential (V3_Body (VC_Request c)) = Some err"
    | err where "\<not> AE_DeadlineOver ae" "SF_BuildResolved (V3_Surface (VC_Request c)) target credential (V3_Body (VC_Request c)) = None"
        "AE_Do ae = Do_failed err"
    | status headers body e where "\<not> AE_DeadlineOver ae"
        "SF_BuildResolved (V3_Surface (VC_Request c)) target credential (V3_Body (VC_Request c)) = None"
        "AE_Do ae = Do_response status headers body e"
    by (cases "SF_BuildResolved (V3_Surface (VC_Request c)) target credential (V3_Body (VC_Request c))"; cases "AE_Do ae") auto
  then show ?thesis
  proof cases
    case 1
    then show ?thesis using run untouched_update [OF u, of st] by auto
  next
    case (2 err)
    then show ?thesis using run untouched_update [OF u, of st] by auto
  next
    case (3 err)
    then show ?thesis using run v3_transport_settles [OF u1, of c k target credential err control st] by simp
  next
    case (4 status headers body e)
    show ?thesis
    proof (cases "M_stream (V3_Meta (VC_Request c)) \<and> 200 \<le> status \<and> status < 300")
      case True
      obtain px err where proxy: "proxy_delayed_stream_controlled (GW_Codec (VC_Gateway c)) status (header_entries headers)
          (AE_Lines ae) e body (V_Client ?st) = (px, err)"
        by (cases "proxy_delayed_stream_controlled (GW_Codec (VC_Gateway c)) status (header_entries headers)
          (AE_Lines ae) e body (V_Client ?st)") auto
      then have proxy': "proxy_delayed_stream_controlled (GW_Codec (VC_Gateway c)) status (header_entries headers)
          (AE_Lines ae) e body no_response = (px, err)"
        using u by (simp add: untouched_def)
      from run True proxy 4 have "v3_stream_done c k target credential status headers px err ?st = (control, st)" by simp
      from v3_stream_done_settles [OF u1 proxy_client [OF proxy'] _ _ this] True show ?thesis by simp
    next
      case False
      then have "(case read_limited body e of Inl e \<Rightarrow> v3_answer_failed c k target credential status headers e ?st
          | Inr b \<Rightarrow> v3_answer_read c k target credential status headers b ?st) = (control, st)"
        using run 4 by auto
      then show ?thesis
        using v3_answer_failed_settles [OF u1, of c k target credential status headers _ control st]
          v3_answer_read_settles [OF u1, of c k target credential status headers _ control st]
        by (cases "read_limited body e") auto
    qed
  qed
qed

lemma v3_credentials_settles:
  assumes "untouched q st0" and "v3_credentials c target crs st0 = (control, st)"
  shows "if control = Returned then settled c q st else untouched q st"
  using assms
proof (induction c target crs st0 rule: v3_credentials.induct)
  case (1 c target st)
  then show ?case by auto
next
  case (2 c target cr crs st0)
  obtain control1 st1 where one: "v3_attempt c target cr st0 = (control1, st1)" by (cases "v3_attempt c target cr st0") auto
  note first = v3_attempt_settles [OF "2.prems"(1) one]
  show ?case
  proof (cases "control1 = Next_credential")
    case True
    with first have "untouched q st1" by simp
    from "2.IH" [OF one [symmetric] True this] show ?thesis using "2.prems"(2) one True by simp
  next
    case False
    then have "control = control1 \<and> st = st1"
      using "2.prems"(2) one by (cases control1) auto
    with first show ?thesis by simp
  qed
qed

lemma v3_credentials_control: "v3_credentials c target [] st = (Next_credential, st)"
  by simp

lemma v3_site_settles:
  assumes u: "untouched q st0" and run: "v3_site c n target st0 = (control, st)"
  shows "if control = Returned then settled c q st else untouched q st"
proof (cases "RS_Credentials target = []")
  case True
  then show ?thesis using run untouched_update [OF u, of st] by (auto simp: v3_site_def)
next
  case False
  note run = run [unfolded v3_site_def if_not_P [OF False]]
  show ?thesis
  proof (cases "v3_permit c n target (V_DB st0)")
    case (Inl e)
    then show ?thesis using run untouched_update [OF u, of st] by auto
  next
    case (Inr p)
    obtain allowed db where p: "p = (allowed, db)" by (cases p) auto
    have quota: "G_Quota db = G_Quota (V_DB st0)"
      using Inr p by (auto simp: v3_permit_def Let_def and_then_def split: if_splits sum.splits)
    show ?thesis
    proof (cases allowed)
      case False
      then show ?thesis using run Inr p quota untouched_update [OF u, of st] by auto
    next
      case True
      let ?st = "st0\<lparr>V_DB := db, V_Sites := V_Sites st0 + 1, V_BuildFailures := 0\<rparr>"
      have u1: "untouched q ?st" by (rule untouched_update [OF u]) (simp_all add: quota)
      obtain control1 st1 where crs: "v3_credentials c target (RS_Credentials target) ?st = (control1, st1)"
        by (cases "v3_credentials c target (RS_Credentials target) ?st") auto
      note inner = v3_credentials_settles [OF u1 crs]
      show ?thesis
      proof (cases "control1 = Next_credential")
        case True
        then have "control = Next_site \<and> st = v3_misconfigured c n target st1"
          using run Inr p \<open>allowed\<close> crs by auto
        moreover have "untouched q (v3_misconfigured c n target st1)" if "untouched q st1"
          by (rule untouched_update [OF that]) (simp_all add: v3_misconfigured_def Let_def)
        ultimately show ?thesis using inner True by simp
      next
        case False
        then have "control = control1 \<and> st = st1"
          using run Inr p \<open>allowed\<close> crs by (cases control1) auto
        with inner show ?thesis by simp
      qed
    qed
  qed
qed

lemma v3_sites_settles:
  assumes "untouched q st0" and "v3_sites c m n targets st0 = (control, st)"
  shows "if control = Returned then settled c q st else untouched q st"
  using assms
proof (induction c m n targets st0 rule: v3_sites.induct)
  case (1 c m n st)
  then show ?case by auto
next
  case (2 c m n target targets st0)
  obtain control1 st1 where one: "v3_site c n target st0 = (control1, st1)" by (cases "v3_site c n target st0") auto
  note first = v3_site_settles [OF "2.prems"(1) one]
  show ?case
  proof (cases "V_Sites st0 \<ge> m")
    case True
    then show ?thesis using "2.prems" by auto
  next
    case False
    show ?thesis
    proof (cases "control1 = Next_site")
      case True
      with first have "untouched q st1" by simp
      from "2.IH" [OF False one [symmetric] True this] show ?thesis using "2.prems"(2) one True False by simp
    next
      case other: False
      then have "control = control1 \<and> st = st1"
        using "2.prems"(2) one False by (cases control1) auto
      with first show ?thesis by simp
    qed
  qed
qed

lemma v3_exhausted_settles:
  assumes u: "untouched q st0"
  shows "settled c q (v3_exhausted c st0)"
proof -
  obtain ok st where fin: "v3_finalize c (finish_of [] ''failed'' (V_LastStatus st0) None no_usage (V_LastError st0) False) st0 = (ok, st)"
    by (cases "v3_finalize c (finish_of [] ''failed'' (V_LastStatus st0) None no_usage (V_LastError st0) False) st0") auto
  from v3_finalize_settles [OF u fin] fin u show ?thesis
    by (auto simp: v3_exhausted_def settled_def untouched_def no_response_def finish_of_def internal_accounting_error_def
        write_openai_error_def split: bool.splits)
qed

text \<open>The whole run: after the deferred call the request is finished, unless both calls failed.\<close>

definition v3_closed :: "v3_call \<Rightarrow> quota_db \<Rightarrow> v3_state \<Rightarrow> bool" where
  "v3_closed c q st \<longleftrightarrow> W_Head (V_Client st) \<noteq> None \<and> FP_status (V_Pending st) \<in> {''success'', ''failed''} \<and>
     (if is_ok (finish_quota c (RE_Finish (VC_Env c)) (V_Pending st) q)
      then finish_quota c (RE_Finish (VC_Env c)) (V_Pending st) q = Inr (G_Quota (V_DB st)) \<and>
           (FP_charge (V_Pending st) \<longrightarrow> answered_ok (V_Client st))
      else G_Quota (V_DB st) = or_keep q (finish_quota c (RE_DeferredFinish (VC_Env c)) (V_Pending st) q))"

lemma v3_run_closed: "v3_closed c (G_Quota db) (v3_run c db)"
proof -
  obtain control st where loop: "v3_sites c (max_site_attempts c) 0 (RM_Targets (V3_Route (VC_Request c))) (v3_initial db) = (control, st)"
    by (cases "v3_sites c (max_site_attempts c) 0 (RM_Targets (V3_Route (VC_Request c))) (v3_initial db)") auto
  have u: "untouched (G_Quota db) (v3_initial db)"
    by (simp add: untouched_def v3_initial_def finish_of_def)
  define st1 where "st1 = (if control = Returned then st else v3_exhausted c st)"
  have run: "v3_run c db = v3_deferred c st1"
    using loop by (cases control) (simp_all add: v3_run_def st1_def)
  have "settled c (G_Quota db) st1"
    using v3_sites_settles [OF u loop] v3_exhausted_settles by (auto simp: st1_def split: if_splits)
  then show ?thesis
    by (auto simp: run v3_deferred_def v3_closed_def settled_def v3_finish_def is_ok_def or_keep_def split: sum.splits if_splits)
qed

end
