(* ===== verification/FailoverProps.thy ===== *)
theory FailoverProps
  imports FailoverLaws
begin

text \<open>
  The properties of the failover loop: a metered request is answered, settled and paid for only when the
  client got the upstream's success; the attempts follow the route within the budget; a failure that
  is the key's own does not touch the site's circuit.
\<close>

subsection \<open>A metered request settles\<close>

lemma settle_succeeds:
  assumes wf: "quota_wf db" and l: "l \<in> set (requests db)" "RL_ID l = request" "running l" "RL_KeyID l = Some key"
    and h: "h \<in> set (keys db)" "DK_ID h = key" "DK_Quota h = Some quota" and key: "0 < key"
    and b: "0 \<le> reserved" "reserved \<le> DK_Reserved h" "0 \<le> charged"
  shows "\<exists>db'. finish_request_and_settle redact request key reserved charged input db = Inr db'"
proof -
  note old = quota_wfD [OF wf]
  have ok: "key_ok h" using old(6) h(1) by simp
  note av = available_exact [OF ok h(3) b(1,2)]
  have used: "0 \<le> DK_Used h" "0 \<le> DK_Reserved h" "quota \<le> max_int64" "DK_Used h + DK_Reserved h \<le> quota"
    using ok h(3) by (auto simp: key_ok_def)
  have row: "row_by DK_ID key (keys db) = Some h" "row_by RL_ID request (requests db) = Some l"
    using row_by_eq_Some [OF old(1)] row_by_eq_Some [OF old(2)] h l by auto
  define avail where "avail = quota - DK_Used h - (DK_Reserved h - reserved)"
  have a: "0 \<le> avail" "DK_Used h \<le> max_int64 - avail" "wrap64 (wrap64 (quota - DK_Used h) - wrap64 (DK_Reserved h - reserved)) = avail"
    using av used b by (auto simp: avail_def)
  let ?P = "\<lambda>l. RL_ID l = request \<and> RL_KeyID l = Some key \<and> running l"
  have one: "snd (sql_update ?P f (requests db)) = 1" for f
    using update_count_le_one [OF old(2), of ?P request f] row l by simp
  have two: "snd (sql_update (\<lambda>r. DK_ID r = key \<and> DK_Reserved r = DK_Reserved h \<and> DK_Used r = DK_Used h \<and>
      DK_Used r \<le> max_int64 - x) g (keys db)) = 1" if "x \<le> avail" for g x
  proof -
    have "DK_Used h \<le> max_int64 - x" using that a(2) by linarith
    then show ?thesis by (subst update_count_le_one [OF old(1), of _ key]) (use row h in auto)
  qed
  have entries: "is_ok (insert_ledger_entries key request t (settle_entries reserved x)
      (db\<lparr>requests := rs, keys := fst (sql_update Q g (keys db))\<rparr>))"
    if "0 \<le> x" and "\<And>r. DK_ID (g r) = DK_ID r" for x g t rs Q
  proof -
    have "row_by DK_ID key (fst (sql_update Q g (keys db))) \<noteq> None"
      using h that(2) by (auto simp: row_by_None set_update)
    then show ?thesis
      using insert_ledger_entries_ok [OF settle_entries_pos [OF b(1) that(1)],
          of key "db\<lparr>requests := rs, keys := fst (sql_update Q g (keys db))\<rparr>" request t] by simp
  qed
  have final: "\<exists>db'. (let (requests', finished) = sql_update ?P f (requests db)
      in if finished \<noteq> 1 then Inl ErrRequestAlreadyFinished
         else let (keys', charged_rows) = sql_update (\<lambda>r. DK_ID r = key \<and> DK_Reserved r = DK_Reserved h \<and>
                    DK_Used r = DK_Used h \<and> DK_Used r \<le> max_int64 - x) g (keys db)
              in if charged_rows \<noteq> 1 then Inl ErrInvalidQuotaState
                 else insert_ledger_entries key request t (settle_entries reserved x)
                        (db\<lparr>requests := requests', keys := keys'\<rparr>)) = Inr db'"
    if "0 \<le> x" "x \<le> avail" "\<And>r. DK_ID (g r) = DK_ID r" for f g t x
    using one [of f] two [OF that(2), of g] entries [OF that(1,3)] by (simp add: case_prod_unfold is_ok_iff)
  show ?thesis
  proof (cases "charged > avail")
    case True
    have "\<not> (key \<le> 0 \<or> reserved < 0 \<or> charged < 0)" "\<not> (DK_Used h < 0 \<or> DK_Reserved h < reserved)"
      "\<not> (quota < 0 \<or> avail < 0)" using key b used a by auto
    then show ?thesis
      unfolding finish_request_and_settle_def row(1) option.case h(3) Let_def a(3)
      using True by (simp add: final [OF a(1) order_refl, unfolded Let_def] del: One_nat_def)
  next
    case False
    have "\<not> (key \<le> 0 \<or> reserved < 0 \<or> charged < 0)" "\<not> (DK_Used h < 0 \<or> DK_Reserved h < reserved)"
      "\<not> (quota < 0 \<or> avail < 0)" using key b used a by auto
    then show ?thesis
      unfolding finish_request_and_settle_def row(1) option.case h(3) Let_def a(3)
      using False by (simp add: final [OF b(3), unfolded Let_def] del: One_nat_def)
  qed
qed

lemma prepared_account:
  assumes "prepare_accounting_for_model P D engine now key meta body model = Inr acc"
  shows "RA_key acc = DK_ID key"
  using assms by (auto simp: prepare_accounting_for_model_def Let_def split: if_splits sum.splits option.splits)

lemma prepared_charge:
  assumes "prepare_accounting_for_model P D engine now key meta body model = Inr acc"
  shows "\<exists>charged tokens message q. compute_charge P acc params = Inr (charged, tokens, message, q) \<and> 0 \<le> charged \<and>
    (FP_charge params \<or> charged = 0)"
proof (cases "RA_reservation acc")
  case None
  then show ?thesis by (simp add: compute_charge_def)
next
  case (Some R')
  then obtain m mx R where R: "reserve_at P D engine m mx now = Inr R" "RA_maximum acc = Rv_maximum R" "Rv_snapshot R' = Rv_snapshot R"
    using prepare_accounting_InrD [OF assms] by auto
  obtain q1 where q1: "quote_snapshot P (Rv_snapshot R') (RA_maximum acc) = Inr q1"
    using reserve_at_InrD [OF R(1)] R(2,3) by metis
  obtain q0 where q0: "quote_snapshot P (Rv_snapshot R') zero_usage = Inr q0" "CB_total (Q_cost q0) = 0"
    using quote_zero [OF q1] by blast
  obtain s1 where s1: "settle P R' (RA_maximum acc) = Inr s1" using settle_Inr_iff q1 by blast
  obtain s0 where s0: "settle P R' zero_usage = Inr s0" using settle_Inr_iff q0(1) by blast
  have zero: "St_charged s0 = 0" using settle_charged [OF s0] q0 by auto
  have range: "0 \<le> St_charged s" if "settle P R' u = Inr s" for u s
    using settle_charged [OF that] quote_total_nonneg by auto
  from compute_charge_outcome [OF Some s1 s0, of params] obtain s tokens message where
    c: "compute_charge P acc params = Inr (St_charged s, tokens, message, Some (St_quote s))"
    and s: "s = (if \<not> FP_charge params then s0
           else if usage_complete (FP_tokens params)
           then (case settle P R' (billing_usage (FP_tokens params)) of Inl _ \<Rightarrow> s1 | Inr s \<Rightarrow> s) else s1)" by blast
  have "0 \<le> St_charged s"
    using range [OF s1] range [OF s0] range by (auto simp: s split: sum.splits)
  with c s zero show ?thesis by auto
qed

abbreviation key_holds :: "key_row \<Rightarrow> int \<times> int" where
  "key_holds k \<equiv> (DK_ID k, DK_Reserved k)"

abbreviation key_spent :: "key_row \<Rightarrow> int \<times> int" where
  "key_spent k \<equiv> (DK_ID k, DK_Used k)"

text \<open>A metered request, from its reservation to its one finish.\<close>

lemma metered_finish:
  assumes wf: "quota_wf q" and start: "start_request_with_reservation input reserved True q = Inr q1"
    and key: "0 < RS_DownstreamKeyID input" and charged: "0 \<le> charged" and status: "RF_Status fin \<noteq> ''running''"
  obtains q2 where "finish_request_and_settle redact (RS_ID input) (RS_DownstreamKeyID input) reserved charged fin q1 = Inr q2"
    and "quota_wf q2" and "map key_holds (keys q2) = map key_holds (keys q)"
    and "charged = 0 \<Longrightarrow> map key_spent (keys q2) = map key_spent (keys q)"
    and "\<exists>l \<in> set (requests q2). RL_ID l = RS_ID input \<and> \<not> running l"
proof -
  let ?key = "RS_DownstreamKeyID input" and ?id = "RS_ID input"
  note old = quota_wfD [OF wf]
  have wf1: "quota_wf q1" by (rule start_wf [OF wf start])
  let ?P = "\<lambda>k. DK_ID k = ?key \<and> may_reserve reserved (RS_StartedAt input) k"
  let ?f = "\<lambda>k. k\<lparr>DK_Reserved := DK_Reserved k + reserved, DK_LastUsedAt := Some (RS_StartedAt input),
               DK_UpdatedAt := RS_StartedAt input\<rparr>"
  from start_reserved_ok [OF wf start] obtain h l where h: "h \<in> set (keys q)" "DK_ID h = ?key"
    and may: "may_reserve reserved (RS_StartedAt input) h" and pos: "0 < reserved"
    and l: "RL_ID l = ?id" "running l" "RL_KeyID l = Some ?key" and fresh: "row_by RL_ID ?id (requests q) = None"
    and only: "\<forall>r \<in> set (keys q). ?P r \<longleftrightarrow> r = h"
    and q1: "q1 = q\<lparr>keys := fst (sql_update ?P ?f (keys q)), requests := requests q @ [l],
      ledger := ledger q @ [\<lparr>QL_KeyID = ?key, QL_RequestID = ?id, QL_Type = ''reserve'', QL_Amount = reserved,
        QL_CreatedAt = RS_StartedAt input\<rparr>]\<rparr>" .
  have h1: "?f h \<in> set (keys q1)" using h(1) only by (auto simp: q1 set_update)
  have l1: "l \<in> set (requests q1)" by (simp add: q1)
  have "outstanding (ledger q) ?id k = 0" for k
    using old(4) fresh by (intro outstanding_none) (fastforce simp: ledger_row_ok_def row_by_None)
  then have own: "outstanding (ledger q1) ?id ?key = reserved"
    by (simp add: q1 outstanding_append outstanding_one ledger_sign_def)
  obtain quota where quota: "DK_Quota (?f h) = Some quota"
    using may by (auto simp: may_reserve_def split: option.splits)
  have "0 \<le> DK_Reserved h" using old(6) [OF h(1)] by (simp add: key_ok_def)
  then obtain q2 where q2: "finish_request_and_settle redact ?id ?key reserved charged fin q1 = Inr q2"
    using settle_succeeds [OF wf1 l1 l h1 _ quota key _ _ charged, of reserved redact fin] h(2) pos by auto
  have wf2: "quota_wf q2" by (rule settle_wf [OF wf1 q2 status own])
  from settle_ok [OF wf1 q2] obtain h' l' fin' where h': "h' \<in> set (keys q1)" "DK_ID h' = ?key"
    and l': "l' \<in> set (requests q1)" "RL_ID l' = ?id" "running l'" "RL_KeyID l' = Some ?key"
    and top: "DK_Used h' + applied_charge h' reserved charged \<le> max_int64"
    and same: "fin'\<lparr>RF_ErrorMessage := ''''\<rparr> = fin\<lparr>RF_ErrorMessage := ''''\<rparr>"
    and q2eq: "q2 = q1\<lparr>requests := fst (sql_update (\<lambda>l. RL_ID l = ?id \<and> RL_KeyID l = Some ?key \<and> running l)
          (finish_request_row redact fin') (requests q1)),
        keys := fst (sql_update
          (\<lambda>r. DK_ID r = ?key \<and> DK_Reserved r = DK_Reserved h' \<and> DK_Used r = DK_Used h' \<and>
               DK_Used r \<le> max_int64 - applied_charge h' reserved charged)
          (\<lambda>r. r\<lparr>DK_Reserved := DK_Reserved r - reserved, DK_Used := DK_Used r + applied_charge h' reserved charged,
                 DK_UpdatedAt := RF_FinishedAt fin'\<rparr>) (keys q1)),
        ledger := ledger q1 @ map (entry_row ?key ?id (RF_FinishedAt fin'))
          (settle_entries reserved (applied_charge h' reserved charged))\<rparr>" .
  have h'eq: "h' = ?f h"
    using h' h1 h(2) quota_wfD(1) [OF wf1] by (auto simp: unique_key_def distinct_map inj_on_def)
  have key_of: "DK_ID k = ?key \<longleftrightarrow> k = h" if "k \<in> set (keys q)" for k
    using that h old(1) by (auto simp: unique_key_def distinct_map inj_on_def)
  have holds: "map key_holds (keys q2) = map key_holds (keys q)"
    using only key_of h(2) top by (auto simp: q2eq q1 sql_update_def h'eq)
  have zero: "applied_charge h' reserved 0 = 0"
    using available_exact(2) [of "?f h" quota reserved] quota pos \<open>0 \<le> DK_Reserved h\<close> quota_wfD(6) [OF wf1 h1]
    by (simp add: applied_charge_def h'eq)
  have spent: "map key_spent (keys q2) = map key_spent (keys q)" if "charged = 0"
    using only key_of h(2) top by (auto simp: q2eq q1 sql_update_def zero [unfolded h'eq] that h'eq)
  have "RF_Status fin' = RF_Status fin" using arg_cong [OF same, of RF_Status] by simp
  then have "\<exists>l \<in> set (requests q2). RL_ID l = ?id \<and> \<not> running l"
    using l' status by (intro bexI [of _ "finish_request_row redact fin' l'"])
      (auto simp: q2eq set_update finish_request_row_def running_def)
  from that [OF q2 wf2 holds spent this] show thesis .
qed

lemma finish_of_charge:
  assumes "prepare_accounting_for_model (GW_ParseRat gw) D engine now key meta body model = Inr acc"
  obtains charged fin where "0 \<le> charged" and "FP_charge params \<or> charged = 0" and "RF_Status fin = FP_status params"
    and "gateway_finish (GW_ParseRat gw) encode redact request duration t acc params q =
      (case finish_request_and_settle redact request (DK_ID key) (RA_reserved acc) charged fin q of
         Inl e \<Rightarrow> Inl (Store_error e) | Inr q' \<Rightarrow> Inr q')"
proof -
  obtain charged tokens message qt where c: "compute_charge (GW_ParseRat gw) acc params = Inr (charged, tokens, message, qt)"
    "0 \<le> charged" "FP_charge params \<or> charged = 0"
    using prepared_charge [OF assms, of params] by blast
  define fin where "fin = \<lparr>RF_ActualModel = FP_model params, RF_Status = FP_status params, RF_HTTPStatus = FP_http_status params,
            RF_FirstTokenMS = FP_first_token params, RF_DurationMS = duration, RF_InputTokens = T_input tokens,
            RF_CacheReadTokens = T_cache_read tokens, RF_CacheWriteTokens = T_cache_write tokens,
            RF_CacheWrite1HTokens = T_cache_write_1h tokens, RF_OutputTokens = T_output tokens,
            RF_ReasoningTokens = T_reasoning tokens, RF_CostMicroUSD = charged,
            RF_PriceSnapshotJSON = (case qt of None \<Rightarrow> [] | Some q' \<Rightarrow> encode q'), RF_ErrorMessage = message,
            RF_FinishedAt = t\<rparr>"
  show thesis
    by (rule that [OF c(2,3), of fin])
      (simp_all add: fin_def gateway_finish_def c(1) prepared_account [OF assms])
qed

lemma write_openai_error_head [simp]:
  "W_Head (write_openai_error gw status message code no_response) =
     Some (status, [(''Content-Type'', [''application/json; charset=utf-8''])])"
  by (simp add: write_openai_error_def no_response_def)

lemma served_request:
  assumes wf: "quota_wf (G_Quota db)" and metered: "DK_Quota (V3_Key rq) \<noteq> None" and key: "0 < DK_ID (V3_Key rq)"
    and serve: "serve_v3_inference gw env rq db = (w, db')"
  shows "W_Head w \<noteq> None \<and> quota_wf (G_Quota db') \<and>
    map key_holds (keys (G_Quota db')) = map key_holds (keys (G_Quota db)) \<and>
    (answered_ok w \<or> map key_spent (keys (G_Quota db')) = map key_spent (keys (G_Quota db))) \<and>
    (G_Quota db' = G_Quota db \<or> (\<exists>l \<in> set (requests (G_Quota db')). RL_ID l = RE_ID env \<and> \<not> running l))"
proof -
  let ?q = "G_Quota db"
  define pm where "pm = first_non_empty_string [PM_OfficialPriceSKU (RM_Model (V3_Route rq)), PM_PublicName (RM_Model (V3_Route rq))]"
  define prep where "prep = prepare_accounting_for_model (GW_ParseRat gw) (GW_ParseDate gw) (GW_Billing gw) (RE_PriceNow env) (V3_Key rq)
      (V3_Meta rq) (V3_Body rq) pm"
  note serve = serve [unfolded serve_v3_inference_def Let_def, folded pm_def, folded prep_def]
  have refused: ?thesis if "W_Head w \<noteq> None" "db' = db"
    using that wf by simp
  show ?thesis
  proof (cases prep)
    case (Inl e)
    show ?thesis by (rule refused) (use serve Inl in \<open>auto split: if_splits\<close>)
  next
    case (Inr acc)
    define start where "start = start_request_with_reservation (v3_request_start env rq) (RA_reserved acc) True ?q"
    note serve = serve [unfolded Inr sum.case]
    have fin: "(DK_Quota (V3_Key rq) \<noteq> None) = True" using metered by simp
    note serve = serve [unfolded fin, folded start_def]
    show ?thesis
    proof (cases start)
      case (Inl e)
      show ?thesis by (rule refused) (use serve Inl in \<open>cases e; auto\<close>)+
    next
      case started: (Inr q1)
      define c where "c = \<lparr>VC_Gateway = gw, VC_Request = rq, VC_Env = env, VC_Account = acc\<rparr>"
      define st where "st = v3_run c (db\<lparr>G_Quota := q1\<rparr>)"
      have w: "w = V_Client st" "db' = V_DB st"
        using serve started by (simp_all add: st_def c_def)
      have closed: "v3_closed c q1 st"
        using v3_run_closed [of c "db\<lparr>G_Quota := q1\<rparr>"] by (simp add: st_def)
      let ?p = "V_Pending st"
      obtain charged f where charged: "0 \<le> charged" "FP_charge ?p \<or> charged = 0" "RF_Status f = FP_status ?p"
        and finish: "finish_quota c (RE_Finish env) ?p q1 =
          (case finish_request_and_settle (GW_Redact gw) (RE_ID env) (DK_ID (V3_Key rq)) (RA_reserved acc) charged f q1 of
             Inl e \<Rightarrow> Inl (Store_error e) | Inr q' \<Rightarrow> Inr q')"
        using finish_of_charge [OF Inr [unfolded prep_def], of ?p "GW_EncodeQuote gw" "GW_Redact gw" "RE_ID env"
            "fst (RE_Finish env)" "snd (RE_Finish env)" q1] by (auto simp: c_def)
      have ids: "RS_ID (v3_request_start env rq) = RE_ID env" "RS_DownstreamKeyID (v3_request_start env rq) = DK_ID (V3_Key rq)"
        by (simp_all add: v3_request_start_def Let_def)
      have status: "RF_Status f \<noteq> ''running''" using closed charged(3) by (auto simp: v3_closed_def)
      from metered_finish [OF wf started [unfolded start_def] _ charged(1) status, of "GW_Redact gw", unfolded ids, OF key]
      obtain q2 where q2: "finish_request_and_settle (GW_Redact gw) (RE_ID env) (DK_ID (V3_Key rq)) (RA_reserved acc) charged f q1 = Inr q2"
        "quota_wf q2" "map key_holds (keys q2) = map key_holds (keys ?q)"
        "charged = 0 \<Longrightarrow> map key_spent (keys q2) = map key_spent (keys ?q)"
        "\<exists>l \<in> set (requests q2). RL_ID l = RE_ID env \<and> \<not> running l" by blast
      have ok: "finish_quota c (RE_Finish env) ?p q1 = Inr q2" by (simp add: finish q2(1))
      then have "G_Quota (V_DB st) = q2" "FP_charge ?p \<longrightarrow> answered_ok (V_Client st)" "W_Head (V_Client st) \<noteq> None"
        using closed by (simp_all add: v3_closed_def is_ok_def c_def)
      with q2 charged(2) show ?thesis by (auto simp: w)
    qed
  qed
qed

subsection \<open>A run\<close>

text \<open>
  Two sites; the first has two keys. The first key is refused with 401, the second gets a 500, the second site
  answers.
\<close>

definition demo_site :: "int \<Rightarrow> site_row" where
  "demo_site n = \<lparr>S_ID = n, S_Name = ''s'', S_DashboardURL = [], S_Enabled = True, S_Revision = 1, S_CreatedAt = 1, S_UpdatedAt = 1\<rparr>"

definition demo_endpoint :: "int \<Rightarrow> endpoint_row" where
  "demo_endpoint n = \<lparr>E_ID = n, E_SiteID = n, E_Name = ''e'', E_BaseURL = ''u'', E_WireProtocol = ''openai'',
     E_CompatibilityProfile = ''generic'', E_AuthScheme = ''bearer'', E_CustomHeaders = ''{}'', E_Position = 0,
     E_Enabled = True, E_Revision = 1, E_CreatedAt = 1, E_UpdatedAt = 1\<rparr>"

definition demo_credential :: "int \<Rightarrow> int \<Rightarrow> credential_row" where
  "demo_credential n site = \<lparr>CR_ID = n, CR_SiteID = site, CR_Name = ''c'', CR_SecretCipher = ''x'', CR_Position = 0,
     CR_Enabled = True, CR_RuntimeState = ''active'', CR_CooldownUntil = None, CR_LastTestAt = None, CR_LastTestStatus = [],
     CR_LastErrorMessage = [], CR_Revision = 1, CR_CreatedAt = 1, CR_UpdatedAt = 1\<rparr>"

definition demo_site_model :: "int \<Rightarrow> site_model_row" where
  "demo_site_model n = \<lparr>SM_ID = n, SM_SiteID = n, SM_EndpointID = n, SM_ModelName = ''m'', SM_DisplayName = ''m'',
     SM_Enabled = True, SM_Stale = False, SM_MissingCount = 0, SM_LastSeenAt = None, SM_Revision = 1, SM_CreatedAt = 1,
     SM_UpdatedAt = 1\<rparr>"

definition demo_target :: "int \<Rightarrow> target_row" where
  "demo_target n = \<lparr>RT_ID = n, RT_PublishedModelID = 1, RT_SiteID = n, RT_EndpointID = n, RT_SiteModelID = n,
     RT_Position = n - 1, RT_Enabled = True, RT_Revision = 1, RT_CreatedAt = 1, RT_UpdatedAt = 1\<rparr>"

definition demo_published :: published_row where
  "demo_published = \<lparr>PM_ID = 1, PM_PublicName = ''gpt-x'', PM_DisplayName = ''gpt-x'', PM_OfficialPriceSKU = ''GPT-X'',
     PM_Enabled = True, PM_MonitorEnabled = False, PM_MonitorIntervalSeconds = 60, PM_CooldownSeconds = 60,
     PM_FailureThreshold = 3, PM_FailureWindowSeconds = 60, PM_FirstOutputTimeoutSeconds = 30,
     PM_StreamIdleTimeoutSeconds = 60, PM_RequestDeadlineSeconds = 120, PM_MaxAttempts = 3, PM_Revision = 1,
     PM_CreatedAt = 1, PM_UpdatedAt = 1\<rparr>"

definition demo_resolved :: "int \<Rightarrow> int list \<Rightarrow> resolved_target" where
  "demo_resolved n credentials = \<lparr>RS_Target = demo_target n, RS_Site = demo_site n, RS_Endpoint = demo_endpoint n,
     RS_Model = demo_site_model n, RS_Credentials = map (\<lambda>c. demo_credential c n) credentials\<rparr>"

definition demo_route :: resolved_model where
  "demo_route = \<lparr>RM_Model = demo_published, RM_RoutingProfileID = None, RM_RoutingProfileName = ''Default route'',
     RM_Targets = [demo_resolved 1 [1, 2], demo_resolved 2 [3]]\<rparr>"

definition demo_quota_db :: quota_db where
  "demo_quota_db = (case create_downstream_key (\<lambda>_. ''h'') 5 (demo_key_write\<lparr>KW_Quota := Some 1000000\<rparr>) ''p'' ''sk''
       (empty_quota_db [] [] [1]) of Inl _ \<Rightarrow> empty_quota_db [] [] [1] | Inr (_, db) \<Rightarrow> db)"

definition demo_policy :: model_policy_row where
  "demo_policy = \<lparr>MP_ID = 1, MP_Policy = \<lparr>FailureThreshold = 2, FailureWindowSeconds = 60, CooldownSeconds = 60\<rparr>\<rparr>"

definition demo_gateway_db :: gateway_db where
  "demo_gateway_db = \<lparr>G_Quota = demo_quota_db,
     G_Health = \<lparr>site_targets = map (\<lambda>n. \<lparr>TR_ID = n, TR_PublishedModelID = 1, TR_Position = n - 1\<rparr>) [1, 2],
                 model_policies = [demo_policy], target_health_rows = []\<rparr>,
     G_Site = empty_site_db\<lparr>db_sites := map demo_site [1, 2], db_endpoints := map demo_endpoint [1, 2],
       db_credentials := [demo_credential 1 1, demo_credential 2 1, demo_credential 3 2],
       db_models := map demo_site_model [1, 2], db_published := [demo_published], db_targets := map demo_target [1, 2]\<rparr>,
     G_Attempts = []\<rparr>"

definition demo_gateway :: gateway where
  "demo_gateway = \<lparr>GW_ParseRat = plain_decimal, GW_ParseDate = example_date, GW_Billing = Some example_catalog',
     GW_EncodeQuote = (\<lambda>_. []), GW_Redact = id, GW_ParseHTTPTime = (\<lambda>_. None), GW_Codec = demo_codec,
     GW_ErrorJSON = (\<lambda>message code. message), GW_AccountingErrorText = (\<lambda>_. ''error'')\<rparr>"

definition demo_surface :: inference_surface where
  "demo_surface = \<lparr>SF_Name = ''chat_completions'', SF_ParseMeta = (\<lambda>_. Inl Invalid_json),
     SF_BuildResolved = (\<lambda>_ _ _. None), SF_ValidateResponse = (\<lambda>_. None)\<rparr>"

definition demo_v3_request :: v3_request where
  "demo_v3_request = \<lparr>V3_Key = hd (keys demo_quota_db), V3_Meta = \<lparr>M_model = ''gpt-x'', M_stream = False,
     M_reasoning_effort = [], M_thinking_budget = None, M_max_output = 500\<rparr>, V3_Body = ''{}'', V3_Surface = demo_surface,
     V3_Route = demo_route\<rparr>"

definition demo_outcome :: "nat \<Rightarrow> upstream_result" where
  "demo_outcome k = (if k = 0 then Do_response 401 None ''no'' Read_EOF
     else if k = 1 then Do_response 500 None ''oops'' Read_EOF else Do_response 200 None ''hello'' Read_EOF)"

definition demo_env :: "(nat \<Rightarrow> upstream_result) \<Rightarrow> request_env" where
  "demo_env outcome = \<lparr>RE_ID = ''r1'', RE_PriceNow = 0, RE_StartedMS = 10,
     RE_Site = (\<lambda>_. \<lparr>SE_DeadlineOver = False, SE_NowMS = 20, SE_ClientGone = False, SE_EndedMS = 90\<rparr>),
     RE_Attempt = (\<lambda>k. \<lparr>AE_DeadlineOver = False, AE_StartedMS = 20, AE_Do = outcome k,
       AE_Lines = (\<lambda>_. \<lparr>LE_ElapsedMS = 1, LE_WriteOK = True\<rparr>), AE_TimeoutPhase = [], AE_ClientGone = False,
       AE_NowNS = 30000000, AE_LatencyMS = 10\<rparr>),
     RE_Finish = (80, 90), RE_DeferredFinish = (80, 90)\<rparr>"

abbreviation demo_served :: "client_response \<times> gateway_db" where
  "demo_served \<equiv> serve_v3_inference demo_gateway (demo_env demo_outcome) demo_v3_request demo_gateway_db"

lemma demo_spent: "map key_spent (keys (G_Quota (snd demo_served))) = [(1, 7565)]"
  by code_simp

lemma demo_quota_row: "map (\<lambda>k. (DK_ID k, DK_Used k, DK_Reserved k, DK_Quota k)) (keys demo_quota_db) = [(1, 0, 0, Some 1000000)]"
  by code_simp

lemma demo_quota_reachable: "(quota_step (\<lambda>_. ''h'') id)\<^sup>*\<^sup>* (empty_quota_db [] [] [1]) demo_quota_db"
proof -
  let ?new = "create_downstream_key (\<lambda>_. ''h'') 5 (demo_key_write\<lparr>KW_Quota := Some 1000000\<rparr>) ''p'' ''sk'' (empty_quota_db [] [] [1])"
  have "is_ok ?new" by code_simp
  then obtain n where "?new = Inr (n, demo_quota_db)"
    by (cases ?new) (auto simp: demo_quota_db_def is_ok_def)
  then have "quota_step (\<lambda>_. ''h'') id (empty_quota_db [] [] [1]) demo_quota_db"
    by (rule quota_step.create) (simp add: demo_key_write_def)
  then show ?thesis by (rule r_into_rtranclp)
qed

text \<open>
  \<^bold>\<open>C6.\<close> The life of a metered request, whatever the upstreams, the clocks and the client do.
  From every state the store can be in, the handler answers the client; it leaves the store in order, with
  no amount reserved that was not reserved before; the request is on record as finished or was never
  admitted; and the key has spent something only if the client was sent a success of an upstream.
\<close>

theorem metered_request_life:
  assumes "(quota_step digest redact)\<^sup>*\<^sup>* (empty_quota_db profiles routes models) (G_Quota db)"
    and "DK_Quota (V3_Key rq) = Some quota" and "0 < DK_ID (V3_Key rq)"
    and "serve_v3_inference gw env rq db = (w, db')"
  shows "W_Head w \<noteq> None \<and> quota_wf (G_Quota db') \<and>
    map (\<lambda>k. (DK_ID k, DK_Reserved k)) (keys (G_Quota db')) = map (\<lambda>k. (DK_ID k, DK_Reserved k)) (keys (G_Quota db)) \<and>
    (G_Quota db' = G_Quota db \<or> (\<exists>l \<in> set (requests (G_Quota db')). RL_ID l = RE_ID env \<and> \<not> running l)) \<and>
    (map (\<lambda>k. (DK_ID k, DK_Used k)) (keys (G_Quota db')) = map (\<lambda>k. (DK_ID k, DK_Used k)) (keys (G_Quota db)) \<or>
     (\<exists>status headers. W_Head w = Some (status, headers) \<and> 200 \<le> status \<and> status < 300))"
  using served_request [OF quota_reachable_wf [OF assms(1) empty_quota_db_wf] _ assms(3,4)] assms(2)
  by (auto simp: answered_ok_def split: option.splits)

theorem metered_request_life_witness:
  "map (\<lambda>k. (DK_ID k, DK_Used k)) (keys (G_Quota (snd demo_served))) = [(1, 7565)] \<and>
   map (\<lambda>k. (DK_ID k, DK_Reserved k)) (keys (G_Quota (snd demo_served))) = [(1, 0)] \<and>
   (\<exists>status headers. W_Head (fst demo_served) = Some (status, headers) \<and> 200 \<le> status \<and> status < 300)"
proof -
  have start: "(quota_step (\<lambda>_. ''h'') id)\<^sup>*\<^sup>* (empty_quota_db [] [] [1]) (G_Quota demo_gateway_db)"
    using demo_quota_reachable by (simp add: demo_gateway_db_def)
  obtain k where k: "keys demo_quota_db = [k]" "DK_ID k = 1" "DK_Used k = 0" "DK_Reserved k = 0" "DK_Quota k = Some 1000000"
    using demo_quota_row by (cases "keys demo_quota_db") auto
  have key: "V3_Key demo_v3_request = k" by (simp add: demo_v3_request_def k)
  have "keys (G_Quota demo_gateway_db) = [k]" by (simp add: demo_gateway_db_def k)
  then show ?thesis
    using metered_request_life [OF start, of demo_v3_request 1000000 demo_gateway "demo_env demo_outcome" "fst demo_served" "snd demo_served"]
      key k demo_spent by auto
qed

subsection \<open>The attempts follow the route\<close>

lemma v3_finalize_log [simp]:
  "G_Attempts (V_DB (snd (v3_finalize c p st))) = G_Attempts (V_DB st)"
  "V_Sites (snd (v3_finalize c p st)) = V_Sites st" "V_Attempts (snd (v3_finalize c p st)) = V_Attempts st"
  by (auto simp: v3_finalize_def v3_finish_def Let_def split: sum.splits)

lemma v3_pass_on_log:
  assumes "v3_pass_on c p status headers body st0 = (control, st)"
  shows "control = Returned \<and> G_Attempts (V_DB st) = G_Attempts (V_DB st0) \<and> V_Sites st = V_Sites st0 \<and> V_Attempts st = V_Attempts st0"
  using assms v3_finalize_log [of c p st0]
  by (cases "v3_finalize c p st0") (auto simp: v3_pass_on_def split: bool.splits)

text \<open>What one attempt adds to the log: at most its own row, which says \<open>failed\<close> unless the loop ends with it.\<close>

definition one_attempt :: "v3_call \<Rightarrow> nat \<Rightarrow> resolved_target \<Rightarrow> credential_row \<Rightarrow> v3_state \<Rightarrow> v3_control \<Rightarrow> v3_state \<Rightarrow> bool" where
  "one_attempt c k target credential st0 control st \<longleftrightarrow> V_Sites st = V_Sites st0 \<and> V_Attempts st = V_Attempts st0 \<and>
     (\<exists>rows. G_Attempts (V_DB st) = G_Attempts (V_DB st0) @ rows \<and>
       (rows = [] \<or> (\<exists>a status. rows = [a] \<and> attempt_of c k target credential status a \<and> (status = ''failed'' \<or> control = Returned))))"

lemma one_attemptI:
  assumes "G_Attempts (V_DB st) = G_Attempts (add_v3_attempt c k target credential status http reason cls message first_token db)"
    and "G_Attempts db = G_Attempts (V_DB st0)" and "status = ''failed'' \<or> control = Returned"
    and "V_Sites st = V_Sites st0" and "V_Attempts st = V_Attempts st0"
  shows "one_attempt c k target credential st0 control st"
  using add_v3_attempt_rows [of c k target credential status http reason cls message first_token db] assms
  by (fastforce simp: one_attempt_def)

lemma v3_cancelled_attempts:
  "G_Attempts (V_DB (v3_cancelled c k target credential status first_token st)) =
   G_Attempts (add_v3_attempt c k target credential ''failed'' status ''downstream_cancelled'' ''client_cancelled''
     downstream_cancelled first_token (V_DB st))"
  by (simp add: v3_cancelled_def)

lemma v3_transport_logged:
  "v3_transport_failed c k target credential err st0 = (control, st) \<Longrightarrow> one_attempt c k target credential st0 control st"
  by (auto simp: v3_transport_failed_def Let_def v3_cancelled_attempts split: if_splits intro!: one_attemptI)

lemma v3_answer_failed_logged:
  "v3_answer_failed c k target credential status headers e st0 = (control, st) \<Longrightarrow> one_attempt c k target credential st0 control st"
  by (auto simp: v3_answer_failed_def Let_def v3_cancelled_attempts split: if_splits intro!: one_attemptI)

lemma v3_stream_logged:
  assumes "v3_stream_done c k target credential status headers px err0 st0 = (control, st)"
  shows "one_attempt c k target credential st0 control st"
  using assms unfolding v3_stream_done_def Let_def
  by (auto simp: v3_cancelled_attempts split: if_splits option.splits intro!: one_attemptI)

lemma v3_answer_read_logged:
  assumes "v3_answer_read c k target credential status headers body st0 = (control, st)"
  shows "one_attempt c k target credential st0 control st"
  using assms unfolding v3_answer_read_def Let_def
  by (auto simp: case_prod_unfold split: if_splits option.splits dest!: v3_pass_on_log intro!: one_attemptI)

definition attempt_pair :: "attempt_row \<Rightarrow> int option \<times> int option" where
  "attempt_pair a = (AT_RouteSiteTargetID a, AT_CredentialID a)"

definition target_pairs :: "resolved_target \<Rightarrow> (int option \<times> int option) list" where
  "target_pairs t = map (\<lambda>cr. (Some (RT_ID (RS_Target t)), Some (CR_ID cr))) (RS_Credentials t)"

text \<open>The attempts of a part of the loop: in the order of \<open>pairs\<close>, numbered upwards, all failed but perhaps the last.\<close>

definition follows ::
  "v3_call \<Rightarrow> (int option \<times> int option) list \<Rightarrow> v3_state \<Rightarrow> v3_control \<Rightarrow> v3_state \<Rightarrow> attempt_row list \<Rightarrow> bool" where
  "follows c pairs st0 control st rows \<longleftrightarrow>
     G_Attempts (V_DB st) = G_Attempts (V_DB st0) @ rows \<and> V_Attempts st0 \<le> V_Attempts st \<and>
     subseq (map attempt_pair rows) pairs \<and>
     (\<forall>a\<in>set rows. AT_RequestID a = RE_ID (VC_Env c) \<and> int (V_Attempts st0) \<le> AT_Index a \<and> AT_Index a < int (V_Attempts st)) \<and>
     sorted_wrt (<) (map AT_Index rows) \<and> (\<forall>a\<in>set (butlast rows). AT_Status a = ''failed'') \<and>
     (control = Returned \<or> (\<forall>a\<in>set rows. AT_Status a = ''failed''))"

lemma follows_refl: "G_Attempts (V_DB st) = G_Attempts (V_DB st0) \<Longrightarrow> V_Attempts st = V_Attempts st0 \<Longrightarrow> follows c pairs st0 control st []"
  by (simp add: follows_def)

lemma follows_trans:
  assumes "follows c p1 st0 control1 st1 rows1" and "control1 \<noteq> Returned" and "follows c p2 st1 control st rows2"
  shows "follows c (p1 @ p2) st0 control st (rows1 @ rows2)"
  using assms by (fastforce simp: follows_def sorted_wrt_append butlast_append list_emb_append_mono dest: in_set_butlastD)

lemma follows_more: "follows c p1 st0 control st rows \<Longrightarrow> follows c (p1 @ p2) st0 control st rows"
  by (auto simp: follows_def intro: list_emb_append2)

lemma follows_same:
  "follows c p st0 control st rows \<Longrightarrow> G_Attempts (V_DB st') = G_Attempts (V_DB st) \<Longrightarrow> V_Attempts st' = V_Attempts st \<Longrightarrow>
     follows c p st0 control st' rows"
  by (simp add: follows_def)

lemma follows_from:
  "follows c p st0' control st rows \<Longrightarrow> G_Attempts (V_DB st0') = G_Attempts (V_DB st0) \<Longrightarrow> V_Attempts st0' = V_Attempts st0 \<Longrightarrow>
     follows c p st0 control st rows"
  by (simp add: follows_def)

lemma follows_control:
  "follows c p st0 control st rows \<Longrightarrow> control \<noteq> Returned \<Longrightarrow> follows c p st0 control' st rows"
  by (simp add: follows_def)

lemma one_attempt_follows:
  assumes "one_attempt c (V_Attempts st0) target credential (st0\<lparr>V_Attempts := Suc (V_Attempts st0)\<rparr>) control st"
  shows "V_Sites st = V_Sites st0 \<and> (\<exists>rows. follows c [(Some (RT_ID (RS_Target target)), Some (CR_ID credential))] st0 control st rows)"
  using assms by (fastforce simp: one_attempt_def follows_def attempt_of_def attempt_pair_def)

lemma v3_attempt_follows:
  assumes run: "v3_attempt c target credential st0 = (control, st)"
  shows "V_Sites st = V_Sites st0 \<and> (\<exists>rows. follows c [(Some (RT_ID (RS_Target target)), Some (CR_ID credential))] st0 control st rows)"
proof -
  define k where "k = V_Attempts st0"
  let ?ae = "RE_Attempt (VC_Env c) k"
  let ?st = "st0\<lparr>V_Attempts := Suc k\<rparr>"
  note run = run [unfolded v3_attempt_def Let_def, folded k_def]
  show ?thesis
  proof (cases "AE_DeadlineOver ?ae")
    case True
    then show ?thesis using run by (auto intro!: exI [of _ "[]"] follows_refl)
  next
    case False
    have "one_attempt c k target credential ?st control st"
    proof (cases "SF_BuildResolved (V3_Surface (VC_Request c)) target credential (V3_Body (VC_Request c))")
      case (Some err)
      then show ?thesis using run False by (auto intro!: one_attemptI)
    next
      case None
      show ?thesis
      proof (cases "AE_Do ?ae")
        case (Do_failed err)
        then show ?thesis using run False None by (auto intro: v3_transport_logged)
      next
        case (Do_response status headers body e)
        then show ?thesis
          using run False None
          by (cases "read_limited body e")
            (auto simp: case_prod_unfold split: if_splits intro: v3_stream_logged v3_answer_failed_logged v3_answer_read_logged)
      qed
    qed
    then show ?thesis unfolding k_def by (rule one_attempt_follows)
  qed
qed

lemma v3_credentials_follows:
  assumes "v3_credentials c target crs st0 = (control, st)"
  shows "V_Sites st = V_Sites st0 \<and>
    (\<exists>rows. follows c (map (\<lambda>cr. (Some (RT_ID (RS_Target target)), Some (CR_ID cr))) crs) st0 control st rows)"
  using assms
proof (induction c target crs st0 rule: v3_credentials.induct)
  case (1 c target st)
  then show ?case by (auto intro: follows_refl)
next
  case (2 c target cr crs st0)
  let ?pair = "\<lambda>cr. (Some (RT_ID (RS_Target target)), Some (CR_ID cr))"
  obtain control1 st1 where one: "v3_attempt c target cr st0 = (control1, st1)" by (cases "v3_attempt c target cr st0") auto
  from v3_attempt_follows [OF one] obtain rows1 where sites: "V_Sites st1 = V_Sites st0"
    and first: "follows c [?pair cr] st0 control1 st1 rows1" by blast
  show ?case
  proof (cases "control1 = Next_credential")
    case True
    then have rest: "v3_credentials c target crs st1 = (control, st)" using "2.prems" one by simp
    from "2.IH" [OF one [symmetric] True rest] obtain rows2 where "V_Sites st = V_Sites st1"
      "follows c (map ?pair crs) st1 control st rows2" by blast
    with follows_trans [OF first _ this(2)] True sites show ?thesis by auto
  next
    case False
    then have "control = control1 \<and> st = st1"
      using "2.prems" one by (cases control1) auto
    with follows_more [OF first, of "map ?pair crs"] sites show ?thesis by auto
  qed
qed

lemma follows_targets:
  assumes "follows c pairs st0 control st rows"
  shows "AT_RouteSiteTargetID ` set rows \<subseteq> fst ` set pairs"
proof -
  have "attempt_pair ` set rows \<subseteq> set pairs"
    using assms by (fastforce simp: follows_def elim: list_emb_set)
  then have "fst ` attempt_pair ` set rows \<subseteq> fst ` set pairs" by blast
  then show ?thesis by (simp add: attempt_pair_def image_image)
qed

text \<open>A step of the loop over the sites: at most one more target for one more site of the budget.\<close>

definition site_attempts :: "v3_call \<Rightarrow> (int option \<times> int option) list \<Rightarrow> v3_state \<Rightarrow> v3_control \<Rightarrow> v3_state \<Rightarrow> attempt_row list \<Rightarrow> bool" where
  "site_attempts c pairs st0 control st rows \<longleftrightarrow> follows c pairs st0 control st rows \<and>
     card (AT_RouteSiteTargetID ` set rows) + V_Sites st0 \<le> V_Sites st"

lemma v3_misconfigured_log [simp]:
  "G_Attempts (V_DB (v3_misconfigured c n target st)) = G_Attempts (V_DB st)"
  "V_Attempts (v3_misconfigured c n target st) = V_Attempts st" "V_Sites (v3_misconfigured c n target st) = V_Sites st"
  by (simp_all add: v3_misconfigured_def Let_def)

lemma v3_permit_log: "v3_permit c n target db = Inr (allowed, db') \<Longrightarrow> G_Attempts db' = G_Attempts db"
  by (auto simp: v3_permit_def Let_def and_then_def split: if_splits sum.splits)

lemma v3_site_follows:
  assumes run: "v3_site c n target st0 = (control, st)"
  shows "V_Sites st \<le> V_Sites st0 + 1 \<and> (\<exists>rows. site_attempts c (target_pairs target) st0 control st rows)"
proof -
  have stay: ?thesis if "G_Attempts (V_DB st) = G_Attempts (V_DB st0)" "V_Attempts st = V_Attempts st0" "V_Sites st = V_Sites st0"
    using that by (auto simp: site_attempts_def intro!: exI [of _ "[]"] follows_refl)
  show ?thesis
  proof (cases "RS_Credentials target = []")
    case True
    show ?thesis by (rule stay) (use run True in \<open>auto simp: v3_site_def\<close>)
  next
    case False
    note run = run [unfolded v3_site_def if_not_P [OF False]]
    show ?thesis
    proof (cases "v3_permit c n target (V_DB st0)")
      case (Inl e)
      show ?thesis by (rule stay) (use run Inl in auto)
    next
      case (Inr p)
      obtain allowed db where p: "p = (allowed, db)" by (cases p) auto
      note db = v3_permit_log [OF Inr [unfolded p]]
      show ?thesis
      proof (cases allowed)
        case False
        show ?thesis by (rule stay) (use run Inr p False db in auto)
      next
        case True
        let ?st = "st0\<lparr>V_DB := db, V_Sites := V_Sites st0 + 1, V_BuildFailures := 0\<rparr>"
        obtain control1 st1 where crs: "v3_credentials c target (RS_Credentials target) ?st = (control1, st1)"
          by (cases "v3_credentials c target (RS_Credentials target) ?st") auto
        from v3_credentials_follows [OF crs] obtain rows where sites: "V_Sites st1 = V_Sites st0 + 1"
          and inner: "follows c (target_pairs target) ?st control1 st1 rows" by (auto simp: target_pairs_def)
        have rows: "follows c (target_pairs target) st0 control1 st1 rows"
          by (rule follows_from [OF inner]) (simp_all add: db)
        have "AT_RouteSiteTargetID ` set rows \<subseteq> {Some (RT_ID (RS_Target target))}"
          using follows_targets [OF rows] by (auto simp: target_pairs_def)
        then have card: "card (AT_RouteSiteTargetID ` set rows) \<le> 1"
          using card_mono [of "{Some (RT_ID (RS_Target target))}"] by fastforce
        show ?thesis
        proof (cases "control1 = Next_credential")
          case True
          then have "control = Next_site \<and> st = v3_misconfigured c n target st1"
            using run Inr p \<open>allowed\<close> crs by auto
          moreover have "follows c (target_pairs target) st0 Next_site (v3_misconfigured c n target st1) rows"
            by (rule follows_control [OF follows_same [OF rows]]) (simp_all add: True)
          ultimately show ?thesis using card sites by (auto simp: site_attempts_def intro!: exI [of _ rows])
        next
          case False
          then have "control = control1 \<and> st = st1"
            using run Inr p \<open>allowed\<close> crs by (cases control1) auto
          with rows card sites show ?thesis by (auto simp: site_attempts_def intro!: exI [of _ rows])
        qed
      qed
    qed
  qed
qed

lemma site_attempts_trans:
  assumes "site_attempts c p1 st0 control1 st1 rows1" and "control1 \<noteq> Returned" and "site_attempts c p2 st1 control st rows2"
  shows "site_attempts c (p1 @ p2) st0 control st (rows1 @ rows2)"
proof -
  have "card (AT_RouteSiteTargetID ` set (rows1 @ rows2)) \<le>
      card (AT_RouteSiteTargetID ` set rows1) + card (AT_RouteSiteTargetID ` set rows2)"
    by (simp add: image_Un card_Un_le)
  then show ?thesis
    using assms follows_trans [of c p1 st0 control1 st1 rows1 p2 control st rows2] by (auto simp: site_attempts_def)
qed

lemma v3_sites_follows:
  assumes "v3_sites c m n targets st0 = (control, st)" and "V_Sites st0 \<le> m"
  shows "V_Sites st \<le> m \<and> (\<exists>rows. site_attempts c (concat (map target_pairs targets)) st0 control st rows)"
  using assms
proof (induction c m n targets st0 rule: v3_sites.induct)
  case (1 c m n st)
  then show ?case by (auto simp: site_attempts_def intro!: exI [of _ "[]"] follows_refl)
next
  case (2 c m n target targets st0)
  show ?case
  proof (cases "V_Sites st0 \<ge> m")
    case True
    then show ?thesis using "2.prems" by (auto simp: site_attempts_def intro!: exI [of _ "[]"] follows_refl)
  next
    case False
    obtain control1 st1 where one: "v3_site c n target st0 = (control1, st1)" by (cases "v3_site c n target st0") auto
    from v3_site_follows [OF one] False obtain rows1 where sites: "V_Sites st1 \<le> m"
      and first: "site_attempts c (target_pairs target) st0 control1 st1 rows1" by auto
    show ?thesis
    proof (cases "control1 = Next_site")
      case True
      then have rest: "v3_sites c m (Suc n) targets st1 = (control, st)" using "2.prems"(1) one False by simp
      from "2.IH" [OF False one [symmetric] True rest sites] obtain rows2 where "V_Sites st \<le> m"
        and rows2: "site_attempts c (concat (map target_pairs targets)) st1 control st rows2" by blast
      with site_attempts_trans [OF first _ rows2] True show ?thesis by auto
    next
      case other: False
      then have "control = control1 \<and> st = st1"
        using "2.prems"(1) one False by (cases control1) auto
      moreover have "site_attempts c (target_pairs target @ concat (map target_pairs targets)) st0 control1 st1 rows1"
        using first follows_more by (simp add: site_attempts_def)
      ultimately show ?thesis using sites by auto
    qed
  qed
qed

lemma v3_exhausted_log: "G_Attempts (V_DB (v3_exhausted c st)) = G_Attempts (V_DB st)"
proof -
  let ?p = "finish_of [] ''failed'' (V_LastStatus st) None no_usage (V_LastError st) False"
  show ?thesis
    using v3_finalize_log(1) [of c ?p st] by (cases "v3_finalize c ?p st"; cases "fst (v3_finalize c ?p st)") (auto simp: v3_exhausted_def)
qed

lemma v3_deferred_log: "G_Attempts (V_DB (v3_deferred c st)) = G_Attempts (V_DB st)"
  by (auto simp: v3_deferred_def v3_finish_def or_keep_def Let_def split: sum.splits)

definition route_pairs :: "resolved_model \<Rightarrow> (int option \<times> int option) list" where
  "route_pairs route = concat (map target_pairs (RM_Targets route))"

lemma v3_run_attempts:
  "\<exists>rows. G_Attempts (V_DB (v3_run c db)) = G_Attempts db @ rows \<and>
     subseq (map attempt_pair rows) (route_pairs (V3_Route (VC_Request c))) \<and>
     list_all (\<lambda>a. AT_RequestID a = RE_ID (VC_Env c)) rows \<and> sorted_wrt (<) (map AT_Index rows) \<and>
     list_all (\<lambda>a. AT_Status a = ''failed'') (butlast rows) \<and>
     card (AT_RouteSiteTargetID ` set rows) \<le> max_site_attempts c"
proof -
  let ?targets = "RM_Targets (V3_Route (VC_Request c))"
  obtain control st where loop: "v3_sites c (max_site_attempts c) 0 ?targets (v3_initial db) = (control, st)"
    by (cases "v3_sites c (max_site_attempts c) 0 ?targets (v3_initial db)") auto
  then obtain rows where sites: "V_Sites st \<le> max_site_attempts c"
    and rows: "site_attempts c (concat (map target_pairs ?targets)) (v3_initial db) control st rows"
    using v3_sites_follows [OF loop] by (auto simp: v3_initial_def)
  have "G_Attempts (V_DB (v3_run c db)) = G_Attempts (V_DB st)"
    using loop by (cases control) (simp_all add: v3_run_def v3_deferred_log v3_exhausted_log)
  with rows sites show ?thesis
    by (intro exI [of _ rows]) (auto simp: site_attempts_def follows_def v3_initial_def route_pairs_def list_all_iff)
qed

lemma served_cases:
  obtains "snd (serve_v3_inference gw env rq db) = db"
    | account q where "snd (serve_v3_inference gw env rq db) =
        V_DB (v3_run \<lparr>VC_Gateway = gw, VC_Request = rq, VC_Env = env, VC_Account = account\<rparr> (db\<lparr>G_Quota := q\<rparr>))"
proof -
  define pm where "pm = first_non_empty_string [PM_OfficialPriceSKU (RM_Model (V3_Route rq)), PM_PublicName (RM_Model (V3_Route rq))]"
  define prep where "prep = prepare_accounting_for_model (GW_ParseRat gw) (GW_ParseDate gw) (GW_Billing gw) (RE_PriceNow env) (V3_Key rq)
      (V3_Meta rq) (V3_Body rq) pm"
  note serve = serve_v3_inference_def [of gw env rq db, unfolded Let_def, folded pm_def, folded prep_def]
  show thesis
  proof (cases prep)
    case (Inl e)
    show thesis by (rule that(1)) (simp add: serve Inl)
  next
    case (Inr account)
    define start where "start = start_request_with_reservation (v3_request_start env rq) (RA_reserved account)
        (DK_Quota (V3_Key rq) \<noteq> None) (G_Quota db)"
    note serve = serve [unfolded Inr sum.case, folded start_def]
    show thesis
    proof (cases start)
      case (Inl e)
      show thesis by (rule that(1)) (cases e; simp add: serve Inl)
    next
      case (Inr q)
      show thesis by (rule that(2)) (simp add: serve Inr)
    qed
  qed
qed

text \<open>
  \<^bold>\<open>C7.\<close> The attempts of a request follow its route. Whatever the upstreams answer and however the circuits
  stand: the attempts on record are pairs of target and key of the route, in its order and none twice, with growing
  numbers; no more sites are tried than the model allows (and than there are); and every attempt but
  the last has failed, so that once an upstream has succeeded nobody else is called.
\<close>

theorem attempts_follow_route:
  "\<exists>rows. G_Attempts (snd (serve_v3_inference gw env rq db)) = G_Attempts db @ rows \<and>
     subseq (map (\<lambda>a. (AT_RouteSiteTargetID a, AT_CredentialID a)) rows)
       (concat (map (\<lambda>t. map (\<lambda>k. (Some (RT_ID (RS_Target t)), Some (CR_ID k))) (RS_Credentials t)) (RM_Targets (V3_Route rq)))) \<and>
     list_all (\<lambda>a. AT_RequestID a = RE_ID env) rows \<and> sorted_wrt (<) (map AT_Index rows) \<and>
     list_all (\<lambda>a. AT_Status a = ''failed'') (butlast rows) \<and>
     int (card (AT_RouteSiteTargetID ` set rows)) \<le>
       min (positive_or_default (PM_MaxAttempts (RM_Model (V3_Route rq))) 3) (int (length (RM_Targets (V3_Route rq))))"
proof -
  have budget: "int (max_site_attempts c) =
      min (positive_or_default (PM_MaxAttempts (route_model c)) 3) (int (length (RM_Targets (V3_Route (VC_Request c)))))" for c
    by (auto simp: max_site_attempts_def Let_def positive_or_default_def)
  have none: ?thesis if "snd (serve_v3_inference gw env rq db) = db"
    by (rule exI [of _ "[]"]) (simp add: that positive_or_default_def)
  consider "snd (serve_v3_inference gw env rq db) = db"
    | account q where "snd (serve_v3_inference gw env rq db) =
        V_DB (v3_run \<lparr>VC_Gateway = gw, VC_Request = rq, VC_Env = env, VC_Account = account\<rparr> (db\<lparr>G_Quota := q\<rparr>))"
    by (rule served_cases)
  then show ?thesis
  proof cases
    case 1
    then show ?thesis by (rule none)
  next
    case (2 account q)
    let ?c = "\<lparr>VC_Gateway = gw, VC_Request = rq, VC_Env = env, VC_Account = account\<rparr>"
    have pairs: "attempt_pair = (\<lambda>a. (AT_RouteSiteTargetID a, AT_CredentialID a))"
      "route_pairs (V3_Route rq) = concat (map (\<lambda>t. map (\<lambda>k. (Some (RT_ID (RS_Target t)), Some (CR_ID k))) (RS_Credentials t))
         (RM_Targets (V3_Route rq)))"
      by (simp_all add: fun_eq_iff attempt_pair_def route_pairs_def target_pairs_def [abs_def])
    show ?thesis
      using v3_run_attempts [of ?c "db\<lparr>G_Quota := q\<rparr>"] budget [of ?c] unfolding 2 pairs [symmetric]
      by (auto simp: route_model_def)
  qed
qed

subsection \<open>A failure of the key\<close>

definition key_status :: "int \<Rightarrow> string \<Rightarrow> bool" where
  "key_status status body \<longleftrightarrow> status = 401 \<or> status = 402 \<or> status = 403 \<or>
     status = 429 \<and> \<not> is_model_unsupported_message (to_lower body)"

lemma classify_key_status:
  assumes "key_status status body"
  shows "is_v3_credential_local (classify p now status body False False headers)"
    and "Class (classify p now status body False False headers) \<noteq> ClassNone"
    and "\<exists>state until. credential_failure_state (classify p now status body False False headers) now = Some (state, until) \<and>
      (if status = 429 then state = ''rate_limited'' \<and> (\<exists>u. until = Some u \<and> ns_to_ms (now + minute) \<le> u)
       else state = (if status = 402 then ''exhausted'' else ''invalid'') \<and> until = None)"
  using assms
  by (auto simp: key_status_def classify_def is_v3_credential_local_def credential_failure_state_def intro!: zdiv_mono1)

lemma runtime_states:
  "to_lower (trim_space ''rate_limited'') = ''rate_limited''" "to_lower (trim_space ''exhausted'') = ''exhausted''"
  "to_lower (trim_space ''invalid'') = ''invalid''"
  by code_simp+

lemma update_runtime_row:
  assumes u: "unique_key CR_ID (db_credentials db)" and row: "row_by CR_ID key (db_credentials db) = Some r"
    and state: "state \<in> {''rate_limited'', ''exhausted'', ''invalid''}" and input: "CX_RuntimeState input = state"
  shows "\<exists>t r'. or_keep db (update_inference_credential_runtime redact clock key input db) = db\<lparr>db_credentials := t\<rparr> \<and>
    row_by CR_ID key t = Some r' \<and> CR_RuntimeState r' = state \<and> CR_CooldownUntil r' = CX_CooldownUntil input \<and>
    CR_SecretCipher r' = CR_SecretCipher r \<and> map CR_ID t = map CR_ID (db_credentials db) \<and>
    (\<forall>k. k \<noteq> key \<longrightarrow> row_by CR_ID k t = row_by CR_ID k (db_credentials db))"
proof -
  let ?f = "\<lambda>c. c\<lparr>CR_RuntimeState := state, CR_CooldownUntil := CX_CooldownUntil input,
                 CR_LastTestAt := CX_LastTestAt input, CR_LastTestStatus := trim_space (CX_LastTestStatus input),
                 CR_LastErrorMessage := redact (CX_LastErrorMessage input), CR_UpdatedAt := clock\<rparr>"
  have low: "to_lower (trim_space state) = state" "valid_credential_runtime_state state"
    using state by (auto simp: runtime_states valid_credential_runtime_state_def)
  obtain t where t: "update_revisioned CR_ID CR_Revision key 0 ?f (db_credentials db) = Inr t"
    by (simp add: update_revisioned_cases [OF u] row revision_matches_def)
  from update_revisioned_ok [OF u _ t] row have "row_by CR_ID key t = Some (?f r)" "map CR_ID t = map CR_ID (db_credentials db)"
    "\<forall>k. k \<noteq> key \<longrightarrow> row_by CR_ID k t = row_by CR_ID k (db_credentials db)" by auto
  moreover have "update_inference_credential_runtime redact clock key input db = Inr (db\<lparr>db_credentials := t\<rparr>)"
    using t by (simp add: update_inference_credential_runtime_def Let_def input low and_then_def)
  ultimately show ?thesis by (intro exI [of _ t] exI [of _ "?f r"]) simp
qed

text \<open>
  \<^bold>\<open>C8.\<close> A failure that is the key's own stays with the key. When an upstream answers 401, 402, 403 or 429
  (a 429 that does not speak of an unknown model), the loop goes on to the next key of the same site; no circuit,
  no account and no byte to the client changes; the key is set aside (after a 429 for at least a minute, otherwise
  until somebody acts), and no other row of the site store is touched.
\<close>

theorem key_failure_stays_local:
  assumes "v3_attempt c target key st = (control, st')"
    and "\<not> AE_DeadlineOver (RE_Attempt (VC_Env c) (V_Attempts st))"
    and "SF_BuildResolved (V3_Surface (VC_Request c)) target key (V3_Body (VC_Request c)) = None"
    and "AE_Do (RE_Attempt (VC_Env c) (V_Attempts st)) = Do_response status headers body Read_EOF"
    and "key_status status body" and "int (length body) \<le> read_limit"
    and "unique_key CR_ID (db_credentials (G_Site (V_DB st)))"
    and "row_by CR_ID (CR_ID key) (db_credentials (G_Site (V_DB st))) = Some r"
  shows "control = Next_credential \<and> G_Health (V_DB st') = G_Health (V_DB st) \<and> G_Quota (V_DB st') = G_Quota (V_DB st) \<and>
    V_Client st' = V_Client st \<and> V_Sites st' = V_Sites st \<and>
    (\<exists>t r'. G_Site (V_DB st') = (G_Site (V_DB st))\<lparr>db_credentials := t\<rparr> \<and> row_by CR_ID (CR_ID key) t = Some r' \<and>
       CR_SecretCipher r' = CR_SecretCipher r \<and>
       (\<forall>k. k = CR_ID key \<or> row_by CR_ID k t = row_by CR_ID k (db_credentials (G_Site (V_DB st)))) \<and>
       (\<forall>later. \<not> credential_routable later r' \<or>
          status = 429 \<and> ns_to_ms (AE_NowNS (RE_Attempt (VC_Env c) (V_Attempts st)) + minute) \<le> later))"
proof -
  define k where "k = V_Attempts st"
  define ae where "ae = RE_Attempt (VC_Env c) k"
  define d where "d = classify (GW_ParseHTTPTime (VC_Gateway c)) (AE_NowNS ae) status body False False headers"
  note d = classify_key_status [OF assms(5), of "GW_ParseHTTPTime (VC_Gateway c)" "AE_NowNS ae" headers, folded d_def]
  obtain state until where state: "credential_failure_state d (AE_NowNS ae) = Some (state, until)"
    and until: "if status = 429 then state = ''rate_limited'' \<and> (\<exists>u. until = Some u \<and> ns_to_ms (AE_NowNS ae + minute) \<le> u)
       else state = (if status = 402 then ''exhausted'' else ''invalid'') \<and> until = None"
    using d(3) by blast
  have not_ok: "\<not> (200 \<le> status \<and> status < 300)" using assms(5) by (auto simp: key_status_def)
  have read: "read_limited body Read_EOF = Inr body" using assms(6) by (simp add: read_limited_def)
  have answer: "v3_answer_read c k target key status headers body (st\<lparr>V_Attempts := Suc k\<rparr>) = (control, st')"
    using assms(1-4) not_ok read by (auto simp: v3_attempt_def Let_def k_def)
  let ?m = "compact_text body 500"
  let ?db = "record_v3_credential_failure c (AE_NowNS ae) key d status ?m (V_DB st)"
  have "control = Next_credential" and st': "V_DB st' = add_v3_attempt c k target key ''failed'' status (v3_credential_reason d)
      (class_string (Class d)) ?m None ?db" "V_Client st' = V_Client st" "V_Sites st' = V_Sites st"
    using answer d(1,2) by (auto simp: v3_answer_read_def Let_def ae_def [symmetric] d_def [symmetric])
  let ?input = "\<lparr>CX_RuntimeState = state, CX_CooldownUntil = until, CX_LastTestAt = Some (ns_to_ms (AE_NowNS ae)),
      CX_LastTestStatus = http_status_label status, CX_LastErrorMessage = ?m\<rparr>"
  have site: "G_Site (V_DB st') = or_keep (G_Site (V_DB st)) (update_inference_credential_runtime (GW_Redact (VC_Gateway c))
      (ns_to_ms (AE_NowNS ae)) (CR_ID key) ?input (G_Site (V_DB st)))"
    by (simp add: st' record_v3_credential_failure_def state)
  have "state \<in> {''rate_limited'', ''exhausted'', ''invalid''}" using until by (auto split: if_splits)
  from update_runtime_row [OF assms(7,8) this, of ?input "GW_Redact (VC_Gateway c)" "ns_to_ms (AE_NowNS ae)", folded site]
  obtain t r' where row: "G_Site (V_DB st') = (G_Site (V_DB st))\<lparr>db_credentials := t\<rparr>" "row_by CR_ID (CR_ID key) t = Some r'"
    "CR_RuntimeState r' = state" "CR_CooldownUntil r' = until" "CR_SecretCipher r' = CR_SecretCipher r"
    "\<forall>k. k \<noteq> CR_ID key \<longrightarrow> row_by CR_ID k t = row_by CR_ID k (db_credentials (G_Site (V_DB st)))" by auto
  have "\<not> credential_routable later r' \<or> status = 429 \<and> ns_to_ms (AE_NowNS ae + minute) \<le> later" for later
    using until row(3,4) by (auto simp: credential_routable_def split: if_splits)
  with \<open>control = Next_credential\<close> st' row show ?thesis
    by (auto simp: ae_def k_def)
qed

theorem key_failure_stays_local_witness:
  "let c = \<lparr>VC_Gateway = demo_gateway, VC_Request = demo_v3_request,
         VC_Env = demo_env (\<lambda>_. Do_response 429 None ''slow'' Read_EOF),
         VC_Account = \<lparr>RA_key = 1, RA_reserved = 0, RA_maximum = zero_usage, RA_reservation = None\<rparr>\<rparr>;
       (control, st) = v3_attempt c (demo_resolved 1 [1, 2]) (demo_credential 1 1) (v3_initial demo_gateway_db)
   in control = Next_credential \<and> G_Health (V_DB st) = G_Health demo_gateway_db \<and> V_Client st = no_response \<and>
      row_by CR_ID 2 (db_credentials (G_Site (V_DB st))) = Some (demo_credential 2 1)"
proof -
  define c where "c = \<lparr>VC_Gateway = demo_gateway, VC_Request = demo_v3_request,
      VC_Env = demo_env (\<lambda>_. Do_response 429 None ''slow'' Read_EOF),
      VC_Account = \<lparr>RA_key = 1, RA_reserved = 0, RA_maximum = zero_usage, RA_reservation = None\<rparr>\<rparr>"
  obtain control st where run: "v3_attempt c (demo_resolved 1 [1, 2]) (demo_credential 1 1) (v3_initial demo_gateway_db) = (control, st)"
    by (cases "v3_attempt c (demo_resolved 1 [1, 2]) (demo_credential 1 1) (v3_initial demo_gateway_db)") auto
  let ?st = "v3_initial demo_gateway_db"
  have env: "\<not> AE_DeadlineOver (RE_Attempt (VC_Env c) (V_Attempts ?st))"
    "AE_Do (RE_Attempt (VC_Env c) (V_Attempts ?st)) = Do_response 429 None ''slow'' Read_EOF"
    "SF_BuildResolved (V3_Surface (VC_Request c)) (demo_resolved 1 [1, 2]) (demo_credential 1 1) (V3_Body (VC_Request c)) = None"
    by (simp_all add: c_def demo_env_def demo_v3_request_def demo_surface_def)
  have key: "CR_ID (demo_credential n m) = n" for n m by (simp add: demo_credential_def)
  have creds: "db_credentials (G_Site (V_DB ?st)) = [demo_credential 1 1, demo_credential 2 1, demo_credential 3 2]"
    by (simp add: v3_initial_def demo_gateway_db_def)
  have rows: "unique_key CR_ID (db_credentials (G_Site (V_DB ?st)))"
    "row_by CR_ID (CR_ID (demo_credential 1 1)) (db_credentials (G_Site (V_DB ?st))) = Some (demo_credential 1 1)"
    "row_by CR_ID 2 (db_credentials (G_Site (V_DB ?st))) = Some (demo_credential 2 1)"
    unfolding creds by (simp_all add: unique_key_def row_simps key)
  have status: "key_status 429 ''slow''" by code_simp
  have "int (length (''slow'' :: string)) \<le> read_limit" by (simp add: read_limit_def)
  from key_failure_stays_local [OF run env(1,3,2) status this rows(1,2)] obtain t where "control = Next_credential"
    "G_Health (V_DB st) = G_Health (V_DB ?st)" "V_Client st = V_Client ?st"
    "G_Site (V_DB st) = (G_Site (V_DB ?st))\<lparr>db_credentials := t\<rparr>"
    "2 = CR_ID (demo_credential 1 1) \<or> row_by CR_ID 2 t = row_by CR_ID 2 (db_credentials (G_Site (V_DB ?st)))" by blast
  then have "control = Next_credential" "G_Health (V_DB st) = G_Health demo_gateway_db" "V_Client st = no_response"
    "row_by CR_ID 2 (db_credentials (G_Site (V_DB st))) = Some (demo_credential 2 1)"
    using rows(3) by (simp_all add: v3_initial_def key)
  then show ?thesis using run unfolding c_def by (simp add: Let_def)
qed

subsection \<open>A deadline that ends between two sites\<close>

text \<open>
  The permit of the next site is asked for under the request's context before the loop looks at the
  deadline. When that is over, the permit fails, and the request is answered as a failure of the store (500) instead
  of a timeout; the deadline message is reached only between two keys of one site.
\<close>

theorem deadline_between_sites_answers_500:
  assumes "V_Sites st < max_sites" and "RS_Credentials target \<noteq> []" and "SE_DeadlineOver (RE_Site (VC_Env c) n)"
  shows "v3_sites c max_sites n (target # rest) st =
    (Break_loop, st\<lparr>V_LastStatus := 500, V_LastError := ''cannot persist site health state''\<rparr>)"
  using assms by (simp add: v3_site_def v3_permit_def)

end
