(* ===== verification/Runs.thy ===== *)
theory Runs
  imports SiteVersions
begin

text \<open>
  Probe runs and model discovery runs (\<open>store/v4_runs.go\<close>, \<open>store/v4_discovery_apply.go\<close> and the
  queries of \<open>store/v4_monitor.go\<close> that steer the scheduler). A run is inserted as \<open>running\<close>, gets attempts
  while it runs, and is completed, cancelled or expired once. Applying a discovery run writes what
  the credentials of a site have found into the site's catalogue.

  The state adds the four tables to the tables of the sites. \<open>compact_json\<close> is \<open>json.Valid\<close> with
  \<open>json.Compact\<close>, \<open>redact\<close> is \<open>redact.String\<close>, \<open>clock\<close> is \<open>NowMS()\<close>. Names and counts that are only
  copied into messages are left out, and so are the fields the scans return unchanged.
\<close>

subsection \<open>The tables\<close>

record probe_run_row =
  PB_ID :: string
  PB_ModelID :: int
  PB_ModelRevision :: int
  PB_TriggerKind :: string
  PB_Status :: string
  PB_TargetCount :: int
  PB_SuccessCount :: int
  PB_FailureCount :: int
  PB_SkippedCount :: int
  PB_ErrorMessage :: string
  PB_StartedAt :: int
  PB_FinishedAt :: "int option"

record probe_attempt_row =
  PA_ID :: int
  PA_RunID :: string
  PA_Index :: int
  PA_TargetID :: "int option"
  PA_SiteID :: "int option"
  PA_EndpointID :: "int option"
  PA_CredentialID :: "int option"
  PA_SiteModelID :: "int option"
  PA_SiteName :: string
  PA_EndpointName :: string
  PA_CredentialName :: string
  PA_SourceModel :: string
  PA_Status :: string
  PA_HTTPStatus :: "int option"
  PA_LatencyMS :: "int option"
  PA_FirstOutputMS :: "int option"
  PA_ErrorClass :: string
  PA_ErrorMessage :: string
  PA_StartedAt :: int
  PA_FinishedAt :: int

record discovery_run_row =
  DR_ID :: string
  DR_SiteID :: int
  DR_EndpointID :: int
  DR_Mode :: string
  DR_Status :: string
  DR_BaseSiteRevision :: int
  DR_BaseEndpointRevision :: int
  DR_CredentialCount :: int
  DR_SuccessCount :: int
  DR_ModelCount :: int
  DR_Summary :: string
  DR_ErrorMessage :: string
  DR_StartedAt :: int
  DR_FinishedAt :: "int option"

record discovery_attempt_row =
  DA_ID :: int
  DA_RunID :: string
  DA_Index :: int
  DA_CredentialID :: "int option"
  DA_CredentialName :: string
  DA_Status :: string
  DA_ModelCount :: int
  DA_Complete :: bool
  DA_PagesFetched :: int
  DA_ErrorClass :: string
  DA_ErrorMessage :: string
  DA_StartedAt :: int
  DA_FinishedAt :: int

record run_db =
  RD_Site :: site_db
  RD_Probes :: "probe_run_row list"
  RD_ProbeAttempts :: "probe_attempt_row list"
  RD_Discoveries :: "discovery_run_row list"
  RD_DiscoveryAttempts :: "discovery_attempt_row list"
  seq_probe_attempts :: int
  seq_discovery_attempts :: int

definition valid_probe_trigger :: "string \<Rightarrow> bool" where
  "valid_probe_trigger v \<longleftrightarrow> v = ''scheduled'' \<or> v = ''manual'' \<or> v = ''recovery''"

definition valid_discovery_mode :: "string \<Rightarrow> bool" where
  "valid_discovery_mode v \<longleftrightarrow> v = ''selected'' \<or> v = ''first_success'' \<or> v = ''all''"

definition valid_attempt_status :: "string \<Rightarrow> bool" where
  "valid_attempt_status v \<longleftrightarrow> v = ''success'' \<or> v = ''failed'' \<or> v = ''skipped''"

subsection \<open>Probe runs\<close>

definition insert_probe_run :: "int \<Rightarrow> probe_run_row \<Rightarrow> run_db \<Rightarrow> (store_error, run_db) result" where
  "insert_probe_run clock item0 db =
     (let run_id = trim_space (PB_ID item0); kind0 = to_lower (trim_space (PB_TriggerKind item0)) in
      if run_id = [] \<or> PB_ModelID item0 \<le> 0 then Inl (ErrText ''probe run ID and published model are required'')
      else let kind = (if kind0 = [] then ''scheduled'' else kind0) in
      if \<not> valid_probe_trigger kind then Inl (ErrText ''unknown probe trigger'')
      else case row_by PM_ID (PB_ModelID item0) (db_published (RD_Site db)) of
        None \<Rightarrow> Inl ErrNoRows
      | Some p \<Rightarrow>
          (let targets = length (filter (\<lambda>t. RT_PublishedModelID t = PM_ID p \<and> RT_Enabled t) (db_targets (RD_Site db)));
               row = \<lparr>PB_ID = run_id, PB_ModelID = PB_ModelID item0,
                 PB_ModelRevision = (if PB_ModelRevision item0 \<le> 0 then PM_Revision p else PB_ModelRevision item0),
                 PB_TriggerKind = kind, PB_Status = ''running'',
                 PB_TargetCount = (if PB_TargetCount item0 \<le> 0 then int targets else PB_TargetCount item0),
                 PB_SuccessCount = 0, PB_FailureCount = 0, PB_SkippedCount = 0, PB_ErrorMessage = [],
                 PB_StartedAt = (if PB_StartedAt item0 \<le> 0 then clock else PB_StartedAt item0), PB_FinishedAt = None\<rparr>
           in if row_by PB_ID run_id (RD_Probes db) \<noteq> None \<or> \<not> PB_ModelRevision row > 0 then Inl ErrConstraint
              else Inr (db\<lparr>RD_Probes := RD_Probes db @ [row]\<rparr>)))"

definition insert_probe_attempt ::
  "(string \<Rightarrow> string) \<Rightarrow> int \<Rightarrow> probe_attempt_row \<Rightarrow> run_db \<Rightarrow> (store_error, int \<times> run_db) result" where
  "insert_probe_attempt redact clock item db =
     (let run_id = trim_space (PA_RunID item); status = to_lower (trim_space (PA_Status item));
          finished = (if PA_FinishedAt item \<le> 0 then clock else PA_FinishedAt item);
          started = (if PA_StartedAt item \<le> 0 \<or> PA_StartedAt item > finished then finished else PA_StartedAt item);
          site_db = RD_Site db in
      case PA_TargetID item of
        None \<Rightarrow> Inl (ErrText ''probe run, attempt index, and route site target are required'')
      | Some target_id \<Rightarrow>
          if run_id = [] \<or> PA_Index item < 0 \<or> target_id \<le> 0
          then Inl (ErrText ''probe run, attempt index, and route site target are required'')
          else if \<not> valid_attempt_status status then Inl (ErrText ''unknown probe attempt status'')
          else case (row_by PB_ID run_id (RD_Probes db), row_by RT_ID target_id (db_targets site_db)) of
            (Some run, Some t) \<Rightarrow>
              (case (row_by S_ID (RT_SiteID t) (db_sites site_db), row_by E_ID (RT_EndpointID t) (db_endpoints site_db),
                     row_by SM_ID (RT_SiteModelID t) (db_models site_db)) of
                 (Some s, Some e, Some m) \<Rightarrow>
                   if RT_PublishedModelID t \<noteq> PB_ModelID run then Inl ErrNoRows
                   else if PB_Status run \<noteq> ''running'' then Inl (ErrText ''probe run is already finished'')
                   else
                     (case (case PA_CredentialID item of
                              None \<Rightarrow> Inr (PA_CredentialName item)
                            | Some cid \<Rightarrow>
                                if cid \<le> 0 then Inl (ErrText ''inference credential ID must be positive'')
                                else (case find (\<lambda>c. CR_ID c = cid \<and> CR_SiteID c = S_ID s) (db_credentials site_db) of
                                        None \<Rightarrow> Inl ErrNoRows | Some c \<Rightarrow> Inr (CR_Name c))) of
                        Inl err \<Rightarrow> Inl err
                      | Inr credential_name \<Rightarrow>
                          if list_ex (\<lambda>a. PA_RunID a = run_id \<and> PA_Index a = PA_Index item) (RD_ProbeAttempts db) \<or>
                             (case PA_LatencyMS item of Some l \<Rightarrow> l < 0 | None \<Rightarrow> False) \<or>
                             (case PA_FirstOutputMS item of Some l \<Rightarrow> l < 0 | None \<Rightarrow> False)
                          then Inl ErrConstraint
                          else let new_id = seq_probe_attempts db + 1 in
                            Inr (new_id, db\<lparr>seq_probe_attempts := new_id, RD_ProbeAttempts := RD_ProbeAttempts db @
                              [item\<lparr>PA_ID := new_id, PA_RunID := run_id, PA_SiteID := Some (S_ID s),
                                    PA_EndpointID := Some (E_ID e), PA_SiteModelID := Some (SM_ID m),
                                    PA_SiteName := S_Name s, PA_EndpointName := E_Name e,
                                    PA_CredentialName := credential_name, PA_SourceModel := SM_ModelName m,
                                    PA_Status := status, PA_ErrorMessage := redact (PA_ErrorMessage item),
                                    PA_StartedAt := started, PA_FinishedAt := finished\<rparr>]\<rparr>))
               | _ \<Rightarrow> Inl ErrNoRows)
          | _ \<Rightarrow> Inl ErrNoRows)"

text \<open>\<open>target_results\<close>: one group for each target of the run's attempts, \<open>NULL\<close> being one of them.\<close>

definition observed_targets :: "probe_attempt_row list \<Rightarrow> int option list" where
  "observed_targets attempts = remdups (map PA_TargetID attempts)"

definition some_attempt :: "string \<Rightarrow> probe_attempt_row list \<Rightarrow> int option \<Rightarrow> bool" where
  "some_attempt status attempts target \<longleftrightarrow> list_ex (\<lambda>a. PA_TargetID a = target \<and> PA_Status a = status) attempts"

definition probe_counts :: "probe_attempt_row list \<Rightarrow> int \<times> int \<times> int \<times> int" where
  "probe_counts attempts =
     (let targets = observed_targets attempts;
          count = (\<lambda>P. int (length (filter P targets)));
          succeeded = some_attempt ''success'' attempts; failed = some_attempt ''failed'' attempts;
          skipped = some_attempt ''skipped'' attempts
      in (int (length targets), count succeeded, count (\<lambda>t. \<not> succeeded t \<and> failed t),
          count (\<lambda>t. \<not> succeeded t \<and> \<not> failed t \<and> skipped t)))"

text \<open>\<open>probeRunSelect\<close> joins the model's name; a run without its model does not exist.\<close>

definition get_probe_run :: "string \<Rightarrow> run_db \<Rightarrow> (probe_run_row \<times> string) option" where
  "get_probe_run run_id db =
     (case row_by PB_ID (trim_space run_id) (RD_Probes db) of
        None \<Rightarrow> None
      | Some r \<Rightarrow> map_option (\<lambda>p. (r, PM_PublicName p)) (row_by PM_ID (PB_ModelID r) (db_published (RD_Site db))))"

definition complete_probe_run ::
  "(string \<Rightarrow> string) \<Rightarrow> int \<Rightarrow> string \<Rightarrow> int \<Rightarrow> string \<Rightarrow> run_db \<Rightarrow> (store_error, run_db) result" where
  "complete_probe_run redact clock run_id0 finished_at0 message db =
     (let run_id = trim_space run_id0; finished_at = (if finished_at0 \<le> 0 then clock else finished_at0) in
      if run_id = [] then Inl (ErrText ''probe run ID is required'')
      else case row_by PB_ID run_id (RD_Probes db) of
        None \<Rightarrow> Inl ErrNoRows
      | Some run \<Rightarrow>
          if PB_Status run \<noteq> ''running'' then Inr db
          else
            (let (observed, successes, failures, skipped0) =
                   probe_counts (filter (\<lambda>a. PA_RunID a = run_id) (RD_ProbeAttempts db));
                 target_count = (if observed > PB_TargetCount run then observed else PB_TargetCount run);
                 skipped = (if observed < target_count then skipped0 + (target_count - observed) else skipped0);
                 status = (if target_count > 0 \<and> successes = target_count then ''success''
                           else if successes > 0 then ''partial'' else ''failed'')
             in Inr (db\<lparr>RD_Probes := fst (sql_update (\<lambda>r. PB_ID r = run_id \<and> PB_Status r = ''running'')
                  (\<lambda>r. r\<lparr>PB_Status := status, PB_TargetCount := target_count, PB_SuccessCount := successes,
                         PB_FailureCount := failures, PB_SkippedCount := skipped,
                         PB_ErrorMessage := redact message, PB_FinishedAt := Some finished_at\<rparr>) (RD_Probes db))\<rparr>)))"

definition cancel_probe_run ::
  "(string \<Rightarrow> string) \<Rightarrow> int \<Rightarrow> string \<Rightarrow> int \<Rightarrow> string \<Rightarrow> run_db \<Rightarrow> (store_error, run_db) result" where
  "cancel_probe_run redact clock run_id finished_at0 message db =
     (let finished_at = (if finished_at0 \<le> 0 then clock else finished_at0);
          (t, changed) = sql_update (\<lambda>r. PB_ID r = trim_space run_id \<and> PB_Status r = ''running'')
            (\<lambda>r. r\<lparr>PB_Status := ''cancelled'', PB_ErrorMessage := redact message, PB_FinishedAt := Some finished_at\<rparr>)
            (RD_Probes db)
      in if changed = 0 then Inl ErrRequestAlreadyFinished else Inr (db\<lparr>RD_Probes := t\<rparr>))"

definition newest_run :: "probe_run_row \<Rightarrow> probe_run_row \<Rightarrow> bool" where
  "newest_run a b \<longleftrightarrow> PB_StartedAt a > PB_StartedAt b \<or> PB_StartedAt a = PB_StartedAt b \<and> bytes_less (PB_ID b) (PB_ID a)"

definition list_probe_runs :: "int \<Rightarrow> int \<Rightarrow> run_db \<Rightarrow> probe_run_row list" where
  "list_probe_runs model limit0 db =
     (let limit = (if limit0 \<le> 0 \<or> limit0 > 200 then 50 else limit0)
      in take (nat limit) (slice_stable newest_run (filter (\<lambda>r. PB_ModelID r = model) (RD_Probes db))))"

definition list_probe_attempts :: "string \<Rightarrow> run_db \<Rightarrow> probe_attempt_row list" where
  "list_probe_attempts run_id db =
     slice_stable (\<lambda>a b. PA_Index a < PA_Index b \<or> PA_Index a = PA_Index b \<and> PA_ID a < PA_ID b)
       (filter (\<lambda>a. PA_RunID a = trim_space run_id) (RD_ProbeAttempts db))"

text \<open>The two statements of the scheduler: expire what nobody will finish, and find what is due.\<close>

definition probe_run_stale :: "int \<Rightarrow> site_db \<Rightarrow> probe_run_row \<Rightarrow> bool" where
  "probe_run_stale now site r \<longleftrightarrow> PB_Status r = ''running'' \<and>
     (case row_by PM_ID (PB_ModelID r) (db_published site) of
        None \<Rightarrow> False
      | Some p \<Rightarrow> PB_StartedAt r + (PM_RequestDeadlineSeconds p + 30) * 1000 \<le> now)"

definition expire_stale_probe_runs :: "int \<Rightarrow> int \<Rightarrow> run_db \<Rightarrow> nat \<times> run_db" where
  "expire_stale_probe_runs clock now0 db =
     (let now = (if now0 \<le> 0 then clock else now0);
          (t, changed) = sql_update (probe_run_stale now (RD_Site db))
            (\<lambda>r. r\<lparr>PB_Status := ''cancelled'', PB_ErrorMessage := ''probe worker stopped before completion'',
                   PB_FinishedAt := Some now\<rparr>) (RD_Probes db)
      in (changed, db\<lparr>RD_Probes := t\<rparr>))"

definition last_probe_at :: "run_db \<Rightarrow> int \<Rightarrow> int" where
  "last_probe_at db model =
     (case map PB_StartedAt (filter (\<lambda>r. PB_ModelID r = model) (RD_Probes db)) of
        [] \<Rightarrow> 0 | t # ts \<Rightarrow> fold max ts t)"

definition list_due_published_models :: "int \<Rightarrow> int \<Rightarrow> int \<Rightarrow> run_db \<Rightarrow> published_row list" where
  "list_due_published_models clock now0 limit0 db =
     (let now = (if now0 \<le> 0 then clock else now0); limit = (if limit0 \<le> 0 \<or> limit0 > 200 then 50 else limit0);
          due = filter (\<lambda>p. PM_Enabled p \<and> PM_MonitorEnabled p \<and>
              \<not> list_ex (\<lambda>r. PB_ModelID r = PM_ID p \<and> PB_Status r = ''running'') (RD_Probes db) \<and>
              last_probe_at db (PM_ID p) + PM_MonitorIntervalSeconds p * 1000 \<le> now) (db_published (RD_Site db))
      in take (nat limit)
           (slice_stable (\<lambda>a b. last_probe_at db (PM_ID a) < last_probe_at db (PM_ID b) \<or>
              last_probe_at db (PM_ID a) = last_probe_at db (PM_ID b) \<and> PM_ID a < PM_ID b) due))"

subsection \<open>Discovery runs\<close>

definition normalize_run_summary :: "(string \<Rightarrow> string option) \<Rightarrow> string \<Rightarrow> (store_error, string) result" where
  "normalize_run_summary compact_json value =
     (if trim_space value = [] then Inr ''{}''
      else case compact_json value of None \<Rightarrow> Inl (ErrText ''run summary must be valid JSON'') | Some s \<Rightarrow> Inr s)"

definition insert_model_discovery_run ::
  "(string \<Rightarrow> string option) \<Rightarrow> int \<Rightarrow> discovery_run_row \<Rightarrow> run_db \<Rightarrow> (store_error, run_db) result" where
  "insert_model_discovery_run compact_json clock item db =
     (let run_id = trim_space (DR_ID item); mode0 = to_lower (trim_space (DR_Mode item)); site_db = RD_Site db in
      if run_id = [] \<or> DR_SiteID item \<le> 0 \<or> DR_EndpointID item \<le> 0
      then Inl (ErrText ''discovery run, site, and endpoint are required'')
      else let mode = (if mode0 = [] then ''first_success'' else mode0) in
      if \<not> valid_discovery_mode mode then Inl (ErrText ''unknown model discovery mode'')
      else case (row_by S_ID (DR_SiteID item) (db_sites site_db), row_by E_ID (DR_EndpointID item) (db_endpoints site_db)) of
        (Some s, Some e) \<Rightarrow>
          if E_SiteID e \<noteq> S_ID s then Inl ErrNoRows
          else and_then (normalize_run_summary compact_json (DR_Summary item)) (\<lambda>summary.
            let credentials = length (filter (\<lambda>c. CR_SiteID c = S_ID s \<and> CR_Enabled c) (db_credentials site_db));
                row = \<lparr>DR_ID = run_id, DR_SiteID = DR_SiteID item, DR_EndpointID = DR_EndpointID item, DR_Mode = mode,
                  DR_Status = ''running'',
                  DR_BaseSiteRevision = (if DR_BaseSiteRevision item \<le> 0 then S_Revision s else DR_BaseSiteRevision item),
                  DR_BaseEndpointRevision =
                    (if DR_BaseEndpointRevision item \<le> 0 then E_Revision e else DR_BaseEndpointRevision item),
                  DR_CredentialCount = (if DR_CredentialCount item \<le> 0 then int credentials else DR_CredentialCount item),
                  DR_SuccessCount = 0, DR_ModelCount = 0, DR_Summary = summary, DR_ErrorMessage = [],
                  DR_StartedAt = (if DR_StartedAt item \<le> 0 then clock else DR_StartedAt item), DR_FinishedAt = None\<rparr>
            in if row_by DR_ID run_id (RD_Discoveries db) \<noteq> None \<or> \<not> DR_BaseSiteRevision row > 0 \<or>
                  \<not> DR_BaseEndpointRevision row > 0
               then Inl ErrConstraint
               else Inr (db\<lparr>RD_Discoveries := RD_Discoveries db @ [row]\<rparr>))
      | _ \<Rightarrow> Inl ErrNoRows)"

definition insert_model_discovery_attempt ::
  "(string \<Rightarrow> string) \<Rightarrow> int \<Rightarrow> discovery_attempt_row \<Rightarrow> run_db \<Rightarrow> (store_error, int \<times> run_db) result" where
  "insert_model_discovery_attempt redact clock item db =
     (let run_id = trim_space (DA_RunID item); status = to_lower (trim_space (DA_Status item));
          finished = (if DA_FinishedAt item \<le> 0 then clock else DA_FinishedAt item);
          started = (if DA_StartedAt item \<le> 0 \<or> DA_StartedAt item > finished then finished else DA_StartedAt item) in
      if run_id = [] \<or> DA_Index item < 0 then Inl (ErrText ''discovery run and attempt index are required'')
      else if \<not> valid_attempt_status status then Inl (ErrText ''unknown discovery attempt status'')
      else if DA_ModelCount item < 0 \<or> DA_PagesFetched item < 0 then Inl (ErrText ''discovery counts cannot be negative'')
      else case row_by DR_ID run_id (RD_Discoveries db) of
        None \<Rightarrow> Inl ErrNoRows
      | Some run \<Rightarrow>
          if DR_Status run \<noteq> ''running'' then Inl (ErrText ''model discovery run is already finished'')
          else
            (case (case DA_CredentialID item of
                     None \<Rightarrow> Inr (DA_CredentialName item)
                   | Some cid \<Rightarrow>
                       if cid \<le> 0 then Inl (ErrText ''inference credential ID must be positive'')
                       else (case find (\<lambda>c. CR_ID c = cid \<and> CR_SiteID c = DR_SiteID run) (db_credentials (RD_Site db)) of
                               None \<Rightarrow> Inl ErrNoRows | Some c \<Rightarrow> Inr (CR_Name c))) of
               Inl err \<Rightarrow> Inl err
             | Inr name0 \<Rightarrow>
                 (let name = (if trim_space name0 = [] then ''Unavailable credential'' else name0);
                      new_id = seq_discovery_attempts db + 1 in
                  if list_ex (\<lambda>a. DA_RunID a = run_id \<and> DA_Index a = DA_Index item) (RD_DiscoveryAttempts db)
                  then Inl ErrConstraint
                  else Inr (new_id, db\<lparr>seq_discovery_attempts := new_id, RD_DiscoveryAttempts := RD_DiscoveryAttempts db @
                         [item\<lparr>DA_ID := new_id, DA_RunID := run_id, DA_CredentialName := name, DA_Status := status,
                               DA_ErrorMessage := redact (DA_ErrorMessage item), DA_StartedAt := started,
                               DA_FinishedAt := finished\<rparr>]\<rparr>))))"

text \<open>The update that finishes a running discovery run.\<close>

definition finish_discovery_run ::
  "string \<Rightarrow> string \<Rightarrow> int \<Rightarrow> int \<Rightarrow> string \<Rightarrow> string \<Rightarrow> int \<Rightarrow> run_db \<Rightarrow> run_db" where
  "finish_discovery_run run_id status successes model_count summary message finished_at db =
     db\<lparr>RD_Discoveries := fst (sql_update (\<lambda>r. DR_ID r = run_id \<and> DR_Status r = ''running'')
          (\<lambda>r. r\<lparr>DR_Status := status, DR_SuccessCount := successes, DR_ModelCount := model_count, DR_Summary := summary,
                 DR_ErrorMessage := message, DR_FinishedAt := Some finished_at\<rparr>) (RD_Discoveries db))\<rparr>"

definition complete_model_discovery_run ::
  "(string \<Rightarrow> string option) \<Rightarrow> (string \<Rightarrow> string) \<Rightarrow> int \<Rightarrow> string \<Rightarrow> int \<Rightarrow> string \<Rightarrow> string \<Rightarrow> int \<Rightarrow> run_db
    \<Rightarrow> (store_error, run_db) result" where
  "complete_model_discovery_run compact_json redact clock run_id0 model_count summary0 message finished_at0 db =
     (let run_id = trim_space run_id0; finished_at = (if finished_at0 \<le> 0 then clock else finished_at0) in
      if run_id = [] \<or> model_count < 0
      then Inl (ErrText ''discovery run ID is required and model count cannot be negative'')
      else and_then (normalize_run_summary compact_json summary0) (\<lambda>summary.
        case row_by DR_ID run_id (RD_Discoveries db) of
          None \<Rightarrow> Inl ErrNoRows
        | Some run \<Rightarrow>
            if DR_Status run \<noteq> ''running'' then Inr db
            else
              (let attempts = filter (\<lambda>a. DA_RunID a = run_id) (RD_DiscoveryAttempts db);
                   count = (\<lambda>P. int (length (filter P attempts)));
                   successes = count (\<lambda>a. DA_Status a = ''success''); failures = count (\<lambda>a. DA_Status a = ''failed'');
                   skipped = count (\<lambda>a. DA_Status a = ''skipped'');
                   incomplete = count (\<lambda>a. DA_Status a = ''success'' \<and> \<not> DA_Complete a);
                   status = (if successes > 0 \<and> failures = 0 \<and> skipped = 0 \<and> incomplete = 0 then ''success''
                             else if successes > 0 then ''partial'' else ''failed'')
               in Inr (finish_discovery_run run_id status successes model_count summary (redact message) finished_at db))))"

definition fail_model_discovery_run ::
  "(string \<Rightarrow> string option) \<Rightarrow> (string \<Rightarrow> string) \<Rightarrow> int \<Rightarrow> string \<Rightarrow> int \<Rightarrow> string \<Rightarrow> string \<Rightarrow> int \<Rightarrow> run_db
    \<Rightarrow> (store_error, run_db) result" where
  "fail_model_discovery_run compact_json redact clock run_id0 model_count summary0 message finished_at0 db =
     (let run_id = trim_space run_id0; finished_at = (if finished_at0 \<le> 0 then clock else finished_at0) in
      if run_id = [] \<or> model_count < 0
      then Inl (ErrText ''discovery run ID is required and model count cannot be negative'')
      else and_then (normalize_run_summary compact_json summary0) (\<lambda>summary.
        case row_by DR_ID run_id (RD_Discoveries db) of
          None \<Rightarrow> Inl ErrNoRows
        | Some run \<Rightarrow>
            if DR_Status run \<noteq> ''running'' then Inr db
            else
              (let successes = int (length (filter (\<lambda>a. DA_RunID a = run_id \<and> DA_Status a = ''success'') (RD_DiscoveryAttempts db)))
               in Inr (finish_discovery_run run_id ''failed'' successes model_count summary (redact message) finished_at db))))"

definition get_model_discovery_run :: "string \<Rightarrow> run_db \<Rightarrow> discovery_run_row option" where
  "get_model_discovery_run run_id db = row_by DR_ID (trim_space run_id) (RD_Discoveries db)"

definition list_model_discovery_runs :: "int \<Rightarrow> int \<Rightarrow> run_db \<Rightarrow> discovery_run_row list" where
  "list_model_discovery_runs site limit0 db =
     (let limit = (if limit0 \<le> 0 \<or> limit0 > 200 then 50 else limit0)
      in take (nat limit)
           (slice_stable (\<lambda>a b. DR_StartedAt a > DR_StartedAt b \<or> DR_StartedAt a = DR_StartedAt b \<and> bytes_less (DR_ID b) (DR_ID a))
             (filter (\<lambda>r. DR_SiteID r = site) (RD_Discoveries db))))"

definition list_model_discovery_attempts :: "string \<Rightarrow> run_db \<Rightarrow> discovery_attempt_row list" where
  "list_model_discovery_attempts run_id db =
     slice_stable (\<lambda>a b. DA_Index a < DA_Index b \<or> DA_Index a = DA_Index b \<and> DA_ID a < DA_ID b)
       (filter (\<lambda>a. DA_RunID a = trim_space run_id) (RD_DiscoveryAttempts db))"

subsection \<open>Applying a discovery run\<close>

definition normalized_discovery_models :: "string list \<Rightarrow> string list" where
  "normalized_discovery_models models =
     slice_stable bytes_less (rev (remdups (rev (filter (\<lambda>m. m \<noteq> []) (map trim_space models)))))"

text \<open>\<open>requireDiscoveryRevision\<close>: the no-op update must hit one row.\<close>

definition require_discovery_revision :: "('r \<Rightarrow> bool) \<Rightarrow> 'r list \<Rightarrow> (store_error, unit) result" where
  "require_discovery_revision P t = (if snd (sql_update P id t) \<noteq> 1 then Inl ErrRevisionConflict else Inr ())"

definition discover_site_model :: "int \<Rightarrow> int \<Rightarrow> int \<Rightarrow> string \<Rightarrow> site_db \<Rightarrow> site_db" where
  "discover_site_model now site endpoint name db =
     (case model_named endpoint name db of
        None \<Rightarrow>
          (let new_id = seq_models db + 1 in
           db\<lparr>seq_models := new_id, db_models := db_models db @
             [new_site_model new_id now \<lparr>MW_SiteID = site, MW_EndpointID = endpoint, MW_ModelName = name, MW_DisplayName = [],
                MW_Enabled = True, MW_Stale = False, MW_MissingCount = 0, MW_LastSeenAt = Some now\<rparr>]\<rparr>)
      | Some old \<Rightarrow>
          (let db1 = bump_published_models_for_site_model_tx (SM_ID old) now db in
           db1\<lparr>db_models := fst (sql_update (\<lambda>m. SM_ID m = SM_ID old \<and> SM_SiteID m = site)
             (\<lambda>m. m\<lparr>SM_Stale := False, SM_MissingCount := 0, SM_LastSeenAt := Some now,
                    SM_Revision := SM_Revision m + 1, SM_UpdatedAt := now\<rparr>) (db_models db1))\<rparr>))"

text \<open>What a credential's result says about one model of the endpoint.\<close>

definition access_of :: "int \<Rightarrow> int \<Rightarrow> site_db \<Rightarrow> access_row option" where
  "access_of credential model db = find (\<lambda>a. MA_CredentialID a = credential \<and> MA_SiteModelID a = model) (db_access db)"

definition discovered_access :: "int \<Rightarrow> int \<Rightarrow> int \<Rightarrow> bool \<Rightarrow> site_model_row \<Rightarrow> site_db \<Rightarrow> access_row" where
  "discovered_access now site credential present m db =
     (let old = access_of credential (SM_ID m) db;
          missing0 = (case old of None \<Rightarrow> 0 | Some a \<Rightarrow> MA_MissingCount a);
          availability0 = (case old of None \<Rightarrow> ''unknown'' | Some a \<Rightarrow> MA_Availability a);
          missing = (if present then 0 else missing0 + 1);
          availability = (if present then ''supported'' else if missing \<ge> 2 then ''unsupported'' else availability0)
      in \<lparr>MA_SiteID = site, MA_CredentialID = credential, MA_SiteModelID = SM_ID m, MA_Availability = availability,
          MA_MissingCount = missing, MA_LastSeenAt = (if present then Some now else None), MA_LastCheckedAt = Some now,
          MA_Revision = 1, MA_UpdatedAt = now\<rparr>)"

definition put_discovered_access :: "access_row \<Rightarrow> site_db \<Rightarrow> site_db" where
  "put_discovered_access n db =
     db\<lparr>db_access :=
       (case access_of (MA_CredentialID n) (MA_SiteModelID n) db of
          None \<Rightarrow> db_access db @ [n]
        | Some _ \<Rightarrow> fst (sql_update
            (\<lambda>a. MA_CredentialID a = MA_CredentialID n \<and> MA_SiteModelID a = MA_SiteModelID n \<and> MA_SiteID a = MA_SiteID n)
            (\<lambda>a. a\<lparr>MA_Availability := MA_Availability n, MA_MissingCount := MA_MissingCount n,
                   MA_LastSeenAt := (case MA_LastSeenAt n of Some t \<Rightarrow> Some t | None \<Rightarrow> MA_LastSeenAt a),
                   MA_LastCheckedAt := MA_LastCheckedAt n, MA_Revision := MA_Revision a + 1,
                   MA_UpdatedAt := MA_UpdatedAt n\<rparr>) (db_access db)))\<rparr>"

definition apply_credential_models ::
  "int \<Rightarrow> int \<Rightarrow> int \<Rightarrow> string list \<Rightarrow> site_model_row list \<Rightarrow> site_db \<Rightarrow> site_db" where
  "apply_credential_models now site credential found models db =
     fold (\<lambda>m d. put_discovered_access (discovered_access now site credential (SM_ModelName m \<in> set found) m d) d) models db"

fun apply_credentials ::
  "int \<Rightarrow> int \<Rightarrow> site_model_row list \<Rightarrow> int list \<Rightarrow> (int \<times> string list) list \<Rightarrow> site_db
    \<Rightarrow> (store_error, site_db) result" where
  "apply_credentials now site models seen [] db = Inr db"
| "apply_credentials now site models seen ((credential, names) # rest) db =
     (if credential \<le> 0 then Inl (ErrText ''discovery credential ID must be positive'')
      else if credential \<in> set seen then Inl (ErrText ''discovery credential results must be unique'')
      else if \<not> list_ex (\<lambda>c. CR_ID c = credential \<and> CR_SiteID c = site \<and> CR_Enabled c) (db_credentials db)
      then Inl ErrRevisionConflict
      else apply_credentials now site models (credential # seen) rest
             (apply_credential_models now site credential (normalized_discovery_models names) models db))"

definition apply_model_discovery_run ::
  "int \<Rightarrow> string \<Rightarrow> (int \<times> string list) list \<Rightarrow> string list \<Rightarrow> int \<Rightarrow> run_db \<Rightarrow> (store_error, run_db) result" where
  "apply_model_discovery_run clock run_id0 credentials models0 now0 db =
     (let run_id = trim_space run_id0; models = normalized_discovery_models models0;
          now = (if now0 \<le> 0 then clock else now0) in
      if run_id = [] \<or> credentials = [] \<or> models = []
      then Inl (ErrText ''discovery run, successful credentials, and models are required'')
      else case row_by DR_ID run_id (RD_Discoveries db) of
        None \<Rightarrow> Inl ErrNoRows
      | Some run \<Rightarrow>
          if DR_Status run \<noteq> ''running'' then Inl ErrRequestAlreadyFinished
          else
            (let site = DR_SiteID run; endpoint = DR_EndpointID run in
             and_then (require_discovery_revision
                 (\<lambda>s. S_ID s = site \<and> S_Revision s = DR_BaseSiteRevision run \<and> S_Enabled s) (db_sites (RD_Site db))) (\<lambda>_.
             and_then (require_discovery_revision
                 (\<lambda>e. E_ID e = endpoint \<and> E_SiteID e = site \<and> E_Revision e = DR_BaseEndpointRevision run \<and> E_Enabled e)
                 (db_endpoints (RD_Site db))) (\<lambda>_.
             let db1 = fold (discover_site_model now site endpoint) models (RD_Site db);
                 rows = filter (\<lambda>m. SM_EndpointID m = endpoint) (db_models db1)
             in and_then (apply_credentials now site rows [] credentials db1) (\<lambda>db2. Inr (db\<lparr>RD_Site := db2\<rparr>))))))"

subsection \<open>How the tables evolve\<close>

text \<open>
  A change of the site tables acts on the runs through their foreign keys: a run goes with its model,
  its site or its endpoint, and an attempt with its run; what else an attempt refers to becomes \<open>NULL\<close>.
\<close>

definition still_there :: "('r \<Rightarrow> int) \<Rightarrow> 'r list \<Rightarrow> int option \<Rightarrow> int option" where
  "still_there key t v = (case v of None \<Rightarrow> None | Some i \<Rightarrow> if row_by key i t = None then None else Some i)"

definition with_site :: "site_db \<Rightarrow> run_db \<Rightarrow> run_db" where
  "with_site site db =
     (let probes = filter (\<lambda>r. row_by PM_ID (PB_ModelID r) (db_published site) \<noteq> None) (RD_Probes db);
          discoveries = filter (\<lambda>r. row_by S_ID (DR_SiteID r) (db_sites site) \<noteq> None \<and>
            row_by E_ID (DR_EndpointID r) (db_endpoints site) \<noteq> None) (RD_Discoveries db)
      in db\<lparr>RD_Site := site, RD_Probes := probes,
           RD_ProbeAttempts := map (\<lambda>a. a\<lparr>PA_TargetID := still_there RT_ID (db_targets site) (PA_TargetID a),
                PA_SiteID := still_there S_ID (db_sites site) (PA_SiteID a),
                PA_EndpointID := still_there E_ID (db_endpoints site) (PA_EndpointID a),
                PA_CredentialID := still_there CR_ID (db_credentials site) (PA_CredentialID a),
                PA_SiteModelID := still_there SM_ID (db_models site) (PA_SiteModelID a)\<rparr>)
             (filter (\<lambda>a. row_by PB_ID (PA_RunID a) probes \<noteq> None) (RD_ProbeAttempts db)),
           RD_Discoveries := discoveries,
           RD_DiscoveryAttempts := map (\<lambda>a. a\<lparr>DA_CredentialID := still_there CR_ID (db_credentials site) (DA_CredentialID a)\<rparr>)
             (filter (\<lambda>a. row_by DR_ID (DA_RunID a) discoveries \<noteq> None) (RD_DiscoveryAttempts db))\<rparr>)"

inductive run_step :: "run_db \<Rightarrow> run_db \<Rightarrow> bool" where
  insert_probe: "insert_probe_run clock item db = Inr db' \<Longrightarrow> run_step db db'"
| attempt: "insert_probe_attempt redact clock item' db = Inr (new_id, db') \<Longrightarrow> run_step db db'"
| complete: "complete_probe_run redact clock run_id finished_at message db = Inr db' \<Longrightarrow> run_step db db'"
| cancel: "cancel_probe_run redact clock run_id finished_at message db = Inr db' \<Longrightarrow> run_step db db'"
| expire: "expire_stale_probe_runs clock now db = (changed, db') \<Longrightarrow> run_step db db'"
| insert_discovery: "insert_model_discovery_run compact_json clock run db = Inr db' \<Longrightarrow> run_step db db'"
| discovery_attempt: "insert_model_discovery_attempt redact clock d_item db = Inr (new_id, db') \<Longrightarrow> run_step db db'"
| complete_discovery:
    "complete_model_discovery_run compact_json redact clock run_id n summary message finished_at db = Inr db' \<Longrightarrow> run_step db db'"
| fail_discovery:
    "fail_model_discovery_run compact_json redact clock run_id n summary message finished_at db = Inr db' \<Longrightarrow> run_step db db'"
| apply_discovery: "apply_model_discovery_run clock run_id credentials models now db = Inr db' \<Longrightarrow> run_step db db'"
| site: "site_step (RD_Site db) site \<Longrightarrow> run_step db (with_site site db)"

definition empty_run_db :: run_db where
  "empty_run_db = \<lparr>RD_Site = empty_site_db, RD_Probes = [], RD_ProbeAttempts = [], RD_Discoveries = [],
     RD_DiscoveryAttempts = [], seq_probe_attempts = 0, seq_discovery_attempts = 0\<rparr>"

text \<open>A row of a probe run: nothing counted while it runs, everything accounted for when it has ended.\<close>

definition probe_row_ok :: "probe_run_row \<Rightarrow> bool" where
  "probe_row_ok r \<longleftrightarrow> 0 \<le> PB_TargetCount r \<and> valid_probe_trigger (PB_TriggerKind r) \<and>
     0 \<le> PB_SuccessCount r \<and> 0 \<le> PB_FailureCount r \<and> 0 \<le> PB_SkippedCount r \<and>
     (if PB_Status r = ''running'' \<or> PB_Status r = ''cancelled''
      then PB_SuccessCount r = 0 \<and> PB_FailureCount r = 0 \<and> PB_SkippedCount r = 0
      else PB_Status r = (if PB_TargetCount r > 0 \<and> PB_SuccessCount r = PB_TargetCount r then ''success''
                          else if PB_SuccessCount r > 0 then ''partial'' else ''failed'') \<and>
        PB_SuccessCount r + PB_FailureCount r + PB_SkippedCount r = PB_TargetCount r) \<and>
     (PB_FinishedAt r = None \<longleftrightarrow> PB_Status r = ''running'')"

definition probes_wf :: "run_db \<Rightarrow> bool" where
  "probes_wf db \<longleftrightarrow> unique_key PB_ID (RD_Probes db) \<and> list_all probe_row_ok (RD_Probes db) \<and>
     list_all (\<lambda>a. valid_attempt_status (PA_Status a)) (RD_ProbeAttempts db)"

lemma count_classes:
  assumes "\<And>x. x \<in> set xs \<Longrightarrow> P x \<or> Q x \<or> R x"
  shows "length (filter P xs) + length (filter (\<lambda>x. \<not> P x \<and> Q x) xs) + length (filter (\<lambda>x. \<not> P x \<and> \<not> Q x \<and> R x) xs) = length xs"
  using assms by (induction xs) auto

lemma observed_classes:
  assumes "list_all (\<lambda>a. valid_attempt_status (PA_Status a)) attempts" and "t \<in> set (observed_targets attempts)"
  shows "some_attempt ''success'' attempts t \<or> some_attempt ''failed'' attempts t \<or> some_attempt ''skipped'' attempts t"
  using assms by (auto simp: observed_targets_def some_attempt_def list_all_iff list_ex_iff valid_attempt_status_def)

lemma probe_counts_sum:
  assumes "list_all (\<lambda>a. valid_attempt_status (PA_Status a)) attempts" and "probe_counts attempts = (observed, s, f, k)"
  shows "s + f + k = observed \<and> 0 \<le> s \<and> 0 \<le> f \<and> 0 \<le> k"
proof -
  let ?targets = "observed_targets attempts" and ?some = "\<lambda>status. some_attempt status attempts"
  have "length (filter (?some ''success'') ?targets) + length (filter (\<lambda>t. \<not> ?some ''success'' t \<and> ?some ''failed'' t) ?targets) +
      length (filter (\<lambda>t. \<not> ?some ''success'' t \<and> \<not> ?some ''failed'' t \<and> ?some ''skipped'' t) ?targets) = length ?targets"
    by (rule count_classes) (rule observed_classes [OF assms(1)])
  then show ?thesis
    using assms(2) by (auto simp: probe_counts_def Let_def simp flip: of_nat_add)
qed

lemma list_all_update:
  "list_all P t \<Longrightarrow> (\<And>r. r \<in> set t \<Longrightarrow> Q r \<Longrightarrow> P r \<Longrightarrow> P (f r)) \<Longrightarrow> list_all P (fst (sql_update Q f t))"
  by (auto simp: list_all_iff sql_update_def)

text \<open>What completing a running probe run writes.\<close>

definition completed_probe :: "(string \<Rightarrow> string) \<Rightarrow> string \<Rightarrow> int \<Rightarrow> probe_attempt_row list \<Rightarrow> probe_run_row \<Rightarrow> probe_run_row" where
  "completed_probe redact message finished_at attempts r =
     (let (observed, successes, failures, skipped0) = probe_counts attempts;
          target_count = max observed (PB_TargetCount r); skipped = skipped0 + (target_count - observed)
      in r\<lparr>PB_Status := if target_count > 0 \<and> successes = target_count then ''success''
                        else if successes > 0 then ''partial'' else ''failed'',
           PB_TargetCount := target_count, PB_SuccessCount := successes, PB_FailureCount := failures,
           PB_SkippedCount := skipped, PB_ErrorMessage := redact message, PB_FinishedAt := Some finished_at\<rparr>)"

lemma complete_probe_run_running:
  assumes "row_by PB_ID (trim_space run_id) (RD_Probes db) = Some run" and "PB_Status run = ''running''"
    and "unique_key PB_ID (RD_Probes db)" and "trim_space run_id \<noteq> []"
  shows "complete_probe_run redact clock run_id finished_at message db =
    Inr (db\<lparr>RD_Probes := fst (sql_update (\<lambda>r. PB_ID r = trim_space run_id \<and> PB_Status r = ''running'')
      (completed_probe redact message (if finished_at \<le> 0 then clock else finished_at)
        (filter (\<lambda>a. PA_RunID a = trim_space run_id) (RD_ProbeAttempts db))) (RD_Probes db))\<rparr>)"
proof -
  let ?attempts = "filter (\<lambda>a. PA_RunID a = trim_space run_id) (RD_ProbeAttempts db)"
  let ?P = "\<lambda>r :: probe_run_row. PB_ID r = trim_space run_id \<and> PB_Status r = ''running''"
  obtain observed s f k where counts: "probe_counts ?attempts = (observed, s, f, k)" by (metis prod_cases4)
  have eq: "r = run" if "r \<in> set (RD_Probes db)" "?P r" for r
    using row_by_unique [OF assms(3,1) that(1)] that(2) by simp
  define f' where "f' = (\<lambda>r :: probe_run_row. r\<lparr>PB_Status := (if (if observed > PB_TargetCount run then observed else PB_TargetCount run) > 0 \<and>
        s = (if observed > PB_TargetCount run then observed else PB_TargetCount run) then ''success''
        else if s > 0 then ''partial'' else ''failed''),
      PB_TargetCount := (if observed > PB_TargetCount run then observed else PB_TargetCount run), PB_SuccessCount := s,
      PB_FailureCount := f,
      PB_SkippedCount := (if observed < (if observed > PB_TargetCount run then observed else PB_TargetCount run)
        then k + ((if observed > PB_TargetCount run then observed else PB_TargetCount run) - observed) else k),
      PB_ErrorMessage := redact message, PB_FinishedAt := Some (if finished_at \<le> 0 then clock else finished_at)\<rparr>)"
  have "complete_probe_run redact clock run_id finished_at message db =
      Inr (db\<lparr>RD_Probes := fst (sql_update ?P f' (RD_Probes db))\<rparr>)"
    using assms counts by (simp add: complete_probe_run_def Let_def f'_def)
  moreover have "f' run = completed_probe redact message (if finished_at \<le> 0 then clock else finished_at) ?attempts run"
    by (simp add: f'_def completed_probe_def counts Let_def max_def)
  then have "sql_update ?P f' (RD_Probes db) = sql_update ?P (completed_probe redact message
      (if finished_at \<le> 0 then clock else finished_at) ?attempts) (RD_Probes db)"
    using eq by (auto simp: sql_update_def)
  ultimately show ?thesis by simp
qed

lemma complete_probe_run_InrD:
  assumes "complete_probe_run redact clock run_id finished_at message db = Inr db'" and "unique_key PB_ID (RD_Probes db)"
  shows "db' = db \<or>
    db' = db\<lparr>RD_Probes := fst (sql_update (\<lambda>r. PB_ID r = trim_space run_id \<and> PB_Status r = ''running'')
      (completed_probe redact message (if finished_at \<le> 0 then clock else finished_at)
        (filter (\<lambda>a. PA_RunID a = trim_space run_id) (RD_ProbeAttempts db))) (RD_Probes db))\<rparr>"
proof (cases "row_by PB_ID (trim_space run_id) (RD_Probes db)")
  case (Some run)
  show ?thesis
  proof (cases "PB_Status run = ''running'' \<and> trim_space run_id \<noteq> []")
    case True
    then show ?thesis using complete_probe_run_running [OF Some _ assms(2)] assms(1) by simp
  next
    case False
    then show ?thesis using Some assms(1) by (auto simp: complete_probe_run_def Let_def split: if_splits)
  qed
qed (use assms(1) in \<open>auto simp: complete_probe_run_def Let_def split: if_splits\<close>)

lemma completed_probe_sel [simp]:
  "PB_ID (completed_probe redact message finished_at attempts r) = PB_ID r"
  "PB_TriggerKind (completed_probe redact message finished_at attempts r) = PB_TriggerKind r"
  by (simp_all add: completed_probe_def split_def Let_def)

lemma completed_probe_ok:
  assumes "probe_row_ok r" and "list_all (\<lambda>a. valid_attempt_status (PA_Status a)) attempts"
  shows "probe_row_ok (completed_probe redact message finished_at attempts r)"
proof -
  obtain observed s f k where counts: "probe_counts attempts = (observed, s, f, k)" by (metis prod_cases4)
  from probe_counts_sum [OF assms(2) this] have "s + f + k = observed" "0 \<le> s" "0 \<le> f" "0 \<le> k" by auto
  then show ?thesis
    using assms(1) by (auto simp: completed_probe_def counts Let_def probe_row_ok_def)
qed

lemma insert_probe_run_InrD:
  assumes "insert_probe_run clock item db = Inr db'"
  obtains row where "db' = db\<lparr>RD_Probes := RD_Probes db @ [row]\<rparr>" and "row_by PB_ID (PB_ID row) (RD_Probes db) = None"
    and "PB_Status row = ''running''" and "probe_row_ok row" and "PB_ModelID row = PB_ModelID item"
  using assms that
  by (auto simp: insert_probe_run_def Let_def probe_row_ok_def split: option.splits if_splits)

lemma insert_probe_attempt_InrD:
  assumes "insert_probe_attempt redact clock item db = Inr (new_id, db')"
  obtains row run where "db' = db\<lparr>seq_probe_attempts := new_id, RD_ProbeAttempts := RD_ProbeAttempts db @ [row]\<rparr>"
    and "valid_attempt_status (PA_Status row)" and "row_by PB_ID (PA_RunID row) (RD_Probes db) = Some run"
    and "PB_Status run = ''running''"
  using assms that
  by (auto simp: insert_probe_attempt_def Let_def split: option.splits if_splits sum.splits)

lemma cancel_probe_run_InrD:
  assumes "cancel_probe_run redact clock run_id finished_at message db = Inr db'"
  shows "db' = db\<lparr>RD_Probes := fst (sql_update (\<lambda>r. PB_ID r = trim_space run_id \<and> PB_Status r = ''running'')
      (\<lambda>r. r\<lparr>PB_Status := ''cancelled'', PB_ErrorMessage := redact message,
             PB_FinishedAt := Some (if finished_at \<le> 0 then clock else finished_at)\<rparr>) (RD_Probes db))\<rparr>"
  using assms by (auto simp: cancel_probe_run_def Let_def split_def split: if_splits)

text \<open>Discovery runs leave the probe tables alone.\<close>

lemma discovery_keeps_probes:
  "insert_model_discovery_run compact_json clock run db = Inr db' \<Longrightarrow>
    RD_Probes db' = RD_Probes db \<and> RD_ProbeAttempts db' = RD_ProbeAttempts db"
  "insert_model_discovery_attempt redact clock d_item db = Inr (new_id, db') \<Longrightarrow>
    RD_Probes db' = RD_Probes db \<and> RD_ProbeAttempts db' = RD_ProbeAttempts db"
  "complete_model_discovery_run compact_json redact clock run_id n summary message finished_at db = Inr db' \<Longrightarrow>
    RD_Probes db' = RD_Probes db \<and> RD_ProbeAttempts db' = RD_ProbeAttempts db"
  "fail_model_discovery_run compact_json redact clock run_id n summary message finished_at db = Inr db' \<Longrightarrow>
    RD_Probes db' = RD_Probes db \<and> RD_ProbeAttempts db' = RD_ProbeAttempts db"
  "apply_model_discovery_run clock run_id credentials models now db = Inr db' \<Longrightarrow>
    RD_Probes db' = RD_Probes db \<and> RD_ProbeAttempts db' = RD_ProbeAttempts db"
  by (auto simp: insert_model_discovery_run_def insert_model_discovery_attempt_def complete_model_discovery_run_def
      fail_model_discovery_run_def finish_discovery_run_def apply_model_discovery_run_def Let_def
      split: option.splits if_splits sum.splits)

lemma probes_wf_update:
  assumes "probes_wf db" and "\<And>r. PB_ID (f r) = PB_ID r"
    and "\<And>r. P r \<Longrightarrow> probe_row_ok r \<Longrightarrow> probe_row_ok (f r)"
  shows "probes_wf (db\<lparr>RD_Probes := fst (sql_update P f (RD_Probes db))\<rparr>)"
  using assms by (auto simp: probes_wf_def intro!: unique_key_update list_all_update)

lemma run_step_wf: "run_step db db' \<Longrightarrow> probes_wf db \<Longrightarrow> probes_wf db'"
proof (induction rule: run_step.induct)
  case (insert_probe clock item db db')
  then show ?case
    by (elim insert_probe_run_InrD) (auto simp: probes_wf_def unique_key_append_row)
next
  case (attempt redact clock item' db new_id db')
  then show ?case by (elim insert_probe_attempt_InrD) (auto simp: probes_wf_def)
next
  case (complete redact clock run_id finished_at message db db')
  have valid: "list_all (\<lambda>a. valid_attempt_status (PA_Status a)) (filter (\<lambda>a. PA_RunID a = trim_space run_id) (RD_ProbeAttempts db))"
    using complete.prems by (auto simp: probes_wf_def list_all_iff)
  have "unique_key PB_ID (RD_Probes db)" using complete.prems by (simp add: probes_wf_def)
  from complete_probe_run_InrD [OF complete.hyps this] show ?case
    using complete.prems probes_wf_update [OF complete.prems] completed_probe_ok [OF _ valid] by auto
next
  case (cancel redact clock run_id finished_at message db db')
  show ?case
    unfolding cancel_probe_run_InrD [OF cancel.hyps]
    by (rule probes_wf_update [OF cancel.prems]) (auto simp: probe_row_ok_def)
next
  case (expire clock now db changed db')
  then have db': "db' = db\<lparr>RD_Probes := fst (sql_update (probe_run_stale (if now \<le> 0 then clock else now) (RD_Site db))
      (\<lambda>r. r\<lparr>PB_Status := ''cancelled'', PB_ErrorMessage := ''probe worker stopped before completion'',
             PB_FinishedAt := Some (if now \<le> 0 then clock else now)\<rparr>) (RD_Probes db))\<rparr>"
    by (auto simp: expire_stale_probe_runs_def Let_def split_def)
  show ?case
    unfolding db' by (rule probes_wf_update [OF expire.prems]) (auto simp: probe_row_ok_def probe_run_stale_def)
next
  case (site db site)
  then show ?case
    by (auto simp: probes_wf_def with_site_def Let_def list_all_iff intro: unique_key_filter)
qed (auto simp: probes_wf_def dest: discovery_keeps_probes)

text \<open>What has ended stays as it is, until its model goes.\<close>

lemma run_step_final:
  assumes "run_step db db'" and "probes_wf db" and "row_by PB_ID i (RD_Probes db) = Some r" and "PB_Status r \<noteq> ''running''"
  shows "row_by PB_ID i (RD_Probes db') = Some r \<or>
    row_by PB_ID i (RD_Probes db') = None \<and> row_by PM_ID (PB_ModelID r) (db_published (RD_Site db')) = None"
  using assms
proof (induction rule: run_step.induct)
  case (insert_probe clock item db db')
  then show ?case by (elim insert_probe_run_InrD) (auto simp: row_by_append)
next
  case (attempt redact clock item' db new_id db')
  then show ?case by (elim insert_probe_attempt_InrD) auto
next
  case (complete redact clock run_id finished_at message db db')
  have "unique_key PB_ID (RD_Probes db)" using complete.prems by (simp add: probes_wf_def)
  from complete_probe_run_InrD [OF complete.hyps this] complete.prems show ?case
    by (auto simp: row_by_update)
next
  case (cancel redact clock run_id finished_at message db db')
  then show ?case unfolding cancel_probe_run_InrD [OF cancel.hyps] by (simp add: row_by_update)
next
  case (expire clock now db changed db')
  then show ?case
    by (auto simp: expire_stale_probe_runs_def Let_def split_def row_by_update probe_run_stale_def)
next
  case (site db site)
  then have "unique_key PB_ID (RD_Probes db)" by (simp add: probes_wf_def)
  with site.prems show ?case by (auto simp: with_site_def Let_def row_by_filter_row)
qed (auto dest: discovery_keeps_probes)

lemma probes_reachable: "run_step\<^sup>*\<^sup>* empty_run_db db \<Longrightarrow> probes_wf db"
proof (induction rule: rtranclp_induct)
  case base
  show ?case by (simp add: probes_wf_def empty_run_db_def unique_key_def)
next
  case (step y z)
  then show ?case by (blast intro: run_step_wf)
qed

lemma filter_remdups_card: "length (filter P (remdups xs)) = card {x \<in> set xs. P x}"
  by (metis distinct_card distinct_filter distinct_remdups set_filter set_remdups)

lemma probe_counts_card:
  "probe_counts attempts =
    (int (card (PA_TargetID ` set attempts)),
     int (card {t. some_attempt ''success'' attempts t}),
     int (card {t. \<not> some_attempt ''success'' attempts t \<and> some_attempt ''failed'' attempts t}),
     int (card {t. \<not> some_attempt ''success'' attempts t \<and> \<not> some_attempt ''failed'' attempts t \<and>
       some_attempt ''skipped'' attempts t}))"
proof -
  have mem: "t \<in> PA_TargetID ` set attempts" if "some_attempt status attempts t" for status t
    using that by (auto simp: some_attempt_def list_ex_iff)
  have "{t \<in> set (map PA_TargetID attempts). Q t} = {t. Q t}" if "\<And>t. Q t \<Longrightarrow> \<exists>status. some_attempt status attempts t" for Q
    using that mem by fastforce
  then show ?thesis
    by (simp add: probe_counts_def observed_targets_def Let_def filter_remdups_card length_remdups_card_conv) 
      (intro conjI arg_cong [where f = card]; auto dest: mem)
qed

subsection \<open>Properties\<close>

text \<open>
  \<^bold>\<open>C39.\<close> A probe run ends once and its counts add up. Whatever the probes, the scheduler and the administrators do in
  any order: a run has an end exactly when it is no longer running; a run that was completed has
  counted every one of its targets exactly once; and what has ended never changes again, until the model
  itself is deleted.
\<close>

theorem probe_runs_settle:
  assumes "run_step\<^sup>*\<^sup>* empty_run_db db" and "row_by PB_ID i (RD_Probes db) = Some r" and "run_step db db'"
  shows "(PB_FinishedAt r = None \<longleftrightarrow> PB_Status r = ''running'') \<and>
    PB_SuccessCount r + PB_FailureCount r + PB_SkippedCount r =
      (if PB_Status r = ''running'' \<or> PB_Status r = ''cancelled'' then 0 else PB_TargetCount r) \<and>
    (if PB_Status r = ''running'' then True
     else row_by PB_ID i (RD_Probes db') = Some r \<or>
       row_by PB_ID i (RD_Probes db') = None \<and> row_by PM_ID (PB_ModelID r) (db_published (RD_Site db')) = None)"
proof -
  have wf: "probes_wf db" using assms(1) by (rule probes_reachable)
  then have "probe_row_ok r" using row_by_SomeD [OF assms(2)] by (auto simp: probes_wf_def list_all_iff)
  then show ?thesis
    using run_step_final [OF assms(3) wf assms(2)] by (auto simp: probe_row_ok_def)
qed

text \<open>
  \<^bold>\<open>C38.\<close> The verdict of a probe run. Completing a running run counts each target by its best attempt: a target with a success
  has succeeded, else one with a failure has failed, and what is left, tried or not, was skipped. The run is a success
  if every target succeeded, partial if some did, and failed otherwise. No other run changes.
\<close>

theorem probe_run_verdict:
  assumes "run_step\<^sup>*\<^sup>* empty_run_db db" and "row_by PB_ID (trim_space run_id) (RD_Probes db) = Some run"
    and "PB_Status run = ''running''" and "trim_space run_id \<noteq> []"
  shows "\<exists>db' run'. complete_probe_run redact clock run_id finished_at message db = Inr db' \<and>
    row_by PB_ID (trim_space run_id) (RD_Probes db') = Some run' \<and>
    (let attempts = filter (\<lambda>a. PA_RunID a = trim_space run_id) (RD_ProbeAttempts db);
         succeeded = {t. \<exists>a \<in> set attempts. PA_TargetID a = t \<and> PA_Status a = ''success''};
         failed = {t. \<exists>a \<in> set attempts. PA_TargetID a = t \<and> PA_Status a = ''failed''} in
     PB_TargetCount run' = max (PB_TargetCount run) (int (card (PA_TargetID ` set attempts))) \<and>
     PB_SuccessCount run' = int (card succeeded) \<and> PB_FailureCount run' = int (card (failed - succeeded)) \<and>
     PB_SkippedCount run' = PB_TargetCount run' - int (card (succeeded \<union> failed)) \<and>
     PB_Status run' = (if PB_TargetCount run' > 0 \<and> int (card succeeded) = PB_TargetCount run' then ''success''
                       else if succeeded = {} then ''failed'' else ''partial'') \<and>
     (\<forall>other. other = trim_space run_id \<or> row_by PB_ID other (RD_Probes db') = row_by PB_ID other (RD_Probes db)))"
proof -
  let ?id = "trim_space run_id"
  define attempts where "attempts = filter (\<lambda>a. PA_RunID a = ?id) (RD_ProbeAttempts db)"
  define S where "S = {t. \<exists>a \<in> set attempts. PA_TargetID a = t \<and> PA_Status a = ''success''}"
  define F where "F = {t. \<exists>a \<in> set attempts. PA_TargetID a = t \<and> PA_Status a = ''failed''}"
  have wf: "probes_wf db" using assms(1) by (rule probes_reachable)
  then have unique: "unique_key PB_ID (RD_Probes db)" and ok: "probe_row_ok run"
    using row_by_SomeD [OF assms(2)] by (auto simp: probes_wf_def list_all_iff)
  have sets: "{t. some_attempt ''success'' attempts t} = S"
    "{t. \<not> some_attempt ''success'' attempts t \<and> some_attempt ''failed'' attempts t} = F - S"
    by (auto simp: some_attempt_def list_ex_iff S_def F_def)
  obtain observed s f k where counts: "probe_counts attempts = (observed, s, f, k)" by (metis prod_cases4)
  then have numbers: "observed = int (card (PA_TargetID ` set attempts))" "s = int (card S)" "f = int (card (F - S))"
    by (simp_all add: probe_counts_card sets)
  have "list_all (\<lambda>a. valid_attempt_status (PA_Status a)) attempts"
    using wf by (auto simp: probes_wf_def attempts_def list_all_iff)
  from probe_counts_sum [OF this counts] have sum: "s + f + k = observed" by simp
  have fin: "finite S" "finite F" by (auto simp: S_def F_def)
  have union: "int (card (S \<union> F)) = s + f"
    using card_Un_disjoint [of S "F - S"] fin by (simp add: numbers Un_Diff_cancel)
  let ?row = "completed_probe redact message (if finished_at \<le> 0 then clock else finished_at) attempts"
  define db' where db': "db' = db\<lparr>RD_Probes := fst (sql_update (\<lambda>r. PB_ID r = ?id \<and> PB_Status r = ''running'') ?row (RD_Probes db))\<rparr>"
  have run': "complete_probe_run redact clock run_id finished_at message db = Inr db'"
    using complete_probe_run_running [OF assms(2,3) unique assms(4)] by (simp add: db' attempts_def)
  have row: "row_by PB_ID ?id (RD_Probes db') = Some (?row run)"
    using assms(2,3) row_by_SomeD [OF assms(2)] by (simp add: db' row_by_update)
  have others: "other = ?id \<or> row_by PB_ID other (RD_Probes db') = row_by PB_ID other (RD_Probes db)" for other
    by (cases "row_by PB_ID other (RD_Probes db)") (auto simp: db' row_by_update dest: row_by_SomeD)
  have positive: "s > 0 \<longleftrightarrow> S \<noteq> {}" using fin by (simp add: numbers card_gt_0_iff)
  have "PB_TargetCount (?row run) = max (PB_TargetCount run) observed" "PB_SuccessCount (?row run) = s"
    "PB_FailureCount (?row run) = f" "PB_SkippedCount (?row run) = PB_TargetCount (?row run) - (s + f)"
    "PB_Status (?row run) = (if PB_TargetCount (?row run) > 0 \<and> s = PB_TargetCount (?row run) then ''success''
       else if S = {} then ''failed'' else ''partial'')"
    using sum positive by (auto simp: completed_probe_def counts Let_def max.commute)
  then show ?thesis
    using run' row others unfolding Let_def attempts_def [symmetric] S_def [symmetric] F_def [symmetric]
    by (intro exI [of _ db'] exI [of _ "?row run"]) (simp add: union numbers)
qed

lemma fold_max_bound: "(\<forall>t \<in> set (t0 # ts). t \<le> (b::int)) \<Longrightarrow> fold max ts t0 \<le> b"
  by (induction ts arbitrary: t0) auto

lemma last_probe_bound:
  "0 \<le> b \<Longrightarrow> (\<And>r. r \<in> set (RD_Probes db) \<Longrightarrow> PB_ModelID r = model \<Longrightarrow> PB_StartedAt r \<le> b) \<Longrightarrow> last_probe_at db model \<le> b"
proof -
  assume b: "0 \<le> b" and all: "\<And>r. r \<in> set (RD_Probes db) \<Longrightarrow> PB_ModelID r = model \<Longrightarrow> PB_StartedAt r \<le> b"
  show ?thesis
  proof (cases "map PB_StartedAt (filter (\<lambda>r. PB_ModelID r = model) (RD_Probes db))")
    case Nil
    with b show ?thesis by (simp add: last_probe_at_def)
  next
    case (Cons t ts)
    have "\<forall>x \<in> set (map PB_StartedAt (filter (\<lambda>r. PB_ModelID r = model) (RD_Probes db))). x \<le> b"
      using all by auto
    then have "fold max ts t \<le> b" unfolding Cons by (rule fold_max_bound)
    then show ?thesis by (simp add: last_probe_at_def Cons)
  qed
qed

lemma map_filter_map:
  "(\<And>x. P (f x) = P x) \<Longrightarrow> (\<And>x. g (f x) = g x) \<Longrightarrow> map g (filter P (map f xs)) = map g (filter P xs)"
  by (induction xs) simp_all

definition probed_before :: "run_db \<Rightarrow> published_row \<Rightarrow> published_row \<Rightarrow> bool" where
  "probed_before db a b \<longleftrightarrow> last_probe_at db (PM_ID a) < last_probe_at db (PM_ID b) \<or>
     last_probe_at db (PM_ID a) = last_probe_at db (PM_ID b) \<and> PM_ID a < PM_ID b"

definition due_models :: "int \<Rightarrow> run_db \<Rightarrow> published_row list" where
  "due_models now db = filter (\<lambda>p. PM_Enabled p \<and> PM_MonitorEnabled p \<and>
     \<not> list_ex (\<lambda>r. PB_ModelID r = PM_ID p \<and> PB_Status r = ''running'') (RD_Probes db) \<and>
     last_probe_at db (PM_ID p) + PM_MonitorIntervalSeconds p * 1000 \<le> now) (db_published (RD_Site db))"

lemma list_due_eq:
  "list_due_published_models clock now limit db =
    take (nat (if limit \<le> 0 \<or> limit > 200 then 50 else limit))
      (slice_stable (probed_before db) (due_models (if now \<le> 0 then clock else now) db))"
  by (simp add: list_due_published_models_def due_models_def probed_before_def [abs_def] Let_def)

lemma probed_before_weak: "strict_weak (probed_before db)"
  by (auto simp: strict_weak_def probed_before_def)

text \<open>A model that is due is listed, or the list is full of models probed longer ago.\<close>

lemma due_listed:
  assumes "p \<in> set (due_models now db)" and "unique_key PM_ID (db_published (RD_Site db))"
  shows "p \<in> set (take n (slice_stable (probed_before db) (due_models now db))) \<or>
    length (take n (slice_stable (probed_before db) (due_models now db))) = n \<and>
    (\<forall>q \<in> set (take n (slice_stable (probed_before db) (due_models now db))). probed_before db q p)"
proof (cases "p \<in> set (take n (slice_stable (probed_before db) (due_models now db)))")
  case False
  let ?all = "slice_stable (probed_before db) (due_models now db)"
  have "p \<in> set ?all" using assms(1) by simp
  then have late: "p \<in> set (drop n ?all)" using False by (metis Un_iff append_take_drop_id set_append)
  then have "n < length ?all" by (metis drop_all empty_iff linorder_not_le list.set(1))
  moreover have "probed_before db q p" if q: "q \<in> set (take n ?all)" for q
  proof -
    have "\<not> probed_before db p q"
      using slice_stable_sorted [OF probed_before_weak] sorted_wrt_take_drop q late by metis
    moreover have "q \<in> set (db_published (RD_Site db))" "p \<in> set (db_published (RD_Site db))"
      using in_set_takeD [OF q] assms(1) by (simp_all add: due_models_def)
    then have "PM_ID q \<noteq> PM_ID p" using unique_keyD [OF assms(2)] q False by metis
    ultimately show ?thesis by (auto simp: probed_before_def)
  qed
  ultimately show ?thesis by simp
qed simp

text \<open>
  \<^bold>\<open>C40.\<close> The scheduler does not get stuck. Take a monitored model whose interval is over since its last probe run began, and
  which has no running probe run but such as a process that died has left behind (begun longer ago than the
  model's deadline and half a minute). After the stale runs have been expired the model is among the due ones, or
  the list, of 50 models when the caller names no other number, is full of models that were last probed before
  it. And a model is never probed twice at a time: once a run of it has been inserted, it is not due again
  whatever the time, as long as that run goes on.
\<close>

theorem scheduler_unstuck:
  assumes "p \<in> set (db_published (RD_Site db))" and "unique_key PM_ID (db_published (RD_Site db))"
    and "PM_Enabled p" and "PM_MonitorEnabled p" and "0 < now"
    and "last_probe_at db (PM_ID p) + PM_MonitorIntervalSeconds p * 1000 \<le> now"
    and "\<forall>r \<in> set (RD_Probes db). PB_ModelID r = PM_ID p \<and> PB_Status r = ''running'' \<longrightarrow>
      PB_StartedAt r + (PM_RequestDeadlineSeconds p + 30) * 1000 \<le> now"
    and "expire_stale_probe_runs clock now db = (expired, db')"
  shows "(let due = list_due_published_models clock now limit db' in
      p \<in> set due \<or>
      int (length due) = (if limit \<le> 0 \<or> limit > 200 then 50 else limit) \<and>
      (\<forall>q \<in> set due. last_probe_at db (PM_ID q) < last_probe_at db (PM_ID p) \<or>
         last_probe_at db (PM_ID q) = last_probe_at db (PM_ID p) \<and> PM_ID q < PM_ID p)) \<and>
    (\<forall>q item db'' clock' later limit'. PB_ModelID item = PM_ID q \<and> insert_probe_run clock item db' = Inr db'' \<longrightarrow>
      q \<notin> set (list_due_published_models clock' later limit' db''))"
proof
  have row: "row_by PM_ID (PM_ID p) (db_published (RD_Site db)) = Some p"
    using assms(1,2) by (simp add: row_by_eq_Some)
  have db': "RD_Site db' = RD_Site db" "RD_Probes db' = map (\<lambda>r. if probe_run_stale now (RD_Site db) r
      then r\<lparr>PB_Status := ''cancelled'', PB_ErrorMessage := ''probe worker stopped before completion'', PB_FinishedAt := Some now\<rparr>
      else r) (RD_Probes db)"
    using assms(5,8) by (auto simp: expire_stale_probe_runs_def Let_def sql_update_def)
  have idle: "\<not> list_ex (\<lambda>r. PB_ModelID r = PM_ID p \<and> PB_Status r = ''running'') (RD_Probes db')"
    using assms(7) row by (auto simp: db' list_ex_iff probe_run_stale_def split: option.splits)
  have last: "last_probe_at db' = last_probe_at db"
  proof
    fix model
    have "map PB_StartedAt (filter (\<lambda>r. PB_ModelID r = model) (RD_Probes db')) =
        map PB_StartedAt (filter (\<lambda>r. PB_ModelID r = model) (RD_Probes db))"
      unfolding db' by (rule map_filter_map) auto
    then show "last_probe_at db' model = last_probe_at db model" by (simp add: last_probe_at_def)
  qed
  have "p \<in> set (due_models now db')"
    using assms(1,3,4,6) idle by (simp add: due_models_def db'(1) last)
  from due_listed [OF this, of "nat (if limit \<le> 0 \<or> limit > 200 then 50 else limit)"] assms(2,5)
  show "let due = list_due_published_models clock now limit db' in
      p \<in> set due \<or>
      int (length due) = (if limit \<le> 0 \<or> limit > 200 then 50 else limit) \<and>
      (\<forall>q \<in> set due. last_probe_at db (PM_ID q) < last_probe_at db (PM_ID p) \<or>
         last_probe_at db (PM_ID q) = last_probe_at db (PM_ID p) \<and> PM_ID q < PM_ID p)"
    unfolding Let_def list_due_eq by (auto simp: db'(1) probed_before_def last)
  show "\<forall>q item db'' clock' later limit'. PB_ModelID item = PM_ID q \<and> insert_probe_run clock item db' = Inr db'' \<longrightarrow>
      q \<notin> set (list_due_published_models clock' later limit' db'')"
  proof (intro allI impI, elim conjE)
    fix q :: published_row and item db'' clock' later limit'
    assume item: "PB_ModelID item = PM_ID q" and ins: "insert_probe_run clock item db' = Inr db''"
    from ins have "list_ex (\<lambda>r. PB_ModelID r = PM_ID q \<and> PB_Status r = ''running'') (RD_Probes db'')"
      by (elim insert_probe_run_InrD) (auto simp: item)
    then show "q \<notin> set (list_due_published_models clock' later limit' db'')"
      unfolding list_due_eq by (auto simp: due_models_def dest!: in_set_takeD)
  qed
qed

subsection \<open>What applying a discovery run does\<close>

lemma find_update:
  "(\<And>r. P (f r) = P r) \<Longrightarrow> find P (fst (sql_update Q f t)) = map_option (\<lambda>r. if Q r then f r else r) (find P t)"
  by (induction t) (auto simp: sql_update_def)

lemma find_append: "find P (xs @ ys) = (case find P xs of None \<Rightarrow> find P ys | Some x \<Rightarrow> Some x)"
  by (induction xs) auto

definition freshly_seen :: "int \<Rightarrow> site_model_row \<Rightarrow> bool" where
  "freshly_seen now m \<longleftrightarrow> \<not> SM_Stale m \<and> SM_MissingCount m = 0 \<and> SM_LastSeenAt m = Some now"

text \<open>The catalogue of an endpoint after the models \<open>seen\<close> were written; \<open>d0\<close> is how it was.\<close>

definition catalogued :: "int \<Rightarrow> int \<Rightarrow> int \<Rightarrow> site_db \<Rightarrow> string set \<Rightarrow> site_db \<Rightarrow> bool" where
  "catalogued now site endpoint d0 seen d \<longleftrightarrow>
     db_sites d = db_sites d0 \<and> db_endpoints d = db_endpoints d0 \<and> db_credentials d = db_credentials d0 \<and>
     db_access d = db_access d0 \<and> db_targets d = db_targets d0 \<and> ids_ok SM_ID (seq_models d) (db_models d) \<and>
     (\<forall>m \<in> set (db_models d). SM_EndpointID m = endpoint \<longrightarrow> SM_SiteID m = site) \<and>
     SM_ID ` set (db_models d0) \<subseteq> SM_ID ` set (db_models d) \<and>
     (\<forall>name \<in> seen. \<exists>m. model_named endpoint name d = Some m \<and> freshly_seen now m) \<and>
     (\<forall>m \<in> set (db_models d). m \<in> set (db_models d0) \<or>
        SM_EndpointID m = endpoint \<and> SM_ModelName m \<in> seen \<and> freshly_seen now m)"

lemma discover_site_model_catalogued:
  assumes "catalogued now site endpoint d0 seen d"
  shows "catalogued now site endpoint d0 (insert name seen) (discover_site_model now site endpoint name d)"
proof (cases "model_named endpoint name d")
  case None
  let ?row = "new_site_model (seq_models d + 1) now \<lparr>MW_SiteID = site, MW_EndpointID = endpoint, MW_ModelName = name,
     MW_DisplayName = [], MW_Enabled = True, MW_Stale = False, MW_MissingCount = 0, MW_LastSeenAt = Some now\<rparr>"
  have eq: "discover_site_model now site endpoint name d =
      d\<lparr>seq_models := seq_models d + 1, db_models := db_models d @ [?row]\<rparr>"
    by (simp add: discover_site_model_def None Let_def)
  have named: "model_named endpoint n (discover_site_model now site endpoint name d) =
      (case model_named endpoint n d of None \<Rightarrow> if n = name then Some ?row else None | Some m \<Rightarrow> Some m)" for n
    by (auto simp: eq model_named_def find_append new_site_model_def split: option.split)
  have row: "freshly_seen now ?row" "SM_EndpointID ?row = endpoint" "SM_ModelName ?row = name" "SM_SiteID ?row = site"
    "SM_ID ?row = seq_models d + 1"
    by (simp_all add: freshly_seen_def new_site_model_def)
  have "ids_ok SM_ID (seq_models d + 1) (db_models d @ [?row])"
    using assms row(5) by (intro ids_ok_append) (simp_all add: catalogued_def)
  then show ?thesis
    using assms row None unfolding catalogued_def named by (auto simp: eq)
next
  case (Some old)
  let ?f = "\<lambda>m. m\<lparr>SM_Stale := False, SM_MissingCount := 0, SM_LastSeenAt := Some now, SM_Revision := SM_Revision m + 1,
     SM_UpdatedAt := now\<rparr>"
  let ?P = "\<lambda>m. SM_ID m = SM_ID old \<and> SM_SiteID m = site"
  have old: "old \<in> set (db_models d)" "SM_EndpointID old = endpoint" "SM_ModelName old = name"
    using Some by (auto simp: model_named_def find_Some_iff)
  then have site: "SM_SiteID old = site" using assms by (auto simp: catalogued_def)
  have only: "m = old" if "m \<in> set (db_models d)" "SM_ID m = SM_ID old" for m
    using assms that old(1) by (auto simp: catalogued_def ids_ok_def unique_key_def distinct_map inj_on_def)
  let ?d' = "discover_site_model now site endpoint name d"
  have models: "db_models ?d' = fst (sql_update ?P ?f (db_models d))"
    and rest: "db_sites ?d' = db_sites d" "db_endpoints ?d' = db_endpoints d" "db_credentials ?d' = db_credentials d"
      "db_access ?d' = db_access d" "db_targets ?d' = db_targets d"
    by (simp_all add: discover_site_model_def Some Let_def bump_defs)
  have seq: "seq_models ?d' = seq_models d"
    by (simp add: discover_site_model_def Some Let_def bump_defs bump_published_where_def)
  have named: "model_named endpoint n ?d' = map_option (\<lambda>m. if ?P m then ?f m else m) (model_named endpoint n d)" for n
    by (simp add: model_named_def models find_update)
  have mem: "m = ?f old \<or> m \<in> set (db_models d)" if m: "m \<in> set (db_models ?d')" for m
  proof -
    obtain x where x: "x \<in> set (db_models d)" "m = (if ?P x then ?f x else x)"
      using m by (auto simp: models sql_update_def)
    show ?thesis
    proof (cases "?P x")
      case True
      then have "x = old" using only x(1) by blast
      with x(2) True show ?thesis by simp
    next
      case False
      then show ?thesis using x(1) x(2) [unfolded if_not_P [OF False]] by simp
    qed
  qed
  have "ids_ok SM_ID (seq_models ?d') (db_models ?d')"
    using assms by (simp add: models seq ids_ok_update catalogued_def)
  moreover have "SM_ID ` set (db_models ?d') = SM_ID ` set (db_models d)"
    by (simp add: models image_update)
  moreover have fresh: "freshly_seen now (?f m)" "SM_EndpointID (?f m) = SM_EndpointID m" "SM_ModelName (?f m) = SM_ModelName m"
    "SM_SiteID (?f m) = SM_SiteID m" for m
    by (simp_all add: freshly_seen_def)
  moreover have "\<forall>n \<in> insert name seen. \<exists>m. model_named endpoint n ?d' = Some m \<and> freshly_seen now m"
  proof
    fix n assume n: "n \<in> insert name seen"
    show "\<exists>m. model_named endpoint n ?d' = Some m \<and> freshly_seen now m"
    proof (cases "n = name")
      case True
      then show ?thesis using Some site fresh(1) by (simp add: named)
    next
      case False
      with n assms obtain m where "model_named endpoint n d = Some m" "freshly_seen now m" by (auto simp: catalogued_def)
      then show ?thesis using fresh(1) by (simp add: named)
    qed
  qed
  moreover have "SM_EndpointID m = endpoint \<longrightarrow> SM_SiteID m = site" if "m \<in> set (db_models ?d')" for m
    using mem [OF that] assms site by (auto simp: catalogued_def)
  moreover have "m \<in> set (db_models d0) \<or>
      SM_EndpointID m = endpoint \<and> SM_ModelName m \<in> insert name seen \<and> freshly_seen now m"
    if "m \<in> set (db_models ?d')" for m
    using mem [OF that] assms old fresh(1) by (auto simp: catalogued_def)
  ultimately show ?thesis
    using assms rest unfolding catalogued_def by simp
qed

lemma discovered_models_catalogued:
  "catalogued now site endpoint d0 seen d \<Longrightarrow>
    catalogued now site endpoint d0 (seen \<union> set names) (fold (discover_site_model now site endpoint) names d)"
proof (induction names arbitrary: seen d)
  case (Cons name names)
  from Cons.IH [OF discover_site_model_catalogued [OF Cons.prems]] show ?case by simp
qed simp

text \<open>The access rows of one site's credentials and models belong to that site.\<close>

definition access_at :: "int \<Rightarrow> int set \<Rightarrow> site_db \<Rightarrow> bool" where
  "access_at site cs d \<longleftrightarrow> (\<forall>a \<in> set (db_access d). MA_CredentialID a \<in> cs \<longrightarrow> MA_SiteID a = site)"

definition merged_access :: "access_row option \<Rightarrow> access_row \<Rightarrow> access_row" where
  "merged_access old n = (case old of None \<Rightarrow> n
     | Some a \<Rightarrow> a\<lparr>MA_Availability := MA_Availability n, MA_MissingCount := MA_MissingCount n,
         MA_LastSeenAt := (case MA_LastSeenAt n of Some t \<Rightarrow> Some t | None \<Rightarrow> MA_LastSeenAt a),
         MA_LastCheckedAt := MA_LastCheckedAt n, MA_Revision := MA_Revision a + 1, MA_UpdatedAt := MA_UpdatedAt n\<rparr>)"

lemma put_discovered_access_of:
  assumes "access_at site cs d" and "MA_CredentialID n \<in> cs" and "MA_SiteID n = site"
  shows "access_of c m (put_discovered_access n d) =
      (if c = MA_CredentialID n \<and> m = MA_SiteModelID n then Some (merged_access (access_of c m d) n) else access_of c m d)"
    and "access_at site cs (put_discovered_access n d)"
    and "db_credentials (put_discovered_access n d) = db_credentials d \<and> db_models (put_discovered_access n d) = db_models d \<and>
      db_sites (put_discovered_access n d) = db_sites d \<and> db_endpoints (put_discovered_access n d) = db_endpoints d \<and>
      db_targets (put_discovered_access n d) = db_targets d"
proof -
  show "db_credentials (put_discovered_access n d) = db_credentials d \<and> db_models (put_discovered_access n d) = db_models d \<and>
      db_sites (put_discovered_access n d) = db_sites d \<and> db_endpoints (put_discovered_access n d) = db_endpoints d \<and>
      db_targets (put_discovered_access n d) = db_targets d"
    by (simp add: put_discovered_access_def)
  show "access_at site cs (put_discovered_access n d)"
    using assms by (auto simp: access_at_def put_discovered_access_def sql_update_def split: option.splits)
  show "access_of c m (put_discovered_access n d) =
      (if c = MA_CredentialID n \<and> m = MA_SiteModelID n then Some (merged_access (access_of c m d) n) else access_of c m d)"
  proof (cases "access_of (MA_CredentialID n) (MA_SiteModelID n) d")
    case None
    then show ?thesis
      by (auto simp: put_discovered_access_def access_of_def find_append merged_access_def split: option.splits)
  next
    case (Some a)
    let ?P = "\<lambda>a. MA_CredentialID a = MA_CredentialID n \<and> MA_SiteModelID a = MA_SiteModelID n \<and> MA_SiteID a = MA_SiteID n"
    have eq: "access_of c m (put_discovered_access n d) =
        map_option (\<lambda>r. if ?P r then merged_access (Some r) n else r) (access_of c m d)"
      using Some unfolding put_discovered_access_def access_of_def merged_access_def option.case by (simp add: find_update)
    have "MA_CredentialID r = c \<and> MA_SiteModelID r = m \<and> r \<in> set (db_access d)" if "access_of c m d = Some r" for r
      using that by (auto simp: access_of_def find_Some_iff)
    then show ?thesis
      using assms Some by (cases "access_of c m d") (auto simp: eq access_at_def)
  qed
qed

lemma discovered_access_cong:
  "access_of c (SM_ID x) d1 = access_of c (SM_ID x) d2 \<Longrightarrow>
    discovered_access now site c present x d1 = discovered_access now site c present x d2"
  by (simp add: discovered_access_def)

lemma apply_credential_models_of:
  assumes "access_at site cs d" and "credential \<in> cs" and "distinct (map SM_ID models)"
  shows "access_of c m (apply_credential_models now site credential found models d) =
      (case find (\<lambda>r. SM_ID r = m) models of
         Some r \<Rightarrow> if c = credential
                  then Some (merged_access (access_of c m d) (discovered_access now site c (SM_ModelName r \<in> set found) r d))
                  else access_of c m d
       | None \<Rightarrow> access_of c m d)"
    and "access_at site cs (apply_credential_models now site credential found models d)"
    and "db_credentials (apply_credential_models now site credential found models d) = db_credentials d \<and>
      db_models (apply_credential_models now site credential found models d) = db_models d \<and>
      db_sites (apply_credential_models now site credential found models d) = db_sites d \<and>
      db_endpoints (apply_credential_models now site credential found models d) = db_endpoints d \<and>
      db_targets (apply_credential_models now site credential found models d) = db_targets d"
proof -
  have "access_of c m (apply_credential_models now site credential found models d) =
      (case find (\<lambda>r. SM_ID r = m) models of
         Some r \<Rightarrow> if c = credential
                  then Some (merged_access (access_of c m d) (discovered_access now site c (SM_ModelName r \<in> set found) r d))
                  else access_of c m d
       | None \<Rightarrow> access_of c m d) \<and>
    access_at site cs (apply_credential_models now site credential found models d) \<and>
    db_credentials (apply_credential_models now site credential found models d) = db_credentials d \<and>
      db_models (apply_credential_models now site credential found models d) = db_models d \<and>
      db_sites (apply_credential_models now site credential found models d) = db_sites d \<and>
      db_endpoints (apply_credential_models now site credential found models d) = db_endpoints d \<and>
      db_targets (apply_credential_models now site credential found models d) = db_targets d"
    using assms(1,3)
  proof (induction models arbitrary: d)
    case Nil
    then show ?case by (simp add: apply_credential_models_def)
  next
    case (Cons r models)
    let ?n = "discovered_access now site credential (SM_ModelName r \<in> set found) r d"
    have sel: "MA_CredentialID ?n = credential" "MA_SiteID ?n = site" "MA_SiteModelID ?n = SM_ID r"
      by (simp_all add: discovered_access_def Let_def)
    note put = put_discovered_access_of [of site cs d ?n, unfolded sel, OF Cons.prems(1) assms(2) refl]
    have step: "apply_credential_models now site credential found (r # models) d =
        apply_credential_models now site credential found models (put_discovered_access ?n d)"
      by (simp add: apply_credential_models_def)
    have other: "discovered_access now site c present x (put_discovered_access ?n d) = discovered_access now site c present x d"
      if "SM_ID x \<noteq> SM_ID r" for present x
    proof -
      have eq: "access_of c (SM_ID x) (put_discovered_access ?n d) = access_of c (SM_ID x) d"
        using that by (subst put(1)) simp
      then show ?thesis by (rule discovered_access_cong)
    qed
    have fresh: "find (\<lambda>x. SM_ID x = SM_ID r) models = None"
      unfolding find_None_iff using Cons.prems(2) by (metis distinct.simps(2) imageI list.set_map list.simps(9))
    have distinct: "distinct (map SM_ID models)" using Cons.prems(2) by simp
    note ih = Cons.IH [OF put(2) distinct]
    have "access_of c m (apply_credential_models now site credential found models (put_discovered_access ?n d)) =
        (case find (\<lambda>r. SM_ID r = m) (r # models) of
           Some r \<Rightarrow> if c = credential
                    then Some (merged_access (access_of c m d) (discovered_access now site c (SM_ModelName r \<in> set found) r d))
                    else access_of c m d
         | None \<Rightarrow> access_of c m d)"
    proof (cases "m = SM_ID r")
      case True
      then show ?thesis using ih [THEN conjunct1] fresh by (simp add: put(1))
    next
      case False
      have key: "SM_ID x = m" if "find (\<lambda>r. SM_ID r = m) models = Some x" for x
        using that by (auto simp: find_Some_iff)
      show ?thesis
      proof (cases "find (\<lambda>r. SM_ID r = m) models")
        case None
        then show ?thesis using ih [THEN conjunct1] False by (simp add: put(1))
      next
        case (Some x)
        have "SM_ID x \<noteq> SM_ID r" using key [OF Some] False by simp
        note other = other [OF this]
        have same: "access_of c m (put_discovered_access ?n d) = access_of c m d" using False by (simp add: put(1))
        from ih [THEN conjunct1] show ?thesis unfolding find.simps Some option.case other same using False by simp
      qed
    qed
    then show ?case unfolding step using ih [THEN conjunct2] put(3) by simp
  qed
  then show "access_of c m (apply_credential_models now site credential found models d) =
      (case find (\<lambda>r. SM_ID r = m) models of
         Some r \<Rightarrow> if c = credential
                  then Some (merged_access (access_of c m d) (discovered_access now site c (SM_ModelName r \<in> set found) r d))
                  else access_of c m d
       | None \<Rightarrow> access_of c m d)"
    and "access_at site cs (apply_credential_models now site credential found models d)"
    and "db_credentials (apply_credential_models now site credential found models d) = db_credentials d \<and>
      db_models (apply_credential_models now site credential found models d) = db_models d \<and>
      db_sites (apply_credential_models now site credential found models d) = db_sites d \<and>
      db_endpoints (apply_credential_models now site credential found models d) = db_endpoints d \<and>
      db_targets (apply_credential_models now site credential found models d) = db_targets d"
    by blast+
qed

text \<open>The access row of one credential and one model that a run which found \<open>found\<close> leaves behind.\<close>

definition access_after :: "int \<Rightarrow> bool \<Rightarrow> access_row option \<Rightarrow> access_row option \<Rightarrow> bool" where
  "access_after now present old new \<longleftrightarrow> (case new of None \<Rightarrow> False
     | Some a \<Rightarrow> MA_LastCheckedAt a = Some now \<and>
         (if present then MA_Availability a = ''supported'' \<and> MA_MissingCount a = 0 \<and> MA_LastSeenAt a = Some now
          else MA_MissingCount a = (case old of None \<Rightarrow> 1 | Some b \<Rightarrow> MA_MissingCount b + 1) \<and>
            MA_LastSeenAt a = (case old of None \<Rightarrow> None | Some b \<Rightarrow> MA_LastSeenAt b) \<and>
            MA_Availability a = (case old of None \<Rightarrow> ''unknown''
              | Some b \<Rightarrow> if MA_MissingCount b \<ge> 1 then ''unsupported'' else MA_Availability b)))"

lemma merged_access_after:
  "access_of c (SM_ID r) d = old \<Longrightarrow>
    access_after now present old (Some (merged_access old (discovered_access now site c present r d)))"
  by (cases old) (auto simp: access_after_def merged_access_def discovered_access_def Let_def)

lemma find_distinct_key: "distinct (map key xs) \<Longrightarrow> x \<in> set xs \<Longrightarrow> find (\<lambda>y. key y = key x) xs = Some x"
  by (induction xs) force+

lemma apply_credentials_of:
  assumes "apply_credentials now site models seen credentials d = Inr d'" and "distinct (map SM_ID models)"
    and "access_at site (CR_ID ` {c \<in> set (db_credentials d). CR_SiteID c = site}) d"
  shows "db_credentials d' = db_credentials d \<and> db_models d' = db_models d \<and> db_sites d' = db_sites d \<and>
      db_endpoints d' = db_endpoints d \<and> db_targets d' = db_targets d \<and>
      set (map fst credentials) \<inter> set seen = {} \<and>
      (\<forall>(c, names) \<in> set credentials. (\<exists>r \<in> set (db_credentials d). CR_ID r = c \<and> CR_SiteID r = site \<and> CR_Enabled r) \<and>
         (\<forall>m \<in> set models. access_after now (SM_ModelName m \<in> set (normalized_discovery_models names))
            (access_of c (SM_ID m) d) (access_of c (SM_ID m) d'))) \<and>
      (\<forall>c m. c \<in> fst ` set credentials \<and> m \<in> SM_ID ` set models \<or> access_of c m d' = access_of c m d)"
  using assms(1,3)
proof (induction credentials arbitrary: seen d)
  case Nil
  then show ?case by simp
next
  case (Cons cn rest)
  obtain c0 names0 where cn: "cn = (c0, names0)" by (cases cn)
  let ?cs = "CR_ID ` {c \<in> set (db_credentials d). CR_SiteID c = site}"
  let ?d1 = "apply_credential_models now site c0 (normalized_discovery_models names0) models d"
  have checks: "c0 \<notin> set seen" "\<exists>r \<in> set (db_credentials d). CR_ID r = c0 \<and> CR_SiteID r = site \<and> CR_Enabled r"
    and run: "apply_credentials now site models (c0 # seen) rest ?d1 = Inr d'"
    using Cons.prems(1) by (auto simp: cn list_ex_iff split: if_splits)
  have c0: "c0 \<in> ?cs" using checks(2) by auto
  note one = apply_credential_models_of [OF Cons.prems(2) c0 assms(2)]
  have at: "access_at site (CR_ID ` {c \<in> set (db_credentials ?d1). CR_SiteID c = site}) ?d1"
    using one(2,3) by simp
  note ih = Cons.IH [OF run at]
  have keep: "access_of c m ?d1 = access_of c m d" if "c \<noteq> c0 \<or> m \<notin> SM_ID ` set models" for c m
  proof -
    have "find (\<lambda>r. SM_ID r = m) models = None" if "m \<notin> SM_ID ` set models"
      using that by (auto simp: find_None_iff)
    then show ?thesis using that by (auto simp: one(1) split: option.split)
  qed
  have new: "access_after now (SM_ModelName m \<in> set (normalized_discovery_models names0)) (access_of c0 (SM_ID m) d)
      (access_of c0 (SM_ID m) ?d1)" if "m \<in> set models" for m
    using merged_access_after [of c0 m d] find_distinct_key [OF assms(2) that] by (simp add: one(1))
  have fresh: "c0 \<notin> fst ` set rest" using ih by auto
  have kept: "access_of c0 m d' = access_of c0 m ?d1" for m using ih fresh by blast
  show ?case
  proof (intro conjI)
    show "\<forall>(c, names) \<in> set (cn # rest). (\<exists>r \<in> set (db_credentials d). CR_ID r = c \<and> CR_SiteID r = site \<and> CR_Enabled r) \<and>
         (\<forall>m \<in> set models. access_after now (SM_ModelName m \<in> set (normalized_discovery_models names))
            (access_of c (SM_ID m) d) (access_of c (SM_ID m) d'))"
    proof (intro ballI, clarify)
      fix c names assume mem: "(c, names) \<in> set (cn # rest)"
      show "(\<exists>r \<in> set (db_credentials d). CR_ID r = c \<and> CR_SiteID r = site \<and> CR_Enabled r) \<and>
         (\<forall>m \<in> set models. access_after now (SM_ModelName m \<in> set (normalized_discovery_models names))
            (access_of c (SM_ID m) d) (access_of c (SM_ID m) d'))"
      proof (cases "(c, names) = (c0, names0)")
        case True
        then show ?thesis using checks(2) new kept by simp
      next
        case False
        then have rest: "(c, names) \<in> set rest" using mem cn by auto
        then have "c \<noteq> c0" using fresh by force
        then have same: "access_of c m ?d1 = access_of c m d" for m using keep by blast
        have "\<forall>(c, names) \<in> set rest. (\<exists>r \<in> set (db_credentials d). CR_ID r = c \<and> CR_SiteID r = site \<and> CR_Enabled r) \<and>
            (\<forall>m \<in> set models. access_after now (SM_ModelName m \<in> set (normalized_discovery_models names))
              (access_of c (SM_ID m) ?d1) (access_of c (SM_ID m) d'))"
          using ih unfolding one(3) [THEN conjunct1] by blast
        from bspec [OF this rest] show ?thesis unfolding prod.case same .
      qed
    qed
    note i1 = ih [THEN conjunct1] and r1 = ih [THEN conjunct2]
    note i2 = r1 [THEN conjunct1] and r2 = r1 [THEN conjunct2]
    note i3 = r2 [THEN conjunct1] and r3 = r2 [THEN conjunct2]
    note i4 = r3 [THEN conjunct1] and r4 = r3 [THEN conjunct2]
    note i5 = r4 [THEN conjunct1] and i6 = r4 [THEN conjunct2, THEN conjunct1]
    have i8: "c \<in> fst ` set rest \<and> m \<in> SM_ID ` set models \<or> access_of c m d' = access_of c m ?d1" for c m
      using r4 [THEN conjunct2, THEN conjunct2, THEN conjunct2] by blast
    show "\<forall>c m. c \<in> fst ` set (cn # rest) \<and> m \<in> SM_ID ` set models \<or> access_of c m d' = access_of c m d"
    proof (intro allI)
      fix c m
      show "c \<in> fst ` set (cn # rest) \<and> m \<in> SM_ID ` set models \<or> access_of c m d' = access_of c m d"
      proof (cases "c \<in> fst ` set (cn # rest) \<and> m \<in> SM_ID ` set models")
        case False
        then have "access_of c m d' = access_of c m ?d1" using i8 [of c m] by auto
        also have "\<dots> = access_of c m d" by (rule keep) (use False cn in auto)
        finally show ?thesis ..
      qed blast
    qed
    show "db_credentials d' = db_credentials d" "db_models d' = db_models d" "db_sites d' = db_sites d"
      "db_endpoints d' = db_endpoints d" "db_targets d' = db_targets d"
      using i1 i2 i3 i4 i5 one(3) by simp_all
    show "set (map fst (cn # rest)) \<inter> set seen = {}" using i6 checks(1) cn by auto
  qed
qed

lemma apply_credentials_distinct:
  "apply_credentials now site models seen credentials d = Inr d' \<Longrightarrow>
    distinct (map fst credentials) \<and> set (map fst credentials) \<inter> set seen = {}"
proof (induction credentials arbitrary: seen d)
  case (Cons cn rest)
  obtain c names where cn: "cn = (c, names)" by (cases cn)
  have fresh: "c \<notin> set seen" and run: "apply_credentials now site models (c # seen) rest
      (apply_credential_models now site c (normalized_discovery_models names) models d) = Inr d'"
    using Cons.prems by (auto simp: cn split: if_splits)
  from Cons.IH [OF run] fresh show ?case by (auto simp: cn)
qed simp

text \<open>Applying a run keeps the invariant of the site tables, so it holds in every state the runs reach.\<close>

lemma discover_site_model_wf:
  assumes "site_wf d" and "(site, endpoint) \<in> (\<lambda>e. (E_SiteID e, E_ID e)) ` set (db_endpoints d)"
  shows "site_wf (discover_site_model now site endpoint name d)"
proof (cases "model_named endpoint name d")
  case None
  then show ?thesis
    unfolding discover_site_model_def None option.case Let_def
    using assms by (intro add_model) (simp_all add: new_site_model_def)
next
  case (Some old)
  then show ?thesis
    unfolding discover_site_model_def Some option.case Let_def by (intro keep_models bumps_wf assms(1)) simp_all
qed

lemma discover_site_models_wf:
  "site_wf d \<Longrightarrow> (site, endpoint) \<in> (\<lambda>e. (E_SiteID e, E_ID e)) ` set (db_endpoints d) \<Longrightarrow>
    site_wf (fold (discover_site_model now site endpoint) names d)"
proof (induction names arbitrary: d)
  case (Cons name names)
  have "db_endpoints (discover_site_model now site endpoint name d) = db_endpoints d"
    by (simp add: discover_site_model_def Let_def bump_defs split: option.split)
  with Cons show ?case by (simp add: discover_site_model_wf)
qed simp

lemma put_discovered_access_wf:
  assumes "site_wf d" and "(MA_SiteID n, MA_CredentialID n) \<in> (\<lambda>c. (CR_SiteID c, CR_ID c)) ` set (db_credentials d)"
    and "(MA_SiteID n, MA_SiteModelID n) \<in> (\<lambda>m. (SM_SiteID m, SM_ID m)) ` set (db_models d)"
  shows "site_wf (put_discovered_access n d)"
proof (cases "access_of (MA_CredentialID n) (MA_SiteModelID n) d")
  case None
  have "(MA_CredentialID n, MA_SiteModelID n) \<notin> (\<lambda>a. (MA_CredentialID a, MA_SiteModelID a)) ` set (db_access d)"
    using None by (intro find_none_image) (simp add: access_of_def)
  then show ?thesis
    unfolding put_discovered_access_def None option.case by (rule add_access [OF assms])
next
  case (Some a)
  then show ?thesis
    unfolding put_discovered_access_def Some option.case by (intro keep_access assms(1)) simp_all
qed

lemma apply_credential_models_wf:
  assumes "site_wf d" and "(site, credential) \<in> (\<lambda>c. (CR_SiteID c, CR_ID c)) ` set (db_credentials d)"
    and "(\<lambda>m. (site, SM_ID m)) ` set models \<subseteq> (\<lambda>m. (SM_SiteID m, SM_ID m)) ` set (db_models d)"
  shows "site_wf (apply_credential_models now site credential found models d)"
  using assms
proof (induction models arbitrary: d)
  case Nil
  then show ?case by (simp add: apply_credential_models_def)
next
  case (Cons m models)
  let ?n = "discovered_access now site credential (SM_ModelName m \<in> set found) m d"
  have sel: "MA_CredentialID ?n = credential" "MA_SiteID ?n = site" "MA_SiteModelID ?n = SM_ID m"
    by (simp_all add: discovered_access_def Let_def)
  have fields: "db_credentials (put_discovered_access ?n d) = db_credentials d"
    "db_models (put_discovered_access ?n d) = db_models d"
    by (simp_all add: put_discovered_access_def)
  have mem: "(site, SM_ID m) \<in> (\<lambda>m. (SM_SiteID m, SM_ID m)) ` set (db_models d)"
    and rest: "(\<lambda>m. (site, SM_ID m)) ` set models \<subseteq> (\<lambda>m. (SM_SiteID m, SM_ID m)) ` set (db_models d)"
    using Cons.prems(3) by simp_all
  have "site_wf (put_discovered_access ?n d)"
    by (rule put_discovered_access_wf [OF Cons.prems(1)]) (simp_all only: sel Cons.prems(2) mem)
  from Cons.IH [OF this] Cons.prems(2) rest
  have "site_wf (apply_credential_models now site credential found models (put_discovered_access ?n d))"
    by (simp only: fields)
  then show ?case by (simp add: apply_credential_models_def)
qed

lemma apply_credential_models_fields:
  "db_credentials (apply_credential_models now site credential found models d) = db_credentials d \<and>
    db_models (apply_credential_models now site credential found models d) = db_models d"
  unfolding apply_credential_models_def
  by (induction models arbitrary: d) (simp_all add: put_discovered_access_def)

lemma apply_credentials_wf:
  "apply_credentials now site models seen credentials d = Inr d' \<Longrightarrow> site_wf d \<Longrightarrow>
    (\<lambda>m. (site, SM_ID m)) ` set models \<subseteq> (\<lambda>m. (SM_SiteID m, SM_ID m)) ` set (db_models d) \<Longrightarrow> site_wf d'"
proof (induction credentials arbitrary: seen d)
  case (Cons cn rest)
  obtain c names where cn: "cn = (c, names)" by (cases cn)
  let ?d = "apply_credential_models now site c (normalized_discovery_models names) models d"
  have cred: "(site, c) \<in> (\<lambda>c. (CR_SiteID c, CR_ID c)) ` set (db_credentials d)"
    and run: "apply_credentials now site models (c # seen) rest ?d = Inr d'"
    using Cons.prems(1) by (auto simp: cn list_ex_iff split: if_splits)
  have "site_wf ?d" by (rule apply_credential_models_wf [OF Cons.prems(2) cred Cons.prems(3)])
  moreover have "db_models ?d = db_models d" using apply_credential_models_fields by blast
  ultimately show ?case using Cons.IH [OF run] Cons.prems(3) by simp
qed simp

text \<open>A run that can be applied, unfolded: what was checked, and the catalogue in between.\<close>

lemma apply_discovery_InrD:
  assumes "apply_model_discovery_run clock run_id credentials models now db = Inr db'"
  obtains run site endpoint at d where "row_by DR_ID (trim_space run_id) (RD_Discoveries db) = Some run"
    "DR_Status run = ''running''" "site = DR_SiteID run" "endpoint = DR_EndpointID run"
    "at = (if now \<le> 0 then clock else now)"
    "\<exists>s \<in> set (db_sites (RD_Site db)). S_ID s = site \<and> S_Revision s = DR_BaseSiteRevision run \<and> S_Enabled s"
    "\<exists>e \<in> set (db_endpoints (RD_Site db)). E_ID e = endpoint \<and> E_SiteID e = site \<and>
       E_Revision e = DR_BaseEndpointRevision run \<and> E_Enabled e"
    "d = fold (discover_site_model at site endpoint) (normalized_discovery_models models) (RD_Site db)"
    "apply_credentials at site (filter (\<lambda>m. SM_EndpointID m = endpoint) (db_models d)) [] credentials d = Inr (RD_Site db')"
    "db' = db\<lparr>RD_Site := RD_Site db'\<rparr>"
proof -
  have one: "\<exists>x \<in> set t. P x" if "require_discovery_revision P t = Inr ()" for P and t :: "'r list"
  proof (rule ccontr)
    assume "\<not> (\<exists>x \<in> set t. P x)"
    then have "filter P t = []" by (auto simp: filter_empty_conv)
    with that show False by (simp add: require_discovery_revision_def sql_update_def split: if_splits)
  qed
  obtain run where run: "row_by DR_ID (trim_space run_id) (RD_Discoveries db) = Some run" "DR_Status run = ''running''"
    using assms unfolding apply_model_discovery_run_def Let_def by (auto split: if_splits option.splits)
  define at where "at = (if now \<le> 0 then clock else now)"
  define d where "d = fold (discover_site_model at (DR_SiteID run) (DR_EndpointID run)) (normalized_discovery_models models) (RD_Site db)"
  have "and_then (require_discovery_revision
        (\<lambda>s. S_ID s = DR_SiteID run \<and> S_Revision s = DR_BaseSiteRevision run \<and> S_Enabled s) (db_sites (RD_Site db)))
      (\<lambda>_. and_then (require_discovery_revision (\<lambda>e. E_ID e = DR_EndpointID run \<and> E_SiteID e = DR_SiteID run \<and>
          E_Revision e = DR_BaseEndpointRevision run \<and> E_Enabled e) (db_endpoints (RD_Site db)))
        (\<lambda>_. and_then (apply_credentials at (DR_SiteID run) (filter (\<lambda>m. SM_EndpointID m = DR_EndpointID run) (db_models d)) []
            credentials d) (\<lambda>db2. Inr (db\<lparr>RD_Site := db2\<rparr>)))) = Inr db'"
    using assms run unfolding apply_model_discovery_run_def Let_def d_def at_def by (simp split: if_splits)
  then obtain site2 where r1: "require_discovery_revision
        (\<lambda>s. S_ID s = DR_SiteID run \<and> S_Revision s = DR_BaseSiteRevision run \<and> S_Enabled s) (db_sites (RD_Site db)) = Inr ()"
    and r2: "require_discovery_revision (\<lambda>e. E_ID e = DR_EndpointID run \<and> E_SiteID e = DR_SiteID run \<and>
          E_Revision e = DR_BaseEndpointRevision run \<and> E_Enabled e) (db_endpoints (RD_Site db)) = Inr ()"
    and ac: "apply_credentials at (DR_SiteID run) (filter (\<lambda>m. SM_EndpointID m = DR_EndpointID run) (db_models d)) []
            credentials d = Inr site2" and db': "db' = db\<lparr>RD_Site := site2\<rparr>"
    by (auto simp: and_then_def split: sum.splits)
  have site2: "site2 = RD_Site db'" by (simp add: db')
  show thesis
    by (rule that [OF run refl refl at_def one [OF r1] one [OF r2] d_def ac [unfolded site2] db' [unfolded site2]])
qed

lemma site_catalogue:
  assumes "site_wf d" and "(site, endpoint) \<in> (\<lambda>e. (E_SiteID e, E_ID e)) ` set (db_endpoints d)"
  shows "\<forall>m \<in> set (db_models d). SM_EndpointID m = endpoint \<longrightarrow> SM_SiteID m = site"
proof (intro ballI impI)
  fix m assume m: "m \<in> set (db_models d)" "SM_EndpointID m = endpoint"
  have refs: "(\<lambda>m. (SM_SiteID m, SM_EndpointID m)) ` set (db_models d) \<subseteq> (\<lambda>e. (E_SiteID e, E_ID e)) ` set (db_endpoints d)"
    using assms(1) by (simp add: site_wf_def model_refs_ok_def)
  from image_subsetD [OF refs m(1)] obtain e where e: "e \<in> set (db_endpoints d)" "E_SiteID e = SM_SiteID m" "E_ID e = endpoint"
    using m(2) by auto
  obtain e' where e': "e' \<in> set (db_endpoints d)" "E_SiteID e' = site" "E_ID e' = endpoint" using assms(2) by auto
  have "unique_key E_ID (db_endpoints d)" using assms(1) by (auto simp: site_wf_def keys_ok_def intro: ids_ok_unique)
  from unique_key_D [OF this e(1) e'(1)] e(2,3) e'(2,3) show "SM_SiteID m = site" by simp
qed

lemma discovered_wf_models:
  assumes "site_wf d" and "(site, endpoint) \<in> (\<lambda>e. (E_SiteID e, E_ID e)) ` set (db_endpoints d)"
  shows "site_wf (fold (discover_site_model now site endpoint) names d) \<and>
    (\<forall>m \<in> set (db_models (fold (discover_site_model now site endpoint) names d)). SM_EndpointID m = endpoint \<longrightarrow> SM_SiteID m = site) \<and>
    catalogued now site endpoint d (set names) (fold (discover_site_model now site endpoint) names d)"
proof -
  have "ids_ok SM_ID (seq_models d) (db_models d)" using assms(1) by (simp add: site_wf_def keys_ok_def)
  then have "catalogued now site endpoint d {} d"
    using site_catalogue [OF assms] by (simp add: catalogued_def)
  from discovered_models_catalogued [OF this, of names]
  have "catalogued now site endpoint d (set names) (fold (discover_site_model now site endpoint) names d)" by simp
  then show ?thesis using discover_site_models_wf [OF assms] by (auto simp: catalogued_def)
qed

lemma access_at_site:
  assumes "site_wf d"
  shows "access_at site (CR_ID ` {c \<in> set (db_credentials d). CR_SiteID c = site}) d"
  unfolding access_at_def
proof (intro ballI impI)
  fix a assume a: "a \<in> set (db_access d)" "MA_CredentialID a \<in> CR_ID ` {c \<in> set (db_credentials d). CR_SiteID c = site}"
  have refs: "(\<lambda>a. (MA_SiteID a, MA_CredentialID a)) ` set (db_access d) \<subseteq> (\<lambda>c. (CR_SiteID c, CR_ID c)) ` set (db_credentials d)"
    using assms by (simp add: site_wf_def access_refs_ok_def)
  from image_subsetD [OF refs a(1)] obtain c where c: "c \<in> set (db_credentials d)" "CR_SiteID c = MA_SiteID a"
      "CR_ID c = MA_CredentialID a" by auto
  from a(2) obtain c' where c': "c' \<in> set (db_credentials d)" "CR_SiteID c' = site" "CR_ID c' = MA_CredentialID a" by auto
  have "unique_key CR_ID (db_credentials d)" using assms by (auto simp: site_wf_def keys_ok_def intro: ids_ok_unique)
  from unique_key_D [OF this c(1) c'(1)] c(2,3) c'(2,3) show "MA_SiteID a = site" by simp
qed

lemma apply_discovery_wf:
  assumes "apply_model_discovery_run clock run_id credentials models now db = Inr db'" and "site_wf (RD_Site db)"
  shows "site_wf (RD_Site db')"
  using assms(1)
proof (rule apply_discovery_InrD)
  fix run site endpoint at d
  assume e: "\<exists>e \<in> set (db_endpoints (RD_Site db)). E_ID e = endpoint \<and> E_SiteID e = site \<and>
       E_Revision e = DR_BaseEndpointRevision run \<and> E_Enabled e"
    and d: "d = fold (discover_site_model at site endpoint) (normalized_discovery_models models) (RD_Site db)"
    and run: "apply_credentials at site (filter (\<lambda>m. SM_EndpointID m = endpoint) (db_models d)) [] credentials d = Inr (RD_Site db')"
  have "(site, endpoint) \<in> (\<lambda>e. (E_SiteID e, E_ID e)) ` set (db_endpoints (RD_Site db))" using e by force
  from discovered_wf_models [OF assms(2) this] 
  have wf: "site_wf d" and at: "\<forall>m \<in> set (db_models d). SM_EndpointID m = endpoint \<longrightarrow> SM_SiteID m = site"
    unfolding d by blast+
  have "(\<lambda>m. (site, SM_ID m)) ` set (filter (\<lambda>m. SM_EndpointID m = endpoint) (db_models d))
      \<subseteq> (\<lambda>m. (SM_SiteID m, SM_ID m)) ` set (db_models d)"
    using at by force
  then show ?thesis by (rule apply_credentials_wf [OF run wf])
qed

lemma discovery_keeps_site:
  "insert_model_discovery_run compact_json clock run db = Inr db' \<Longrightarrow> RD_Site db' = RD_Site db"
  "insert_model_discovery_attempt redact clock d_item db = Inr (new_id, db') \<Longrightarrow> RD_Site db' = RD_Site db"
  "complete_model_discovery_run compact_json redact clock run_id n summary message finished_at db = Inr db' \<Longrightarrow>
    RD_Site db' = RD_Site db"
  "fail_model_discovery_run compact_json redact clock run_id n summary message finished_at db = Inr db' \<Longrightarrow>
    RD_Site db' = RD_Site db"
  by (auto simp: insert_model_discovery_run_def insert_model_discovery_attempt_def complete_model_discovery_run_def
      fail_model_discovery_run_def finish_discovery_run_def Let_def
      split: option.splits if_splits sum.splits)

lemma run_step_site:
  "run_step db db' \<Longrightarrow> RD_Site db' = RD_Site db \<or> site_step (RD_Site db) (RD_Site db') \<or>
    (\<exists>clock run_id credentials models now. apply_model_discovery_run clock run_id credentials models now db = Inr db')"
proof (induction rule: run_step.induct)
  case (insert_probe clock item db db')
  then show ?case by (elim insert_probe_run_InrD) auto
next
  case (attempt redact clock item' db new_id db')
  then show ?case by (elim insert_probe_attempt_InrD) auto
next
  case (complete redact clock run_id finished_at message db db')
  then show ?case unfolding complete_probe_run_def Let_def by (auto split: if_splits option.splits prod.splits)
next
  case (cancel redact clock run_id finished_at message db db')
  show ?case unfolding cancel_probe_run_InrD [OF cancel.hyps] by simp
next
  case (expire clock now db changed db')
  then show ?case by (auto simp: expire_stale_probe_runs_def Let_def split_def)
next
  case (site db site)
  then show ?case by (simp add: with_site_def Let_def)
next
  case (apply_discovery clock run_id credentials models now db db')
  then show ?case by blast
qed (auto dest: discovery_keeps_site)

lemma run_sites_reachable: "run_step\<^sup>*\<^sup>* empty_run_db db \<Longrightarrow> site_wf (RD_Site db)"
proof (induction rule: rtranclp_induct)
  case base
  show ?case by (simp add: empty_run_db_def empty_site_db_wf)
next
  case (step y z)
  then show ?case using run_step_site [OF step.hyps(2)] site_step_wf apply_discovery_wf by metis
qed

text \<open>
  \<^bold>\<open>C37.\<close> What a discovery run changes. A run is applied only if the site and the endpoint are enabled and unchanged
  since it began. Then every model found is in the catalogue as freshly seen and no other model is touched;
  for every key that answered, each model of the endpoint is recorded as supported if that key
  listed it, as missed once more if not, and as unsupported from the second miss in a row on; and no
  access of another key or another endpoint changes.
\<close>

theorem discovery_applied_exactly:
  assumes "run_step\<^sup>*\<^sup>* empty_run_db db" and "apply_model_discovery_run clock run_id credentials models now db = Inr db'"
  shows "\<exists>run. row_by DR_ID (trim_space run_id) (RD_Discoveries db) = Some run \<and> DR_Status run = ''running'' \<and>
    (let at = (if now \<le> 0 then clock else now); endpoint = DR_EndpointID run; found = set (normalized_discovery_models models);
         old = RD_Site db; new = RD_Site db' in
      db' = db\<lparr>RD_Site := new\<rparr> \<and> db_sites new = db_sites old \<and> db_endpoints new = db_endpoints old \<and>
      db_credentials new = db_credentials old \<and> db_targets new = db_targets old \<and>
      (\<exists>s \<in> set (db_sites old). S_ID s = DR_SiteID run \<and> S_Revision s = DR_BaseSiteRevision run \<and> S_Enabled s) \<and>
      (\<exists>e \<in> set (db_endpoints old). E_ID e = endpoint \<and> E_SiteID e = DR_SiteID run \<and>
         E_Revision e = DR_BaseEndpointRevision run \<and> E_Enabled e) \<and>
      (\<forall>name \<in> found. \<exists>m. model_named endpoint name new = Some m \<and> freshly_seen at m) \<and>
      SM_ID ` set (db_models old) \<subseteq> SM_ID ` set (db_models new) \<and>
      (\<forall>m \<in> set (db_models new). m \<in> set (db_models old) \<or>
         SM_EndpointID m = endpoint \<and> SM_ModelName m \<in> found \<and> freshly_seen at m) \<and>
      distinct (map fst credentials) \<and>
      (\<forall>(c, names) \<in> set credentials.
         (\<exists>r \<in> set (db_credentials old). CR_ID r = c \<and> CR_SiteID r = DR_SiteID run \<and> CR_Enabled r) \<and>
         (\<forall>m \<in> {m \<in> set (db_models new). SM_EndpointID m = endpoint}.
            access_after at (SM_ModelName m \<in> set (normalized_discovery_models names))
              (access_of c (SM_ID m) old) (access_of c (SM_ID m) new))) \<and>
      (\<forall>c m. c \<in> fst ` set credentials \<and> m \<in> SM_ID ` {m \<in> set (db_models new). SM_EndpointID m = endpoint} \<or>
         access_of c m new = access_of c m old))"
  using assms(2)
proof (rule apply_discovery_InrD)
  fix run site endpoint at and d :: site_db
  let ?rows = "filter (\<lambda>m. SM_EndpointID m = endpoint) (db_models d)"
  assume run: "row_by DR_ID (trim_space run_id) (RD_Discoveries db) = Some run" "DR_Status run = ''running''"
    and defs: "site = DR_SiteID run" "endpoint = DR_EndpointID run" "at = (if now \<le> 0 then clock else now)"
    and s: "\<exists>s \<in> set (db_sites (RD_Site db)). S_ID s = site \<and> S_Revision s = DR_BaseSiteRevision run \<and> S_Enabled s"
    and e: "\<exists>e \<in> set (db_endpoints (RD_Site db)). E_ID e = endpoint \<and> E_SiteID e = site \<and>
       E_Revision e = DR_BaseEndpointRevision run \<and> E_Enabled e"
    and d: "d = fold (discover_site_model at site endpoint) (normalized_discovery_models models) (RD_Site db)"
    and ac: "apply_credentials at site ?rows [] credentials d = Inr (RD_Site db')"
    and db': "db' = db\<lparr>RD_Site := RD_Site db'\<rparr>"
  have wf: "site_wf (RD_Site db)" using assms(1) by (rule run_sites_reachable)
  have "(site, endpoint) \<in> (\<lambda>e. (E_SiteID e, E_ID e)) ` set (db_endpoints (RD_Site db))" using e by force
  note found = discovered_wf_models [OF wf this, of at "normalized_discovery_models models", folded d]
  have wfd: "site_wf d" using found by blast
  have cat: "catalogued at site endpoint (RD_Site db) (set (normalized_discovery_models models)) d" using found by blast
  have "distinct (map SM_ID ?rows)"
    using wfd by (auto simp: site_wf_def keys_ok_def ids_ok_def unique_key_def distinct_map intro: inj_on_subset)
  from apply_credentials_of [OF ac this access_at_site [OF wfd]]
  have acc: "db_credentials (RD_Site db') = db_credentials d" "db_models (RD_Site db') = db_models d"
      "db_sites (RD_Site db') = db_sites d" "db_endpoints (RD_Site db') = db_endpoints d" "db_targets (RD_Site db') = db_targets d"
    and keys: "\<forall>(c, names) \<in> set credentials. (\<exists>r \<in> set (db_credentials d). CR_ID r = c \<and> CR_SiteID r = site \<and> CR_Enabled r) \<and>
         (\<forall>m \<in> set ?rows. access_after at (SM_ModelName m \<in> set (normalized_discovery_models names))
            (access_of c (SM_ID m) d) (access_of c (SM_ID m) (RD_Site db')))"
    and rest: "\<forall>c m. c \<in> fst ` set credentials \<and> m \<in> SM_ID ` set ?rows \<or> access_of c m (RD_Site db') = access_of c m d"
    by blast+
  have same: "access_of c m d = access_of c m (RD_Site db)" for c m
    using cat by (simp add: access_of_def catalogued_def)
  have fields: "db_sites d = db_sites (RD_Site db)" "db_endpoints d = db_endpoints (RD_Site db)"
    "db_credentials d = db_credentials (RD_Site db)" "db_targets d = db_targets (RD_Site db)"
    using cat by (simp_all add: catalogued_def)
  have named: "model_named endpoint name (RD_Site db') = model_named endpoint name d" for name
    by (simp add: model_named_def acc)
  have rows: "set ?rows = {m \<in> set (db_models d). SM_EndpointID m = endpoint}" by auto
  have "\<forall>name \<in> set (normalized_discovery_models models). \<exists>m. model_named endpoint name d = Some m \<and> freshly_seen at m"
    and "SM_ID ` set (db_models (RD_Site db)) \<subseteq> SM_ID ` set (db_models d)"
    and "\<forall>m \<in> set (db_models d). m \<in> set (db_models (RD_Site db)) \<or>
        SM_EndpointID m = endpoint \<and> SM_ModelName m \<in> set (normalized_discovery_models models) \<and> freshly_seen at m"
    using cat by (simp_all add: catalogued_def)
  note cat = this
  show ?thesis
    unfolding Let_def defs(3) [symmetric]
    apply (rule exI [of _ run])
    unfolding defs(1,2) [symmetric] acc named
    using run db' s e cat apply_credentials_distinct [OF ac, THEN conjunct1] keys rest
    unfolding same fields rows by (intro conjI refl)
qed

subsection \<open>A concrete run\<close>

lemma run_sites_step: "site_reachable site \<Longrightarrow> run_step\<^sup>*\<^sup>* empty_run_db (with_site site empty_run_db)"
  unfolding site_reachable_def
proof (induction rule: rtranclp_induct)
  case base
  have "with_site empty_site_db empty_run_db = empty_run_db" by (simp add: with_site_def empty_run_db_def)
  then show ?case by simp
next
  case (step y z)
  have "with_site z (with_site y empty_run_db) = with_site z empty_run_db"
    "RD_Site (with_site y empty_run_db) = y"
    by (simp_all add: with_site_def empty_run_db_def)
  then have "run_step (with_site y empty_run_db) (with_site z empty_run_db)"
    using run_step.site [of "with_site y empty_run_db" z] step.hyps(2) by simp
  with step.IH show ?case by (rule rtranclp.rtrancl_into_rtrancl)
qed

text \<open>On the tables of the first example: one target of two probed, and a discovery at the first site.\<close>

definition example_probe_run :: probe_run_row where
  "example_probe_run = \<lparr>PB_ID = '' p '', PB_ModelID = 1, PB_ModelRevision = 0, PB_TriggerKind = ''Manual'', PB_Status = [],
     PB_TargetCount = 0, PB_SuccessCount = 0, PB_FailureCount = 0, PB_SkippedCount = 0, PB_ErrorMessage = [],
     PB_StartedAt = 0, PB_FinishedAt = None\<rparr>"

definition example_probe_attempt :: probe_attempt_row where
  "example_probe_attempt = \<lparr>PA_ID = 0, PA_RunID = ''p'', PA_Index = 0, PA_TargetID = Some 1, PA_SiteID = None,
     PA_EndpointID = None, PA_CredentialID = Some 1, PA_SiteModelID = None, PA_SiteName = [], PA_EndpointName = [],
     PA_CredentialName = [], PA_SourceModel = [], PA_Status = ''success'', PA_HTTPStatus = Some 200, PA_LatencyMS = Some 9,
     PA_FirstOutputMS = None, PA_ErrorClass = [], PA_ErrorMessage = [], PA_StartedAt = 0, PA_FinishedAt = 0\<rparr>"

definition example_discovery_run :: discovery_run_row where
  "example_discovery_run = \<lparr>DR_ID = ''d'', DR_SiteID = 1, DR_EndpointID = 1, DR_Mode = [], DR_Status = [],
     DR_BaseSiteRevision = 0, DR_BaseEndpointRevision = 0, DR_CredentialCount = 0, DR_SuccessCount = 0, DR_ModelCount = 0,
     DR_Summary = [], DR_ErrorMessage = [], DR_StartedAt = 0, DR_FinishedAt = None\<rparr>"

definition example_runs0 :: "(store_error, run_db) result" where
  "example_runs0 = and_then (insert_probe_run 100 example_probe_run (with_site example_site_db empty_run_db)) (\<lambda>a.
     and_then (insert_probe_attempt id 110 example_probe_attempt a) (\<lambda>(_, b).
     insert_model_discovery_run Some 120 example_discovery_run b))"

definition example_runs :: run_db where
  "example_runs = projr example_runs0"

definition example_probed :: run_db where
  "example_probed = projr (complete_probe_run id 130 ''p'' 0 [] example_runs)"

lemma example_runs0_ok: "example_runs0 = Inr example_runs"
  by (simp add: example_runs_def) code_simp

lemma example_runs_reachable: "run_step\<^sup>*\<^sup>* empty_run_db example_runs"
proof -
  obtain a i b where a: "insert_probe_run 100 example_probe_run (with_site example_site_db empty_run_db) = Inr a"
    and b: "insert_probe_attempt id 110 example_probe_attempt a = Inr (i, b)"
    and c: "insert_model_discovery_run Some 120 example_discovery_run b = Inr example_runs"
    using example_runs0_ok by (auto simp: example_runs0_def and_then_def split: sum.splits prod.splits)
  note steps = run_step.insert_probe [OF a] run_step.attempt [OF b] run_step.insert_discovery [OF c]
  show ?thesis
    using run_sites_step [OF example_reachable] steps by (meson rtranclp.rtrancl_into_rtrancl)
qed

lemma example_probed_ok: "complete_probe_run id 130 ''p'' 0 [] example_runs = Inr example_probed"
  "complete_probe_run id 130 ''p'' 0 [] example_probed = Inr example_probed"
  by (simp add: example_probed_def, code_simp) code_simp

theorem probe_runs_settle_witness:
  "\<exists>r. row_by PB_ID ''p'' (RD_Probes example_probed) = Some r \<and> PB_Status r = ''partial'' \<and> PB_FinishedAt r \<noteq> None \<and>
    PB_SuccessCount r + PB_FailureCount r + PB_SkippedCount r = PB_TargetCount r"
proof -
  have reach: "run_step\<^sup>*\<^sup>* empty_run_db example_probed"
    using example_runs_reachable run_step.complete [OF example_probed_ok(1)] by (rule rtranclp.rtrancl_into_rtrancl)
  have "map_option PB_Status (row_by PB_ID ''p'' (RD_Probes example_probed)) = Some ''partial''" by code_simp
  then obtain r where r: "row_by PB_ID ''p'' (RD_Probes example_probed) = Some r" "PB_Status r = ''partial''" by auto
  from probe_runs_settle [OF reach r(1) run_step.complete [OF example_probed_ok(2)]] r show ?thesis by auto
qed

theorem probe_run_verdict_witness:
  "\<exists>db' run'. complete_probe_run id 130 ''p'' 0 [] example_runs = Inr db' \<and> row_by PB_ID ''p'' (RD_Probes db') = Some run' \<and>
     PB_TargetCount run' = 2 \<and> PB_SuccessCount run' = 1 \<and> PB_FailureCount run' = 0"
proof -
  have "map_option (\<lambda>r. (PB_Status r, PB_TargetCount r)) (row_by PB_ID ''p'' (RD_Probes example_runs)) = Some (''running'', 2)"
    by code_simp
  then obtain run where run: "row_by PB_ID ''p'' (RD_Probes example_runs) = Some run" "PB_Status run = ''running''"
    "PB_TargetCount run = 2" by auto
  have id: "trim_space ''p'' = ''p''" by code_simp
  have "map (\<lambda>a. (PA_TargetID a, PA_Status a)) (filter (\<lambda>a. PA_RunID a = ''p'') (RD_ProbeAttempts example_runs)) =
      [(Some 1, ''success'')]" by code_simp
  then obtain a where a: "filter (\<lambda>a. PA_RunID a = ''p'') (RD_ProbeAttempts example_runs) = [a]" "PA_TargetID a = Some 1"
    "PA_Status a = ''success''" by (auto simp: map_eq_Cons_conv)
  show ?thesis
    using probe_run_verdict [OF example_runs_reachable, of "''p''" run id 130 0 "[]", unfolded id] run a
    by (auto simp: Let_def)
qed

definition example_monitored :: run_db where
  "example_monitored = example_runs\<lparr>RD_Site := example_site_db\<lparr>db_published :=
     map (\<lambda>p. p\<lparr>PM_MonitorEnabled := True\<rparr>) (db_published example_site_db)\<rparr>\<rparr>"

theorem scheduler_unstuck_witness:
  "\<exists>expired db'. expire_stale_probe_runs 0 400000 example_monitored = (expired, db') \<and>
    1 \<in> PM_ID ` set (list_due_published_models 0 400000 50 db')"
proof -
  have "map (\<lambda>p. (PM_ID p, PM_Enabled p, PM_MonitorEnabled p, PM_MonitorIntervalSeconds p, PM_RequestDeadlineSeconds p))
      (db_published (RD_Site example_monitored)) = [(1, True, True, 300, 120)]" by code_simp
  then obtain p where p: "db_published (RD_Site example_monitored) = [p]" "PM_ID p = 1" "PM_Enabled p" "PM_MonitorEnabled p"
    "PM_MonitorIntervalSeconds p = 300" "PM_RequestDeadlineSeconds p = 120" by (auto simp: map_eq_Cons_conv)
  have "map (\<lambda>r. (PB_ModelID r, PB_StartedAt r)) (RD_Probes example_monitored) = [(1, 100)]" by code_simp
  then obtain r where r: "RD_Probes example_monitored = [r]" "PB_StartedAt r = 100" by (auto simp: map_eq_Cons_conv)
  have last: "last_probe_at example_monitored 1 = 100" by code_simp
  obtain expired db' where e: "expire_stale_probe_runs 0 400000 example_monitored = (expired, db')" by (metis surj_pair)
  have "length (list_due_published_models 0 400000 50 db') \<le> 1"
    using e p(1) length_filter_le [of _ "[p]"]
    by (auto simp: list_due_eq due_models_def expire_stale_probe_runs_def split_def Let_def)
  then have "p \<in> set (list_due_published_models 0 400000 50 db')"
    using scheduler_unstuck [OF _ _ _ _ _ _ _ e, of p 50] p r last by (auto simp: unique_key_def Let_def)
  then show ?thesis using e p(2) by force
qed

theorem discovery_applied_exactly_witness:
  "\<exists>db' m. apply_model_discovery_run 0 ''d'' [(1, [''n''])] [''m'', '' n''] 200 example_runs = Inr db' \<and>
    model_named 1 ''n'' (RD_Site db') = Some m \<and> freshly_seen 200 m"
proof -
  define db' where "db' = projr (apply_model_discovery_run 0 ''d'' [(1, [''n''])] [''m'', '' n''] 200 example_runs)"
  have run: "apply_model_discovery_run 0 ''d'' [(1, [''n''])] [''m'', '' n''] 200 example_runs = Inr db'"
    unfolding db'_def by code_simp
  have d: "map_option DR_EndpointID (row_by DR_ID (trim_space ''d'') (RD_Discoveries example_runs)) = Some 1" by code_simp
  have found: "''n'' \<in> set (normalized_discovery_models [''m'', '' n''])" by code_simp
  from discovery_applied_exactly [OF example_runs_reachable run] obtain r
    where r: "row_by DR_ID (trim_space ''d'') (RD_Discoveries example_runs) = Some r"
    and seen: "\<forall>name \<in> set (normalized_discovery_models [''m'', '' n'']).
      \<exists>m. model_named (DR_EndpointID r) name (RD_Site db') = Some m \<and> freshly_seen (if (200::int) \<le> 0 then 0 else 200) m"
    unfolding Let_def by blast
  from d r have "DR_EndpointID r = 1" by simp
  with bspec [OF seen found] obtain m where "model_named 1 ''n'' (RD_Site db') = Some m" "freshly_seen 200 m" by auto
  with run show ?thesis by blast
qed

end
