(* ===== verification/LoginLimiter.thy ===== *)
theory LoginLimiter
  imports GoStrings
begin

text \<open>
  The limiter of failed administrator logins, \<open>httpapi/login_limiter.go\<close>, and the login handler
  around it (\<open>login\<close> in \<open>httpapi/server.go\<close>). Times are nanoseconds since 1970; \<open>time.Time{}\<close> is
  \<open>zero_time\<close>. The map of entries is a list of rows in the order a \<open>range\<close> loop happens to visit
  them: only \<open>evictOldestLocked\<close> depends on it, between entries seen at the same moment.
  Parameters: \<open>parse_ip\<close> is \<open>net.ParseIP\<close> followed by \<open>String\<close>, \<open>split_host_port\<close> the host that
  \<open>net.SplitHostPort\<close> returns, \<open>decode\<close> the JSON of the body, \<open>check\<close> the password check.
\<close>

subsection \<open>Entries\<close>

definition zero_time :: int where
  "zero_time = - 62135596800 * second"

text \<open>\<open>Time.Sub\<close> saturates.\<close>

definition time_sub :: "int \<Rightarrow> int \<Rightarrow> int" where
  "time_sub t u = max min_int64 (min max_int64 (t - u))"


definition login_limiter_idle_ttl :: int where
  "login_limiter_idle_ttl = 15 * minute"

definition login_backoff_base :: int where
  "login_backoff_base = second"

definition login_backoff_max :: int where
  "login_backoff_max = minute"

record login_failure_state =
  LF_Key :: string
  LF_Failures :: int
  LF_BlockedUntil :: int
  LF_LastSeen :: int

record login_failure_limiter =
  LL_Entries :: "login_failure_state list"
  LL_MaxEntries :: int


definition limiter_allow :: "string \<Rightarrow> int \<Rightarrow> login_failure_limiter \<Rightarrow> bool \<times> int" where
  "limiter_allow key now l =
     (case row_by LF_Key key (LL_Entries l) of
        None \<Rightarrow> (True, 0)
      | Some state \<Rightarrow> if \<not> now < LF_BlockedUntil state then (True, 0)
                      else (False, time_sub (LF_BlockedUntil state) now))"

definition prune_locked :: "int \<Rightarrow> login_failure_limiter \<Rightarrow> login_failure_limiter" where
  "prune_locked now l =
     l\<lparr>LL_Entries := filter (\<lambda>s. \<not> time_sub now (LF_LastSeen s) \<ge> login_limiter_idle_ttl) (LL_Entries l)\<rparr>"

text \<open>The loop of \<open>evictOldestLocked\<close>: \<open>oldestKey == ""\<close> means that none has been seen.\<close>

fun oldest_entry :: "string \<Rightarrow> int \<Rightarrow> login_failure_state list \<Rightarrow> string" where
  "oldest_entry oldest_key oldest [] = oldest_key"
| "oldest_entry oldest_key oldest (s # ss) =
     (if oldest_key = [] \<or> LF_LastSeen s < oldest then oldest_entry (LF_Key s) (LF_LastSeen s) ss
      else oldest_entry oldest_key oldest ss)"

definition evict_oldest_locked :: "login_failure_limiter \<Rightarrow> login_failure_limiter" where
  "evict_oldest_locked l =
     (let key = oldest_entry [] zero_time (LL_Entries l)
      in if key \<noteq> [] then l\<lparr>LL_Entries := filter (\<lambda>s. LF_Key s \<noteq> key) (LL_Entries l)\<rparr> else l)"

definition login_backoff :: "int \<Rightarrow> int" where
  "login_backoff failures =
     (let shift = min (failures - 2) 6; delay = login_backoff_base * 2 ^ nat shift
      in if delay > login_backoff_max then login_backoff_max else delay)"

definition count_failure :: "int \<Rightarrow> login_failure_state \<Rightarrow> login_failure_state" where
  "count_failure now s0 =
     (let s = s0\<lparr>LF_Failures := wrap64 (LF_Failures s0 + 1), LF_LastSeen := now\<rparr>
      in if LF_Failures s > 1 then s\<lparr>LF_BlockedUntil := now + login_backoff (LF_Failures s)\<rparr> else s)"

definition no_failures :: "string \<Rightarrow> login_failure_state" where
  "no_failures key = \<lparr>LF_Key = key, LF_Failures = 0, LF_BlockedUntil = zero_time, LF_LastSeen = zero_time\<rparr>"

definition limiter_failure :: "string \<Rightarrow> int \<Rightarrow> login_failure_limiter \<Rightarrow> login_failure_limiter" where
  "limiter_failure key now l0 =
     (let l1 = prune_locked now l0;
          l2 = (if row_by LF_Key key (LL_Entries l1) = None \<and> int (length (LL_Entries l1)) \<ge> LL_MaxEntries l1
                then evict_oldest_locked l1 else l1);
          fresh = count_failure now (no_failures key)
      in l2\<lparr>LL_Entries := sql_upsert LF_Key fresh (count_failure now) (LL_Entries l2)\<rparr>)"

definition limiter_success :: "string \<Rightarrow> login_failure_limiter \<Rightarrow> login_failure_limiter" where
  "limiter_success key l = l\<lparr>LL_Entries := filter (\<lambda>s. LF_Key s \<noteq> key) (LL_Entries l)\<rparr>"

definition login_client_ip ::
  "(string \<Rightarrow> string option) \<Rightarrow> (string \<Rightarrow> string option) \<Rightarrow> bool \<Rightarrow> string \<Rightarrow> string \<Rightarrow> string \<Rightarrow> string" where
  "login_client_ip parse_ip split_host_port trust_proxy forwarded_for real_ip remote_addr =
     (let forwarded = trim_space (takeWhile (\<lambda>c. c \<noteq> CHR '','') forwarded_for); real = trim_space real_ip;
          remote = trim_space remote_addr in
      if trust_proxy \<and> parse_ip forwarded \<noteq> None then forwarded
      else if trust_proxy \<and> parse_ip real \<noteq> None then real
      else case split_host_port remote of
        Some host \<Rightarrow> if parse_ip host \<noteq> None then host
                     else (case parse_ip remote of Some ip \<Rightarrow> ip | None \<Rightarrow> ''unknown'')
      | None \<Rightarrow> (case parse_ip remote of Some ip \<Rightarrow> ip | None \<Rightarrow> ''unknown''))"

subsection \<open>The login handler\<close>

text \<open>\<open>Retry_later\<close> carries the seconds of the \<open>Retry-After\<close> header; \<open>Bad_body\<close> is what \<open>decodeJSON\<close> answers.\<close>

datatype login_answer = Bad_body | Retry_later int | Login_busy | Invalid_credentials | Logged_in

definition retry_seconds :: "int \<Rightarrow> int" where
  "retry_seconds retry = go_div (wrap64 (wrap64 (retry + second) - 1)) second"

record login_request =
  LR_Client :: string
  LR_Body :: string

text \<open>
  The handler reads the clock, asks the limiter, takes the slot (a channel of capacity 1), checks the password
  and records the outcome, and gives the slot back, each under a lock of its own or none: between
  two of these sections other requests may run. \<open>LS_Phase\<close> is how far each request is, with the time it has read.
\<close>

datatype login_phase = Arrived | Clocked int | Admitted int | Holding int | Recorded login_answer | Answered login_answer

record login_system =
  LS_Limiter :: login_failure_limiter
  LS_SlotTaken :: bool
  LS_Phase :: "nat \<Rightarrow> login_phase"

definition right_password :: "(string \<Rightarrow> string option) \<Rightarrow> (string \<Rightarrow> bool) \<Rightarrow> login_request \<Rightarrow> bool" where
  "right_password decode check r \<longleftrightarrow> (case decode (LR_Body r) of None \<Rightarrow> False | Some p \<Rightarrow> check p)"

definition login_enter :: "nat \<Rightarrow> login_phase \<Rightarrow> login_system \<Rightarrow> login_system" where
  "login_enter i p st = st\<lparr>LS_Phase := (LS_Phase st)(i := p)\<rparr>"

text \<open>The next section of request \<open>i\<close>, at the time \<open>time\<close>.\<close>

definition login ::
  "(string \<Rightarrow> string option) \<Rightarrow> (string \<Rightarrow> bool) \<Rightarrow> (nat \<Rightarrow> login_request) \<Rightarrow> int \<Rightarrow> nat \<Rightarrow> login_system \<Rightarrow> login_system" where
  "login decode check rq time i st =
     (let r = rq i; key = LR_Client r @ ''|admin''
      in case LS_Phase st i of
           Arrived \<Rightarrow> login_enter i (if decode (LR_Body r) = None then Answered Bad_body else Clocked time) st
         | Clocked now \<Rightarrow>
             (let (allowed, retry) = limiter_allow key now (LS_Limiter st)
              in login_enter i (if allowed then Admitted now else Answered (Retry_later (retry_seconds retry))) st)
         | Admitted now \<Rightarrow>
             if LS_SlotTaken st then login_enter i (Answered Login_busy) st
             else login_enter i (Holding now) (st\<lparr>LS_SlotTaken := True\<rparr>)
         | Holding now \<Rightarrow>
             if right_password decode check r
             then login_enter i (Recorded Logged_in) (st\<lparr>LS_Limiter := limiter_success key (LS_Limiter st)\<rparr>)
             else login_enter i (Recorded Invalid_credentials) (st\<lparr>LS_Limiter := limiter_failure key now (LS_Limiter st)\<rparr>)
         | Recorded answer \<Rightarrow> login_enter i (Answered answer) (st\<lparr>LS_SlotTaken := False\<rparr>)
         | Answered answer \<Rightarrow> st)"



subsection \<open>What one operation does\<close>










lemma no_failures_sel [simp]: "LF_Key (no_failures key) = key" "LF_Failures (no_failures key) = 0"
  by (simp_all add: no_failures_def)



subsection \<open>Throttling\<close>


















subsection \<open>Sections of concurrent requests\<close>











lemma login_phase_other [simp]: "j \<noteq> i \<Longrightarrow> LS_Phase (login decode check rq time i st) j = LS_Phase st j"
  by (auto simp: login_def login_enter_def Let_def split: login_phase.split prod.split)






subsection \<open>Throttling of concurrent requests\<close>










subsection \<open>The size of the table\<close>









subsection \<open>Property\<close>





end
