(* ===== verification/Ssrf.thy ===== *)
theory Ssrf
  imports GoStrings
begin

text \<open>
  The outbound policy of \<open>upstream/ssrf.go\<close>: which addresses an upstream request may be sent to, how
  a connection is dialled, and what a redirect carries. An address of \<open>net/netip\<close> is a 32-bit or a
  128-bit word, the latter with its zone (empty for none); its predicates are the prefixes their
  documentation names. Parameters: \<open>parse_addr\<close> is \<open>netip.ParseAddr\<close>, \<open>addr_string\<close> is \<open>Addr.String\<close>,
  the resolver's answer and the outcome of each connection are arguments, and so are the
  decoding and encoding of a query string (\<open>URL.Query\<close>, \<open>Values.Encode\<close>). A URL comes parsed.
\<close>

subsection \<open>Addresses\<close>

datatype ip_addr = IPv4 "32 word" | IPv6 "128 word" string

datatype ip_prefix = Prefix4 "32 word" nat | Prefix6 "128 word" nat

definition ip4 :: "int \<Rightarrow> int \<Rightarrow> int \<Rightarrow> int \<Rightarrow> 32 word" where
  "ip4 a b c d = word_of_int (((a * 256 + b) * 256 + c) * 256 + d)"

text \<open>\<open>Prefix.Contains\<close>: of the same family, without a zone, and equal in the leading bits.\<close>

fun prefix_contains :: "ip_addr \<Rightarrow> ip_prefix \<Rightarrow> bool" where
  "prefix_contains (IPv4 a) (Prefix4 p n) = (drop_bit (32 - n) a = drop_bit (32 - n) p)"
| "prefix_contains (IPv6 a zone) (Prefix6 p n) = (zone = [] \<and> drop_bit (128 - n) a = drop_bit (128 - n) p)"
| "prefix_contains _ _ = False"

definition contains_address :: "ip_prefix list \<Rightarrow> ip_addr \<Rightarrow> bool" where
  "contains_address prefixes address \<longleftrightarrow> list_ex (prefix_contains address) prefixes"

text \<open>The predicates of \<open>netip.Addr\<close> look at the bits alone, whatever the zone.\<close>

definition without_zone :: "ip_addr \<Rightarrow> ip_addr" where
  "without_zone address = (case address of IPv4 a \<Rightarrow> IPv4 a | IPv6 a _ \<Rightarrow> IPv6 a [])"

fun unmap :: "ip_addr \<Rightarrow> ip_addr" where
  "unmap (IPv4 a) = IPv4 a"
| "unmap (IPv6 a zone) = (if drop_bit 32 a = 0xFFFF then IPv4 (ucast a) else IPv6 a zone)"

definition is_unspecified :: "ip_addr \<Rightarrow> bool" where
  "is_unspecified address \<longleftrightarrow> address = IPv4 0 \<or> address = IPv6 0 []"

definition is_loopback :: "ip_addr \<Rightarrow> bool" where
  "is_loopback address \<longleftrightarrow> contains_address [Prefix4 (ip4 127 0 0 0) 8, Prefix6 1 128] (without_zone address)"

definition is_multicast :: "ip_addr \<Rightarrow> bool" where
  "is_multicast address \<longleftrightarrow>
     contains_address [Prefix4 (ip4 224 0 0 0) 4, Prefix6 (push_bit 120 0xFF) 8] (without_zone address)"

definition is_link_local_unicast :: "ip_addr \<Rightarrow> bool" where
  "is_link_local_unicast address \<longleftrightarrow>
     contains_address [Prefix4 (ip4 169 254 0 0) 16, Prefix6 (push_bit 112 0xFE80) 10] (without_zone address)"

text \<open>For version 6, \<open>ff02::/16\<close> with any flags: a part of the multicast range.\<close>

definition is_link_local_multicast :: "ip_addr \<Rightarrow> bool" where
  "is_link_local_multicast address \<longleftrightarrow> (case address of
     IPv4 _ \<Rightarrow> contains_address [Prefix4 (ip4 224 0 0 0) 24] address
   | IPv6 a _ \<Rightarrow> drop_bit 120 a = 0xFF \<and> take_bit 4 (drop_bit 112 a) = 2)"

definition is_private :: "ip_addr \<Rightarrow> bool" where
  "is_private address \<longleftrightarrow>
     contains_address [Prefix4 (ip4 10 0 0 0) 8, Prefix4 (ip4 172 16 0 0) 12, Prefix4 (ip4 192 168 0 0) 16,
       Prefix6 (push_bit 120 0xFC) 7] (without_zone address)"

definition is_global_unicast :: "ip_addr \<Rightarrow> bool" where
  "is_global_unicast address \<longleftrightarrow> address \<noteq> IPv4 0 \<and> address \<noteq> IPv4 (- 1) \<and> address \<noteq> IPv6 0 [] \<and>
     \<not> is_loopback address \<and> \<not> is_multicast address \<and> \<not> is_link_local_unicast address"

definition private_network_prefixes :: "ip_prefix list" where
  "private_network_prefixes = [Prefix4 (ip4 100 64 0 0) 10]"

definition non_public_network_prefixes :: "ip_prefix list" where
  "non_public_network_prefixes =
    [Prefix4 (ip4 0 0 0 0) 8, Prefix4 (ip4 192 0 0 0) 24, Prefix4 (ip4 192 0 2 0) 24, Prefix4 (ip4 192 88 99 0) 24,
     Prefix4 (ip4 198 18 0 0) 15, Prefix4 (ip4 198 51 100 0) 24, Prefix4 (ip4 203 0 113 0) 24,
     Prefix4 (ip4 240 0 0 0) 4, Prefix6 (push_bit 112 0x100) 64, Prefix6 (push_bit 96 0x20010DB8) 32]"

definition metadata_addresses :: "ip_addr list" where
  "metadata_addresses =
    [IPv4 (ip4 100 100 100 200), IPv4 (ip4 168 63 129 16), IPv4 (ip4 169 254 169 254), IPv4 (ip4 169 254 170 2),
     IPv6 (push_bit 96 0xFD000EC2 + 0x254) []]"

datatype outbound_error = Missing_url | Invalid_url | Bad_scheme | User_information | Metadata_endpoint
  | Not_routable | Private_blocked | Too_many_redirects | Redirect_refused outbound_error | Redirect_with_body
  | Invalid_network_address | Resolve_failed | Dial_failed string | No_usable_address

definition validate_address :: "bool \<Rightarrow> ip_addr \<Rightarrow> (outbound_error, unit) result" where
  "validate_address allow_private address0 =
     (let address = unmap address0 in
      if address \<in> set metadata_addresses then Inl Metadata_endpoint
      else if is_unspecified address \<or> is_multicast address \<or> is_link_local_unicast address \<or>
              is_link_local_multicast address then Inl Not_routable
      else if is_loopback address \<or> is_private address \<or> contains_address private_network_prefixes address
      then (if allow_private then Inr () else Inl Private_blocked)
      else if contains_address non_public_network_prefixes address \<or> \<not> is_global_unicast address
      then Inl Not_routable
      else Inr ())"

subsection \<open>Addresses in numbers\<close>

lemma div_interval:
  fixes u m q :: int
  assumes "0 < m"
  shows "u div m = q \<longleftrightarrow> q * m \<le> u \<and> u < q * m + m"
proof
  assume "u div m = q"
  then have "q * m + u mod m = u" using div_mult_mod_eq [of u m] by simp
  moreover have "0 \<le> u mod m" "u mod m < m" using assms by simp_all
  ultimately show "q * m \<le> u \<and> u < q * m + m" by (intro conjI) linarith+
next
  assume "q * m \<le> u \<and> u < q * m + m"
  then show "u div m = q" by (intro int_div_pos_eq [of _ _ _ "u - q * m"]) (auto simp: mult.commute)
qed

lemma drop_bit_interval:
  fixes a p :: "'a::len word"
  shows "drop_bit n a = drop_bit n p \<longleftrightarrow>
    uint p div 2 ^ n * 2 ^ n \<le> uint a \<and> uint a < uint p div 2 ^ n * 2 ^ n + 2 ^ n"
proof -
  have "uint (drop_bit n x) = uint x div 2 ^ n" for x :: "'a word"
  proof -
    have "uint (drop_bit n x) = drop_bit n (take_bit LENGTH('a) (uint x))" by (rule unsigned_drop_bit_eq)
    also have "\<dots> = uint x div 2 ^ n" by (simp add: take_bit_eq_mod drop_bit_eq_div)
    finally show ?thesis .
  qed
  then have "drop_bit n a = drop_bit n p \<longleftrightarrow> uint a div 2 ^ n = uint p div 2 ^ n"
    by (simp only: word_uint_eq_iff)
  then show ?thesis by (simp add: div_interval)
qed

text \<open>Membership in a prefix is an interval of numbers; for version 4 on the numbers of the dotted quads.\<close>

declare prefix_contains.simps(1,2) [simp del]

lemma in_prefix4 [simp]:
  "prefix_contains (IPv4 a) (Prefix4 p n) \<longleftrightarrow>
    uint p div 2 ^ (32 - n) * 2 ^ (32 - n) \<le> uint a \<and> uint a < uint p div 2 ^ (32 - n) * 2 ^ (32 - n) + 2 ^ (32 - n)"
  by (simp only: prefix_contains.simps drop_bit_interval)

lemma in_prefix6 [simp]:
  "prefix_contains (IPv6 a zone) (Prefix6 p n) \<longleftrightarrow> zone = [] \<and>
    uint p div 2 ^ (128 - n) * 2 ^ (128 - n) \<le> uint a \<and> uint a < uint p div 2 ^ (128 - n) * 2 ^ (128 - n) + 2 ^ (128 - n)"
  by (simp only: prefix_contains.simps drop_bit_interval)

definition quad :: "int \<Rightarrow> int \<Rightarrow> int \<Rightarrow> int \<Rightarrow> int" where
  "quad a b c d = ((a * 256 + b) * 256 + c) * 256 + d"

definition within :: "int \<Rightarrow> (int \<times> int) list \<Rightarrow> bool" where
  "within u ranges \<longleftrightarrow> list_ex (\<lambda>(lo, hi). lo \<le> u \<and> u \<le> hi) ranges"

text \<open>The ranges refused to everybody, the private ones, and the single metadata addresses, of version 4.\<close>

definition refused4 :: "(int \<times> int) list" where
  "refused4 =
    [(quad 0 0 0 0, quad 0 255 255 255), (quad 169 254 0 0, quad 169 254 255 255), (quad 192 0 0 0, quad 192 0 0 255),
     (quad 192 0 2 0, quad 192 0 2 255), (quad 192 88 99 0, quad 192 88 99 255), (quad 198 18 0 0, quad 198 19 255 255),
     (quad 198 51 100 0, quad 198 51 100 255), (quad 203 0 113 0, quad 203 0 113 255), (quad 224 0 0 0, quad 255 255 255 255),
     (quad 100 100 100 200, quad 100 100 100 200), (quad 168 63 129 16, quad 168 63 129 16)]"

definition private4 :: "(int \<times> int) list" where
  "private4 =
    [(quad 10 0 0 0, quad 10 255 255 255), (quad 100 64 0 0, quad 100 127 255 255), (quad 127 0 0 0, quad 127 255 255 255),
     (quad 172 16 0 0, quad 172 31 255 255), (quad 192 168 0 0, quad 192 168 255 255)]"

lemma range4:
  "is_unspecified (IPv4 a) \<longleftrightarrow> uint a = 0"
  "is_multicast (IPv4 a) \<longleftrightarrow> 3758096384 \<le> uint a \<and> uint a \<le> 4026531839"
  "is_link_local_unicast (IPv4 a) \<longleftrightarrow> 2851995648 \<le> uint a \<and> uint a \<le> 2852061183"
  "is_link_local_multicast (IPv4 a) \<longleftrightarrow> 3758096384 \<le> uint a \<and> uint a \<le> 3758096639"
  "is_loopback (IPv4 a) \<longleftrightarrow> 2130706432 \<le> uint a \<and> uint a \<le> 2147483647"
  "is_private (IPv4 a) \<longleftrightarrow> within (uint a) [(167772160, 184549375), (2886729728, 2887778303), (3232235520, 3232301055)]"
  "contains_address private_network_prefixes (IPv4 a) \<longleftrightarrow> 1681915904 \<le> uint a \<and> uint a \<le> 1686110207"
  by (auto simp: is_unspecified_def is_multicast_def is_link_local_unicast_def is_link_local_multicast_def is_loopback_def
      is_private_def contains_address_def private_network_prefixes_def without_zone_def ip4_def word_uint_eq_iff within_def)

lemma non_public4:
  "contains_address non_public_network_prefixes (IPv4 a) \<longleftrightarrow>
    within (uint a) [(0, 16777215), (3221225472, 3221225727), (3221225984, 3221226239), (3227017984, 3227018239),
      (3323068416, 3323199487), (3325256704, 3325256959), (3405803776, 3405804031), (4026531840, 4294967295)]"
  by (simp add: contains_address_def non_public_network_prefixes_def ip4_def within_def) linarith

lemma metadata4: "IPv4 a \<in> set metadata_addresses \<longleftrightarrow>
    uint a = 1684301000 \<or> uint a = 2822734096 \<or> uint a = 2852039166 \<or> uint a = 2852039170"
  by (simp add: metadata_addresses_def ip4_def word_uint_eq_iff)

lemma global4: "is_global_unicast (IPv4 a) \<longleftrightarrow> uint a \<noteq> 0 \<and> uint a \<noteq> 4294967295 \<and>
    \<not> is_loopback (IPv4 a) \<and> \<not> is_multicast (IPv4 a) \<and> \<not> is_link_local_unicast (IPv4 a)"
  by (simp add: is_global_unicast_def word_uint_eq_iff unsigned_minus_1_eq_mask mask_eq_exp_minus_1)

lemma validate4_exact:
  "validate_address allow_private (IPv4 a) = Inr () \<longleftrightarrow>
    \<not> within (uint a) refused4 \<and> (allow_private \<or> \<not> within (uint a) private4)"
proof -
  have "uint a < 4294967296" using uint_bounded [of a] by simp
  moreover have "0 \<le> uint a" by simp
  ultimately show ?thesis
    unfolding validate_address_def Let_def unmap.simps metadata4 range4 non_public4 global4 refused4_def private4_def quad_def
    by (simp add: within_def)
qed

text \<open>The same for version 6: \<open>hex6 h k\<close> is the number of the address that begins with \<open>h\<close>, \<open>k\<close> bits wide.\<close>

definition hex6 :: "int \<Rightarrow> nat \<Rightarrow> int" where
  "hex6 h k = h * 2 ^ (128 - k)"

definition zoned_refused6 :: "(int \<times> int) list" where
  "zoned_refused6 = [(hex6 0xFE80 16, hex6 0xFEC0 16 - 1), (hex6 0xFF 8, 2 ^ 128 - 1)]"

definition refused6 :: "(int \<times> int) list" where
  "refused6 = [(0, 0), (hex6 0x100 16, hex6 0x100 16 + 2 ^ 64 - 1), (hex6 0x20010DB8 32, hex6 0x20010DB9 32 - 1),
     (hex6 0xFD000EC2 32 + 0x254, hex6 0xFD000EC2 32 + 0x254)] @ zoned_refused6"

definition private6 :: "(int \<times> int) list" where
  "private6 = [(1, 1), (hex6 0xFC 8, hex6 0xFE 8 - 1)]"

lemma range6:
  "is_unspecified (IPv6 a zone) \<longleftrightarrow> uint a = 0 \<and> zone = []"
  "is_multicast (IPv6 a zone) \<longleftrightarrow> hex6 0xFF 8 \<le> uint a"
  "is_link_local_unicast (IPv6 a zone) \<longleftrightarrow> hex6 0xFE80 16 \<le> uint a \<and> uint a \<le> hex6 0xFEC0 16 - 1"
  "is_loopback (IPv6 a zone) \<longleftrightarrow> uint a = 1"
  "is_private (IPv6 a zone) \<longleftrightarrow> hex6 0xFC 8 \<le> uint a \<and> uint a \<le> hex6 0xFE 8 - 1"
  "contains_address private_network_prefixes (IPv6 a zone) \<longleftrightarrow> False"
  "contains_address non_public_network_prefixes (IPv6 a zone) \<longleftrightarrow> zone = [] \<and>
    within (uint a) [(hex6 0x100 16, hex6 0x100 16 + 2 ^ 64 - 1), (hex6 0x20010DB8 32, hex6 0x20010DB9 32 - 1)]"
  "IPv6 a zone \<in> set metadata_addresses \<longleftrightarrow> uint a = hex6 0xFD000EC2 32 + 0x254 \<and> zone = []"
  using uint_bounded [of a]
  by (auto simp: is_unspecified_def is_multicast_def is_link_local_unicast_def is_loopback_def within_def
      is_private_def contains_address_def private_network_prefixes_def without_zone_def word_uint_eq_iff
      metadata_addresses_def non_public_network_prefixes_def hex6_def)

lemma link_local_multicast6: "is_link_local_multicast (IPv6 a zone) \<Longrightarrow> is_multicast (IPv6 a zone)"
  by (auto simp: is_link_local_multicast_def is_multicast_def contains_address_def without_zone_def
      prefix_contains.simps simp del: in_prefix6)

lemma global6: "is_global_unicast (IPv6 a zone) \<longleftrightarrow> \<not> (uint a = 0 \<and> zone = []) \<and>
    \<not> is_loopback (IPv6 a zone) \<and> \<not> is_multicast (IPv6 a zone) \<and> \<not> is_link_local_unicast (IPv6 a zone)"
  by (simp add: is_global_unicast_def word_uint_eq_iff)

lemma validate6_exact:
  assumes "unmap (IPv6 a zone) = IPv6 a zone"
  shows "validate_address allow_private (IPv6 a zone) = Inr () \<longleftrightarrow>
    \<not> within (uint a) (if zone = [] then refused6 else zoned_refused6) \<and> (allow_private \<or> \<not> within (uint a) private6)"
proof -
  have bound: "uint a < 2 ^ 128" "0 \<le> uint a" using uint_bounded [of a] by simp_all
  show ?thesis
  proof (cases "is_link_local_multicast (IPv6 a zone)")
    case True
    from link_local_multicast6 [OF this] have "hex6 0xFF 8 \<le> uint a" by (simp only: range6)
    with True bound show ?thesis
      unfolding validate_address_def Let_def assms range6 refused6_def zoned_refused6_def
      by (simp add: within_def hex6_def)
  next
    case False
    with bound show ?thesis
      unfolding validate_address_def Let_def assms global6 range6 refused6_def zoned_refused6_def private6_def
      by (simp add: within_def hex6_def)
  qed
qed

definition address_allowed :: "bool \<Rightarrow> ip_addr \<Rightarrow> bool" where
  "address_allowed allow_private address \<longleftrightarrow> (case unmap address of
     IPv4 a \<Rightarrow> \<not> within (uint a) refused4 \<and> (allow_private \<or> \<not> within (uint a) private4)
   | IPv6 a zone \<Rightarrow> \<not> within (uint a) (if zone = [] then refused6 else zoned_refused6) \<and>
       (allow_private \<or> \<not> within (uint a) private6))"

lemma unmap_unmap: "unmap (unmap address) = unmap address"
  by (cases address) auto

lemma validate_unmap: "validate_address allow_private (unmap address) = validate_address allow_private address"
  by (simp add: validate_address_def unmap_unmap)

lemma validate_allowed: "validate_address allow_private address = Inr () \<longleftrightarrow> address_allowed allow_private address"
proof (cases "unmap address")
  case (IPv4 a)
  then show ?thesis
    using validate4_exact [of allow_private a] validate_unmap [of allow_private address] by (simp add: address_allowed_def)
next
  case (IPv6 a zone)
  then have "unmap (IPv6 a zone) = IPv6 a zone" using unmap_unmap [of address] by simp
  from validate6_exact [OF this, of allow_private] IPv6 show ?thesis
    using validate_unmap [of allow_private address] by (simp add: address_allowed_def)
qed

subsection \<open>URLs and dialling\<close>

text \<open>A parsed \<open>url.URL\<close>: \<open>RU_Host\<close> is \<open>Host\<close>, of which \<open>Hostname()\<close> and \<open>Port()\<close> are the parts.\<close>

record request_url =
  RU_Scheme :: string
  RU_Opaque :: string
  RU_HasUser :: bool
  RU_Host :: string
  RU_Hostname :: string
  RU_Port :: string
  RU_RawQuery :: string

definition trim_suffix :: "string \<Rightarrow> string \<Rightarrow> string" where
  "trim_suffix s p = (if has_suffix s p then take (length s - length p) s else s)"

definition is_metadata_hostname :: "string \<Rightarrow> bool" where
  "is_metadata_hostname host \<longleftrightarrow> trim_suffix (to_lower host) ''.'' \<in>
     {''metadata.google.internal'', ''metadata.goog'', ''metadata.aws.internal'', ''instance-data'', ''instance-data.ec2.internal''}"

definition validate_url_syntax :: "request_url \<Rightarrow> (outbound_error, unit) result" where
  "validate_url_syntax u =
     (if RU_Opaque u \<noteq> [] \<or> RU_Host u = [] \<or> RU_Hostname u = [] then Inl Invalid_url
      else if to_lower (RU_Scheme u) \<noteq> ''http'' \<and> to_lower (RU_Scheme u) \<noteq> ''https'' then Inl Bad_scheme
      else if RU_HasUser u then Inl User_information
      else Inr ())"

definition validate_url :: "(string \<Rightarrow> ip_addr option) \<Rightarrow> bool \<Rightarrow> request_url \<Rightarrow> (outbound_error, unit) result" where
  "validate_url parse_addr allow_private u =
     (case validate_url_syntax u of Inl e \<Rightarrow> Inl e
      | Inr _ \<Rightarrow>
          (let host = trim_suffix (to_lower (RU_Hostname u)) ''.'' in
           if is_metadata_hostname host then Inl Metadata_endpoint
           else case parse_addr host of
             Some address \<Rightarrow> validate_address allow_private address
           | None \<Rightarrow> Inr ()))"

text \<open>
  The loop of \<open>dialContext\<close> over the resolved addresses. \<open>connect\<close> says of an address whether the
  connection fails and how; the first component lists the addresses a connection was tried to.
\<close>

fun dial_candidates ::
  "bool \<Rightarrow> string \<Rightarrow> (ip_addr \<Rightarrow> string option) \<Rightarrow> outbound_error option \<Rightarrow> ip_addr list
    \<Rightarrow> ip_addr list \<times> (outbound_error, ip_addr) result" where
  "dial_candidates allow_private network connect last_err [] =
     ([], Inl (case last_err of Some e \<Rightarrow> e | None \<Rightarrow> No_usable_address))"
| "dial_candidates allow_private network connect last_err (candidate0 # rest) =
     (let candidate = unmap candidate0; is4 = (case candidate of IPv4 _ \<Rightarrow> True | IPv6 _ _ \<Rightarrow> False) in
      if network = ''tcp4'' \<and> \<not> is4 then dial_candidates allow_private network connect last_err rest
      else if network = ''tcp6'' \<and> is4 then dial_candidates allow_private network connect last_err rest
      else case validate_address allow_private candidate of
        Inl e \<Rightarrow> dial_candidates allow_private network connect (Some e) rest
      | Inr _ \<Rightarrow>
          (case connect candidate of
             None \<Rightarrow> ([candidate], Inr candidate)
           | Some e \<Rightarrow>
               (let (tried, outcome) = dial_candidates allow_private network connect (Some (Dial_failed e)) rest
                in (candidate # tried, outcome))))"

definition dial_context ::
  "(string \<Rightarrow> (string \<times> string) option) \<Rightarrow> (string \<Rightarrow> ip_addr option) \<Rightarrow> (string \<Rightarrow> ip_addr list option)
    \<Rightarrow> (ip_addr \<Rightarrow> string option) \<Rightarrow> bool \<Rightarrow> string \<Rightarrow> string \<Rightarrow> ip_addr list \<times> (outbound_error, ip_addr) result" where
  "dial_context split_host_port parse_addr lookup connect allow_private network address =
     (case split_host_port address of
        None \<Rightarrow> ([], Inl Invalid_network_address)
      | Some (host0, _) \<Rightarrow>
          (let host = trim_suffix (to_lower host0) ''.'' in
           if is_metadata_hostname host then ([], Inl Metadata_endpoint)
           else case (case parse_addr host of Some literal \<Rightarrow> Some [literal] | None \<Rightarrow> lookup host) of
             None \<Rightarrow> ([], Inl Resolve_failed)
           | Some resolved \<Rightarrow> dial_candidates allow_private network connect None resolved))"

subsection \<open>Redirects\<close>

text \<open>\<open>OR_HasBody\<close> is \<open>requestHasBody\<close>.\<close>

record outbound_request =
  OR_URL :: "request_url option"
  OR_Header :: "(string \<times> string list) list"
  OR_HasBody :: bool

definition canonical_hostname :: "(string \<Rightarrow> ip_addr option) \<Rightarrow> (ip_addr \<Rightarrow> string) \<Rightarrow> request_url \<Rightarrow> string" where
  "canonical_hostname parse_addr addr_string u =
     (let host = trim_suffix (to_lower (RU_Hostname u)) ''.''
      in case parse_addr host of Some address \<Rightarrow> addr_string (unmap address) | None \<Rightarrow> host)"

definition canonical_port :: "request_url \<Rightarrow> string" where
  "canonical_port u = (if RU_Port u \<noteq> [] then RU_Port u else if to_lower (RU_Scheme u) = ''http'' then ''80''
     else if to_lower (RU_Scheme u) = ''https'' then ''443'' else [])"

definition same_origin ::
  "(string \<Rightarrow> ip_addr option) \<Rightarrow> (ip_addr \<Rightarrow> string) \<Rightarrow> request_url option \<Rightarrow> request_url option \<Rightarrow> bool" where
  "same_origin parse_addr addr_string left right \<longleftrightarrow>
     (case (left, right) of
        (Some l, Some r) \<Rightarrow> equal_fold (RU_Scheme l) (RU_Scheme r) \<and>
          canonical_hostname parse_addr addr_string l = canonical_hostname parse_addr addr_string r \<and>
          canonical_port l = canonical_port r
      | _ \<Rightarrow> False)"

definition is_credential_header :: "string \<Rightarrow> bool" where
  "is_credential_header key \<longleftrightarrow>
     (let normalized = to_lower (trim_space key); compact = filter (\<lambda>c. c \<noteq> CHR ''-'' \<and> c \<noteq> CHR ''_'') normalized in
      normalized \<in> {''authorization'', ''proxy-authorization'', ''cookie'', ''cookie2'', ''api-key'', ''x-api-key'',
        ''x-goog-api-key'', ''x-auth-token'', ''x-access-token''} \<or>
      str_contains compact ''apikey'' \<or> has_suffix compact ''accesstoken'' \<or> has_suffix compact ''authtoken'')"

definition is_credential_query_key :: "string \<Rightarrow> bool" where
  "is_credential_query_key key \<longleftrightarrow>
     filter (\<lambda>c. c \<noteq> CHR ''-'' \<and> c \<noteq> CHR ''_'' \<and> c \<noteq> CHR ''.'') (to_lower (trim_space key)) \<in>
       {''key'', ''apikey'', ''accesstoken'', ''token'', ''auth'', ''authorization'', ''signature'',
        ''xamzcredential'', ''xamzsignature''}"

text \<open>\<open>CanonicalHeaderKey\<close>: a capital after the start and every hyphen; a key with other bytes is left alone.\<close>

fun canonical_runes :: "bool \<Rightarrow> string \<Rightarrow> string" where
  "canonical_runes upper [] = []"
| "canonical_runes upper (c # s) =
     (if upper \<and> ascii_small c then ascii_raise c else if \<not> upper \<and> ascii_upper c then ascii_lower c else c)
       # canonical_runes (c = CHR ''-'') s"

definition token_byte :: "char \<Rightarrow> bool" where
  "token_byte c \<longleftrightarrow> ascii_small c \<or> ascii_upper c \<or> c \<in> set ''0123456789!#$%&*+-.^_`|~'' \<or> c = CHR 0x27"

definition canonical_header_key :: "string \<Rightarrow> string" where
  "canonical_header_key key = (if list_all token_byte key then canonical_runes True key else key)"

definition header_del :: "string \<Rightarrow> (string \<times> string list) list \<Rightarrow> (string \<times> string list) list" where
  "header_del key h = filter (\<lambda>(k, _). k \<noteq> canonical_header_key key) h"

definition strip_headers :: "(string \<times> string list) list \<Rightarrow> (string \<times> string list) list" where
  "strip_headers header =
     fold (\<lambda>(key, _) h. if is_credential_header key \<or> equal_fold key ''Referer'' then header_del key h else h) header header"

definition strip_cross_origin_credentials ::
  "(string \<Rightarrow> (string \<times> string list) list) \<Rightarrow> ((string \<times> string list) list \<Rightarrow> string)
    \<Rightarrow> outbound_request \<Rightarrow> outbound_request" where
  "strip_cross_origin_credentials parse_query encode_query req0 =
     (let req = req0\<lparr>OR_Header := strip_headers (OR_Header req0)\<rparr> in
      case OR_URL req of
        None \<Rightarrow> req
      | Some u \<Rightarrow>
          if RU_RawQuery u = [] then req
          else req\<lparr>OR_URL := Some (u\<lparr>RU_RawQuery :=
            encode_query (filter (\<lambda>(k, _). \<not> is_credential_query_key k) (parse_query (RU_RawQuery u)))\<rparr>)\<rparr>)"

record outbound_policy =
  OP_AllowPrivate :: bool
  OP_ParseAddr :: "string \<Rightarrow> ip_addr option"
  OP_AddrString :: "ip_addr \<Rightarrow> string"
  OP_ParseQuery :: "string \<Rightarrow> (string \<times> string list) list"
  OP_EncodeQuery :: "(string \<times> string list) list \<Rightarrow> string"

definition round_trip_check :: "outbound_policy \<Rightarrow> outbound_request \<Rightarrow> (outbound_error, unit) result" where
  "round_trip_check p req =
     (case OR_URL req of None \<Rightarrow> Inl Missing_url
      | Some u \<Rightarrow> validate_url (OP_ParseAddr p) (OP_AllowPrivate p) u)"

definition check_redirect ::
  "outbound_policy \<Rightarrow> outbound_request list \<Rightarrow> outbound_request \<Rightarrow> (outbound_error, outbound_request) result" where
  "check_redirect p via req =
     (if length via \<ge> 10 then Inl Too_many_redirects
      else case OR_URL req of
        None \<Rightarrow> Inl Missing_url
      | Some u \<Rightarrow>
          (case validate_url (OP_ParseAddr p) (OP_AllowPrivate p) u of
             Inl e \<Rightarrow> Inl (Redirect_refused e)
           | Inr _ \<Rightarrow>
               if via \<noteq> [] \<and> \<not> same_origin (OP_ParseAddr p) (OP_AddrString p) (OR_URL (last via)) (OR_URL req)
               then (if OR_HasBody req then Inl Redirect_with_body
                     else Inr (strip_cross_origin_credentials (OP_ParseQuery p) (OP_EncodeQuery p) req))
               else Inr req))"

subsection \<open>The client around the policy\<close>

text \<open>
  How \<open>net/http\<close> uses the policy that \<open>newHTTPClient\<close> installs. Following a redirect it builds a
  request from the headers of the very first one, leaves out a few sensitive ones once a redirect has left the
  domain of the first request (\<open>same_domain\<close>), sets the referer, asks \<open>CheckRedirect\<close>, and sends the
  request through the guarded transport. A hop is what a server's redirect asks for; \<open>RH_KeepsBody\<close>
  says that its status repeats the method and the body can be had again.
\<close>

record redirect_hop =
  RH_URL :: request_url
  RH_KeepsBody :: bool
  RH_Referer :: string

definition client_sensitive :: "string \<Rightarrow> bool" where
  "client_sensitive key \<longleftrightarrow> canonical_header_key key \<in> {''Authorization'', ''Www-Authenticate'', ''Cookie'', ''Cookie2'',
     ''Proxy-Authorization'', ''Proxy-Authenticate''}"

definition next_request ::
  "(string \<times> string list) list \<Rightarrow> bool \<Rightarrow> bool \<Rightarrow> redirect_hop \<Rightarrow> outbound_request" where
  "next_request initial has_body strip h =
     (let copied = filter (\<lambda>(k, _). \<not> (client_sensitive k \<and> strip)) initial;
          header = (if RH_Referer h = [] then copied
                    else filter (\<lambda>(k, _). k \<noteq> ''Referer'') copied @ [(''Referer'', [RH_Referer h])])
      in \<lparr>OR_URL = Some (RH_URL h), OR_Header = header, OR_HasBody = (has_body \<and> RH_KeepsBody h)\<rparr>)"

fun client_loop ::
  "outbound_policy \<Rightarrow> (string \<Rightarrow> string \<Rightarrow> bool) \<Rightarrow> outbound_request \<Rightarrow> outbound_request list \<Rightarrow> bool
    \<Rightarrow> outbound_request \<Rightarrow> redirect_hop list \<Rightarrow> outbound_request list \<times> (outbound_error, unit) result" where
  "client_loop p same_domain first via strip req [] =
     (case round_trip_check p req of Inl e \<Rightarrow> ([], Inl e) | Inr _ \<Rightarrow> ([req], Inr ()))"
| "client_loop p same_domain first via strip req (h # hs) =
     (case round_trip_check p req of
        Inl e \<Rightarrow> ([], Inl e)
      | Inr _ \<Rightarrow>
          (let host = (case OR_URL first of Some u \<Rightarrow> RU_Host u | None \<Rightarrow> []);
               strip' = (strip \<or> (host \<noteq> RU_Host (RH_URL h) \<and> \<not> same_domain host (RU_Host (RH_URL h))))
           in case check_redirect p (via @ [req]) (next_request (OR_Header first) (OR_HasBody first) strip' h) of
                Inl e \<Rightarrow> ([req], Inl e)
              | Inr req' \<Rightarrow>
                  (let (sent, outcome) = client_loop p same_domain first (via @ [req]) strip' req' hs
                   in (req # sent, outcome))))"

definition client_do ::
  "outbound_policy \<Rightarrow> (string \<Rightarrow> string \<Rightarrow> bool) \<Rightarrow> outbound_request \<Rightarrow> redirect_hop list
    \<Rightarrow> outbound_request list \<times> (outbound_error, unit) result" where
  "client_do p same_domain first hops = client_loop p same_domain first [] False first hops"

subsection \<open>What a redirect carries\<close>

definition canonical_keys :: "(string \<times> string list) list \<Rightarrow> bool" where
  "canonical_keys h \<longleftrightarrow> list_all (\<lambda>(k, _). canonical_header_key k = k) h"

definition credential_free :: "(string \<Rightarrow> (string \<times> string list) list) \<Rightarrow> outbound_request \<Rightarrow> bool" where
  "credential_free parse_query req \<longleftrightarrow> \<not> OR_HasBody req \<and>
     list_all (\<lambda>(k, _). \<not> is_credential_header k \<and> \<not> equal_fold k ''Referer'') (OR_Header req) \<and>
     (case OR_URL req of None \<Rightarrow> True
      | Some u \<Rightarrow> RU_RawQuery u = [] \<or> list_all (\<lambda>(k, _). \<not> is_credential_query_key k) (parse_query (RU_RawQuery u)))"

definition query_codec :: "outbound_policy \<Rightarrow> bool" where
  "query_codec p \<longleftrightarrow> (\<forall>q. set (map fst (OP_ParseQuery p (OP_EncodeQuery p q))) \<subseteq> set (map fst q))"

lemma strip_headers_fold:
  "fold (\<lambda>(key, _) h. if P key then header_del key h else h) ks h =
    filter (\<lambda>(k, _). \<not> (\<exists>(key, _) \<in> set ks. P key \<and> k = canonical_header_key key)) h"
  by (induction ks arbitrary: h) (auto simp: header_del_def intro: filter_cong)

lemma strip_headers_free:
  "canonical_keys h \<Longrightarrow> (k, v) \<in> set (strip_headers h) \<Longrightarrow> \<not> is_credential_header k \<and> \<not> equal_fold k ''Referer''"
  unfolding strip_headers_def strip_headers_fold by (fastforce simp: canonical_keys_def list_all_iff)

lemma strip_credentials_sel:
  "OR_Header (strip_cross_origin_credentials parse_query encode_query req) = strip_headers (OR_Header req)"
  "OR_HasBody (strip_cross_origin_credentials parse_query encode_query req) = OR_HasBody req"
  "OR_URL (strip_cross_origin_credentials parse_query encode_query req) = map_option (\<lambda>u. if RU_RawQuery u = [] then u
     else u\<lparr>RU_RawQuery := encode_query (filter (\<lambda>(k, _). \<not> is_credential_query_key k) (parse_query (RU_RawQuery u)))\<rparr>) (OR_URL req)"
  by (simp_all add: strip_cross_origin_credentials_def Let_def split: option.split)

lemma list_all_pairs: "(\<And>k v. (k, v) \<in> set l \<Longrightarrow> P k) \<Longrightarrow> list_all (\<lambda>(k, _). P k) l"
  by (auto simp: list_all_iff)

lemma stripped_query:
  assumes "query_codec p"
  shows "list_all (\<lambda>(k, _). \<not> is_credential_query_key k)
    (OP_ParseQuery p (OP_EncodeQuery p (filter (\<lambda>(k, _). \<not> is_credential_query_key k) q)))"
proof -
  have "\<not> is_credential_query_key k"
    if "(k, v) \<in> set (OP_ParseQuery p (OP_EncodeQuery p (filter (\<lambda>(k, _). \<not> is_credential_query_key k) q)))" for k v
  proof -
    have "k \<in> set (map fst (filter (\<lambda>(k, _). \<not> is_credential_query_key k) q))"
      using assms that unfolding query_codec_def by force
    then show ?thesis by auto
  qed
  then show ?thesis by (rule list_all_pairs)
qed

lemma strip_credential_free:
  assumes "canonical_keys (OR_Header req)" and "query_codec p" and "\<not> OR_HasBody req"
  shows "credential_free (OP_ParseQuery p) (strip_cross_origin_credentials (OP_ParseQuery p) (OP_EncodeQuery p) req)"
proof -
  have "list_all (\<lambda>(k, _). \<not> is_credential_header k \<and> \<not> equal_fold k ''Referer'') (strip_headers (OR_Header req))"
    by (rule list_all_pairs) (rule strip_headers_free [OF assms(1)])
  note header = this
  show ?thesis
  proof (cases "OR_URL req")
    case None
    then show ?thesis
      unfolding credential_free_def strip_credentials_sel using header assms(3) by simp
  next
    case (Some u)
    show ?thesis
      unfolding credential_free_def strip_credentials_sel Some option.map option.case
      using header assms(3) stripped_query [OF assms(2), of "OP_ParseQuery p (RU_RawQuery u)"]
      by (cases "RU_RawQuery u = []") simp_all
  qed
qed

lemma check_redirect_hop:
  assumes "check_redirect p (via @ [req]) next0 = Inr req'" and "canonical_keys (OR_Header next0)" and "query_codec p"
  shows "length (via @ [req]) < 10"
    and "same_origin (OP_ParseAddr p) (OP_AddrString p) (OR_URL req) (OR_URL next0) \<or> credential_free (OP_ParseQuery p) req'"
proof -
  obtain u where u: "OR_URL next0 = Some u" and few: "length (via @ [req]) < 10"
    using assms(1) by (cases "OR_URL next0") (auto simp: check_redirect_def split: if_splits)
  then show "length (via @ [req]) < 10" by simp
  show "same_origin (OP_ParseAddr p) (OP_AddrString p) (OR_URL req) (OR_URL next0) \<or> credential_free (OP_ParseQuery p) req'"
  proof (cases "same_origin (OP_ParseAddr p) (OP_AddrString p) (OR_URL req) (OR_URL next0)")
    case False
    with assms(1) few u have "\<not> OR_HasBody next0"
      "req' = strip_cross_origin_credentials (OP_ParseQuery p) (OP_EncodeQuery p) next0"
      by (simp_all add: check_redirect_def split: sum.splits if_splits)
    then show ?thesis
      using strip_credential_free [OF assms(2,3)] by simp
  qed simp
qed

lemma canonical_referer: "canonical_header_key ''Referer'' = ''Referer''"
  by code_simp

lemma next_request_canonical:
  "canonical_keys initial \<Longrightarrow> canonical_keys (OR_Header (next_request initial has_body strip h))"
  by (auto simp: canonical_keys_def next_request_def Let_def list_all_iff canonical_referer)

text \<open>From one request to the next: within the origin, or with nothing that identifies the caller.\<close>

definition hop_clean :: "outbound_policy \<Rightarrow> outbound_request \<Rightarrow> outbound_request \<Rightarrow> bool" where
  "hop_clean p a b \<longleftrightarrow> same_origin (OP_ParseAddr p) (OP_AddrString p) (OR_URL a) (OR_URL b) \<or>
     credential_free (OP_ParseQuery p) b"

lemma check_redirect_clean:
  assumes "check_redirect p (via @ [req]) next0 = Inr req'" and "canonical_keys (OR_Header next0)" and "query_codec p"
  shows "hop_clean p req req'"
proof (cases "same_origin (OP_ParseAddr p) (OP_AddrString p) (OR_URL req) (OR_URL next0)")
  case True
  with assms(1) have "req' = next0"
    by (auto simp: check_redirect_def split: if_splits option.splits sum.splits)
  with True show ?thesis by (simp add: hop_clean_def)
next
  case False
  then show ?thesis using check_redirect_hop(2) [OF assms] by (simp add: hop_clean_def)
qed

lemma client_loop_guarded:
  assumes "canonical_keys (OR_Header first)" and "query_codec p"
    and "client_loop p same_domain first via strip req hops = (sent, outcome)" and "length via < 10"
  shows "length via + length sent \<le> 10 \<and> list_all (\<lambda>r. round_trip_check p r = Inr ()) sent \<and>
    (sent = [] \<or> hd sent = req) \<and> successively (hop_clean p) sent"
  using assms(3,4)
proof (induction hops arbitrary: via strip req sent)
  case Nil
  then show ?case by (auto split: sum.splits)
next
  case (Cons h hs)
  show ?case
  proof (cases "round_trip_check p req")
    case (Inr ok)
    define strip' where "strip' = (strip \<or> (case OR_URL first of Some u \<Rightarrow> RU_Host u | None \<Rightarrow> []) \<noteq> RU_Host (RH_URL h) \<and>
      \<not> same_domain (case OR_URL first of Some u \<Rightarrow> RU_Host u | None \<Rightarrow> []) (RU_Host (RH_URL h)))"
    let ?next = "next_request (OR_Header first) (OR_HasBody first) strip' h"
    show ?thesis
    proof (cases "check_redirect p (via @ [req]) ?next")
      case (Inl e)
      then show ?thesis using Cons.prems Inr by (auto simp: strip'_def)
    next
      case next': (Inr req')
      obtain sent' where rest: "client_loop p same_domain first (via @ [req]) strip' req' hs = (sent', outcome)"
        and sent: "sent = req # sent'"
        using Cons.prems(1) Inr next' by (auto simp: strip'_def Let_def split: prod.splits)
      have canonical: "canonical_keys (OR_Header ?next)" using assms(1) by (rule next_request_canonical)
      have "length (via @ [req]) < 10" using check_redirect_hop(1) [OF next' canonical assms(2)] .
      from Cons.IH [OF rest this] have ih: "length (via @ [req]) + length sent' \<le> 10"
        "list_all (\<lambda>r. round_trip_check p r = Inr ()) sent'" "sent' = [] \<or> hd sent' = req'" "successively (hop_clean p) sent'"
        by simp_all
      have "hop_clean p req req'" using check_redirect_clean [OF next' canonical assms(2)] .
      then show ?thesis using ih Inr sent by (cases sent') (auto simp: successively_Cons)
    qed
  qed (use Cons.prems in simp)
qed

subsection \<open>Properties\<close>

text \<open>The addresses of a family that may be dialled, in the resolver's order.\<close>

definition right_family :: "string \<Rightarrow> ip_addr \<Rightarrow> bool" where
  "right_family network a \<longleftrightarrow> (case a of IPv4 _ \<Rightarrow> network \<noteq> ''tcp6'' | IPv6 _ _ \<Rightarrow> network \<noteq> ''tcp4'')"

definition dialable :: "bool \<Rightarrow> string \<Rightarrow> ip_addr list \<Rightarrow> ip_addr list" where
  "dialable allow_private network resolved =
     filter (\<lambda>a. right_family network a \<and> address_allowed allow_private a) (map unmap resolved)"

lemma dialable_Cons:
  "dialable allow_private network (a # as) =
    (if right_family network (unmap a) \<and> address_allowed allow_private (unmap a)
     then unmap a # dialable allow_private network as else dialable allow_private network as)"
  by (simp add: dialable_def)

lemma dial_candidates_exact:
  "dial_candidates allow_private network connect last_err resolved = (tried, outcome) \<Longrightarrow>
    (case dropWhile (\<lambda>a. connect a \<noteq> None) (dialable allow_private network resolved) of
       [] \<Rightarrow> tried = dialable allow_private network resolved \<and> \<not> is_ok outcome
     | a # _ \<Rightarrow> tried = takeWhile (\<lambda>a. connect a \<noteq> None) (dialable allow_private network resolved) @ [a] \<and> outcome = Inr a)"
proof (induction resolved arbitrary: last_err tried)
  case Nil
  then show ?case by (auto simp: dialable_def)
next
  case (Cons c cs)
  have skip: "\<not> right_family network (unmap c) \<longleftrightarrow>
      (network = ''tcp4'' \<and> \<not> (case unmap c of IPv4 _ \<Rightarrow> True | IPv6 _ _ \<Rightarrow> False)) \<or>
      (network = ''tcp6'' \<and> (case unmap c of IPv4 _ \<Rightarrow> True | IPv6 _ _ \<Rightarrow> False))"
    by (auto simp: right_family_def split: ip_addr.splits)
  show ?case
  proof (cases "right_family network (unmap c)")
    case False
    then have "dial_candidates allow_private network connect last_err cs = (tried, outcome)"
      using Cons.prems skip by (auto simp: Let_def)
    from Cons.IH [OF this] have ?thesis if "dialable allow_private network (c # cs) = dialable allow_private network cs"
      unfolding that .
    then show ?thesis using False by (simp add: dialable_Cons)
  next
    case family: True
    show ?thesis
    proof (cases "validate_address allow_private (unmap c)")
      case (Inl e)
      then have "\<not> address_allowed allow_private (unmap c)" by (simp flip: validate_allowed)
      moreover have "dial_candidates allow_private network connect (Some e) cs = (tried, outcome)"
        using Cons.prems skip family Inl by (auto simp: Let_def)
      moreover from Cons.IH [OF this] have ?thesis
        if "dialable allow_private network (c # cs) = dialable allow_private network cs"
        unfolding that .
      ultimately show ?thesis by (simp add: dialable_Cons)
    next
      case (Inr ok)
      then have allowed: "address_allowed allow_private (unmap c)" by (simp flip: validate_allowed)
      show ?thesis
      proof (cases "connect (unmap c)")
        case None
        then show ?thesis
          using Cons.prems skip family Inr allowed by (auto simp: Let_def dialable_Cons)
      next
        case (Some e)
        obtain tried' where "dial_candidates allow_private network connect (Some (Dial_failed e)) cs = (tried', outcome)"
          and "tried = unmap c # tried'"
          using Cons.prems skip family Inr Some by (auto simp: Let_def split: prod.splits)
        with Cons.IH [of "Some (Dial_failed e)" tried'] family allowed Some show ?thesis
          by (cases "dropWhile (\<lambda>a. connect a \<noteq> None) (dialable allow_private network cs)")
            (simp_all add: dialable_Cons del: dropWhile_eq_Nil_conv not_None_eq)
      qed
    qed
  qed
qed

text \<open>
  \<^bold>\<open>C33.\<close> Which addresses an upstream may have, in numbers. An address is accepted exactly if it lies outside the
  reserved ranges and is no metadata address, and, unless private upstreams are allowed, outside the private and
  loopback ranges; a version 6 address that maps one of version 4 counts as that one. But for a version 6 address with
  a zone only the link-local, multicast and private ranges are looked at: the unspecified address and
  the metadata address pass when they carry a zone.
\<close>

theorem validate_address_exact:
  "validate_address allow_private address = Inr () \<longleftrightarrow>
    (case unmap address of
       IPv4 a \<Rightarrow> \<not> within (uint a) (if allow_private then refused4 else refused4 @ private4)
     | IPv6 a zone \<Rightarrow>
         if zone = [] then \<not> within (uint a) (if allow_private then refused6 else refused6 @ private6)
         else \<not> within (uint a) (if allow_private then zoned_refused6 else zoned_refused6 @ private6))"
  by (auto simp: validate_allowed address_allowed_def within_def split: ip_addr.split)

text \<open>
  \<^bold>\<open>C34.\<close> A connection is made to an accepted address only, whatever the resolver answers and however often it
  changes its mind: of the addresses the host resolves to, those that are accepted and of the right family are
  tried in order until one connects, and no other. If none connects, or a metadata host is asked
  for, the dial fails.
\<close>

theorem dial_accepted_only:
  assumes "dial_context split_host_port parse_addr lookup connect allow_private network address = (tried, outcome)"
    and "split_host_port address = Some (host, port)"
  shows "let name = trim_suffix (to_lower host) ''.'';
      found = (if is_metadata_hostname name then None
               else case parse_addr name of Some literal \<Rightarrow> Some [literal] | None \<Rightarrow> lookup name);
      accepted = filter (\<lambda>a. right_family network a \<and> validate_address allow_private a = Inr ())
        (map unmap (case found of Some as \<Rightarrow> as | None \<Rightarrow> []))
    in (case dropWhile (\<lambda>a. connect a \<noteq> None) accepted of
          [] \<Rightarrow> tried = accepted \<and> \<not> is_ok outcome
        | a # _ \<Rightarrow> tried = takeWhile (\<lambda>a. connect a \<noteq> None) accepted @ [a] \<and> outcome = Inr a)"
proof -
  let ?name = "trim_suffix (to_lower host) ''.''"
  define found where "found = (if is_metadata_hostname ?name then None
     else case parse_addr ?name of Some literal \<Rightarrow> Some [literal] | None \<Rightarrow> lookup ?name)"
  have accepted: "filter (\<lambda>a. right_family network a \<and> validate_address allow_private a = Inr ()) (map unmap as) =
      dialable allow_private network as" for as
    by (simp add: dialable_def validate_allowed)
  show ?thesis
  proof (cases found)
    case None
    then have "tried = [] \<and> \<not> is_ok outcome"
      using assms by (auto simp: dial_context_def found_def Let_def split: if_splits option.splits)
    then show ?thesis using None by (simp add: Let_def flip: found_def)
  next
    case (Some as)
    then have "dial_candidates allow_private network connect None as = (tried, outcome)"
      using assms by (auto simp: dial_context_def found_def Let_def split: if_splits option.splits)
    from dial_candidates_exact [OF this] show ?thesis
      unfolding Let_def found_def [symmetric] Some option.case accepted .
  qed
qed

text \<open>
  \<^bold>\<open>C35.\<close> What the client sends. Ten requests at most, each to an http or https URL without user information, whose
  host is no metadata host and, if it is an address, an accepted one; and from one request to the
  next the client either stays within the origin or sends neither a body nor a header nor a query
  parameter that could identify it.
\<close>

theorem redirects_guarded:
  assumes "client_do p same_domain first hops = (sent, outcome)" and "canonical_keys (OR_Header first)" and "query_codec p"
  shows "length sent \<le> 10 \<and> (sent = [] \<or> hd sent = first) \<and>
    list_all (\<lambda>r. case OR_URL r of None \<Rightarrow> False
      | Some u \<Rightarrow> to_lower (RU_Scheme u) \<in> {''http'', ''https''} \<and> \<not> RU_HasUser u \<and>
          (let host = trim_suffix (to_lower (RU_Hostname u)) ''.'' in \<not> is_metadata_hostname host \<and>
            (case OP_ParseAddr p host of None \<Rightarrow> True | Some a \<Rightarrow> validate_address (OP_AllowPrivate p) a = Inr ()))) sent \<and>
    successively (\<lambda>a b. same_origin (OP_ParseAddr p) (OP_AddrString p) (OR_URL a) (OR_URL b) \<or>
      credential_free (OP_ParseQuery p) b) sent"
proof -
  note guarded = client_loop_guarded [OF assms(2,3) assms(1) [unfolded client_do_def]]
  have "case OR_URL r of None \<Rightarrow> False
      | Some u \<Rightarrow> to_lower (RU_Scheme u) \<in> {''http'', ''https''} \<and> \<not> RU_HasUser u \<and>
          (let host = trim_suffix (to_lower (RU_Hostname u)) ''.'' in \<not> is_metadata_hostname host \<and>
            (case OP_ParseAddr p host of None \<Rightarrow> True | Some a \<Rightarrow> validate_address (OP_AllowPrivate p) a = Inr ()))"
    if "round_trip_check p r = Inr ()" for r
    using that
    by (auto simp: round_trip_check_def validate_url_def validate_url_syntax_def Let_def
        split: option.splits sum.splits if_splits)
  then show ?thesis
    using guarded by (auto simp: hop_clean_def [abs_def] elim: list.pred_mono_strong)
qed

text \<open>
  \<^bold>\<open>C36.\<close> The second redirect of a foreign origin gets the key. A server that redirects to another origin, which in
  turn redirects within itself, makes the client send a credential header that \<open>net/http\<close> does not
  know (such as \<open>X-Api-Key\<close>) to that other origin: the first of the two requests is stripped, but the second is built
  from the first request's headers again and only compared with the hop before it.
\<close>

theorem second_hop_gets_key:
  assumes "OR_URL first = Some u0" and "(key, vs) \<in> set (OR_Header first)"
    and "\<not> client_sensitive key" and "is_credential_header key" and "key \<noteq> ''Referer''"
    and "canonical_keys (OR_Header first)" and "query_codec p"
    and "list_all (\<lambda>u. validate_url (OP_ParseAddr p) (OP_AllowPrivate p) u = Inr ()) [u0, RH_URL h1, RH_URL h2]"
    and "\<not> same_origin (OP_ParseAddr p) (OP_AddrString p) (Some u0) (Some (RH_URL h1))"
    and "same_origin (OP_ParseAddr p) (OP_AddrString p) (Some (RH_URL h1)) (Some (RH_URL h2))" and "\<not> RH_KeepsBody h1"
  shows "\<exists>r1 r2. client_do p same_domain first [h1, h2] = ([first, r1, r2], Inr ()) \<and>
    (key, vs) \<notin> set (OR_Header r1) \<and> (key, vs) \<in> set (OR_Header r2) \<and> OR_URL r2 = Some (RH_URL h2)"
proof -
  define strip where "strip h s = (s \<or> (RU_Host u0 \<noteq> RU_Host (RH_URL h) \<and> \<not> same_domain (RU_Host u0) (RU_Host (RH_URL h))))"
    for h :: redirect_hop and s
  define next1 where "next1 = next_request (OR_Header first) (OR_HasBody first) (strip h1 False) h1"
  define r1 where "r1 = strip_cross_origin_credentials (OP_ParseQuery p) (OP_EncodeQuery p) next1"
  define r2 where "r2 = next_request (OR_Header first) (OR_HasBody first) (strip h2 (strip h1 False)) h2"
  have next1: "OR_URL next1 = Some (RH_URL h1)" "\<not> OR_HasBody next1"
    using assms(11) by (simp_all add: next1_def next_request_def Let_def)
  have r2: "OR_URL r2 = Some (RH_URL h2)" "(key, vs) \<in> set (OR_Header r2)"
    using assms(2,3,5) by (auto simp: r2_def next_request_def Let_def)
  have "\<exists>q. OR_URL r1 = Some ((RH_URL h1)\<lparr>RU_RawQuery := q\<rparr>)"
    by (cases "RU_RawQuery (RH_URL h1) = []")
      (auto simp: r1_def strip_credentials_sel next1 intro: exI [of _ "RU_RawQuery (RH_URL h1)"])
  then obtain q where r1_url: "OR_URL r1 = Some ((RH_URL h1)\<lparr>RU_RawQuery := q\<rparr>)" ..
  have same: "same_origin pa as (Some (u\<lparr>RU_RawQuery := q\<rparr>)) v = same_origin pa as (Some u) v" for pa as u v
    by (simp add: same_origin_def canonical_hostname_def canonical_port_def split: option.split)
  have valid: "validate_url pa ap (u\<lparr>RU_RawQuery := q\<rparr>) = validate_url pa ap u" for pa ap u
    by (simp add: validate_url_def validate_url_syntax_def)
  have hop1: "check_redirect p [first] next1 = Inr r1"
    using assms(1,8,9) next1 by (simp add: check_redirect_def r1_def)
  have hop2: "check_redirect p [first, r1] r2 = Inr r2"
    using assms(8,10) r1_url r2(1) by (simp add: check_redirect_def same)
  have "round_trip_check p first = Inr ()" "round_trip_check p r1 = Inr ()" "round_trip_check p r2 = Inr ()"
    using assms(1,8) r1_url r2(1) by (simp_all add: round_trip_check_def valid)
  then have "client_do p same_domain first [h1, h2] = ([first, r1, r2], Inr ())"
    using hop1 hop2 assms(1) unfolding next1_def r2_def strip_def by (simp add: client_do_def Let_def)
  moreover have "(key, vs) \<notin> set (OR_Header r1)"
    using strip_headers_free [OF next_request_canonical [OF assms(6)]] assms(4)
    by (auto simp: r1_def strip_credentials_sel next1_def)
  ultimately show ?thesis using r2 by blast
qed

subsection \<open>Examples\<close>

definition demo_url :: "string \<Rightarrow> string \<Rightarrow> request_url" where
  "demo_url host query = \<lparr>RU_Scheme = ''https'', RU_Opaque = [], RU_HasUser = False, RU_Host = host, RU_Hostname = host,
     RU_Port = [], RU_RawQuery = query\<rparr>"

text \<open>Names only, no literal addresses; a query of at most one parameter without a value.\<close>

definition demo_policy :: outbound_policy where
  "demo_policy = \<lparr>OP_AllowPrivate = False, OP_ParseAddr = (\<lambda>_. None), OP_AddrString = (\<lambda>_. []),
     OP_ParseQuery = (\<lambda>q. if q = [] then [] else [(q, [])]), OP_EncodeQuery = concat \<circ> map fst \<circ> take 1\<rparr>"

definition demo_first :: outbound_request where
  "demo_first = \<lparr>OR_URL = Some (demo_url ''api.example'' []), OR_Header = [(''X-Api-Key'', [''secret''])], OR_HasBody = False\<rparr>"

definition demo_hop :: "string \<Rightarrow> redirect_hop" where
  "demo_hop query = \<lparr>RH_URL = demo_url ''other.example'' query, RH_KeepsBody = False, RH_Referer = ''https://api.example/''\<rparr>"

lemma demo_codec: "query_codec demo_policy"
  unfolding query_codec_def
proof
  fix q
  show "set (map fst (OP_ParseQuery demo_policy (OP_EncodeQuery demo_policy q))) \<subseteq> set (map fst q)"
    by (cases q) (auto simp: demo_policy_def)
qed

lemma demo_facts:
  "canonical_keys (OR_Header demo_first)" "\<not> client_sensitive ''X-Api-Key''" "is_credential_header ''X-Api-Key''"
  "list_all (\<lambda>u. validate_url (OP_ParseAddr demo_policy) (OP_AllowPrivate demo_policy) u = Inr ())
    [demo_url ''api.example'' [], RH_URL (demo_hop ''token''), RH_URL (demo_hop [])]"
  "\<not> same_origin (OP_ParseAddr demo_policy) (OP_AddrString demo_policy)
    (Some (demo_url ''api.example'' [])) (Some (RH_URL (demo_hop ''token'')))"
  "same_origin (OP_ParseAddr demo_policy) (OP_AddrString demo_policy)
    (Some (RH_URL (demo_hop ''token''))) (Some (RH_URL (demo_hop [])))"
  by code_simp+

theorem second_hop_gets_key_witness:
  "\<exists>r1 r2. client_do demo_policy (=) demo_first [demo_hop ''token'', demo_hop []] = ([demo_first, r1, r2], Inr ()) \<and>
    (''X-Api-Key'', [''secret'']) \<notin> set (OR_Header r1) \<and> (''X-Api-Key'', [''secret'']) \<in> set (OR_Header r2) \<and>
    OR_URL r2 = Some (demo_url ''other.example'' [])"
  using second_hop_gets_key [of demo_first "demo_url ''api.example'' []" "''X-Api-Key''" "[''secret'']" demo_policy
      "demo_hop ''token''" "demo_hop []" "(=)"] demo_facts demo_codec
  by (simp add: demo_first_def demo_hop_def)

theorem redirects_guarded_witness:
  "successively (\<lambda>a b. same_origin (OP_ParseAddr demo_policy) (OP_AddrString demo_policy) (OR_URL a) (OR_URL b) \<or>
      credential_free (OP_ParseQuery demo_policy) b)
    (fst (client_do demo_policy (=) demo_first [demo_hop ''token'', demo_hop []])) \<and>
   length (fst (client_do demo_policy (=) demo_first [demo_hop ''token'', demo_hop []])) = 3"
proof
  show "length (fst (client_do demo_policy (=) demo_first [demo_hop ''token'', demo_hop []])) = 3" by code_simp
  show "successively (\<lambda>a b. same_origin (OP_ParseAddr demo_policy) (OP_AddrString demo_policy) (OR_URL a) (OR_URL b) \<or>
      credential_free (OP_ParseQuery demo_policy) b)
    (fst (client_do demo_policy (=) demo_first [demo_hop ''token'', demo_hop []]))"
    using redirects_guarded [OF prod.collapse [symmetric] demo_facts(1) demo_codec] by blast
qed

theorem dial_accepted_only_witness:
  "dial_context (\<lambda>_. Some (''api.example'', ''443'')) (\<lambda>_. None)
     (\<lambda>_. Some [IPv4 (ip4 10 0 0 1), IPv6 1 [], IPv4 (ip4 8 8 8 8), IPv4 (ip4 9 9 9 9)])
     (\<lambda>_. None) False ''tcp'' ''api.example:443'' = ([IPv4 (ip4 8 8 8 8)], Inr (IPv4 (ip4 8 8 8 8)))"
proof -
  let ?found = "[IPv4 (ip4 10 0 0 1), IPv6 1 [], IPv4 (ip4 8 8 8 8), IPv4 (ip4 9 9 9 9)]"
  obtain tried outcome where run: "dial_context (\<lambda>_. Some (''api.example'', ''443'')) (\<lambda>_. None) (\<lambda>_. Some ?found)
     (\<lambda>_. None) False ''tcp'' ''api.example:443'' = (tried, outcome)" by (metis surj_pair)
  have name: "\<not> is_metadata_hostname (trim_suffix (to_lower ''api.example'') ''.'')" by code_simp
  have accepted: "filter (\<lambda>a. right_family ''tcp'' a \<and> validate_address False a = Inr ()) (map unmap ?found) =
      [IPv4 (ip4 8 8 8 8), IPv4 (ip4 9 9 9 9)]"
    by (simp add: validate_allowed address_allowed_def right_family_def within_def refused4_def private4_def refused6_def
        zoned_refused6_def private6_def quad_def ip4_def hex6_def)
  have "tried = [IPv4 (ip4 8 8 8 8)] \<and> outcome = Inr (IPv4 (ip4 8 8 8 8))"
    using dial_accepted_only [OF run refl]
    unfolding Let_def if_not_P [OF name] option.case accepted dropWhile.simps takeWhile.simps by simp
  with run show ?thesis by simp
qed

end
